(* ===== verification/HE_Prelude.thy ===== *)
theory HE_Prelude
  imports Main "HOL-Library.Signed_Division" "HOL-Library.Monad_Syntax"
begin

text \<open>
  Shared vocabulary of the HypeEdge development: the lemma collections, Rust's signed 128-bit
  integers (checked, saturating and wrapping arithmetic), truncating division, and generic facts
  on lists and association lists.

  The release profile of \<open>Cargo.toml\<close> does not turn overflow checks on, so a plain \<open>+\<close>, \<open>-\<close> or
  \<open>*\<close> on an \<open>i128\<close> is modelled with \<open>wrap_i128\<close>; the \<open>checked_\<close> and \<open>saturating_\<close> operations of
  the standard library are \<open>checked_i128\<close> and \<open>sat_i128\<close> of the exact result. A function that can
  panic returns an option, with \<open>None\<close> for the panic; a function that returns \<open>Result<T, E>\<close>
  returns \<open>E + T\<close>.
\<close>

named_theorems dec_defs \<open>definitions of the decimal operations, to unfold\<close>
named_theorems guard_simps \<open>unfolding rules of guards and permission checks\<close>
named_theorems inv_intros \<open>preservation lemmas of the component invariants\<close>

section \<open>Results with panics\<close>

text \<open>A fallible function that can also panic returns \<open>(E + T) option\<close>; \<open>res_bind\<close> is the operator \<open>?\<close>.\<close>

definition res_bind :: "('e + 'a) option \<Rightarrow> ('a \<Rightarrow> ('e + 'b) option) \<Rightarrow> ('e + 'b) option" where
  "res_bind r f = (case r of None \<Rightarrow> None | Some (Inl e) \<Rightarrow> Some (Inl e) | Some (Inr x) \<Rightarrow> f x)"

lemma res_bind_simps [simp]: "res_bind None f = None" "res_bind (Some (Inl e)) f = Some (Inl e)"
  "res_bind (Some (Inr x)) f = f x"
  by (simp_all add: res_bind_def)

lemma res_bind_Inr: "res_bind r f = Some (Inr y) \<longleftrightarrow> (\<exists>x. r = Some (Inr x) \<and> f x = Some (Inr y))"
  by (auto simp: res_bind_def split: option.splits sum.splits)

section \<open>Signed 128-bit integers\<close>

definition i128_min :: int where "i128_min = - 170141183460469231731687303715884105728"
definition i128_max :: int where "i128_max = 170141183460469231731687303715884105727"

definition in_i128 :: "int \<Rightarrow> bool" where
  "in_i128 x \<longleftrightarrow> i128_min \<le> x \<and> x \<le> i128_max"

definition checked_i128 :: "int \<Rightarrow> int option" where
  "checked_i128 x = (if in_i128 x then Some x else None)"

definition sat_i128 :: "int \<Rightarrow> int" where
  "sat_i128 x = (if x < i128_min then i128_min else if i128_max < x then i128_max else x)"

definition wrap_i128 :: "int \<Rightarrow> int" where
  "wrap_i128 x = (x + 2 ^ 127) mod 2 ^ 128 - 2 ^ 127"

lemmas i128_bounds = i128_min_def i128_max_def

lemma i128_pow: "i128_min = - (2 ^ 127)" "i128_max = 2 ^ 127 - 1"
  by (simp_all add: i128_bounds)

lemma in_i128_0 [simp]: "in_i128 0" and in_i128_1 [simp]: "in_i128 1"
  by (simp_all add: in_i128_def i128_bounds)

lemma in_i128_bounds [simp]: "in_i128 i128_min" "in_i128 i128_max"
  by (simp_all add: in_i128_def i128_bounds)

lemma in_sat_i128 [simp]: "in_i128 (sat_i128 x)"
  by (simp add: in_i128_def sat_i128_def i128_bounds)

lemma in_wrap_i128 [simp]: "in_i128 (wrap_i128 x)"
proof -
  have "0 \<le> (x + 2 ^ 127) mod 2 ^ 128" "(x + 2 ^ 127) mod 2 ^ 128 < 2 ^ 128"
    by simp_all
  then show ?thesis
    unfolding in_i128_def wrap_i128_def i128_bounds by simp
qed

lemma sat_i128_id [simp]: "in_i128 x \<Longrightarrow> sat_i128 x = x"
  by (simp add: in_i128_def sat_i128_def)

lemma wrap_i128_id [simp]: "in_i128 x \<Longrightarrow> wrap_i128 x = x"
  by (simp add: in_i128_def wrap_i128_def i128_bounds)

lemma wrap_i128_eq_iff: "wrap_i128 x = x \<longleftrightarrow> in_i128 x"
  by (metis in_wrap_i128 wrap_i128_id)

lemma sat_i128_mono: "x \<le> y \<Longrightarrow> sat_i128 x \<le> sat_i128 y"
  by (simp add: sat_i128_def i128_bounds)

lemma sat_i128_idem [simp]: "sat_i128 (sat_i128 x) = sat_i128 x"
  by simp

lemma sat_i128_nonneg [simp]: "0 \<le> sat_i128 x \<longleftrightarrow> 0 \<le> x"
  by (auto simp: sat_i128_def i128_bounds)

lemma sat_i128_pos [simp]: "0 < sat_i128 x \<longleftrightarrow> 0 < x"
  by (auto simp: sat_i128_def i128_bounds)

lemma sat_i128_neg [simp]: "sat_i128 x < 0 \<longleftrightarrow> x < 0"
  by (simp add: not_le [symmetric] del: not_le)

lemma sat_i128_le_0 [simp]: "sat_i128 x \<le> 0 \<longleftrightarrow> x \<le> 0"
  by (simp add: not_less [symmetric] del: not_less)

lemma sat_i128_le: "0 \<le> x \<Longrightarrow> sat_i128 x \<le> x"
  by (simp add: sat_i128_def i128_bounds)

lemma sat_i128_ge: "x \<le> 0 \<Longrightarrow> x \<le> sat_i128 x"
  by (simp add: sat_i128_def i128_bounds)

lemma checked_i128_Some [simp]: "checked_i128 x = Some y \<longleftrightarrow> in_i128 x \<and> y = x"
  by (auto simp: checked_i128_def)

lemma checked_i128_None [simp]: "checked_i128 x = None \<longleftrightarrow> \<not> in_i128 x"
  by (simp add: checked_i128_def)

lemma in_i128_absI: "\<bar>x\<bar> \<le> i128_max \<Longrightarrow> in_i128 x"
  by (simp add: in_i128_def i128_bounds abs_le_iff)

lemma in_i128_between: "in_i128 a \<Longrightarrow> in_i128 b \<Longrightarrow> a \<le> x \<Longrightarrow> x \<le> b \<Longrightarrow> in_i128 x"
  by (simp add: in_i128_def)

section \<open>Narrower integers\<close>

text \<open>The value an \<open>as i32\<close> or \<open>as i64\<close> cast, or plain arithmetic at that width, leaves of an exact
  result.\<close>

definition wrap_signed :: "nat \<Rightarrow> int \<Rightarrow> int" where
  "wrap_signed w x = (x + 2 ^ (w - 1)) mod 2 ^ w - 2 ^ (w - 1)"

definition wrap_i32 :: "int \<Rightarrow> int" where "wrap_i32 = wrap_signed 32"
definition wrap_i64 :: "int \<Rightarrow> int" where "wrap_i64 = wrap_signed 64"

definition in_i64 :: "int \<Rightarrow> bool" where
  "in_i64 x \<longleftrightarrow> - 9223372036854775808 \<le> x \<and> x \<le> 9223372036854775807"

definition sat_i64 :: "int \<Rightarrow> int" where
  "sat_i64 x = max (- 9223372036854775808) (min 9223372036854775807 x)"

lemma wrap_i64_id [simp]: "in_i64 x \<Longrightarrow> wrap_i64 x = x"
  by (simp add: wrap_i64_def wrap_signed_def in_i64_def)

lemma in_sat_i64 [simp]: "in_i64 (sat_i64 x)" and sat_i64_id [simp]: "in_i64 x \<Longrightarrow> sat_i64 x = x"
  by (simp_all add: in_i64_def sat_i64_def)

section \<open>Truncating division\<close>

text \<open>Rust's \<open>/\<close> and \<open>%\<close> on signed integers are \<open>sdiv\<close> and \<open>smod\<close> of the library.\<close>

lemma sdiv_nonneg_pos [simp]: "0 \<le> a \<Longrightarrow> 0 < b \<Longrightarrow> a sdiv b = a div b" for a b :: int
  by (simp add: signed_divide_int_def sgn_if)

lemma smod_nonneg_pos [simp]: "0 \<le> a \<Longrightarrow> 0 < b \<Longrightarrow> a smod b = a mod b" for a b :: int
  by (cases "a = 0") (simp_all add: signed_modulo_int_def)

lemma sdiv_neg_pos: "a < 0 \<Longrightarrow> 0 < b \<Longrightarrow> a sdiv b = - ((- a) div b)" for a b :: int
  by (simp add: signed_divide_int_def sgn_if)

lemma smod_neg_pos: "a < 0 \<Longrightarrow> 0 < b \<Longrightarrow> a smod b = - ((- a) mod b)" for a b :: int
  by (simp add: signed_modulo_int_def sdiv_neg_pos minus_mult_div_eq_mod)

lemma sdiv_minus_left: "(- a) sdiv b = - (a sdiv b)" for a b :: int
  by (simp add: signed_divide_int_def sgn_if)

lemma sdiv_mult_self [simp]:
  fixes a b :: int
  assumes "b \<noteq> 0"
  shows "(a * b) sdiv b = a"
proof -
  have "sgn b * sgn b = 1" using assms by (simp add: sgn_if)
  then have "sgn (a * b) * sgn b = sgn a" by (simp add: sgn_mult mult.assoc)
  moreover have "\<bar>a * b\<bar> div \<bar>b\<bar> = \<bar>a\<bar>" using assms by (simp add: abs_mult)
  ultimately show ?thesis by (simp add: signed_divide_int_def sgn_mult_abs)
qed

lemma smod_mult_self [simp]: "(a * b) smod b = 0" for a b :: int
  by (cases "b = 0") (simp_all add: signed_modulo_int_def)

lemma sdiv_abs_le: "\<bar>a sdiv b\<bar> \<le> \<bar>a\<bar>" for a b :: int
proof -
  have "\<bar>a\<bar> div \<bar>b\<bar> \<le> \<bar>a\<bar>"
    by (metis abs_ge_zero abs_zero div_by_0 linorder_not_less order_less_imp_le
        zdiv_mono2 div_by_1 int_one_le_iff_zero_less zero_less_abs_iff zero_less_one)
  moreover have "0 \<le> \<bar>a\<bar> div \<bar>b\<bar>"
    by (simp add: div_int_pos_iff)
  ultimately show ?thesis
    by (auto simp: signed_divide_int_def sgn_if abs_mult)
qed

section \<open>Lists and association lists\<close>

text \<open>A \<open>HashMap\<close> is an association list with distinct keys; its iteration order is the order of
  the list and nothing proved below depends on it.\<close>

definition keys_distinct :: "('k \<times> 'v) list \<Rightarrow> bool" where
  "keys_distinct m \<longleftrightarrow> distinct (map fst m)"

lemma sum_list_filter_le:
  "\<forall>x \<in> set xs. (0::int) \<le> f x \<Longrightarrow> sum_list (map f (filter P xs)) \<le> sum_list (map f xs)"
  by (induction xs) auto

lemma sum_list_filter_mono:
  assumes "\<forall>x \<in> set xs. (0::int) \<le> f x" and "\<forall>x \<in> set xs. P x \<longrightarrow> Q x"
  shows "sum_list (map f (filter P xs)) \<le> sum_list (map f (filter Q xs))"
  using assms by (induction xs) auto

lemma sum_list_map_nonneg: "\<forall>x \<in> set xs. (0::int) \<le> f x \<Longrightarrow> 0 \<le> sum_list (map f xs)"
  by (induction xs) auto

end
