(* ===== verification/HE_Decimal.thy ===== *)
theory HE_Decimal
  imports HE_Prelude
begin

text \<open>
  \<open>crates/domain/src/decimal.rs\<close>, the arithmetic half: the fixed-point \<open>Decimal\<close> (an \<open>i128\<close>
  scaled by \<open>10^-18\<close>), its constructors, predicates, rounding operations and operators. The
  semantic wrappers \<open>Price\<close>, \<open>Size\<close>, \<open>Usd\<close> and \<open>Pct\<close> are transparent newtypes of \<open>Decimal\<close>
  and are modelled by it. Parsing and printing are in \<open>HE_Decimal_Text\<close>.

  The field \<open>raw\<close> is an \<open>int\<close>; \<open>dec_ok\<close> says that it is in the range of \<open>i128\<close>, and every
  operation is proved to stay in it.
\<close>

section \<open>The type\<close>

datatype decimal = Dec (raw: int)

definition SCALE :: nat where "SCALE = 18"
definition SCALE_I128 :: int where "SCALE_I128 = 1000000000000000000"
definition MAX_SIGNIFICANT_DIGITS :: nat where "MAX_SIGNIFICANT_DIGITS = 38"

definition dec_ok :: "decimal \<Rightarrow> bool" where
  "dec_ok d \<longleftrightarrow> in_i128 (raw d)"

definition ZERO :: decimal where "ZERO = Dec 0"
definition ONE :: decimal where "ONE = Dec SCALE_I128"
definition DEC_MAX :: decimal where "DEC_MAX = Dec i128_max"
definition DEC_MIN :: decimal where "DEC_MIN = Dec i128_min"
definition EPSILON :: decimal where "EPSILON = Dec 1"

text \<open>The raw comparison is the order of the type (\<open>Ord for Decimal\<close>).\<close>

instantiation decimal :: linorder
begin
definition "d \<le> e \<longleftrightarrow> raw d \<le> raw e"
definition "d < e \<longleftrightarrow> raw d < raw e"
instance
  by standard (auto simp: less_eq_decimal_def less_decimal_def intro: decimal.expand)
end

section \<open>Construction\<close>

text \<open>\<open>pow10_i128\<close> multiplies in a loop; beyond 38 the release build wraps.\<close>

fun pow10_i128 :: "nat \<Rightarrow> int" where
  "pow10_i128 0 = 1"
| "pow10_i128 (Suc e) = wrap_i128 (pow10_i128 e * 10)"

definition from_i128 :: "int \<Rightarrow> decimal option" where
  "from_i128 v = map_option Dec (checked_i128 (v * SCALE_I128))"

definition from_i128_unchecked :: "int \<Rightarrow> decimal" where
  "from_i128_unchecked v = Dec (wrap_i128 (v * SCALE_I128))"

definition from_scaled :: "int \<Rightarrow> nat \<Rightarrow> decimal option" where
  "from_scaled r scale =
     (if scale = SCALE then Some (Dec r)
      else if scale < SCALE then Some (Dec (wrap_i128 (r * pow10_i128 (SCALE - scale))))
      else let p = pow10_i128 (scale - SCALE)
           in if p = 0 then None else Some (Dec (wrap_i128 (r sdiv p))))"

datatype decimal_error =
    InvalidFormat | NotFinite | TooManySignificantDigits | TooManyFractionalDigits | OutOfRange

text \<open>\<open>with_exponent\<close>: the result is a panic (\<open>None\<close>), an error or a value.\<close>

definition with_exponent :: "int \<Rightarrow> int \<Rightarrow> (decimal_error + decimal) option" where
  "with_exponent coeff e =
     (if 0 \<le> e then
        (case checked_i128 (coeff * pow10_i128 (nat e)) of
           None \<Rightarrow> Some (Inl OutOfRange) | Some r \<Rightarrow> Some (Inr (Dec r)))
      else let n = nat (- e) in
        if n > SCALE then
          (let p = pow10_i128 n in if p = 0 then None else Some (Inr (Dec (wrap_i128 (coeff sdiv p)))))
        else (case checked_i128 (coeff * pow10_i128 (SCALE - n)) of
           None \<Rightarrow> Some (Inl OutOfRange) | Some r \<Rightarrow> Some (Inr (Dec r))))"

text \<open>The loop of \<open>as_tuple\<close>; its counter is \<open>-exp\<close>, which the guard \<open>exp < 0\<close> keeps positive.\<close>

fun strip_zeros :: "nat \<Rightarrow> int \<Rightarrow> int \<times> int" where
  "strip_zeros 0 r = (r, 0)"
| "strip_zeros (Suc k) r =
     (if r \<noteq> 0 \<and> r smod 10 = 0 then strip_zeros k (r sdiv 10) else (r, - int (Suc k)))"

definition as_tuple :: "decimal \<Rightarrow> int \<times> int" where
  "as_tuple d = strip_zeros 18 (raw d)"

section \<open>Predicates, order and sign\<close>

definition is_zero :: "decimal \<Rightarrow> bool" where "is_zero d \<longleftrightarrow> raw d = 0"
definition is_negative :: "decimal \<Rightarrow> bool" where "is_negative d \<longleftrightarrow> raw d < 0"
definition is_positive :: "decimal \<Rightarrow> bool" where "is_positive d \<longleftrightarrow> raw d > 0"

definition signum :: "decimal \<Rightarrow> int" where
  "signum d = (if raw d = 0 then 0 else if raw d < 0 then -1 else 1)"

definition dec_abs :: "decimal \<Rightarrow> decimal" where
  "dec_abs d = Dec (case checked_i128 \<bar>raw d\<bar> of Some v \<Rightarrow> v | None \<Rightarrow> i128_max)"

definition dec_max :: "decimal \<Rightarrow> decimal \<Rightarrow> decimal" where
  "dec_max d e = (if raw d \<ge> raw e then d else e)"

definition dec_min :: "decimal \<Rightarrow> decimal \<Rightarrow> decimal" where
  "dec_min d e = (if raw d \<le> raw e then d else e)"

definition clamp :: "decimal \<Rightarrow> decimal \<Rightarrow> decimal \<Rightarrow> decimal" where
  "clamp d lo hi = (if raw d < raw lo then lo else if raw d > raw hi then hi else d)"

section \<open>Operators\<close>

definition dec_add :: "decimal \<Rightarrow> decimal \<Rightarrow> decimal" where
  "dec_add d e = Dec (sat_i128 (raw d + raw e))"

definition dec_sub :: "decimal \<Rightarrow> decimal \<Rightarrow> decimal" where
  "dec_sub d e = Dec (sat_i128 (raw d - raw e))"

definition dec_neg :: "decimal \<Rightarrow> decimal" where
  "dec_neg d = Dec (sat_i128 (- raw d))"

text \<open>\<open>signed_to_i128\<close>: the low 128 bits of an \<open>I256\<close> if they hold the value, else the bound.\<close>

definition signed_to_i128 :: "int \<Rightarrow> int" where
  "signed_to_i128 v =
     (let x = wrap_i128 v in if x = v then x else if v < 0 then i128_min else i128_max)"

definition dec_mul :: "decimal \<Rightarrow> decimal \<Rightarrow> decimal" where
  "dec_mul d e =
     (let prod = raw d * raw e;
          half = (if prod < 0 then - (SCALE_I128 sdiv 2) else SCALE_I128 sdiv 2)
      in Dec (signed_to_i128 ((prod + half) sdiv SCALE_I128)))"

text \<open>Division panics on zero.\<close>

definition dec_div :: "decimal \<Rightarrow> decimal \<Rightarrow> decimal option" where
  "dec_div d e =
     (if is_zero e then None
      else let neg = ((raw d < 0) \<noteq> (raw e < 0));
               num = \<bar>raw d\<bar> * SCALE_I128;
               den = \<bar>raw e\<bar>;
               q = (num + den div 2) div den
           in Some (Dec (signed_to_i128 (if neg then - q else q))))"

instantiation decimal :: "{zero, one, plus, minus, uminus, times}"
begin
definition "0 = ZERO"
definition "1 = ONE"
definition "d + e = dec_add d e"
definition "d - e = dec_sub d e"
definition "- d = dec_neg d"
definition "d * e = dec_mul d e"
instance ..
end

section \<open>Rounding\<close>

definition dec_floor :: "decimal \<Rightarrow> decimal" where
  "dec_floor d =
     (let i = raw d sdiv SCALE_I128; frac = raw d smod SCALE_I128;
          base = (if frac < 0 then i - 1 else i)
      in Dec (signed_to_i128 (base * SCALE_I128)))"

definition dec_ceil :: "decimal \<Rightarrow> decimal" where
  "dec_ceil d =
     (let i = raw d sdiv SCALE_I128; frac = raw d smod SCALE_I128;
          base = (if frac > 0 then i + 1 else i)
      in Dec (signed_to_i128 (base * SCALE_I128)))"

definition floor_to_step :: "decimal \<Rightarrow> decimal \<Rightarrow> decimal option" where
  "floor_to_step d step = map_option (\<lambda>q. dec_floor q * step) (dec_div d step)"

definition ceil_to_step :: "decimal \<Rightarrow> decimal \<Rightarrow> decimal option" where
  "ceil_to_step d step = map_option (\<lambda>q. dec_ceil q * step) (dec_div d step)"

definition quantize :: "decimal \<Rightarrow> nat \<Rightarrow> decimal" where
  "quantize d places =
     (if places \<ge> SCALE then d
      else let dv = pow10_i128 (SCALE - places) in Dec (wrap_i128 (raw d sdiv dv * dv)))"

definition round_to_places :: "decimal \<Rightarrow> nat \<Rightarrow> decimal" where
  "round_to_places d places =
     (if places \<ge> SCALE then d
      else let dv = pow10_i128 (SCALE - places);
               half = dv sdiv 2;
               sign = (if raw d < 0 then -1 else 1);
               mag = sat_i128 ((case checked_i128 \<bar>raw d\<bar> of Some v \<Rightarrow> v | None \<Rightarrow> i128_max) + half)
           in Dec (wrap_i128 (mag sdiv dv * dv * sign)))"

function significant_digits :: "int \<Rightarrow> nat" where
  "significant_digits v = (if v \<le> 0 then 0 else Suc (significant_digits (v div 10)))"
  by pat_completeness auto
termination by (relation "measure nat") auto

declare significant_digits.simps [simp del]

definition round_significant_half_even :: "decimal \<Rightarrow> nat \<Rightarrow> decimal" where
  "round_significant_half_even d prec =
     (if raw d = 0 \<or> prec = 0 then d
      else let (c, e) = as_tuple d; coeff = \<bar>c\<bar>; digits = significant_digits coeff in
        if digits \<le> prec then d
        else let drop = digits - prec;
                 dv = pow10_i128 drop;
                 q = coeff div dv;
                 rem = coeff mod dv;
                 halfway = dv div 2;
                 round_up = (if rem > halfway then True else if rem < halfway then False
                             else q mod 2 = 1);
                 rounded = (if round_up then q + 1 else q);
                 e' = e + int drop;
                 sign = (if is_negative d then -1 else 1)
             in if e' \<ge> 0 then Dec (wrap_i128 (rounded * pow10_i128 (nat e') * sign))
                else Dec (wrap_i128 (rounded * sign * pow10_i128 (SCALE - nat (- e')))))"

definition round_python_prec28 :: "decimal \<Rightarrow> decimal" where
  "round_python_prec28 d = round_significant_half_even d 28"

definition raw_for_display :: "decimal \<Rightarrow> int" where
  "raw_for_display d =
     (let (c, e) = as_tuple d in
      if significant_digits \<bar>c\<bar> \<le> 28 then raw d
      else raw (round_significant_half_even d 28))"

lemmas dec_ops [dec_defs] = dec_add_def dec_sub_def dec_neg_def dec_mul_def dec_div_def
  plus_decimal_def minus_decimal_def uminus_decimal_def times_decimal_def
  zero_decimal_def one_decimal_def ZERO_def ONE_def less_eq_decimal_def less_decimal_def


section \<open>Basic facts\<close>

lemma SCALE_I128_pos [simp]: "0 < SCALE_I128" "SCALE_I128 \<noteq> 0" "0 \<le> SCALE_I128"
  by (simp_all add: SCALE_I128_def)

lemma SCALE_I128_pow: "SCALE_I128 = 10 ^ 18"
  by (simp add: SCALE_I128_def)

lemma raw_consts [simp]: "raw ZERO = 0" "raw ONE = SCALE_I128" "raw DEC_MAX = i128_max"
  "raw DEC_MIN = i128_min" "raw EPSILON = 1" "raw 0 = 0" "raw 1 = SCALE_I128"
  by (simp_all add: ZERO_def ONE_def DEC_MAX_def DEC_MIN_def EPSILON_def zero_decimal_def
      one_decimal_def)

lemma dec_ok_consts [simp]: "dec_ok ZERO" "dec_ok ONE" "dec_ok DEC_MAX" "dec_ok DEC_MIN"
  "dec_ok EPSILON" "dec_ok 0" "dec_ok 1"
  by (simp_all add: dec_ok_def in_i128_def i128_bounds SCALE_I128_def)

lemma dec_le_iff: "d \<le> e \<longleftrightarrow> raw d \<le> raw e" and dec_less_iff: "d < e \<longleftrightarrow> raw d < raw e"
  by (simp_all add: less_eq_decimal_def less_decimal_def)

lemma dec_eq_iff: "d = e \<longleftrightarrow> raw d = raw e" for d e :: decimal
  by (auto intro: decimal.expand)

lemmas dec_cmp = dec_le_iff dec_less_iff dec_eq_iff

lemma signed_to_i128_eq [simp]: "signed_to_i128 v = sat_i128 v"
  by (auto simp: signed_to_i128_def Let_def wrap_i128_eq_iff)
    (auto simp: sat_i128_def in_i128_def i128_bounds)

lemma raw_add [simp]: "raw (d + e) = sat_i128 (raw d + raw e)"
  and raw_sub [simp]: "raw (d - e) = sat_i128 (raw d - raw e)"
  and raw_neg [simp]: "raw (- d) = sat_i128 (- raw d)"
  by (simp_all add: dec_ops)

lemma dec_ok_add [simp]: "dec_ok (d + e)" and dec_ok_sub [simp]: "dec_ok (d - e)"
  and dec_ok_neg [simp]: "dec_ok (- d)"
  by (simp_all add: dec_ok_def)

lemma raw_abs: "dec_ok d \<Longrightarrow> raw (dec_abs d) = sat_i128 \<bar>raw d\<bar>"
  by (auto simp: dec_abs_def checked_i128_def sat_i128_def in_i128_def dec_ok_def i128_bounds)

lemma dec_abs_nonneg [simp]: "0 \<le> raw (dec_abs d)"
  by (simp add: dec_abs_def checked_i128_def i128_bounds)

lemma dec_ok_abs [simp]: "dec_ok (dec_abs d)"
  by (simp add: dec_ok_def dec_abs_def checked_i128_def)

lemma dec_abs_nonneg_id [simp]: "dec_ok d \<Longrightarrow> 0 \<le> raw d \<Longrightarrow> dec_abs d = d"
  by (simp add: dec_eq_iff raw_abs dec_ok_def)

lemma dec_max_eq [simp]: "dec_max d e = max d e" and dec_min_eq [simp]: "dec_min d e = min d e"
  by (auto simp: dec_max_def dec_min_def max_def min_def dec_cmp)

text \<open>Within 38 digits \<open>pow10_i128\<close> is the power of ten.\<close>

lemma pow10_le: "n \<le> 38 \<Longrightarrow> (10::int) ^ n \<le> 100000000000000000000000000000000000000"
  using power_increasing [of n 38 "10::int"] by simp

lemma pow10_i128_eq [simp]: "n \<le> 38 \<Longrightarrow> pow10_i128 n = 10 ^ n"
proof (induction n)
  case (Suc n)
  then have "(10::int) ^ n * 10 \<le> i128_max"
    using pow10_le [of "Suc n"] by (simp add: i128_bounds mult.commute)
  then have "in_i128 (10 ^ n * 10)"
    using zero_less_power [of "10::int" n] by (intro in_i128_absI) simp
  with Suc show ?case by (simp add: mult.commute)
qed simp

section \<open>Multiplication: rounding half away from zero\<close>

definition half_up :: "int \<Rightarrow> int \<Rightarrow> int" where
  "half_up p s = sgn p * ((\<bar>p\<bar> + s div 2) div s)"

lemma half_up_0 [simp]: "half_up 0 s = 0"
  by (simp add: half_up_def)

lemma half_up_minus: "half_up (- p) s = - half_up p s"
  by (simp add: half_up_def)

lemma half_up_nonneg: "0 \<le> p \<Longrightarrow> 0 < s \<Longrightarrow> half_up p s = (p + s div 2) div s"
  by (cases "p = 0") (auto simp: half_up_def)

lemma half_up_error_nonneg:
  fixes p s :: int
  assumes "0 \<le> p" and "0 < s"
  shows "2 * p - s < 2 * s * ((p + s div 2) div s)" "2 * s * ((p + s div 2) div s) \<le> 2 * p + s"
proof -
  define q where "q = (p + s div 2) div s"
  have m: "s * q + (p + s div 2) mod s = p + s div 2"
    by (simp add: q_def)
  have r: "0 \<le> (p + s div 2) mod s" "(p + s div 2) mod s < s"
    using assms by simp_all
  have h: "2 * (s div 2) \<le> s" "s \<le> 2 * (s div 2) + 1" by linarith+
  have "2 * (s * q) \<le> 2 * p + s" using m r h by linarith
  then show "2 * s * ((p + s div 2) div s) \<le> 2 * p + s" by (simp add: q_def)
  have "2 * p - s < 2 * (s * q)" using m r h by linarith
  then show "2 * p - s < 2 * s * ((p + s div 2) div s)" by (simp add: q_def)
qed

text \<open>The rounded quotient is at most half a unit from the exact one.\<close>

lemma half_up_error: "0 < s \<Longrightarrow> \<bar>2 * s * half_up p s - 2 * p\<bar> \<le> s"
proof (cases "0 \<le> p")
  case True
  moreover assume "0 < s"
  ultimately show ?thesis
    using half_up_error_nonneg [of p s] by (simp add: half_up_nonneg)
next
  case False
  moreover assume "0 < s"
  ultimately show ?thesis
    using half_up_error_nonneg [of "- p" s] half_up_minus [of "- p" s]
    by (simp add: half_up_nonneg)
qed

lemma half_up_mono_nonneg: "0 < s \<Longrightarrow> 0 \<le> p \<Longrightarrow> p \<le> q \<Longrightarrow> half_up p s \<le> half_up q s"
  by (simp add: half_up_nonneg zdiv_mono1)

lemma half_up_sign: "0 < s \<Longrightarrow> 0 \<le> p \<Longrightarrow> 0 \<le> half_up p s"
  by (simp add: half_up_nonneg pos_imp_zdiv_nonneg_iff)

lemma half_up_mono: "0 < s \<Longrightarrow> p \<le> q \<Longrightarrow> half_up p s \<le> half_up q s"
proof -
  assume s: "0 < s" and le: "p \<le> q"
  consider "0 \<le> p" | "p < 0" "0 \<le> q" | "q < 0" by linarith
  then show ?thesis
  proof cases
    case 1 with s le show ?thesis by (simp add: half_up_mono_nonneg)
  next
    case 2
    with s show ?thesis using half_up_sign [of s "- p"] half_up_sign [of s q]
      by (simp add: half_up_minus)
  next
    case 3
    with s le show ?thesis using half_up_mono_nonneg [of s "- q" "- p"]
      by (simp add: half_up_minus)
  qed
qed

lemma half_up_mult [simp]: "0 < s \<Longrightarrow> half_up (k * s) s = k"
proof -
  assume s: "0 < s"
  have "(\<bar>k\<bar> * s + s div 2) div s = \<bar>k\<bar>"
    using s by (simp add: div_pos_pos_trivial)
  with s show ?thesis by (simp add: half_up_def abs_mult sgn_mult sgn_mult_abs)
qed

lemma half_up_SCALE_code:
  "(p + (if p < 0 then - (SCALE_I128 sdiv 2) else SCALE_I128 sdiv 2)) sdiv SCALE_I128
    = half_up p SCALE_I128"
proof (cases "p < 0")
  case True
  define h where "h = SCALE_I128 div 2"
  have h: "SCALE_I128 sdiv 2 = h" "0 < h" by (simp_all add: h_def SCALE_I128_def)
  have "(p - h) sdiv SCALE_I128 = - ((- p + h) div SCALE_I128)"
    using True h by (subst sdiv_neg_pos) (simp_all add: add.commute)
  with True h show ?thesis by (simp add: half_up_def h_def)
next
  case False
  then show ?thesis by (simp add: half_up_nonneg SCALE_I128_def)
qed

lemma raw_mul [simp]: "raw (d * e) = sat_i128 (half_up (raw d * raw e) SCALE_I128)"
  unfolding times_decimal_def dec_mul_def Let_def half_up_SCALE_code by simp

lemma dec_ok_mul [simp]: "dec_ok (d * e)"
  by (simp add: dec_ok_def)

text \<open>The \<open>I256\<close> intermediate of the multiplication never overflows.\<close>

lemma mul_intermediate_fits:
  assumes "in_i128 a" and "in_i128 b"
  shows "\<bar>a * b\<bar> + SCALE_I128 div 2 < 2 ^ 255"
proof -
  have ab: "\<bar>a\<bar> \<le> 2 ^ 127" "\<bar>b\<bar> \<le> 2 ^ 127"
    using assms by (auto simp: in_i128_def i128_bounds)
  have "\<bar>a * b\<bar> \<le> 2 ^ 127 * 2 ^ 127"
    unfolding abs_mult by (rule mult_mono) (use ab in auto)
  then show ?thesis by (simp add: SCALE_I128_def)
qed

lemma dec_mul_commute: "d * e = e * d" for d e :: decimal
  by (simp add: dec_eq_iff mult.commute)

lemma dec_mul_one [simp]: "dec_ok d \<Longrightarrow> d * ONE = d"
  by (simp add: dec_eq_iff dec_ok_def)

lemma dec_mul_zero [simp]: "d * ZERO = ZERO" "ZERO * d = ZERO"
  by (simp_all add: dec_eq_iff)

lemma dec_mul_nonneg: "0 \<le> raw d \<Longrightarrow> 0 \<le> raw e \<Longrightarrow> 0 \<le> raw (d * e)"
  by (simp add: half_up_sign)

lemma dec_mul_mono: "0 \<le> raw k \<Longrightarrow> d \<le> e \<Longrightarrow> k * d \<le> k * e" for d e k :: decimal
  by (simp add: dec_le_iff mult_left_mono half_up_mono sat_i128_mono)

lemma dec_add_mono: "a \<le> b \<Longrightarrow> c \<le> d \<Longrightarrow> a + c \<le> b + d" for a b c d :: decimal
  by (simp add: dec_le_iff sat_i128_mono)

lemma dec_add_commute: "d + e = e + d" for d e :: decimal
  by (simp add: dec_eq_iff add.commute)

lemma dec_mul_exact: "SCALE_I128 dvd raw d * raw e \<Longrightarrow>
  raw (d * e) = sat_i128 (raw d * raw e div SCALE_I128)"
  by (auto elim!: dvdE simp: mult.commute [of SCALE_I128])

end
