(* ===== verification/HE_Decimal_Laws.thy ===== *)
theory HE_Decimal_Laws
  imports HE_Decimal
begin

text \<open>
  The laws of the decimal operations of \<open>HE_Decimal\<close>: what division, floor, step rounding,
  quantization and the 28-digit rounding return, with their error bounds and the conditions under
  which they are exact.
\<close>

section \<open>Division\<close>

lemma dec_div_zero [simp]: "raw e = 0 \<Longrightarrow> dec_div d e = None"
  by (simp add: dec_div_def is_zero_def)

lemma dec_div_eq:
  assumes "raw e \<noteq> 0"
  shows "dec_div d e =
    Some (Dec (sat_i128 (half_up (raw d * SCALE_I128 * sgn (raw e)) \<bar>raw e\<bar>)))"
proof -
  have "(if (raw d < 0) \<noteq> (raw e < 0) then - q else q) = sgn (raw d) * sgn (raw e) * q"
    if "raw d \<noteq> 0" for q :: int
    using that assms by (auto simp: sgn_if)
  moreover have "\<bar>raw d * SCALE_I128 * sgn (raw e)\<bar> = \<bar>raw d\<bar> * SCALE_I128"
    using assms by (simp add: abs_mult sgn_if)
  moreover have "sgn (raw d * SCALE_I128 * sgn (raw e)) = sgn (raw d) * sgn (raw e)"
    by (simp add: sgn_mult)
  moreover have "(\<bar>raw e\<bar> div 2) div \<bar>raw e\<bar> = 0"
    using assms by (simp add: div_pos_pos_trivial)
  ultimately show ?thesis
    using assms by (cases "raw d = 0") (simp_all add: dec_div_def is_zero_def Let_def half_up_def)
qed

lemma dec_div_Some_iff [simp]: "(\<exists>q. dec_div d e = Some q) \<longleftrightarrow> raw e \<noteq> 0"
  by (cases "raw e = 0") (simp_all add: dec_div_eq)

lemma dec_div_pos:
  "0 < raw e \<Longrightarrow> dec_div d e = Some (Dec (sat_i128 (half_up (raw d * SCALE_I128) (raw e))))"
  by (simp add: dec_div_eq)

lemma dec_div_ok: "dec_div d e = Some q \<Longrightarrow> dec_ok q"
  by (cases "raw e = 0") (auto simp: dec_div_eq dec_ok_def)

lemma dec_div_nonneg: "dec_div d e = Some q \<Longrightarrow> 0 \<le> raw d \<Longrightarrow> 0 < raw e \<Longrightarrow> 0 \<le> raw q"
  by (auto simp: dec_div_pos half_up_sign)

lemma half_up_nonpos: "0 < s \<Longrightarrow> p \<le> 0 \<Longrightarrow> half_up p s \<le> 0"
  using half_up_sign [of s "- p"] by (simp add: half_up_minus)

lemma sat_i128_nonpos: "x \<le> 0 \<Longrightarrow> sat_i128 x \<le> 0"
  by (simp add: sat_i128_def i128_bounds)

lemma dec_div_nonpos: "dec_div d e = Some q \<Longrightarrow> raw d \<le> 0 \<Longrightarrow> 0 < raw e \<Longrightarrow> raw q \<le> 0"
  by (auto simp: dec_div_pos mult_nonpos_nonneg intro!: sat_i128_nonpos half_up_nonpos)

lemma dec_div_mono:
  "dec_div d e = Some q \<Longrightarrow> dec_div d' e = Some q' \<Longrightarrow> 0 < raw e \<Longrightarrow> d \<le> d' \<Longrightarrow> q \<le> q'"
  by (auto simp: dec_div_pos dec_le_iff intro!: sat_i128_mono half_up_mono mult_right_mono)

lemma dec_div_one: "dec_ok d \<Longrightarrow> dec_div d ONE = Some d"
  by (simp add: dec_div_pos dec_ok_def)

section \<open>Floor and ceiling\<close>

lemma floor_core:
  "(if r smod s < 0 then r sdiv s - 1 else r sdiv s) = r div s" if "0 < s" for r s :: int
proof (cases "0 \<le> r")
  case True
  moreover have "\<not> r mod s < 0" using that by (simp add: not_less)
  ultimately show ?thesis using that by simp
next
  case False
  define m where "m = - r"
  have m: "r = - m" "0 < m" using False by (simp_all add: m_def)
  have "0 \<le> m mod s" using that by simp
  then have "r smod s < 0 \<longleftrightarrow> m mod s \<noteq> 0"
    using False that m by (simp add: smod_neg_pos less_le)
  then show ?thesis
    using False that m by (simp add: sdiv_neg_pos zdiv_zminus1_eq_if)
qed

lemma raw_floor: "raw (dec_floor d) = sat_i128 (raw d div SCALE_I128 * SCALE_I128)"
  using floor_core [of SCALE_I128 "raw d"] by (simp add: dec_floor_def Let_def)

lemma ceil_core:
  "(if 0 < r smod s then r sdiv s + 1 else r sdiv s) = - ((- r) div s)" if "0 < s" for r s :: int
proof -
  have "(- r) smod s = - (r smod s)"
    using sdiv_minus_left [of r s] by (simp add: signed_modulo_int_def sgn_minus)
  then show ?thesis
    using floor_core [OF that, of "- r"] sdiv_minus_left [of r s] by (auto split: if_splits)
qed

lemma raw_ceil: "raw (dec_ceil d) = sat_i128 (- ((- raw d) div SCALE_I128) * SCALE_I128)"
  using ceil_core [of SCALE_I128 "raw d"] by (simp add: dec_ceil_def Let_def)

lemma div_mult_le: "0 < s \<Longrightarrow> r div s * s \<le> r" for r s :: int
  by (metis less_le_not_le mult.commute mult_div_mod_eq pos_mod_sign add_increasing2 order_refl
      le_add_same_cancel1)

lemma floor_nonneg:
  assumes "dec_ok d" and "0 \<le> raw d"
  shows "raw (dec_floor d) = raw d div SCALE_I128 * SCALE_I128"
proof -
  have "raw d div SCALE_I128 * SCALE_I128 \<le> raw d" by (simp add: div_mult_le)
  moreover have "0 \<le> raw d div SCALE_I128 * SCALE_I128"
    using assms(2) by (simp add: pos_imp_zdiv_nonneg_iff)
  ultimately have "in_i128 (raw d div SCALE_I128 * SCALE_I128)"
    using assms(1) in_i128_between [OF in_i128_0] unfolding dec_ok_def by blast
  then show ?thesis by (simp add: raw_floor)
qed

lemma floor_nonpos: "raw d \<le> 0 \<Longrightarrow> raw (dec_floor d) \<le> 0"
  using div_mult_le [of SCALE_I128 "raw d"] by (simp add: raw_floor sat_i128_nonpos)

section \<open>Step rounding\<close>

lemma floor_to_step_zero: "raw step = 0 \<Longrightarrow> floor_to_step d step = None"
  by (simp add: floor_to_step_def)

lemma floor_to_step_returns: "raw step \<noteq> 0 \<Longrightarrow> \<exists>r. floor_to_step d step = Some r"
  by (simp add: floor_to_step_def dec_div_eq)

lemma floor_to_step_nonpos:
  assumes "floor_to_step d step = Some r" and "raw d \<le> 0" and "0 < raw step"
  shows "raw r \<le> 0"
proof -
  from assms(1) obtain q where q: "dec_div d step = Some q" "r = dec_floor q * step"
    by (auto simp: floor_to_step_def)
  have "raw (dec_floor q) \<le> 0"
    using dec_div_nonpos [OF q(1) assms(2,3)] by (rule floor_nonpos)
  then have "raw (dec_floor q) * raw step \<le> 0"
    using assms(3) by (simp add: mult_nonpos_nonneg)
  then show ?thesis
    by (simp add: q(2) sat_i128_nonpos half_up_nonpos)
qed

text \<open>A step that divides one (a power of ten below one, a half, a quarter) divides exactly.\<close>

definition unit_step :: "decimal \<Rightarrow> bool" where
  "unit_step s \<longleftrightarrow> 0 < raw s \<and> raw s dvd SCALE_I128"

lemma unit_step_pow10: "n \<le> 18 \<Longrightarrow> unit_step (Dec (10 ^ n))"
  unfolding unit_step_def SCALE_I128_pow by (simp only: decimal.sel le_imp_power_dvd) simp

lemma floor_to_step_unit:
  assumes s: "unit_step s" and v: "dec_ok v" "0 \<le> raw v"
  shows "\<exists>k. 0 \<le> k \<and> k \<le> raw v div raw s \<and> floor_to_step v s = Some (Dec (k * raw s)) \<and>
    (raw v * (SCALE_I128 div raw s) \<le> i128_max \<longrightarrow> k = raw v div raw s)"
proof -
  define m where "m = SCALE_I128 div raw s"
  from s have s0: "0 < raw s" and S: "SCALE_I128 = m * raw s"
    by (auto simp: unit_step_def m_def)
  have m0: "0 < m" using S s0 SCALE_I128_pos(1) by (metis zero_less_mult_pos2)
  define q where "q = sat_i128 (raw v * m)"
  have vm: "0 \<le> raw v * m" using v(2) m0 by simp
  have q: "0 \<le> q" "q \<le> raw v * m" "dec_ok (Dec q)"
    using vm by (simp_all add: q_def sat_i128_le dec_ok_def)
  have "half_up (raw v * SCALE_I128) (raw s) = raw v * m"
    using half_up_mult [OF s0, of "raw v * m"] by (simp add: S mult.assoc)
  then have div: "dec_div v s = Some (Dec q)"
    by (simp add: dec_div_pos [OF s0] q_def)
  define k where "k = q div SCALE_I128"
  have k0: "0 \<le> k" using q(1) by (simp add: k_def pos_imp_zdiv_nonneg_iff)
  have "k \<le> raw v * m div SCALE_I128" unfolding k_def by (rule zdiv_mono1) (simp_all add: q)
  also have "\<dots> = raw v div raw s" using m0 by (simp add: S mult.commute [of m])
  finally have kle: "k \<le> raw v div raw s" .
  then have "k * raw s \<le> raw v div raw s * raw s" using s0 by (intro mult_right_mono) simp_all
  also have "\<dots> \<le> raw v" using s0 by (rule div_mult_le)
  finally have ks: "in_i128 (k * raw s)"
    using v k0 s0 in_i128_between [of 0 "raw v" "k * raw s"] by (simp add: dec_ok_def)
  have "raw (dec_floor (Dec q)) = k * SCALE_I128"
    using floor_nonneg [OF q(3)] q(1) by (simp add: k_def)
  then have "half_up (raw (dec_floor (Dec q)) * raw s) SCALE_I128 = k * raw s"
    using half_up_mult [of SCALE_I128 "k * raw s"] by (simp add: ac_simps)
  with ks have "dec_floor (Dec q) * s = Dec (k * raw s)"
    by (simp add: dec_eq_iff)
  then have res: "floor_to_step v s = Some (Dec (k * raw s))"
    by (simp add: floor_to_step_def div)
  have "k = raw v div raw s" if "raw v * m \<le> i128_max"
  proof -
    have "in_i128 (raw v * m)" using that vm by (intro in_i128_absI) simp
    then show ?thesis using m0 by (simp add: k_def q_def S mult.commute [of m])
  qed
  then show ?thesis using k0 kle res by (auto simp: m_def)
qed

lemma floor_to_step_unit_le:
  assumes "unit_step s" and "dec_ok v" and "0 \<le> raw v" and "floor_to_step v s = Some r"
  shows "0 \<le> raw r" "r \<le> v" "raw s dvd raw r"
proof -
  from floor_to_step_unit [OF assms(1-3)] assms(4) obtain k
    where k: "0 \<le> k" "k \<le> raw v div raw s" "r = Dec (k * raw s)" by auto
  have s0: "0 < raw s" using assms(1) by (simp add: unit_step_def)
  show "0 \<le> raw r" using k s0 by simp
  show "raw s dvd raw r" using k by simp
  have "k * raw s \<le> raw v div raw s * raw s" using k s0 by (intro mult_right_mono) simp_all
  also have "\<dots> \<le> raw v" using s0 by (rule div_mult_le)
  finally show "r \<le> v" using k by (simp add: dec_le_iff)
qed


section \<open>Quantization\<close>

lemma pow10_div [simp]: "n \<le> 38 \<Longrightarrow> 0 < (10::int) ^ n" by simp

lemma sdiv_mult_abs: "0 < s \<Longrightarrow> \<bar>r sdiv s * s\<bar> = \<bar>r\<bar> div s * s" for r s :: int
  by (simp add: signed_divide_int_def abs_mult sgn_if pos_imp_zdiv_nonneg_iff)

lemma sdiv_mult_abs_le: "0 < s \<Longrightarrow> \<bar>r sdiv s * s\<bar> \<le> \<bar>r\<bar>" for r s :: int
  unfolding sdiv_mult_abs by (rule div_mult_le)

lemma in_i128_sdiv_mult:
  assumes "in_i128 r" and "0 < s" and "1 < s \<or> r \<noteq> i128_min"
  shows "in_i128 (r sdiv s * s)"
proof (cases "0 \<le> r")
  case True
  then have "r sdiv s * s \<le> r" "0 \<le> r sdiv s * s"
    using assms(2) by (simp_all add: div_mult_le pos_imp_zdiv_nonneg_iff)
  then show ?thesis using assms(1) by (simp add: in_i128_between [OF in_i128_0])
next
  case False
  then have "r \<le> r sdiv s * s" "r sdiv s * s \<le> 0"
    using assms(2) div_mult_le [of s "- r"] by (simp_all add: sdiv_neg_pos pos_imp_zdiv_nonneg_iff)
  then show ?thesis using assms(1) in_i128_between [OF _ in_i128_0] by blast
qed

lemma raw_quantize:
  assumes "dec_ok d" and "places \<le> 18"
  shows "raw (quantize d places) = raw d sdiv 10 ^ (18 - places) * 10 ^ (18 - places)"
proof (cases "places = 18")
  case True
  then show ?thesis using sdiv_mult_self [of 1 "raw d"] by (simp add: quantize_def SCALE_def)
next
  case False
  then have "(1::int) < 10 ^ (18 - places)" using assms(2) by simp
  then have "in_i128 (raw d sdiv 10 ^ (18 - places) * 10 ^ (18 - places))"
    using assms(1) by (simp add: dec_ok_def in_i128_sdiv_mult)
  with assms False show ?thesis by (simp add: quantize_def SCALE_def Let_def)
qed

lemma quantize_ok: "dec_ok d \<Longrightarrow> dec_ok (quantize d places)"
  by (simp add: quantize_def dec_ok_def Let_def)

lemma mod_remainder: "0 < s \<Longrightarrow> r - r div s * s = r mod s" for r s :: int
  by (simp add: minus_div_mult_eq_mod)

text \<open>Truncation towards zero: a multiple of the unit, no larger in magnitude and less than one
  unit away, with the sign kept.\<close>

lemma quantize_laws:
  assumes "dec_ok d" and "places \<le> 18"
  shows "10 ^ (18 - places) dvd raw (quantize d places)"
    and "\<bar>raw (quantize d places)\<bar> \<le> \<bar>raw d\<bar>"
    and "\<bar>raw d\<bar> - \<bar>raw (quantize d places)\<bar> < 10 ^ (18 - places)"
    and "0 \<le> raw d \<Longrightarrow> 0 \<le> raw (quantize d places)"
    and "raw d \<le> 0 \<Longrightarrow> raw (quantize d places) \<le> 0"
proof -
  define u where "u = (10::int) ^ (18 - places)"
  have u: "0 < u" by (simp add: u_def)
  have q: "raw (quantize d places) = raw d sdiv u * u"
    using raw_quantize [OF assms] by (simp add: u_def)
  show "10 ^ (18 - places) dvd raw (quantize d places)" by (simp add: q flip: u_def)
  show "\<bar>raw (quantize d places)\<bar> \<le> \<bar>raw d\<bar>" unfolding q using u by (rule sdiv_mult_abs_le)
  have "\<bar>raw d\<bar> - \<bar>raw d\<bar> div u * u < u" unfolding mod_remainder [OF u] using u by simp
  then show "\<bar>raw d\<bar> - \<bar>raw (quantize d places)\<bar> < 10 ^ (18 - places)"
    by (simp only: q sdiv_mult_abs [OF u] flip: u_def)
  show "0 \<le> raw (quantize d places)" if "0 \<le> raw d"
    using that u by (simp add: q pos_imp_zdiv_nonneg_iff)
  show "raw (quantize d places) \<le> 0" if "raw d \<le> 0"
  proof (cases "raw d = 0")
    case True then show ?thesis using u by (simp add: q)
  next
    case False
    with that have "raw d < 0" by simp
    with u show ?thesis by (simp add: q sdiv_neg_pos pos_imp_zdiv_nonneg_iff)
  qed
qed

lemma quantize_idem: "dec_ok d \<Longrightarrow> quantize (quantize d places) places = quantize d places"
proof (cases "places \<le> 18")
  case True
  assume d: "dec_ok d"
  from quantize_laws(1) [OF d True] obtain k
    where "raw (quantize d places) = k * 10 ^ (18 - places)" by (metis dvdE mult.commute)
  then show ?thesis
    using raw_quantize [OF quantize_ok [OF d] True, of places] by (simp add: dec_eq_iff)
qed (simp add: quantize_def SCALE_def)

lemma raw_round_to_places:
  assumes "dec_ok d" and "places < 18" and "\<bar>raw d\<bar> + 10 ^ (18 - places) div 2 \<le> i128_max"
  shows "raw (round_to_places d places) =
    half_up (raw d) (10 ^ (18 - places)) * 10 ^ (18 - places)"
proof -
  define u where "u = (10::int) ^ (18 - places)"
  have u: "0 < u" "0 \<le> u div 2" by (simp_all add: u_def)
  have le: "\<bar>raw d\<bar> + u div 2 \<le> i128_max" using assms(3) by (simp add: u_def)
  then have "\<bar>raw d\<bar> \<le> i128_max" using u by linarith
  then have m: "in_i128 (\<bar>raw d\<bar> + u div 2)" "in_i128 \<bar>raw d\<bar>"
    using le u by (simp_all add: in_i128_absI)
  define v where "v = (\<bar>raw d\<bar> + u div 2) div u * u"
  have v: "0 \<le> v" "v \<le> \<bar>raw d\<bar> + u div 2"
    using u by (simp_all add: v_def pos_imp_zdiv_nonneg_iff div_mult_le)
  then have vin: "in_i128 (v * (if raw d < 0 then -1 else 1))"
    using le by (intro in_i128_absI) simp
  have s2: "u sdiv 2 = u div 2" using u by simp
  have h0: "u div 2 div u = 0" using u by (simp add: div_pos_pos_trivial)
  have "round_to_places d places = Dec (wrap_i128 (v * (if raw d < 0 then -1 else 1)))"
    using assms(1,2) m u by (simp add: round_to_places_def SCALE_def Let_def checked_i128_def v_def s2
        flip: u_def)
  then show ?thesis
    using vin h0 by (auto simp: half_up_def v_def sgn_if simp flip: u_def)
qed


section \<open>The coefficient-exponent form and significant digits\<close>

lemma smod_zero_sdiv: "r smod 10 = 0 \<Longrightarrow> r = r sdiv 10 * 10" for r :: int
  using sdiv_mult_smod_eq [of r 10] by simp

lemma strip_zeros_value:
  "strip_zeros k r = (c, e) \<Longrightarrow> r = c * 10 ^ (k - nat (- e)) \<and> - int k \<le> e \<and> e \<le> 0"
proof (induction k arbitrary: r)
  case (Suc k)
  show ?case
  proof (cases "r \<noteq> 0 \<and> r smod 10 = 0")
    case True
    with Suc have IH: "r sdiv 10 = c * 10 ^ (k - nat (- e))" "- int k \<le> e" "e \<le> 0"
      by simp_all
    then have "Suc k - nat (- e) = Suc (k - nat (- e))" by (simp add: Suc_diff_le nat_le_iff)
    moreover have "r = r sdiv 10 * 10" using True smod_zero_sdiv by blast
    ultimately show ?thesis using IH by (simp only: power_Suc2) (simp add: mult.assoc)
  next
    case False
    with Suc.prems show ?thesis by auto
  qed
qed simp

lemma as_tuple_laws:
  assumes "as_tuple d = (c, e)"
  shows "raw d = c * 10 ^ (18 - nat (- e))" "- 18 \<le> e" "e \<le> 0"
    "\<bar>c\<bar> \<le> \<bar>raw d\<bar>" "raw d \<noteq> 0 \<Longrightarrow> c \<noteq> 0"
proof -
  show v: "raw d = c * 10 ^ (18 - nat (- e))" and "- 18 \<le> e" "e \<le> 0"
    using strip_zeros_value [of 18 "raw d" c e] assms by (simp_all add: as_tuple_def)
  have "\<bar>c\<bar> * 1 \<le> \<bar>c\<bar> * 10 ^ (18 - nat (- e))" by (rule mult_left_mono) simp_all
  then show "\<bar>c\<bar> \<le> \<bar>raw d\<bar>" by (simp add: v abs_mult)
  show "raw d \<noteq> 0 \<Longrightarrow> c \<noteq> 0" using v by auto
qed

lemma significant_digits_0 [simp]: "v \<le> 0 \<Longrightarrow> significant_digits v = 0"
  by (simp add: significant_digits.simps)

lemma significant_digits_pos: "0 < v \<Longrightarrow> significant_digits v = Suc (significant_digits (v div 10))"
  by (simp add: significant_digits.simps [of v])

lemma significant_digits_bounds:
  "0 < v \<Longrightarrow> 10 ^ (significant_digits v - 1) \<le> v \<and> v < 10 ^ significant_digits v"
proof (induction v rule: significant_digits.induct)
  case (1 v)
  show ?case
  proof (cases "v < 10")
    case True
    then have "v div 10 = 0" using 1(2) by simp
    with 1(2) have "significant_digits v = Suc 0" by (simp add: significant_digits_pos)
    with True 1(2) show ?thesis by simp
  next
    case False
    then have v: "0 < v div 10" by simp
    with 1 have IH: "10 ^ (significant_digits (v div 10) - 1) \<le> v div 10"
      "v div 10 < 10 ^ significant_digits (v div 10)" by simp_all
    obtain n where n: "significant_digits (v div 10) = Suc n"
      using v by (simp add: significant_digits_pos)
    have "significant_digits v = Suc (Suc n)" using 1(2) n by (simp add: significant_digits_pos)
    moreover from IH n have "10 ^ n \<le> v div 10" "v div 10 < 10 * 10 ^ n" by simp_all
    then have "10 * 10 ^ n \<le> v" "v < 10 * (10 * 10 ^ n)" by linarith+
    ultimately show ?thesis by simp
  qed
qed

lemma significant_digits_le_iff: "0 \<le> v \<Longrightarrow> significant_digits v \<le> n \<longleftrightarrow> v < 10 ^ n"
proof (cases "v = 0")
  case False
  assume "0 \<le> v"
  with False have b: "10 ^ (significant_digits v - 1) \<le> v" "v < 10 ^ significant_digits v"
    using significant_digits_bounds [of v] by simp_all
  show ?thesis
  proof
    assume "significant_digits v \<le> n"
    then have "(10::int) ^ significant_digits v \<le> 10 ^ n" by (intro power_increasing) simp_all
    with b(2) show "v < 10 ^ n" by (rule less_le_trans)
  next
    assume "v < 10 ^ n"
    with b(1) have "(10::int) ^ (significant_digits v - 1) < 10 ^ n" by (rule le_less_trans)
    then have "significant_digits v - 1 < n" by (rule power_less_imp_less_exp [rotated]) simp
    then show "significant_digits v \<le> n" by simp
  qed
qed simp

section \<open>The 28-digit rounding\<close>

text \<open>Half-even rounding of a magnitude to a multiple of a unit.\<close>

definition half_even :: "int \<Rightarrow> int \<Rightarrow> int" where
  "half_even c u = (let q = c div u; r = c mod u in
     if r > u div 2 then q + 1 else if r < u div 2 then q else if q mod 2 = 1 then q + 1 else q)"

lemma half_even_error:
  assumes "0 \<le> c" and "0 < u" and "even u"
  shows "\<bar>2 * u * half_even c u - 2 * c\<bar> \<le> u" "half_even c u \<le> c div u + 1" "c div u \<le> half_even c u"
proof -
  define q r where "q = c div u" and "r = c mod u"
  have c: "c = u * q + r" "0 \<le> r" "r < u" using assms by (simp_all add: q_def r_def)
  obtain h where h: "u = 2 * h" using assms(3) by (elim evenE)
  have "u div 2 = h" by (simp add: h)
  then have "half_even c u = q \<and> r \<le> h \<or> half_even c u = q + 1 \<and> h \<le> r"
    unfolding half_even_def Let_def q_def [symmetric] r_def [symmetric] by (simp split: if_splits)
  then show "\<bar>2 * u * half_even c u - 2 * c\<bar> \<le> u"
    using c h by (elim disjE conjE) (simp_all add: algebra_simps)
  show "half_even c u \<le> c div u + 1" "c div u \<le> half_even c u"
    by (auto simp: half_even_def Let_def)
qed


lemma half_even_code:
  "(if (if r > u div 2 then True else if r < u div 2 then False else q mod 2 = 1) then q + 1 else q)
    = half_even c u" if "q = c div u" "r = c mod u"
  using that by (simp add: half_even_def Let_def)

lemma rshe_unfold:
  assumes nz: "raw d \<noteq> 0" "prec \<noteq> 0" and ce: "as_tuple d = (c, e)"
    and dg: "\<not> significant_digits \<bar>c\<bar> \<le> prec"
    and n: "significant_digits \<bar>c\<bar> - prec = n" "pow10_i128 n = 10 ^ n" "\<not> e + int n \<ge> 0"
  shows "round_significant_half_even d prec =
    Dec (wrap_i128 (half_even \<bar>c\<bar> (10 ^ n) * sgn (raw d) * pow10_i128 (SCALE - nat (- (e + int n)))))"
proof -
  have sg: "(if is_negative d then -1 else 1) = sgn (raw d)"
    using nz by (simp add: is_negative_def sgn_if)
  show ?thesis
    unfolding round_significant_half_even_def
    by (simp only: nz simp_thms if_False ce prod.case Let_def dg n sg half_even_code [OF refl refl])
qed

text \<open>\<open>round_python_prec28\<close> keeps at most 28 significant digits, to the nearest multiple of a power
  of ten, without ever overflowing.\<close>

lemma digits_39: "significant_digits \<bar>c\<bar> \<le> n \<longleftrightarrow> \<bar>c\<bar> < 10 ^ n" for c :: int
  by (simp add: significant_digits_le_iff)

text \<open>Next to the bounds of \<open>i128\<close> the rounding goes down: the rounded magnitude is in range.\<close>

lemma rounded_magnitude_fits:
  fixes q :: int
  assumes "k \<le> 11" and "2 * (10 ^ k * q) \<le> 2 * 170141183460469231731687303715884105728 + 10 ^ k"
    and "q \<le> 10 ^ 28"
  shows "10 ^ k * q \<le> i128_max"
proof (cases "k = 11")
  case True
  with assms(2) have "q \<le> 1701411834604692317316873037" by simp
  with True show ?thesis by (simp add: i128_bounds)
next
  case False
  with assms(1) have "(10::int) ^ k * 10 ^ 28 \<le> 10 ^ 38"
    by (simp only: power_add [symmetric]) (rule power_increasing; simp)
  moreover have "10 ^ k * q \<le> 10 ^ k * 10 ^ 28"
    using assms(3) by (rule mult_left_mono) simp
  ultimately have "10 ^ k * q \<le> 10 ^ 38" by (rule order_trans [rotated])
  then show ?thesis by (simp add: i128_bounds)
qed

lemma round28_cases:
  assumes "dec_ok d" and "as_tuple d = (c, e)" and "28 < significant_digits \<bar>c\<bar>"
    and "n = significant_digits \<bar>c\<bar> - 28" and "m = 18 - nat (- e)"
  shows "m + n \<le> 11" "0 < n" "e + int n < 0" "18 - nat (- (e + int n)) = m + n" "n \<le> 38"
proof -
  note t = as_tuple_laws [OF assms(2)]
  have c0: "0 < \<bar>c\<bar>" using assms(3) by (cases "c = 0") simp_all
  have v: "\<bar>raw d\<bar> = \<bar>c\<bar> * 10 ^ m" using t(1) by (simp add: abs_mult assms(5))
  define g where "g = significant_digits \<bar>c\<bar>"
  have "10 ^ (g - 1) \<le> \<bar>c\<bar>"
    using significant_digits_bounds [OF c0] by (simp add: g_def)
  then have "10 ^ (g - 1) * 10 ^ m \<le> \<bar>raw d\<bar>"
    unfolding v by (rule mult_right_mono) simp
  also have "\<dots> < 10 ^ 39" using assms(1) by (auto simp: dec_ok_def in_i128_def i128_bounds)
  finally have "(10::int) ^ (g - 1 + m) < 10 ^ 39" by (simp add: power_add)
  then have "g - 1 + m < 39" by (rule power_less_imp_less_exp [rotated]) simp
  moreover have "28 < g" using assms(3) by (simp add: g_def)
  ultimately have g: "g + m \<le> 39" "28 < g" by simp_all
  have n: "n = g - 28" using assms(4) by (simp add: g_def)
  show "m + n \<le> 11" "0 < n" "n \<le> 38" using g n by simp_all
  show "e + int n < 0" "18 - nat (- (e + int n)) = m + n" using g n t(2,3) assms(5) by linarith+
qed

lemma round28_laws:
  assumes "dec_ok d"
  shows "\<exists>k. 10 ^ k dvd raw (round_python_prec28 d) \<and> \<bar>raw (round_python_prec28 d)\<bar> \<le> 10 ^ (28 + k)
    \<and> 2 * \<bar>raw (round_python_prec28 d) - raw d\<bar> \<le> 10 ^ k"
proof -
  obtain c e where ce: "as_tuple d = (c, e)" by (cases "as_tuple d")
  define m where "m = 18 - nat (- e)"
  note t = as_tuple_laws [OF ce]
  have v: "raw d = c * 10 ^ m" using t(1) by (simp add: m_def)
  show ?thesis
  proof (cases "raw d = 0 \<or> significant_digits \<bar>c\<bar> \<le> 28")
    case True
    then have id: "round_python_prec28 d = d"
      by (auto simp: round_python_prec28_def round_significant_half_even_def ce)
    have "\<bar>c\<bar> \<le> 10 ^ 28"
      using True v digits_39 [of c 28] by auto
    then have "\<bar>c\<bar> * 10 ^ m \<le> 10 ^ 28 * 10 ^ m" by (rule mult_right_mono) simp
    then show ?thesis
      using v by (intro exI [of _ m]) (simp add: id abs_mult power_add)
  next
    case False
    define n where "n = significant_digits \<bar>c\<bar> - 28"
    have big: "28 < significant_digits \<bar>c\<bar>" using False by simp
    note b = round28_cases [OF assms ce big n_def m_def]
    define q where "q = half_even \<bar>c\<bar> (10 ^ n)"
    define k where "k = m + n"
    have "\<bar>c\<bar> < 10 ^ (28 + n)" using digits_39 [of c "28 + n"] big by (simp add: n_def)
    then have "\<not> 10 ^ 28 * 10 ^ n \<le> \<bar>c\<bar>" by (simp add: power_add)
    then have "\<bar>c\<bar> div 10 ^ n < 10 ^ 28"
      using div_mult_le [of "10 ^ n" "\<bar>c\<bar>"] mult_right_mono [of "10 ^ 28" "\<bar>c\<bar> div 10 ^ n" "10 ^ n"]
      by (meson linorder_not_le order_trans zero_le_power zero_le_numeral zero_less_power zero_less_numeral)
    moreover have "even ((10::int) ^ n)" using b(2) by simp
    note he = half_even_error [OF abs_ge_zero [of c] _ this]
    ultimately have q: "q \<le> 10 ^ 28" "0 \<le> q"
      using he(2,3) by (auto simp: q_def pos_imp_zdiv_nonneg_iff intro: order_trans [rotated])
    have err: "\<bar>2 * 10 ^ n * q - 2 * \<bar>c\<bar>\<bar> \<le> 10 ^ n" using he(1) by (simp add: q_def)
    then have "\<bar>2 * 10 ^ n * q - 2 * \<bar>c\<bar>\<bar> * 10 ^ m \<le> 10 ^ n * 10 ^ m"
      by (rule mult_right_mono) simp
    moreover have "2 * (10 ^ k * q) - 2 * \<bar>raw d\<bar> = (2 * 10 ^ n * q - 2 * \<bar>c\<bar>) * 10 ^ m"
      by (simp add: k_def power_add v abs_mult algebra_simps)
    ultimately have err2: "\<bar>2 * (10 ^ k * q) - 2 * \<bar>raw d\<bar>\<bar> \<le> 10 ^ k"
      by (simp add: k_def power_add abs_mult mult.commute)
    have "\<bar>raw d\<bar> \<le> 170141183460469231731687303715884105728"
      using assms by (auto simp: dec_ok_def in_i128_def i128_bounds)
    then have fit: "10 ^ k * q \<le> i128_max"
      using err2 b q by (intro rounded_magnitude_fits) (simp_all add: k_def)
    have res: "round_python_prec28 d = Dec (q * sgn (raw d) * 10 ^ k)"
    proof -
      have "in_i128 (q * sgn (raw d) * 10 ^ k)"
        using fit q(2) False by (intro in_i128_absI) (auto simp: abs_mult sgn_if mult.commute)
      moreover have "round_python_prec28 d = Dec (wrap_i128 (q * sgn (raw d) * pow10_i128 k))"
        unfolding round_python_prec28_def q_def k_def b(4) [symmetric]
        using False b ce n_def rshe_unfold [of d 28 c e n] by (simp add: SCALE_def)
      ultimately show ?thesis using b(1) by (simp add: k_def)
    qed
    have "raw (round_python_prec28 d) - raw d = sgn (raw d) * (10 ^ k * q - \<bar>raw d\<bar>)"
      by (simp add: res algebra_simps abs_mult_sgn)
    then have "\<bar>raw (round_python_prec28 d) - raw d\<bar> = \<bar>10 ^ k * q - \<bar>raw d\<bar>\<bar>"
      using False by (simp only: abs_mult) (simp add: abs_sgn_eq)
    then have "2 * \<bar>raw (round_python_prec28 d) - raw d\<bar> \<le> 10 ^ k"
      using err2 by (simp only: right_diff_distrib [symmetric] abs_mult)
    moreover have "\<bar>raw (round_python_prec28 d)\<bar> \<le> 10 ^ (28 + k)"
      using q False by (simp add: res abs_mult sgn_if power_add)
    ultimately show ?thesis by (intro exI [of _ k]) (simp add: res)
  qed
qed

end
