(* ===== verification/HE_Decimal_Text.thy ===== *)
theory HE_Decimal_Text
  imports HE_Decimal_Laws
begin

text \<open>
  \<open>crates/domain/src/decimal.rs\<close>, the text half: the strict parser (the API gate), the lenient
  parser (internal coercion), and the exact and the normalized renderings. Strings are lists of
  ASCII characters; \<open>str::trim\<close> strips ASCII white space.
\<close>

section \<open>What the code uses of the standard library's strings\<close>

definition is_ascii_digit :: "char \<Rightarrow> bool" where
  "is_ascii_digit c \<longleftrightarrow> 48 \<le> (of_char c :: nat) \<and> (of_char c :: nat) \<le> 57"

definition digit_val :: "char \<Rightarrow> nat" where "digit_val c = of_char c - 48"
definition digit_char :: "nat \<Rightarrow> char" where "digit_char n = char_of (48 + n)"

definition is_ws :: "char \<Rightarrow> bool" where
  "is_ws c \<longleftrightarrow> c = CHR '' '' \<or> (9 \<le> (of_char c :: nat) \<and> (of_char c :: nat) \<le> 13)"

definition trim_start_matches :: "(char \<Rightarrow> bool) \<Rightarrow> string \<Rightarrow> string" where
  "trim_start_matches p s = dropWhile p s"

definition trim_end_matches :: "(char \<Rightarrow> bool) \<Rightarrow> string \<Rightarrow> string" where
  "trim_end_matches p s = rev (dropWhile p (rev s))"

definition str_trim :: "string \<Rightarrow> string" where
  "str_trim s = trim_end_matches is_ws (trim_start_matches is_ws s)"

fun strip_prefix_char :: "char \<Rightarrow> string \<Rightarrow> string option" where
  "strip_prefix_char c [] = None"
| "strip_prefix_char c (x # xs) = (if x = c then Some xs else None)"

text \<open>\<open>format!("{}", n)\<close> of an unsigned integer, and its reading back.\<close>

function show_nat :: "int \<Rightarrow> string" where
  "show_nat n = (if n < 10 then [digit_char (nat n)]
     else show_nat (n div 10) @ [digit_char (nat (n mod 10))])"
  by pat_completeness auto
termination by (relation "measure nat") auto

declare show_nat.simps [simp del]

definition int_of_digits :: "string \<Rightarrow> int" where
  "int_of_digits s = foldl (\<lambda>a c. a * 10 + int (digit_val c)) 0 s"

text \<open>\<open>str::parse\<close> of a signed integer type: an optional sign, then digits only, in range.\<close>

definition parse_int :: "(int \<Rightarrow> bool) \<Rightarrow> string \<Rightarrow> int option" where
  "parse_int in_range s =
     (let (neg, ds) = (case s of c # cs \<Rightarrow> if c = CHR ''-'' then (True, cs)
                         else if c = CHR ''+'' then (False, cs) else (False, s) | [] \<Rightarrow> (False, []))
      in if ds = [] \<or> \<not> list_all is_ascii_digit ds then None
         else let v = (if neg then - int_of_digits ds else int_of_digits ds)
              in if in_range v then Some v else None)"

definition in_i32 :: "int \<Rightarrow> bool" where
  "in_i32 x \<longleftrightarrow> - 2147483648 \<le> x \<and> x \<le> 2147483647"

definition parse_i128 :: "string \<Rightarrow> int option" where "parse_i128 = parse_int in_i128"
definition parse_i32 :: "string \<Rightarrow> int option" where "parse_i32 = parse_int in_i32"

section \<open>The strict parser\<close>

text \<open>The loop of \<open>regex_body_match\<close> after its first digit; \<open>acc\<close> is \<open>body[..int_end]\<close>.\<close>

fun regex_loop :: "string \<Rightarrow> string \<Rightarrow> (string \<times> string option) option" where
  "regex_loop acc [] = Some (acc, None)"
| "regex_loop acc (c # cs) =
     (if is_ascii_digit c then regex_loop (acc @ [c]) cs
      else if c = CHR ''.'' then
        (if cs = [] \<or> \<not> list_all is_ascii_digit cs then None else Some (acc, Some cs))
      else None)"

definition regex_body_match :: "string \<Rightarrow> (string \<times> string option) option" where
  "regex_body_match body =
     (case body of
        [] \<Rightarrow> None
      | first # rest \<Rightarrow>
          if \<not> is_ascii_digit first then None
          else if first = CHR ''0'' then
            (case rest of
               [] \<Rightarrow> Some (''0'', None)
             | c # frac \<Rightarrow>
                 if c = CHR ''.'' then
                   (if frac = [] \<or> \<not> list_all is_ascii_digit frac then None
                    else Some (''0'', Some frac))
                 else None)
          else regex_loop [first] rest)"

definition parse_decimal_string :: "string \<Rightarrow> decimal_error + (bool \<times> string \<times> string option)" where
  "parse_decimal_string s0 =
     (let s = str_trim s0 in
      if s = [] then Inl InvalidFormat
      else let (body, neg) = (case strip_prefix_char (CHR ''-'') s of
                                Some rest \<Rightarrow> (rest, True) | None \<Rightarrow> (s, False))
           in case regex_body_match body of
                None \<Rightarrow> Inl InvalidFormat
              | Some (int_part, frac_part) \<Rightarrow> Inr (neg, int_part, frac_part))"

definition from_parts :: "string \<Rightarrow> string option \<Rightarrow> decimal_error + decimal" where
  "from_parts int_part0 frac_part =
     (let trimmed = trim_start_matches (\<lambda>c. c = CHR ''0'') int_part0;
          int_part = (if trimmed = [] then ''0'' else trimmed);
          too_long = (case frac_part of None \<Rightarrow> False | Some frac \<Rightarrow> length frac > SCALE);
          significant = length int_part + (case frac_part of None \<Rightarrow> 0
             | Some frac \<Rightarrow> length (trim_end_matches (\<lambda>c. c = CHR ''0'') frac))
      in if too_long then Inl TooManyFractionalDigits
         else if significant > MAX_SIGNIFICANT_DIGITS then Inl TooManySignificantDigits
         else case parse_i128 int_part of
                None \<Rightarrow> Inl OutOfRange
              | Some i0 \<Rightarrow>
                (case checked_i128 (i0 * SCALE_I128) of
                   None \<Rightarrow> Inl OutOfRange
                 | Some int_raw \<Rightarrow>
                   (case (case frac_part of None \<Rightarrow> Some 0
                          | Some frac \<Rightarrow> parse_i128 (frac @ replicate (SCALE - length frac) (CHR ''0'')))
                    of None \<Rightarrow> Inl OutOfRange
                     | Some frac_raw \<Rightarrow> Inr (Dec (wrap_i128 (int_raw + frac_raw))))))"

definition from_str_strict :: "string \<Rightarrow> decimal_error + decimal" where
  "from_str_strict s =
     (case parse_decimal_string s of
        Inl e \<Rightarrow> Inl e
      | Inr (neg, int_part, frac_part) \<Rightarrow>
          (case from_parts int_part frac_part of
             Inl e \<Rightarrow> Inl e | Inr d \<Rightarrow> Inr (if neg then - d else d)))"

section \<open>The lenient parser\<close>

definition MAX_LENIENT_EXPONENT :: int where "MAX_LENIENT_EXPONENT = 40"

text \<open>The digit check of the mantissa: digits with at most one dot.\<close>

fun mantissa_ok :: "bool \<Rightarrow> string \<Rightarrow> bool" where
  "mantissa_ok seen_dot [] = True"
| "mantissa_ok seen_dot (c # cs) =
     (if c = CHR ''.'' then (if seen_dot then False else mantissa_ok True cs)
      else if is_ascii_digit c then mantissa_ok seen_dot cs else False)"

definition is_exp_char :: "char \<Rightarrow> bool" where
  "is_exp_char c \<longleftrightarrow> c = CHR ''e'' \<or> c = CHR ''E''"

definition parse_lenient_decimal :: "string \<Rightarrow> decimal_error + (bool \<times> string \<times> int)" where
  "parse_lenient_decimal s0 =
     (let s1 = str_trim s0;
          (neg, s) = (case strip_prefix_char (CHR ''-'') s1 of
             Some rest \<Rightarrow> (True, rest)
           | None \<Rightarrow> (False, case strip_prefix_char (CHR ''+'') s1 of Some r \<Rightarrow> r | None \<Rightarrow> s1));
          mantissa = takeWhile (\<lambda>c. \<not> is_exp_char c) s;
          split = (case dropWhile (\<lambda>c. \<not> is_exp_char c) s of
             [] \<Rightarrow> Inr 0
           | _ # exp_str \<Rightarrow>
               (case parse_i32 exp_str of
                  None \<Rightarrow> Inl InvalidFormat
                | Some e \<Rightarrow> if \<bar>e\<bar> > MAX_LENIENT_EXPONENT then Inl OutOfRange else Inr e))
      in case split of
           Inl err \<Rightarrow> Inl err
         | Inr e \<Rightarrow>
             if mantissa = [] then Inl InvalidFormat
             else if \<not> mantissa_ok False mantissa then Inl InvalidFormat
             else Inr (neg, mantissa, e))"

text \<open>The two shift loops of \<open>apply_exponent\<close>.\<close>

fun shift_right :: "nat \<Rightarrow> string \<Rightarrow> string \<Rightarrow> string \<times> string" where
  "shift_right 0 ip frac = (ip, frac)"
| "shift_right (Suc n) ip frac =
     (case frac of [] \<Rightarrow> shift_right n (ip @ ''0'') []
      | c # cs \<Rightarrow> shift_right n (ip @ [c]) cs)"

fun shift_left :: "nat \<Rightarrow> string \<Rightarrow> string \<Rightarrow> string \<times> string" where
  "shift_left 0 ip frac = (ip, frac)"
| "shift_left (Suc n) ip frac =
     (if ip = [] then shift_left n [] (CHR ''0'' # frac)
      else shift_left n (butlast ip) (last ip # frac))"

definition apply_exponent :: "string \<Rightarrow> int \<Rightarrow> string \<times> string" where
  "apply_exponent mantissa e =
     (let int0 = takeWhile (\<lambda>c. c \<noteq> CHR ''.'') mantissa;
          frac0 = (case dropWhile (\<lambda>c. c \<noteq> CHR ''.'') mantissa of [] \<Rightarrow> [] | _ # f \<Rightarrow> f);
          int1 = trim_start_matches (\<lambda>c. c = CHR ''0'') int0;
          int_part = (if int1 = [] then ''0'' else int1);
          frac_part = trim_end_matches (\<lambda>c. c = CHR ''0'') frac0
      in if e \<ge> 0 then shift_right (nat e) int_part frac_part
         else let (i, f) = shift_left (nat (- e)) int_part frac_part
              in (if i = [] then ''0'' else i, f))"

definition from_str_lenient :: "string \<Rightarrow> decimal_error + decimal" where
  "from_str_lenient s0 =
     (case parse_lenient_decimal (str_trim s0) of
        Inl e \<Rightarrow> Inl e
      | Inr (neg, mantissa, e) \<Rightarrow>
          (let (int_part, frac_part) = apply_exponent mantissa e;
               frac = (if frac_part = [] then None else Some (take (min (length frac_part) SCALE) frac_part))
           in case from_parts int_part frac of
                Inl err \<Rightarrow> Inl err | Inr d \<Rightarrow> Inr (if neg then - d else d)))"

section \<open>Rendering\<close>

text \<open>The common body of \<open>Display::fmt\<close> and \<open>to_exact_string\<close>, on a non-zero raw value.\<close>

definition pad18 :: "int \<Rightarrow> string" where
  "pad18 n = replicate (18 - length (show_nat n)) (CHR ''0'') @ show_nat n"

definition render_raw :: "int \<Rightarrow> string" where
  "render_raw r =
     (let neg = r < 0; m = \<bar>r\<bar>;
          i = m div 1000000000000000000; frac = m mod 1000000000000000000;
          sign = (if neg then ''-'' else '''')
      in if frac = 0 then sign @ show_nat i
         else let trimmed = trim_end_matches (\<lambda>c. c = CHR ''0'') (pad18 frac)
              in sign @ show_nat i @ ''.'' @ (if trimmed = [] then ''0'' else trimmed))"

definition to_exact_string :: "decimal \<Rightarrow> string" where
  "to_exact_string d = (if raw d = 0 then ''0'' else render_raw (raw d))"

definition display :: "decimal \<Rightarrow> string" where
  "display d = (if raw d = 0 then ''0'' else render_raw (raw_for_display d))"

end
