(* ===== verification/HE_Decimal_Roundtrip.thy ===== *)
theory HE_Decimal_Roundtrip
  imports HE_Decimal_Text
begin

text \<open>
  The text contract of \<open>HE_Decimal_Text\<close>: digits and their values, what the strict parser accepts
  and returns, and that it reads back every exact rendering of the \<open>NUMERIC(38,18)\<close> range.
\<close>

section \<open>Digits\<close>

lemma of_char_digit_char [simp]: "n < 10 \<Longrightarrow> (of_char (digit_char n) :: nat) = 48 + n"
  by (simp add: digit_char_def)

lemma digit_char_digit [simp]: "n < 10 \<Longrightarrow> is_ascii_digit (digit_char n)"
  by (simp add: is_ascii_digit_def)

lemma digit_val_char [simp]: "n < 10 \<Longrightarrow> digit_val (digit_char n) = n"
  by (simp add: digit_val_def)

lemma digit_char_0: "digit_char 0 = CHR ''0''"
  by code_simp

lemma digit_char_eq_0_iff: "n < 10 \<Longrightarrow> digit_char n = CHR ''0'' \<longleftrightarrow> n = 0"
  by (metis digit_char_0 digit_val_char zero_less_numeral)

lemma not_digit [simp]: "\<not> is_ascii_digit CHR ''.''" "\<not> is_ascii_digit CHR ''-''"
  "\<not> is_ascii_digit CHR ''+''" "is_ascii_digit CHR ''0''" "digit_val CHR ''0'' = 0"
  by (simp_all add: is_ascii_digit_def digit_val_def)

lemma digit_val_lt: "is_ascii_digit c \<Longrightarrow> digit_val c < 10"
  unfolding is_ascii_digit_def digit_val_def by linarith

lemma digit_not_ws: "is_ascii_digit c \<Longrightarrow> \<not> is_ws c"
  by (auto simp: is_ascii_digit_def is_ws_def)

lemma sign_not_ws [simp]: "\<not> is_ws CHR ''.''" "\<not> is_ws CHR ''-''"
  by (simp_all add: is_ws_def)

lemma digit_neq [simp]: "is_ascii_digit c \<Longrightarrow> c \<noteq> CHR ''-''" "is_ascii_digit c \<Longrightarrow> c \<noteq> CHR ''+''"
  "is_ascii_digit c \<Longrightarrow> c \<noteq> CHR ''.''"
  by auto

lemma int_of_digits_snoc [simp]: "int_of_digits (xs @ [c]) = int_of_digits xs * 10 + int (digit_val c)"
  by (simp add: int_of_digits_def)

lemma int_of_digits_Nil [simp]: "int_of_digits [] = 0"
  by (simp add: int_of_digits_def)

lemma int_of_digits_append: "int_of_digits (xs @ ys) = int_of_digits xs * 10 ^ length ys + int_of_digits ys"
proof (induction ys rule: rev_induct)
  case (snoc y ys)
  have "int_of_digits (xs @ ys @ [y]) = int_of_digits (xs @ ys) * 10 + int (digit_val y)"
    using int_of_digits_snoc [of "xs @ ys" y] by simp
  with snoc show ?case by (simp add: algebra_simps)
qed simp

lemma int_of_digits_bounds:
  "list_all is_ascii_digit xs \<Longrightarrow> 0 \<le> int_of_digits xs \<and> int_of_digits xs < 10 ^ length xs"
proof (induction xs rule: rev_induct)
  case (snoc x xs)
  then have "0 \<le> int_of_digits xs" "int_of_digits xs < 10 ^ length xs" "digit_val x < 10"
    by (simp_all add: digit_val_lt)
  then show ?case by simp
qed simp

lemma int_of_digits_zeros [simp]: "int_of_digits (replicate n CHR ''0'') = 0"
  unfolding int_of_digits_def by (induction n) simp_all

lemma int_of_digits_pad [simp]: "int_of_digits (replicate n CHR ''0'' @ xs) = int_of_digits xs"
  by (simp add: int_of_digits_append)

lemma show_nat_digits: "list_all is_ascii_digit (show_nat n)"
proof (induction n rule: show_nat.induct)
  case (1 n)
  have "nat (n mod 10) < 10" by (simp add: nat_less_iff)
  with 1 show ?case by (simp add: show_nat.simps [of n])
qed

lemma show_nat_value: "0 \<le> n \<Longrightarrow> int_of_digits (show_nat n) = n"
proof (induction n rule: show_nat.induct)
  case (1 n)
  have "nat (n mod 10) < 10" by (simp add: nat_less_iff)
  with 1 show ?case
    using int_of_digits_snoc [of "[]" "digit_char (nat n)"] by (simp add: show_nat.simps [of n])
qed

lemma show_nat_nonempty [simp]: "show_nat n \<noteq> []"
  by (simp add: show_nat.simps)

lemma show_nat_hd: "0 < n \<Longrightarrow> hd (show_nat n) \<noteq> CHR ''0''"
proof (induction n rule: show_nat.induct)
  case (1 n)
  then show ?case by (simp add: show_nat.simps [of n] digit_char_eq_0_iff)
qed

lemma show_nat_0 [simp]: "show_nat 0 = ''0''"
  by (simp add: show_nat.simps digit_char_0)

lemma show_nat_length: "0 < n \<Longrightarrow> length (show_nat n) = significant_digits n"
proof (induction n rule: show_nat.induct)
  case (1 n)
  then show ?case
    by (cases "n < 10") (simp_all add: show_nat.simps [of n] significant_digits_pos)
qed

lemma show_nat_length_le: "n < 10 ^ k \<Longrightarrow> 0 < k \<Longrightarrow> length (show_nat n) \<le> k"
proof (cases "0 < n")
  case False
  moreover assume "0 < k"
  ultimately show ?thesis by (simp add: show_nat.simps [of n])
qed (simp add: show_nat_length significant_digits_le_iff)

lemma pad18_length: "n < 10 ^ 18 \<Longrightarrow> length (pad18 n) = 18"
  using show_nat_length_le [of n 18] by (simp add: pad18_def)

lemma pad18_value: "0 \<le> n \<Longrightarrow> int_of_digits (pad18 n) = n"
  by (simp add: pad18_def show_nat_value)

lemma pad18_digits: "list_all is_ascii_digit (pad18 n)"
  using show_nat_digits [of n] by (auto simp: pad18_def list_all_iff)

section \<open>Trimming\<close>

lemma trim_end_split:
  "\<exists>k. s = trim_end_matches p s @ replicate k c" if "\<And>x. p x \<longleftrightarrow> x = c"
proof -
  have "takeWhile p (rev s) = replicate (length (takeWhile p (rev s))) c"
    using that by (metis replicate_length_same set_takeWhileD)
  then have "rev (takeWhile p (rev s)) = replicate (length (takeWhile p (rev s))) c"
    by (metis rev_replicate)
  then show ?thesis
    unfolding trim_end_matches_def
    by (metis rev_append rev_rev_ident takeWhile_dropWhile_id)
qed

lemma list_all_trim_end: "list_all p s \<Longrightarrow> list_all p (trim_end_matches q s)"
  by (auto simp: trim_end_matches_def list_all_iff dest: set_dropWhileD)

lemma trim_end_length: "length (trim_end_matches q s) \<le> length s"
  unfolding trim_end_matches_def by (metis length_dropWhile_le length_rev)

lemma dropWhile_hd: "s = [] \<or> \<not> p (hd s) \<Longrightarrow> dropWhile p s = s"
  by (cases s) auto

lemma trim_end_idem [simp]: "trim_end_matches p (trim_end_matches p s) = trim_end_matches p s"
  by (simp add: trim_end_matches_def)

lemma str_trim_id: "list_all (\<lambda>c. \<not> is_ws c) s \<Longrightarrow> str_trim s = s"
proof -
  assume a: "list_all (\<lambda>c. \<not> is_ws c) s"
  then have "dropWhile is_ws s = s" "dropWhile is_ws (rev s) = rev s"
    by (auto intro!: dropWhile_hd simp: list_all_iff hd_rev)
  then show ?thesis by (simp add: str_trim_def trim_start_matches_def trim_end_matches_def)
qed

section \<open>The strict grammar\<close>

text \<open>\<open>strict_shape\<close> is the pattern \<open>(0|[1-9][0-9]*)(\.[0-9]+)?\<close> that the code comments name.\<close>

definition strict_shape :: "string \<Rightarrow> string option \<Rightarrow> bool" where
  "strict_shape int_part frac \<longleftrightarrow>
     int_part \<noteq> [] \<and> list_all is_ascii_digit int_part \<and> (hd int_part = CHR ''0'' \<longrightarrow> int_part = ''0'') \<and>
     (case frac of None \<Rightarrow> True | Some f \<Rightarrow> f \<noteq> [] \<and> list_all is_ascii_digit f)"

definition strict_text :: "string \<Rightarrow> string option \<Rightarrow> string" where
  "strict_text int_part frac = int_part @ (case frac of None \<Rightarrow> [] | Some f \<Rightarrow> CHR ''.'' # f)"

lemma regex_loop_sound:
  "regex_loop acc s = Some (i, f) \<Longrightarrow> \<exists>ds. list_all is_ascii_digit ds \<and> i = acc @ ds \<and>
     acc @ s = strict_text i f \<and> (case f of None \<Rightarrow> True | Some f \<Rightarrow> f \<noteq> [] \<and> list_all is_ascii_digit f)"
proof (induction acc s rule: regex_loop.induct)
  case (1 acc)
  then show ?case by (simp add: strict_text_def)
next
  case (2 acc c cs)
  show ?case
  proof (cases "is_ascii_digit c")
    case True
    with 2 obtain ds where "list_all is_ascii_digit ds" "i = (acc @ [c]) @ ds"
      "(acc @ [c]) @ cs = strict_text i f" "case f of None \<Rightarrow> True | Some f \<Rightarrow> f \<noteq> [] \<and> list_all is_ascii_digit f"
      by auto
    with True show ?thesis by (intro exI [of _ "c # ds"]) simp
  next
    case False
    with 2(2) show ?thesis by (auto simp: strict_text_def split: if_splits)
  qed
qed

lemma regex_loop_complete:
  "list_all is_ascii_digit ds \<Longrightarrow> (case f of None \<Rightarrow> True | Some f \<Rightarrow> f \<noteq> [] \<and> list_all is_ascii_digit f)
    \<Longrightarrow> regex_loop acc (strict_text ds f) = Some (acc @ ds, f)"
proof (induction ds arbitrary: acc)
  case Nil
  then show ?case by (cases f) (auto simp: strict_text_def)
next
  case (Cons d ds)
  then have "regex_loop (acc @ [d]) (strict_text ds f) = Some ((acc @ [d]) @ ds, f)" by simp
  with Cons.prems show ?case by (simp add: strict_text_def)
qed

text \<open>The hand-written matcher is exactly the pattern.\<close>

lemma regex_body_match_iff:
  "regex_body_match body = Some (i, f) \<longleftrightarrow> strict_shape i f \<and> body = strict_text i f"
proof
  assume m: "regex_body_match body = Some (i, f)"
  then obtain c rest where body: "body = c # rest" by (cases body) (auto simp: regex_body_match_def)
  show "strict_shape i f \<and> body = strict_text i f"
  proof (cases "c = CHR ''0''")
    case True
    with m show ?thesis
      by (auto simp: body regex_body_match_def strict_shape_def strict_text_def split: list.splits if_splits)
  next
    case False
    with m have "is_ascii_digit c" "regex_loop [c] rest = Some (i, f)"
      by (auto simp: body regex_body_match_def split: if_splits)
    with False regex_loop_sound [of "[c]" rest i f] show ?thesis
      by (auto simp: body strict_shape_def)
  qed
next
  assume a: "strict_shape i f \<and> body = strict_text i f"
  then obtain c ds where i: "i = c # ds" by (cases i) (auto simp: strict_shape_def)
  have b: "body = c # strict_text ds f" using a by (simp add: i strict_text_def)
  show "regex_body_match body = Some (i, f)"
  proof (cases "c = CHR ''0''")
    case True
    with a show ?thesis
      by (cases f) (auto simp: i b regex_body_match_def strict_shape_def strict_text_def)
  next
    case False
    have sh: "strict_shape (c # ds) f" using a by (simp add: i)
    with False regex_loop_complete [of ds f "[c]"] show ?thesis
      by (simp add: i b regex_body_match_def strict_shape_def)
  qed
qed


section \<open>The value of an accepted text\<close>

lemma strict_text_chars:
  "strict_shape i f \<Longrightarrow> list_all (\<lambda>c. is_ascii_digit c \<or> c = CHR ''.'') (strict_text i f)"
  by (auto simp: strict_shape_def strict_text_def list_all_iff split: option.splits)

lemma strict_text_not_sign: "strict_shape i f \<Longrightarrow> strip_prefix_char CHR ''-'' (strict_text i f) = None"
  by (cases i) (auto simp: strict_shape_def strict_text_def)

lemma strict_text_neq_minus: "strict_shape i f \<Longrightarrow> strict_text i f \<noteq> CHR ''-'' # cs"
  by (cases i) (auto simp: strict_shape_def strict_text_def)

definition signed_text :: "bool \<Rightarrow> string \<Rightarrow> string" where
  "signed_text neg body = (if neg then CHR ''-'' # body else body)"

lemma signed_text_trim: "strict_shape i f \<Longrightarrow> str_trim (signed_text neg (strict_text i f)) = signed_text neg (strict_text i f)"
  using strict_text_chars [of i f]
  by (intro str_trim_id) (auto simp: signed_text_def list_all_iff dest: digit_not_ws)

text \<open>What the front end of the strict parser accepts: an optional minus sign and the pattern.\<close>

lemma parse_decimal_string_iff:
  "parse_decimal_string s = Inr (neg, i, f) \<longleftrightarrow>
     strict_shape i f \<and> str_trim s = signed_text neg (strict_text i f)"
proof (cases "str_trim s")
  case Nil
  then show ?thesis
    by (auto simp: parse_decimal_string_def signed_text_def strict_text_def strict_shape_def)
next
  case (Cons c cs)
  show ?thesis
  proof (cases "c = CHR ''-''")
    case True
    with Cons show ?thesis
      using regex_body_match_iff [of cs i f] strict_text_neq_minus [of i f cs]
      by (auto simp: parse_decimal_string_def signed_text_def Let_def split: option.splits)
  next
    case False
    with Cons show ?thesis
      using regex_body_match_iff [of "c # cs" i f]
      by (auto simp: parse_decimal_string_def signed_text_def Let_def split: option.splits)
  qed
qed

lemma parse_int_digits:
  "ds \<noteq> [] \<Longrightarrow> list_all is_ascii_digit ds \<Longrightarrow>
     parse_int r ds = (if r (int_of_digits ds) then Some (int_of_digits ds) else None)"
  by (cases ds) (auto simp: parse_int_def Let_def split: if_splits)

lemma int_of_digits_trim: "int_of_digits (trim_start_matches (\<lambda>c. c = CHR ''0'') s) = int_of_digits s"
  unfolding trim_start_matches_def int_of_digits_def by (induction s) simp_all

lemma list_all_dropWhile: "list_all p s \<Longrightarrow> list_all p (dropWhile q s)"
  by (auto simp: list_all_iff dest: set_dropWhileD)

definition parts_value :: "string \<Rightarrow> string option \<Rightarrow> int" where
  "parts_value i f = int_of_digits i * SCALE_I128 +
     (case f of None \<Rightarrow> 0 | Some fr \<Rightarrow> int_of_digits fr * 10 ^ (18 - length fr))"

definition parts_digits :: "string \<Rightarrow> string option \<Rightarrow> nat" where
  "parts_digits i f = max 1 (length (trim_start_matches (\<lambda>c. c = CHR ''0'') i)) +
     (case f of None \<Rightarrow> 0 | Some fr \<Rightarrow> length (trim_end_matches (\<lambda>c. c = CHR ''0'') fr))"

definition frac_ok :: "string option \<Rightarrow> bool" where
  "frac_ok f = (case f of None \<Rightarrow> True | Some fr \<Rightarrow> list_all is_ascii_digit fr)"

lemma frac_value_bounds:
  assumes "list_all is_ascii_digit fr" and "length fr \<le> 18"
  shows "0 \<le> int_of_digits fr * 10 ^ (18 - length fr)" "int_of_digits fr * 10 ^ (18 - length fr) < SCALE_I128"
proof -
  note b = int_of_digits_bounds [OF assms(1)]
  then show "0 \<le> int_of_digits fr * 10 ^ (18 - length fr)" by simp
  have "int_of_digits fr * 10 ^ (18 - length fr) < 10 ^ length fr * 10 ^ (18 - length fr)"
    using b by (intro mult_strict_right_mono) simp_all
  also have "\<dots> = SCALE_I128" using assms(2) by (simp add: SCALE_I128_pow flip: power_add)
  finally show "int_of_digits fr * 10 ^ (18 - length fr) < SCALE_I128" .
qed

lemma parse_frac:
  assumes "list_all is_ascii_digit fr" and "length fr \<le> 18" and "fr \<noteq> []"
  shows "parse_i128 (fr @ replicate (SCALE - length fr) CHR ''0'') =
    Some (int_of_digits fr * 10 ^ (18 - length fr))"
proof -
  have "in_i128 (int_of_digits fr * 10 ^ (18 - length fr))"
    using frac_value_bounds [OF assms(1,2)] by (intro in_i128_absI) (simp add: i128_bounds SCALE_I128_def)
  moreover have "list_all is_ascii_digit (fr @ replicate (SCALE - length fr) CHR ''0'')"
    using assms(1) by (auto simp: list_all_iff)
  ultimately show ?thesis
    using assms by (simp add: parse_i128_def parse_int_digits int_of_digits_append SCALE_def)
qed

text \<open>\<open>from_parts\<close> on digits: rejected by its length limits, out of range, or the value of the text,
  wrapped when the integer and fractional parts together exceed \<open>i128\<close>.\<close>

lemma from_parts_eq:
  assumes "list_all is_ascii_digit i" and "frac_ok f" and "f \<noteq> Some []"
  shows "from_parts i f =
    (if \<exists>fr. f = Some fr \<and> length fr > 18 then Inl TooManyFractionalDigits
     else if parts_digits i f > 38 then Inl TooManySignificantDigits
     else if int_of_digits i * SCALE_I128 > i128_max then Inl OutOfRange
     else Inr (Dec (wrap_i128 (parts_value i f))))"
proof -
  define t where "t = trim_start_matches (\<lambda>c. c = CHR ''0'') i"
  define j where "j = (if t = [] then ''0'' else t)"
  have tv: "int_of_digits t = int_of_digits i" by (simp add: t_def int_of_digits_trim)
  have td: "list_all is_ascii_digit t"
    using assms(1) by (simp add: t_def trim_start_matches_def list_all_dropWhile)
  have z: "int_of_digits ''0'' = 0" using int_of_digits_zeros [of 1] by simp
  have jd: "list_all is_ascii_digit j" "j \<noteq> []" "int_of_digits j = int_of_digits i" "length j = max 1 (length t)"
    using td tv z by (auto simp: j_def Suc_le_eq max_def)
  have i0: "0 \<le> int_of_digits i" using int_of_digits_bounds [OF assms(1)] by simp
  have pj: "parse_i128 j = (if in_i128 (int_of_digits i) then Some (int_of_digits i) else None)"
    using jd by (simp add: parse_i128_def parse_int_digits)
  have rng: "in_i128 (int_of_digits i * SCALE_I128) \<longleftrightarrow> \<not> int_of_digits i * SCALE_I128 > i128_max"
    using i0 by (auto simp: in_i128_def i128_bounds SCALE_I128_def)
  have rng0: "in_i128 (int_of_digits i * SCALE_I128) \<Longrightarrow> in_i128 (int_of_digits i)"
    using i0 by (auto simp: in_i128_def i128_bounds SCALE_I128_def)
  have step: "(case parse_i128 j of None \<Rightarrow> Inl OutOfRange | Some i0 \<Rightarrow>
      (case checked_i128 (i0 * SCALE_I128) of None \<Rightarrow> Inl OutOfRange | Some r \<Rightarrow> g r)) =
    (if int_of_digits i * SCALE_I128 > i128_max then Inl OutOfRange else g (int_of_digits i * SCALE_I128))"
    for g :: "int \<Rightarrow> decimal_error + decimal"
    using rng rng0 by (auto simp: pj checked_i128_def)
  show ?thesis
  proof (cases f)
    case None
    then show ?thesis
      unfolding from_parts_def Let_def t_def [symmetric] j_def [symmetric] step
      by (simp add: parts_digits_def parts_value_def MAX_SIGNIFICANT_DIGITS_def jd t_def less_max_iff_disj)
  next
    case (Some fr)
    then have fr: "list_all is_ascii_digit fr" "fr \<noteq> []" using assms by (auto simp: frac_ok_def)
    show ?thesis
      unfolding from_parts_def Let_def t_def [symmetric] j_def [symmetric] step
      using Some parse_frac [OF fr(1) _ fr(2)]
      by (simp add: parts_digits_def parts_value_def MAX_SIGNIFICANT_DIGITS_def SCALE_def jd t_def)
  qed
qed


section \<open>Round trip\<close>

definition render_int :: "int \<Rightarrow> int" where "render_int r = \<bar>r\<bar> div SCALE_I128"
definition render_frac :: "int \<Rightarrow> string option" where
  "render_frac r = (let fr = \<bar>r\<bar> mod SCALE_I128 in
     if fr = 0 then None else Some (trim_end_matches (\<lambda>c. c = CHR ''0'') (pad18 fr)))"

lemma trimmed_pad_value:
  assumes "0 \<le> n" and "n < 10 ^ 18"
  defines "t \<equiv> trim_end_matches (\<lambda>c. c = CHR ''0'') (pad18 n)"
  shows "int_of_digits t * 10 ^ (18 - length t) = n" "length t \<le> 18" "list_all is_ascii_digit t"
    "0 < n \<Longrightarrow> t \<noteq> []"
proof -
  obtain k where k: "pad18 n = t @ replicate k CHR ''0''"
    using trim_end_split [of "\<lambda>c. c = CHR ''0''" "CHR ''0''" "pad18 n"] by (auto simp: t_def)
  have len: "length (pad18 n) = length t + k" unfolding k by simp
  then have kk: "k = 18 - length t" "length t \<le> 18" using pad18_length [OF assms(2)] by simp_all
  have v: "int_of_digits t * 10 ^ k = n"
    using pad18_value [OF assms(1)] by (simp add: k int_of_digits_append)
  then show "int_of_digits t * 10 ^ (18 - length t) = n" "length t \<le> 18" using kk by simp_all
  show "list_all is_ascii_digit t" unfolding t_def by (rule list_all_trim_end) (rule pad18_digits)
  show "0 < n \<Longrightarrow> t \<noteq> []" using v by auto
qed

lemma mod_SCALE_bounds: "0 \<le> r mod SCALE_I128 \<and> r mod SCALE_I128 < 10 ^ 18"
  by (simp add: SCALE_I128_def)

lemma render_raw_eq:
  "render_raw r = signed_text (r < 0) (strict_text (show_nat (render_int r)) (render_frac r))"
proof (cases "\<bar>r\<bar> mod SCALE_I128 = 0")
  case True
  then show ?thesis
    by (simp add: render_raw_def render_int_def render_frac_def signed_text_def strict_text_def
        SCALE_I128_def)
next
  case False
  then have "0 < \<bar>r\<bar> mod SCALE_I128" "\<bar>r\<bar> mod SCALE_I128 < 10 ^ 18"
    using mod_SCALE_bounds [of "\<bar>r\<bar>"] by linarith+
  then have "trim_end_matches (\<lambda>c. c = CHR ''0'') (pad18 (\<bar>r\<bar> mod SCALE_I128)) \<noteq> []"
    by (intro trimmed_pad_value(4)) simp_all
  with False show ?thesis
    by (simp add: render_raw_def render_int_def render_frac_def signed_text_def strict_text_def
        SCALE_I128_def Let_def)
qed

lemma render_shape: "strict_shape (show_nat (render_int r)) (render_frac r)"
proof -
  have i0: "0 \<le> render_int r" by (simp add: render_int_def pos_imp_zdiv_nonneg_iff)
  have "hd (show_nat (render_int r)) = CHR ''0'' \<longrightarrow> show_nat (render_int r) = ''0''"
    using i0 show_nat_hd [of "render_int r"] by (cases "render_int r = 0") auto
  moreover have "case render_frac r of None \<Rightarrow> True | Some f \<Rightarrow> f \<noteq> [] \<and> list_all is_ascii_digit f"
  proof (cases "\<bar>r\<bar> mod SCALE_I128 = 0")
    case False
    then have "0 < \<bar>r\<bar> mod SCALE_I128" "\<bar>r\<bar> mod SCALE_I128 < 10 ^ 18"
      using mod_SCALE_bounds [of "\<bar>r\<bar>"] by linarith+
    then show ?thesis
      using trimmed_pad_value [of "\<bar>r\<bar> mod SCALE_I128"] by (simp add: render_frac_def Let_def)
  qed (simp add: render_frac_def)
  ultimately show ?thesis by (simp add: strict_shape_def show_nat_digits)
qed

lemma render_value: "parts_value (show_nat (render_int r)) (render_frac r) = \<bar>r\<bar>"
proof -
  have i0: "0 \<le> render_int r" by (simp add: render_int_def pos_imp_zdiv_nonneg_iff)
  have f: "(case render_frac r of None \<Rightarrow> 0 | Some fr \<Rightarrow> int_of_digits fr * 10 ^ (18 - length fr))
    = \<bar>r\<bar> mod SCALE_I128"
    using trimmed_pad_value(1) [of "\<bar>r\<bar> mod SCALE_I128"]
    by (simp add: render_frac_def Let_def SCALE_I128_def)
  show ?thesis unfolding parts_value_def f using i0
    by (simp add: show_nat_value) (simp add: render_int_def)
qed

lemma render_digits:
  assumes "\<bar>r\<bar> < 10 ^ 38"
  shows "parts_digits (show_nat (render_int r)) (render_frac r) \<le> 38"
    and "\<not> (\<exists>fr. render_frac r = Some fr \<and> length fr > 18)"
    and "render_int r * SCALE_I128 \<le> i128_max"
proof -
  have "render_int r * SCALE_I128 \<le> \<bar>r\<bar>" by (simp add: render_int_def div_mult_le)
  then show "render_int r * SCALE_I128 \<le> i128_max" using assms by (simp add: i128_bounds)
  have "render_int r < 10 ^ 20"
    using assms by (simp add: render_int_def SCALE_I128_def)
  then have "length (show_nat (render_int r)) \<le> 20" by (intro show_nat_length_le) simp_all
  then have i: "length (trim_start_matches (\<lambda>c. c = CHR ''0'') (show_nat (render_int r))) \<le> 20"
    unfolding trim_start_matches_def using length_dropWhile_le le_trans by blast
  have f: "length fr \<le> 18" if "render_frac r = Some fr" for fr
    using trimmed_pad_value(2) [of "\<bar>r\<bar> mod SCALE_I128"] that
    by (auto simp: render_frac_def Let_def SCALE_I128_def split: if_splits)
  then show "\<not> (\<exists>fr. render_frac r = Some fr \<and> length fr > 18)" by fastforce
  have "length (trim_end_matches (\<lambda>c. c = CHR ''0'') fr) \<le> 18" if "render_frac r = Some fr" for fr
    using trim_end_length f [OF that] le_trans by blast
  then show "parts_digits (show_nat (render_int r)) (render_frac r) \<le> 38"
    using i by (auto simp: parts_digits_def split: option.splits)
qed

lemma signed_value: "\<bar>r\<bar> < 10 ^ 38 \<Longrightarrow> (if r < 0 then - Dec \<bar>r\<bar> else Dec \<bar>r\<bar>) = Dec r"
  by (auto simp: dec_eq_iff sat_i128_def i128_bounds)

lemma strict_reads_render:
  assumes "\<bar>r\<bar> < 10 ^ 38"
  shows "from_str_strict (render_raw r) = Inr (Dec r)"
proof -
  let ?i = "show_nat (render_int r)" and ?f = "render_frac r"
  have p: "parse_decimal_string (render_raw r) = Inr (r < 0, ?i, ?f)"
    unfolding parse_decimal_string_iff render_raw_eq
    using render_shape signed_text_trim by blast
  have shp: "list_all is_ascii_digit ?i" "frac_ok ?f" "?f \<noteq> Some []"
    using render_shape [of r] by (auto simp: strict_shape_def frac_ok_def split: option.splits)
  have iv: "int_of_digits ?i = render_int r"
    by (simp add: show_nat_value render_int_def pos_imp_zdiv_nonneg_iff)
  have "in_i128 \<bar>r\<bar>" using assms by (intro in_i128_absI) (simp add: i128_bounds)
  then have "from_parts ?i ?f = Inr (Dec \<bar>r\<bar>)"
    using render_digits [OF assms] by (simp add: from_parts_eq [OF shp] iv render_value not_less)
  then show ?thesis
    using signed_value [OF assms] by (simp add: from_str_strict_def p)
qed

lemma strict_reads_zero: "from_str_strict ''0'' = Inr ZERO"
  by code_simp

text \<open>What an accepted text means: the exact value, as long as it is in range.\<close>

lemma strict_accepts:
  assumes "from_str_strict s = Inr d"
  obtains neg i f where "str_trim s = signed_text neg (strict_text i f)" "strict_shape i f"
    "parts_digits i f \<le> 38" "\<forall>fr. f = Some fr \<longrightarrow> length fr \<le> 18"
    "raw d = sat_i128 ((if neg then -1 else 1) * wrap_i128 (parts_value i f))"
proof -
  from assms obtain neg i f e where p: "parse_decimal_string s = Inr (neg, i, f)"
    and q: "from_parts i f = Inr e" "d = (if neg then - e else e)"
    by (auto simp: from_str_strict_def split: sum.splits prod.splits)
  from p have sh: "strict_shape i f" "str_trim s = signed_text neg (strict_text i f)"
    by (simp_all add: parse_decimal_string_iff)
  then have shp: "list_all is_ascii_digit i" "frac_ok f" "f \<noteq> Some []"
    by (auto simp: strict_shape_def frac_ok_def split: option.splits)
  from q(1) have "parts_digits i f \<le> 38" "\<forall>fr. f = Some fr \<longrightarrow> length fr \<le> 18"
    "e = Dec (wrap_i128 (parts_value i f))"
    by (auto simp: from_parts_eq [OF shp] split: if_splits)
  with sh q(2) that show thesis by auto
qed

lemma parts_value_bound:
  assumes "strict_shape i f" and "length i \<le> 20" and "\<forall>fr. f = Some fr \<longrightarrow> length fr \<le> 18"
  shows "0 \<le> parts_value i f" "parts_value i f < 10 ^ 38"
proof -
  have i: "0 \<le> int_of_digits i" "int_of_digits i < 10 ^ length i"
    using assms(1) int_of_digits_bounds [of i] by (simp_all add: strict_shape_def)
  have "(10::int) ^ length i \<le> 10 ^ 20" using assms(2) by (intro power_increasing) simp_all
  with i have "int_of_digits i \<le> 10 ^ 20 - 1" by linarith
  then have ib: "int_of_digits i * SCALE_I128 \<le> (10 ^ 20 - 1) * SCALE_I128"
    by (rule mult_right_mono) simp
  define g where "g = (case f of None \<Rightarrow> 0 | Some fr \<Rightarrow> int_of_digits fr * 10 ^ (18 - length fr))"
  have g: "0 \<le> g" "g < SCALE_I128"
    using assms frac_value_bounds by (auto simp: g_def strict_shape_def split: option.splits)
  have v: "parts_value i f = int_of_digits i * SCALE_I128 + g" by (simp add: parts_value_def g_def)
  show "0 \<le> parts_value i f" using i g by (simp add: v)
  show "parts_value i f < 10 ^ 38" using ib g by (simp add: v SCALE_I128_def)
qed

end
