(* ===== verification/HE_Float.thy ===== *)
theory HE_Float
  imports Complex_Main HE_Decimal_Roundtrip
begin

text \<open>
  What the code uses of Rust's \<open>f64\<close>: IEEE 754 binary64 with round-to-nearest-even, as exact
  rationals that are rounded after every operation. A finite value is \<open>F64_Fin r\<close> with \<open>r\<close> its
  exact value; both zeros are \<open>F64_Fin 0\<close> (no modelled code tells them apart). \<open>round_f64\<close> is the
  rounding, subnormals and overflow included. The last section is \<open>Decimal::from_f64\<close> and the
  conversion \<open>to_string().parse::<f64>()\<close> that the risk code applies to decimals.
\<close>

datatype f64 = F64_NaN | F64_PInf | F64_NInf | F64_Fin rat

section \<open>Rounding\<close>

function ilog2 :: "int \<Rightarrow> int" where
  "ilog2 n = (if n < 2 then 0 else 1 + ilog2 (n div 2))"
  by pat_completeness auto
termination by (relation "measure nat") auto

declare ilog2.simps [simp del]

definition pow2 :: "int \<Rightarrow> rat" where
  "pow2 k = (if 0 \<le> k then 2 ^ nat k else 1 / 2 ^ nat (- k))"

text \<open>The binary exponent of a positive rational: \<open>2^e \<le> a < 2^(e+1)\<close>.\<close>

definition exponent :: "rat \<Rightarrow> int" where
  "exponent a = (let (n, d) = quotient_of a; k = ilog2 n - ilog2 d in if pow2 k \<le> a then k else k - 1)"

definition round_even :: "rat \<Rightarrow> int" where
  "round_even x = (let f = \<lfloor>x\<rfloor>; r = x - of_int f in
     if r < 1 / 2 then f else if r > 1 / 2 then f + 1 else if even f then f else f + 1)"

definition ulp_exp :: "rat \<Rightarrow> int" where
  "ulp_exp a = max (exponent a - 52) (- 1074)"

definition round_pos :: "rat \<Rightarrow> rat" where
  "round_pos a = of_int (round_even (a / pow2 (ulp_exp a))) * pow2 (ulp_exp a)"

definition round_f64 :: "rat \<Rightarrow> f64" where
  "round_f64 r =
     (if r = 0 then F64_Fin 0
      else let v = round_pos \<bar>r\<bar> in
        if v \<ge> pow2 1024 then (if r > 0 then F64_PInf else F64_NInf)
        else F64_Fin (sgn r * v))"

section \<open>Operations and comparisons\<close>

definition f64_of_int :: "int \<Rightarrow> f64" where "f64_of_int n = round_f64 (of_int n)"

fun f64_le :: "f64 \<Rightarrow> f64 \<Rightarrow> bool" where
  "f64_le F64_NaN _ = False"
| "f64_le _ F64_NaN = False"
| "f64_le F64_NInf _ = True"
| "f64_le _ F64_PInf = True"
| "f64_le F64_PInf _ = False"
| "f64_le _ F64_NInf = False"
| "f64_le (F64_Fin x) (F64_Fin y) = (x \<le> y)"

fun f64_lt :: "f64 \<Rightarrow> f64 \<Rightarrow> bool" where
  "f64_lt F64_NaN _ = False"
| "f64_lt _ F64_NaN = False"
| "f64_lt F64_NInf y = (y \<noteq> F64_NInf)"
| "f64_lt x F64_PInf = (x \<noteq> F64_PInf)"
| "f64_lt F64_PInf _ = False"
| "f64_lt _ F64_NInf = False"
| "f64_lt (F64_Fin x) (F64_Fin y) = (x < y)"

text \<open>\<open>f64::max\<close> returns the other operand when one is NaN.\<close>

definition f64_max :: "f64 \<Rightarrow> f64 \<Rightarrow> f64" where
  "f64_max x y = (if x = F64_NaN then y else if y = F64_NaN then x else if f64_le x y then y else x)"

fun f64_mul :: "f64 \<Rightarrow> f64 \<Rightarrow> f64" where
  "f64_mul (F64_Fin x) (F64_Fin y) = round_f64 (x * y)"
| "f64_mul F64_NaN _ = F64_NaN"
| "f64_mul _ F64_NaN = F64_NaN"
| "f64_mul (F64_Fin x) F64_PInf = (if x = 0 then F64_NaN else if x > 0 then F64_PInf else F64_NInf)"
| "f64_mul (F64_Fin x) F64_NInf = (if x = 0 then F64_NaN else if x > 0 then F64_NInf else F64_PInf)"
| "f64_mul F64_PInf (F64_Fin x) = (if x = 0 then F64_NaN else if x > 0 then F64_PInf else F64_NInf)"
| "f64_mul F64_NInf (F64_Fin x) = (if x = 0 then F64_NaN else if x > 0 then F64_NInf else F64_PInf)"
| "f64_mul x y = (if x = y then F64_PInf else F64_NInf)"

text \<open>Division by a zero is not reached by the modelled code with an infinite or NaN numerator;
  a zero divisor counts as the positive zero.\<close>

fun f64_div :: "f64 \<Rightarrow> f64 \<Rightarrow> f64" where
  "f64_div (F64_Fin x) (F64_Fin y) =
     (if y = 0 then (if x = 0 then F64_NaN else if x > 0 then F64_PInf else F64_NInf)
      else round_f64 (x / y))"
| "f64_div F64_NaN _ = F64_NaN"
| "f64_div _ F64_NaN = F64_NaN"
| "f64_div (F64_Fin x) _ = F64_Fin 0"
| "f64_div F64_PInf (F64_Fin y) = (if y < 0 then F64_NInf else F64_PInf)"
| "f64_div F64_NInf (F64_Fin y) = (if y < 0 then F64_PInf else F64_NInf)"
| "f64_div _ _ = F64_NaN"

fun f64_neg :: "f64 \<Rightarrow> f64" where
  "f64_neg F64_NaN = F64_NaN"
| "f64_neg F64_PInf = F64_NInf"
| "f64_neg F64_NInf = F64_PInf"
| "f64_neg (F64_Fin x) = F64_Fin (- x)"

fun f64_abs :: "f64 \<Rightarrow> f64" where
  "f64_abs F64_NaN = F64_NaN"
| "f64_abs (F64_Fin x) = F64_Fin \<bar>x\<bar>"
| "f64_abs _ = F64_PInf"

fun f64_add :: "f64 \<Rightarrow> f64 \<Rightarrow> f64" where
  "f64_add (F64_Fin x) (F64_Fin y) = round_f64 (x + y)"
| "f64_add F64_NaN _ = F64_NaN"
| "f64_add _ F64_NaN = F64_NaN"
| "f64_add F64_PInf F64_NInf = F64_NaN"
| "f64_add F64_NInf F64_PInf = F64_NaN"
| "f64_add F64_PInf _ = F64_PInf"
| "f64_add _ F64_PInf = F64_PInf"
| "f64_add _ _ = F64_NInf"

definition f64_sub :: "f64 \<Rightarrow> f64 \<Rightarrow> f64" where "f64_sub x y = f64_add x (f64_neg y)"

definition f64_min :: "f64 \<Rightarrow> f64 \<Rightarrow> f64" where
  "f64_min x y = (if x = F64_NaN then y else if y = F64_NaN then x else if f64_le x y then x else y)"

section \<open>Decimals and floats\<close>

text \<open>\<open>d.to_string().parse::<f64>()\<close>: the normalized text has at most 28 significant digits, and
  \<open>parse\<close> is correctly rounded.\<close>

definition dec_to_f64 :: "decimal \<Rightarrow> f64" where
  "dec_to_f64 d = round_f64 (of_int (raw_for_display d) / of_int SCALE_I128)"

text \<open>\<open>format!("{f}")\<close>: the shortest digits that read back as the same float, without an exponent.
  \<open>dec_exponent\<close> is the decimal exponent; the fuel bounds the digits of an \<open>f64\<close> on either side of
  the point.\<close>

fun dec_exponent_up :: "nat \<Rightarrow> rat \<Rightarrow> int \<Rightarrow> int" where
  "dec_exponent_up 0 a e = e"
| "dec_exponent_up (Suc n) a e = (if a < 10 then e else dec_exponent_up n (a / 10) (e + 1))"

fun dec_exponent_down :: "nat \<Rightarrow> rat \<Rightarrow> int \<Rightarrow> int" where
  "dec_exponent_down 0 a e = e"
| "dec_exponent_down (Suc n) a e = (if a \<ge> 1 then e else dec_exponent_down n (a * 10) (e - 1))"

definition dec_exponent :: "rat \<Rightarrow> int" where
  "dec_exponent a = (if a \<ge> 1 then dec_exponent_up 400 a 0 else dec_exponent_down 400 a 0)"

definition pow10 :: "int \<Rightarrow> rat" where
  "pow10 k = (if 0 \<le> k then 10 ^ nat k else 1 / 10 ^ nat (- k))"

fun shortest_digits :: "nat \<Rightarrow> nat \<Rightarrow> rat \<Rightarrow> int \<times> int" where
  "shortest_digits 0 n a = (\<lfloor>a * pow10 (16 - dec_exponent a)\<rfloor>, dec_exponent a - 16)"
| "shortest_digits (Suc fuel) n a =
     (let k = dec_exponent a - int n + 1;
          lo = \<lfloor>a / pow10 k\<rfloor>; hi = lo + 1;
          lo_ok = (lo > 0 \<and> round_f64 (of_int lo * pow10 k) = F64_Fin a);
          hi_ok = (round_f64 (of_int hi * pow10 k) = F64_Fin a)
      in if lo_ok \<and> (\<not> hi_ok \<or> a - of_int lo * pow10 k \<le> of_int hi * pow10 k - a) then (lo, k)
         else if hi_ok then (hi, k)
         else shortest_digits fuel (n + 1) a)"

definition f64_display :: "rat \<Rightarrow> string" where
  "f64_display r =
     (if r = 0 then ''0''
      else let (m, k) = shortest_digits 17 1 \<bar>r\<bar>; ds = show_nat m; sign = (if r < 0 then ''-'' else '''')
           in if k \<ge> 0 then sign @ ds @ replicate (nat k) CHR ''0''
              else let n = nat (- k) in
                if length ds > n then sign @ take (length ds - n) ds @ ''.'' @ drop (length ds - n) ds
                else sign @ ''0.'' @ replicate (n - length ds) CHR ''0'' @ ds)"

text \<open>\<open>{:.n}\<close>: the exact value rounded to \<open>n\<close> places, half to even.\<close>

fun f64_display_fixed :: "nat \<Rightarrow> f64 \<Rightarrow> string" where
  "f64_display_fixed n F64_NaN = ''NaN''"
| "f64_display_fixed n F64_PInf = ''inf''"
| "f64_display_fixed n F64_NInf = ''-inf''"
| "f64_display_fixed n (F64_Fin r) =
     (let m = round_even (\<bar>r\<bar> * 10 ^ n); frac = show_nat (m mod 10 ^ n)
      in (if r < 0 then ''-'' else []) @ show_nat (m div 10 ^ n) @
         (if n = 0 then [] else ''.'' @ replicate (n - length frac) CHR ''0'' @ frac))"

fun f64_to_string :: "f64 \<Rightarrow> string" where
  "f64_to_string F64_NaN = ''NaN''"
| "f64_to_string F64_PInf = ''inf''"
| "f64_to_string F64_NInf = ''-inf''"
| "f64_to_string (F64_Fin r) = f64_display r"

definition from_f64 :: "f64 \<Rightarrow> decimal_error + decimal" where
  "from_f64 f = (case f of F64_Fin r \<Rightarrow> from_str_lenient (f64_display r) | _ \<Rightarrow> Inl NotFinite)"

section \<open>Facts on rounding\<close>

lemma pow2_pos [simp]: "0 < pow2 k" "0 \<le> pow2 k" "pow2 k \<noteq> 0"
  by (simp_all add: pow2_def)

lemma pow2_powi: "pow2 k = 2 powi k"
  by (simp add: pow2_def power_int_def inverse_eq_divide power_one_over)

lemma pow2_add: "pow2 (a + b) = pow2 a * pow2 b"
  by (simp add: pow2_powi power_int_add)

lemma pow2_mono: "a \<le> b \<Longrightarrow> pow2 a \<le> pow2 b"
  by (simp add: pow2_powi power_int_increasing)

lemma ilog2_bounds: "0 < n \<Longrightarrow> 0 \<le> ilog2 n \<and> pow2 (ilog2 n) \<le> of_int n \<and> of_int n < pow2 (ilog2 n + 1)"
proof (induction n rule: ilog2.induct)
  case (1 n)
  show ?case
  proof (cases "n < 2")
    case True
    with 1(2) have "n = 1" by simp
    then show ?thesis by (simp add: ilog2.simps pow2_def)
  next
    case False
    then have IH: "0 \<le> ilog2 (n div 2)" "pow2 (ilog2 (n div 2)) \<le> of_int (n div 2)"
      "of_int (n div 2) < pow2 (ilog2 (n div 2) + 1)" using 1 by simp_all
    define m k where "m = n div 2" and "k = ilog2 m"
    have n: "ilog2 n = k + 1" using False by (simp add: ilog2.simps [of n] k_def m_def)
    have p1: "pow2 (k + 1) = of_int (2 ^ nat (k + 1))" "pow2 k = of_int (2 ^ nat k)" "nat (k + 1) = Suc (nat k)"
      using IH(1) by (simp_all add: pow2_def k_def m_def)
    have "2 ^ nat k \<le> m" "m < 2 ^ nat (k + 1)"
      using IH(2,3) unfolding k_def [symmetric] m_def [symmetric] p1 of_int_le_iff of_int_less_iff by simp_all
    then have "2 * 2 ^ nat k \<le> n" "n < 2 * (2 * 2 ^ nat k)" using p1(3) by (simp_all add: m_def)
    then have "2 ^ nat (k + 1) \<le> n" "n < 2 * 2 ^ nat (k + 1)" using p1(3) by simp_all
    then have "of_int (2 ^ nat (k + 1)) \<le> (of_int n :: rat)" "(of_int n :: rat) < of_int (2 * 2 ^ nat (k + 1))"
      by (simp_all only: of_int_le_iff of_int_less_iff)
    then show ?thesis using IH(1) pow2_add [of "k + 1" 1] by (simp add: n p1 k_def m_def pow2_def)
  qed
qed


lemma exponent_bounds:
  assumes "0 < a"
  shows "pow2 (exponent a) \<le> a" "a < pow2 (exponent a + 1)"
proof -
  obtain n d where q: "quotient_of a = (n, d)" by (cases "quotient_of a")
  then have d: "0 < d" and a: "a = of_int n / of_int d"
    by (simp_all add: quotient_of_denom_pos quotient_of_div)
  then have n: "0 < n" using assms by (simp add: zero_less_divide_iff)
  define k where "k = ilog2 n - ilog2 d"
  note bn = ilog2_bounds [OF n] and bd = ilog2_bounds [OF d]
  have dq: "(0::rat) < of_int d" using d by simp
  have "pow2 (k - 1) * of_int d \<le> pow2 (k - 1) * pow2 (ilog2 d + 1)"
    using bd by (intro mult_left_mono) simp_all
  also have "\<dots> = pow2 (ilog2 n)" by (simp add: k_def flip: pow2_add)
  finally have lo: "pow2 (k - 1) \<le> a" using bn dq by (simp add: a le_divide_eq)
  have "of_int n < pow2 (ilog2 n + 1)" using bn by simp
  also have "\<dots> = pow2 (k + 1) * pow2 (ilog2 d)" by (simp add: k_def flip: pow2_add)
  also have "\<dots> \<le> pow2 (k + 1) * of_int d" using bd by (intro mult_left_mono) simp_all
  finally have hi: "a < pow2 (k + 1)" using dq by (simp add: a divide_less_eq)
  show "pow2 (exponent a) \<le> a" "a < pow2 (exponent a + 1)"
    using lo hi by (simp_all add: exponent_def q Let_def flip: k_def)
qed

lemma pow2_less_iff: "pow2 a < pow2 b \<longleftrightarrow> a < b"
proof
  show "pow2 a < pow2 b" if "a < b"
    using that by (simp add: pow2_powi power_int_strict_increasing)
  show "a < b" if "pow2 a < pow2 b"
    using that pow2_mono [of b a] by (meson linorder_not_less)
qed

lemma exponent_mono: "0 < a \<Longrightarrow> a \<le> b \<Longrightarrow> exponent a \<le> exponent b"
proof -
  assume a: "0 < a" "a \<le> b"
  then have "pow2 (exponent a) < pow2 (exponent b + 1)"
    using exponent_bounds(1) [of a] exponent_bounds(2) [of b] by linarith
  then show ?thesis by (simp add: pow2_less_iff)
qed

lemma round_even_of_int [simp]: "round_even (of_int n) = n"
  by (simp add: round_even_def)

lemma round_even_mono: "x \<le> y \<Longrightarrow> round_even x \<le> round_even y"
proof -
  assume le: "x \<le> y"
  define f g where "f = \<lfloor>x\<rfloor>" and "g = \<lfloor>y\<rfloor>"
  have b: "of_int f \<le> x" "x < of_int f + 1" "of_int g \<le> y" "y < of_int g + 1"
    unfolding f_def g_def by linarith+
  have fg: "f \<le> g" using le by (simp add: f_def g_def floor_mono)
  have u: "round_even x \<le> f + 1" "g \<le> round_even y"
    by (auto simp: round_even_def Let_def f_def g_def)
  show ?thesis
  proof (cases "f = g")
    case True
    then show ?thesis
      using le by (auto simp: round_even_def Let_def simp flip: f_def g_def)
  next
    case False
    then show ?thesis using fg u by linarith
  qed
qed

lemma round_pos_exact: "a = of_int m * pow2 (ulp_exp a) \<Longrightarrow> round_pos a = a"
  by (metis nonzero_mult_div_cancel_right pow2_pos(3) round_even_of_int round_pos_def)

text \<open>Rounding never leaves the binade it starts in, except to its upper end.\<close>

lemma round_pos_le:
  assumes "0 < a" and "a \<le> pow2 k" and "ulp_exp a \<le> k"
  shows "round_pos a \<le> pow2 k"
proof -
  define u where "u = ulp_exp a"
  have "a / pow2 u \<le> pow2 (k - u)"
    using assms pow2_add [of "k - u" u] by (simp add: divide_le_eq u_def)
  moreover have k: "pow2 (k - u) = of_int (2 ^ nat (k - u))"
    using assms(3) by (simp add: pow2_def u_def)
  ultimately have "round_even (a / pow2 u) \<le> 2 ^ nat (k - u)"
    by (metis round_even_mono round_even_of_int)
  then have "of_int (round_even (a / pow2 u)) \<le> pow2 (k - u)" unfolding k of_int_le_iff .
  then have "of_int (round_even (a / pow2 u)) * pow2 u \<le> pow2 (k - u) * pow2 u"
    by (intro mult_right_mono) simp_all
  then show ?thesis by (simp add: round_pos_def u_def flip: pow2_add)
qed

lemma round_pos_ge:
  assumes "pow2 k \<le> a" and "ulp_exp a \<le> k"
  shows "pow2 k \<le> round_pos a"
proof -
  define u where "u = ulp_exp a"
  have "pow2 (k - u) \<le> a / pow2 u"
    using assms pow2_add [of "k - u" u] by (simp add: le_divide_eq u_def)
  moreover have k: "pow2 (k - u) = of_int (2 ^ nat (k - u))"
    using assms(2) by (simp add: pow2_def u_def)
  ultimately have "2 ^ nat (k - u) \<le> round_even (a / pow2 u)"
    by (metis round_even_mono round_even_of_int)
  then have "pow2 (k - u) \<le> of_int (round_even (a / pow2 u))" unfolding k of_int_le_iff .
  then have "pow2 (k - u) * pow2 u \<le> of_int (round_even (a / pow2 u)) * pow2 u"
    by (intro mult_right_mono) simp_all
  then show ?thesis by (simp add: round_pos_def u_def flip: pow2_add)
qed

lemma round_pos_mono:
  assumes "0 < a" and "a \<le> b"
  shows "round_pos a \<le> round_pos b"
proof (cases "ulp_exp a = ulp_exp b")
  case True
  then have "a / pow2 (ulp_exp a) \<le> b / pow2 (ulp_exp b)"
    using assms by (simp add: divide_right_mono)
  then show ?thesis
    unfolding round_pos_def True by (intro mult_right_mono) (simp_all add: round_even_mono)
next
  case False
  define k where "k = exponent b"
  have e: "exponent a \<le> exponent b" using assms by (rule exponent_mono)
  with False have lt: "exponent a < k" "-1022 < k" by (auto simp: ulp_exp_def k_def)
  have "a < pow2 (exponent a + 1)" using exponent_bounds(2) assms by simp
  also have "\<dots> \<le> pow2 k" using lt by (intro pow2_mono) simp
  finally have "round_pos a \<le> pow2 k"
    using assms lt by (intro round_pos_le) (simp_all add: ulp_exp_def)
  also have "\<dots> \<le> round_pos b"
    using exponent_bounds(1) [of b] assms lt by (intro round_pos_ge) (simp_all add: ulp_exp_def k_def)
  finally show ?thesis .
qed

lemma round_pos_nonneg: "0 < a \<Longrightarrow> 0 \<le> round_pos a"
proof -
  assume "0 < a"
  then have "of_int 0 \<le> a / pow2 (ulp_exp a)" by simp
  then have "0 \<le> round_even (a / pow2 (ulp_exp a))"
    by (metis round_even_mono round_even_of_int)
  then show ?thesis by (simp add: round_pos_def)
qed

text \<open>Rounding is monotone, and leaves the floats alone.\<close>

definition is_f64 :: "rat \<Rightarrow> bool" where
  "is_f64 r \<longleftrightarrow> round_f64 r = F64_Fin r"

lemma round_f64_mono: "r \<le> s \<Longrightarrow> f64_le (round_f64 r) (round_f64 s)"
proof -
  assume rs: "r \<le> s"
  consider "0 < r" | "r \<le> 0" "0 \<le> s" | "s < 0" by linarith
  then show ?thesis
  proof cases
    case 1
    with rs have "round_pos r \<le> round_pos s" by (simp add: round_pos_mono)
    with 1 rs show ?thesis by (auto simp: round_f64_def Let_def)
  next
    case 2
    then show ?thesis
      using round_pos_nonneg [of "- r"] round_pos_nonneg [of s]
      by (auto simp: round_f64_def Let_def sgn_if)
  next
    case 3
    with rs have "round_pos (- s) \<le> round_pos (- r)" by (simp add: round_pos_mono)
    with 3 rs show ?thesis by (auto simp: round_f64_def Let_def sgn_if)
  qed
qed

lemma round_f64_ge: "is_f64 c \<Longrightarrow> c \<le> x \<Longrightarrow> f64_le (F64_Fin c) (round_f64 x)"
  using round_f64_mono [of c x] by (simp add: is_f64_def)

lemma round_f64_le: "is_f64 c \<Longrightarrow> x \<le> c \<Longrightarrow> f64_le (round_f64 x) (F64_Fin c)"
  using round_f64_mono [of x c] by (simp add: is_f64_def)

lemma round_f64_not_nan [simp]: "round_f64 x \<noteq> F64_NaN"
  by (simp add: round_f64_def Let_def)

lemma round_f64_0 [simp]: "round_f64 0 = F64_Fin 0"
  by (simp add: round_f64_def)

lemma f64_of_int_exact:
  assumes "\<bar>n\<bar> \<le> 2 ^ 53"
  shows "f64_of_int n = F64_Fin (of_int n)"
proof (cases "n = 0")
  case True
  then show ?thesis by (simp add: f64_of_int_def round_f64_def)
next
  case False
  define a where "a = (of_int \<bar>n\<bar> :: rat)"
  have a: "0 < a" "1 \<le> a" using False by (simp_all add: a_def)
  have up: "a \<le> pow2 53" using assms by (simp add: a_def pow2_def flip: of_int_abs)
  have r: "round_pos a = a"
  proof (cases "a = pow2 53")
    case True
    have "ulp_exp a \<le> 53" using exponent_bounds(1) [OF a(1)] pow2_less_iff [of 53 "exponent a"]
      by (auto simp: ulp_exp_def True)
    then show ?thesis using round_pos_le [of a 53] round_pos_ge [of 53 a] a True by simp
  next
    case False
    with up have "pow2 (exponent a) < pow2 53" using exponent_bounds(1) [OF a(1)] by linarith
    then have "exponent a < 53" by (simp add: pow2_less_iff)
    moreover have "pow2 0 < pow2 (exponent a + 1)"
      using exponent_bounds(2) [OF a(1)] a(2) by (simp add: pow2_def)
    then have "0 \<le> exponent a" unfolding pow2_less_iff by simp
    ultimately have u: "ulp_exp a \<le> 0" by (simp add: ulp_exp_def)
    then have "a = of_int (\<bar>n\<bar> * 2 ^ nat (- ulp_exp a)) * pow2 (ulp_exp a)"
      by (simp add: a_def pow2_def)
    then show ?thesis by (rule round_pos_exact)
  qed
  have "a < pow2 1024" using up pow2_less_iff [of 53 1024] by linarith
  then have "round_f64 (of_int n) = F64_Fin (sgn (of_int n) * a)"
    using False r by (simp add: round_f64_def Let_def a_def)
  then show ?thesis by (simp add: f64_of_int_def a_def sgn_mult_abs)
qed

end
