(* ===== verification/HE_Enums.thy ===== *)
theory HE_Enums
  imports HE_Prelude
begin

text \<open>
  \<open>crates/domain/src/enums.rs\<close>: the domain enumerations with their wire strings (\<open>as_str\<close>) and
  readers (\<open>FromStr\<close>), and the legality table of the order life cycle. Constructors that several
  enumerations share carry a prefix naming their type (\<open>SM_Normal\<close> is \<open>SafetyMode::Normal\<close>).

  The locale \<open>str_codec\<close> states what the wire strings promise to Postgres and to the JSON API: the
  reader inverts the writer and accepts nothing else. It is interpreted on every enumeration that
  has both.
\<close>

section \<open>The enumerations\<close>

datatype side =
    Buy | Sell

fun side_as_str :: "side \<Rightarrow> string" where
  "side_as_str Buy = ''buy''"
| "side_as_str Sell = ''sell''"

definition side_from_str :: "string \<Rightarrow> side option" where
  "side_from_str s =
     (if s = ''buy'' then Some Buy
      else if s = ''sell'' then Some Sell
      else None)"

datatype order_type =
    OT_Limit | OT_Market | OT_StopMarket | OT_StopLimit

fun order_type_as_str :: "order_type \<Rightarrow> string" where
  "order_type_as_str OT_Limit = ''limit''"
| "order_type_as_str OT_Market = ''market''"
| "order_type_as_str OT_StopMarket = ''stop_market''"
| "order_type_as_str OT_StopLimit = ''stop_limit''"

definition order_type_from_str :: "string \<Rightarrow> order_type option" where
  "order_type_from_str s =
     (if s = ''limit'' then Some OT_Limit
      else if s = ''market'' then Some OT_Market
      else if s = ''stop_market'' then Some OT_StopMarket
      else if s = ''stop_limit'' then Some OT_StopLimit
      else None)"

datatype time_in_force =
    Gtc | Ioc | Alo | Gtx

fun time_in_force_as_str :: "time_in_force \<Rightarrow> string" where
  "time_in_force_as_str Gtc = ''Gtc''"
| "time_in_force_as_str Ioc = ''Ioc''"
| "time_in_force_as_str Alo = ''Alo''"
| "time_in_force_as_str Gtx = ''Gtx''"

definition time_in_force_from_str :: "string \<Rightarrow> time_in_force option" where
  "time_in_force_from_str s =
     (if s = ''Gtc'' then Some Gtc
      else if s = ''Ioc'' then Some Ioc
      else if s = ''Alo'' then Some Alo
      else if s = ''Gtx'' then Some Gtx
      else None)"

datatype order_status =
    Pending | Submitted | SubmitUnknown | Acknowledged | PartialFill
  | CancelUnknown | Filled | Cancelled | Rejected | Expired

fun order_status_as_str :: "order_status \<Rightarrow> string" where
  "order_status_as_str Pending = ''pending''"
| "order_status_as_str Submitted = ''submitted''"
| "order_status_as_str SubmitUnknown = ''submit_unknown''"
| "order_status_as_str Acknowledged = ''acknowledged''"
| "order_status_as_str PartialFill = ''partial_fill''"
| "order_status_as_str CancelUnknown = ''cancel_unknown''"
| "order_status_as_str Filled = ''filled''"
| "order_status_as_str Cancelled = ''cancelled''"
| "order_status_as_str Rejected = ''rejected''"
| "order_status_as_str Expired = ''expired''"

definition order_status_from_str :: "string \<Rightarrow> order_status option" where
  "order_status_from_str s =
     (if s = ''pending'' then Some Pending
      else if s = ''submitted'' then Some Submitted
      else if s = ''submit_unknown'' then Some SubmitUnknown
      else if s = ''acknowledged'' then Some Acknowledged
      else if s = ''partial_fill'' then Some PartialFill
      else if s = ''cancel_unknown'' then Some CancelUnknown
      else if s = ''filled'' then Some Filled
      else if s = ''cancelled'' then Some Cancelled
      else if s = ''rejected'' then Some Rejected
      else if s = ''expired'' then Some Expired
      else None)"

datatype strategy_status =
    SS_Stopped | SS_Starting | SS_Running | SS_Paused | SS_Error
  | SS_Stopping

fun strategy_status_as_str :: "strategy_status \<Rightarrow> string" where
  "strategy_status_as_str SS_Stopped = ''stopped''"
| "strategy_status_as_str SS_Starting = ''starting''"
| "strategy_status_as_str SS_Running = ''running''"
| "strategy_status_as_str SS_Paused = ''paused''"
| "strategy_status_as_str SS_Error = ''error''"
| "strategy_status_as_str SS_Stopping = ''stopping''"

datatype market_maker_lifecycle =
    MML_Stopped | MML_Warming | MML_Shadow | MML_Running | MML_Paused
  | MML_Draining | MML_Faulted

fun market_maker_lifecycle_as_str :: "market_maker_lifecycle \<Rightarrow> string" where
  "market_maker_lifecycle_as_str MML_Stopped = ''stopped''"
| "market_maker_lifecycle_as_str MML_Warming = ''warming''"
| "market_maker_lifecycle_as_str MML_Shadow = ''shadow''"
| "market_maker_lifecycle_as_str MML_Running = ''running''"
| "market_maker_lifecycle_as_str MML_Paused = ''paused''"
| "market_maker_lifecycle_as_str MML_Draining = ''draining''"
| "market_maker_lifecycle_as_str MML_Faulted = ''faulted''"

definition market_maker_lifecycle_from_str :: "string \<Rightarrow> market_maker_lifecycle option" where
  "market_maker_lifecycle_from_str s =
     (if s = ''stopped'' then Some MML_Stopped
      else if s = ''warming'' then Some MML_Warming
      else if s = ''shadow'' then Some MML_Shadow
      else if s = ''running'' then Some MML_Running
      else if s = ''paused'' then Some MML_Paused
      else if s = ''draining'' then Some MML_Draining
      else if s = ''faulted'' then Some MML_Faulted
      else None)"

datatype funding_arb_cycle_state =
    FA_EnteringSpot | FA_EnteringPerp | FA_CompensatingEntry | FA_Open | FA_Rebalancing
  | FA_ExitingPerp | FA_ExitingSpot | FA_Closed | FA_Faulted

fun funding_arb_cycle_state_as_str :: "funding_arb_cycle_state \<Rightarrow> string" where
  "funding_arb_cycle_state_as_str FA_EnteringSpot = ''entering_spot''"
| "funding_arb_cycle_state_as_str FA_EnteringPerp = ''entering_perp''"
| "funding_arb_cycle_state_as_str FA_CompensatingEntry = ''compensating_entry''"
| "funding_arb_cycle_state_as_str FA_Open = ''open''"
| "funding_arb_cycle_state_as_str FA_Rebalancing = ''rebalancing''"
| "funding_arb_cycle_state_as_str FA_ExitingPerp = ''exiting_perp''"
| "funding_arb_cycle_state_as_str FA_ExitingSpot = ''exiting_spot''"
| "funding_arb_cycle_state_as_str FA_Closed = ''closed''"
| "funding_arb_cycle_state_as_str FA_Faulted = ''faulted''"

definition funding_arb_cycle_state_from_str :: "string \<Rightarrow> funding_arb_cycle_state option" where
  "funding_arb_cycle_state_from_str s =
     (if s = ''entering_spot'' then Some FA_EnteringSpot
      else if s = ''entering_perp'' then Some FA_EnteringPerp
      else if s = ''compensating_entry'' then Some FA_CompensatingEntry
      else if s = ''open'' then Some FA_Open
      else if s = ''rebalancing'' then Some FA_Rebalancing
      else if s = ''exiting_perp'' then Some FA_ExitingPerp
      else if s = ''exiting_spot'' then Some FA_ExitingSpot
      else if s = ''closed'' then Some FA_Closed
      else if s = ''faulted'' then Some FA_Faulted
      else None)"

datatype quote_decision =
    QD_Quote | QD_Keep | QD_NoQuote

datatype quote_action =
    QA_Keep | QA_Place | QA_Cancel | QA_Modify | QA_CancelThenPlace
  | QA_NoAction | QA_BlockedUnknown

datatype action_budget_mode =
    ABM_Normal | ABM_Conserve | ABM_Critical | ABM_CancelOnly | ABM_Exhausted

fun action_budget_mode_as_str :: "action_budget_mode \<Rightarrow> string" where
  "action_budget_mode_as_str ABM_Normal = ''normal''"
| "action_budget_mode_as_str ABM_Conserve = ''conserve''"
| "action_budget_mode_as_str ABM_Critical = ''critical''"
| "action_budget_mode_as_str ABM_CancelOnly = ''cancel_only''"
| "action_budget_mode_as_str ABM_Exhausted = ''exhausted''"

datatype safety_mode =
    SM_Starting | SM_Reconciling | SM_Normal | SM_ReduceOnly | SM_CancelOnly
  | SM_Halting | SM_Halted | SM_Recovering

fun safety_mode_as_str :: "safety_mode \<Rightarrow> string" where
  "safety_mode_as_str SM_Starting = ''starting''"
| "safety_mode_as_str SM_Reconciling = ''reconciling''"
| "safety_mode_as_str SM_Normal = ''normal''"
| "safety_mode_as_str SM_ReduceOnly = ''reduce_only''"
| "safety_mode_as_str SM_CancelOnly = ''cancel_only''"
| "safety_mode_as_str SM_Halting = ''halting''"
| "safety_mode_as_str SM_Halted = ''halted''"
| "safety_mode_as_str SM_Recovering = ''recovering''"

definition safety_mode_from_str :: "string \<Rightarrow> safety_mode option" where
  "safety_mode_from_str s =
     (if s = ''starting'' then Some SM_Starting
      else if s = ''reconciling'' then Some SM_Reconciling
      else if s = ''normal'' then Some SM_Normal
      else if s = ''reduce_only'' then Some SM_ReduceOnly
      else if s = ''cancel_only'' then Some SM_CancelOnly
      else if s = ''halting'' then Some SM_Halting
      else if s = ''halted'' then Some SM_Halted
      else if s = ''recovering'' then Some SM_Recovering
      else None)"

datatype margin_mode =
    MM_Cross | MM_Isolated

datatype ws_channel =
    WS_L2Book | WS_Trades | WS_Candle | WS_AllMids | WS_ActiveAssetCtx
  | WS_ActiveSpotAssetCtx | WS_UserFills | WS_OrderUpdates

fun ws_channel_as_str :: "ws_channel \<Rightarrow> string" where
  "ws_channel_as_str WS_L2Book = ''l2Book''"
| "ws_channel_as_str WS_Trades = ''trades''"
| "ws_channel_as_str WS_Candle = ''candle''"
| "ws_channel_as_str WS_AllMids = ''allMids''"
| "ws_channel_as_str WS_ActiveAssetCtx = ''activeAssetCtx''"
| "ws_channel_as_str WS_ActiveSpotAssetCtx = ''activeSpotAssetCtx''"
| "ws_channel_as_str WS_UserFills = ''userFills''"
| "ws_channel_as_str WS_OrderUpdates = ''orderUpdates''"

datatype strategy_type =
    ST_MarketMaker | ST_TrendFollow | ST_FundingArb | ST_Legacy

fun strategy_type_as_str :: "strategy_type \<Rightarrow> string" where
  "strategy_type_as_str ST_MarketMaker = ''market_maker''"
| "strategy_type_as_str ST_TrendFollow = ''trend_follow''"
| "strategy_type_as_str ST_FundingArb = ''funding_arb''"
| "strategy_type_as_str ST_Legacy = ''legacy''"

definition strategy_type_from_str :: "string \<Rightarrow> strategy_type option" where
  "strategy_type_from_str s =
     (if s = ''market_maker'' then Some ST_MarketMaker
      else if s = ''trend_follow'' then Some ST_TrendFollow
      else if s = ''funding_arb'' then Some ST_FundingArb
      else if s = ''legacy'' then Some ST_Legacy
      else None)"

datatype system_state =
    SYS_Starting | SYS_Reconciling | SYS_Normal | SYS_ReduceOnly | SYS_CancelOnly
  | SYS_Halting | SYS_Halted | SYS_Recovering | SYS_Stopping

fun system_state_as_str :: "system_state \<Rightarrow> string" where
  "system_state_as_str SYS_Starting = ''starting''"
| "system_state_as_str SYS_Reconciling = ''reconciling''"
| "system_state_as_str SYS_Normal = ''normal''"
| "system_state_as_str SYS_ReduceOnly = ''reduce_only''"
| "system_state_as_str SYS_CancelOnly = ''cancel_only''"
| "system_state_as_str SYS_Halting = ''halting''"
| "system_state_as_str SYS_Halted = ''halted''"
| "system_state_as_str SYS_Recovering = ''recovering''"
| "system_state_as_str SYS_Stopping = ''stopping''"


section \<open>Order life cycle\<close>

definition is_terminal :: "order_status \<Rightarrow> bool" where
  "is_terminal s \<longleftrightarrow> s = Filled \<or> s = Cancelled \<or> s = Rejected \<or> s = Expired"

fun can_transition :: "order_status \<Rightarrow> order_status \<Rightarrow> bool" where
  "can_transition Pending t \<longleftrightarrow> t \<in> set [Submitted, Rejected, Cancelled]"
| "can_transition Submitted t \<longleftrightarrow> t \<in> set [Acknowledged, SubmitUnknown, Rejected, Filled, Cancelled,
     CancelUnknown, PartialFill, Expired]"
| "can_transition SubmitUnknown t \<longleftrightarrow> t \<in> set [Acknowledged, PartialFill, Filled, Cancelled,
     CancelUnknown, Rejected, Expired]"
| "can_transition Acknowledged t \<longleftrightarrow> t \<in> set [PartialFill, Filled, Cancelled, CancelUnknown, Expired]"
| "can_transition PartialFill t \<longleftrightarrow> t \<in> set [PartialFill, Filled, Cancelled, CancelUnknown, Expired]"
| "can_transition CancelUnknown t \<longleftrightarrow> t \<in> set [Acknowledged, PartialFill, Filled, Cancelled, Rejected,
     Expired]"
| "can_transition _ t \<longleftrightarrow> False"

section \<open>The wire contract\<close>

locale str_codec =
  fixes as_str :: "'a \<Rightarrow> string" and from_str :: "string \<Rightarrow> 'a option"
  assumes read_write: "from_str (as_str x) = Some x"
    and read_only_written: "from_str s = Some x \<Longrightarrow> s = as_str x"
begin

lemma read_iff: "from_str s = Some x \<longleftrightarrow> s = as_str x"
  using read_write read_only_written by blast

lemma write_inject: "as_str x = as_str y \<longleftrightarrow> x = y"
  by (metis option.inject read_write)

lemma reject_iff: "from_str s = None \<longleftrightarrow> s \<notin> range as_str"
  by (metis not_Some_eq rangeE rangeI read_iff)

end

interpretation side_codec: str_codec side_as_str side_from_str
proof
  show "side_from_str (side_as_str x) = Some x" for x by (cases x) (simp_all add: side_from_str_def)
  show "side_from_str s = Some x \<Longrightarrow> s = side_as_str x" for s x
    by (simp add: side_from_str_def split: if_splits; fastforce)
qed

interpretation order_type_codec: str_codec order_type_as_str order_type_from_str
proof
  show "order_type_from_str (order_type_as_str x) = Some x" for x by (cases x) (simp_all add: order_type_from_str_def)
  show "order_type_from_str s = Some x \<Longrightarrow> s = order_type_as_str x" for s x
    by (simp add: order_type_from_str_def split: if_splits; fastforce)
qed

interpretation time_in_force_codec: str_codec time_in_force_as_str time_in_force_from_str
proof
  show "time_in_force_from_str (time_in_force_as_str x) = Some x" for x by (cases x) (simp_all add: time_in_force_from_str_def)
  show "time_in_force_from_str s = Some x \<Longrightarrow> s = time_in_force_as_str x" for s x
    by (simp add: time_in_force_from_str_def split: if_splits; fastforce)
qed

interpretation order_status_codec: str_codec order_status_as_str order_status_from_str
proof
  show "order_status_from_str (order_status_as_str x) = Some x" for x by (cases x) (simp_all add: order_status_from_str_def)
  show "order_status_from_str s = Some x \<Longrightarrow> s = order_status_as_str x" for s x
    by (simp add: order_status_from_str_def split: if_splits; fastforce)
qed

interpretation market_maker_lifecycle_codec: str_codec market_maker_lifecycle_as_str market_maker_lifecycle_from_str
proof
  show "market_maker_lifecycle_from_str (market_maker_lifecycle_as_str x) = Some x" for x by (cases x) (simp_all add: market_maker_lifecycle_from_str_def)
  show "market_maker_lifecycle_from_str s = Some x \<Longrightarrow> s = market_maker_lifecycle_as_str x" for s x
    by (simp add: market_maker_lifecycle_from_str_def split: if_splits; fastforce)
qed

interpretation funding_arb_cycle_state_codec: str_codec funding_arb_cycle_state_as_str funding_arb_cycle_state_from_str
proof
  show "funding_arb_cycle_state_from_str (funding_arb_cycle_state_as_str x) = Some x" for x by (cases x) (simp_all add: funding_arb_cycle_state_from_str_def)
  show "funding_arb_cycle_state_from_str s = Some x \<Longrightarrow> s = funding_arb_cycle_state_as_str x" for s x
    by (simp add: funding_arb_cycle_state_from_str_def split: if_splits; fastforce)
qed

interpretation safety_mode_codec: str_codec safety_mode_as_str safety_mode_from_str
proof
  show "safety_mode_from_str (safety_mode_as_str x) = Some x" for x by (cases x) (simp_all add: safety_mode_from_str_def)
  show "safety_mode_from_str s = Some x \<Longrightarrow> s = safety_mode_as_str x" for s x
    by (simp add: safety_mode_from_str_def split: if_splits; fastforce)
qed

interpretation strategy_type_codec: str_codec strategy_type_as_str strategy_type_from_str
proof
  show "strategy_type_from_str (strategy_type_as_str x) = Some x" for x by (cases x) (simp_all add: strategy_type_from_str_def)
  show "strategy_type_from_str s = Some x \<Longrightarrow> s = strategy_type_as_str x" for s x
    by (simp add: strategy_type_from_str_def split: if_splits; fastforce)
qed
section \<open>Facts on the life cycle\<close>

lemma terminal_iff_no_successor: "is_terminal s \<longleftrightarrow> (\<forall>t. \<not> can_transition s t)"
  by (cases s) (auto simp: is_terminal_def)

text \<open>The stage of a status: it never goes down along a legal transition.\<close>

fun stage :: "order_status \<Rightarrow> nat" where
  "stage Pending = 0"
| "stage Submitted = 1"
| "stage SubmitUnknown = 2"
| "stage Acknowledged = 3"
| "stage PartialFill = 3"
| "stage CancelUnknown = 3"
| "stage _ = 4"

lemma can_transition_stage: "can_transition s t \<Longrightarrow> stage s \<le> stage t"
  by (cases s; cases t) simp_all

lemma can_transition_stage_less: "can_transition s t \<Longrightarrow> stage s < 3 \<Longrightarrow> stage s < stage t"
  by (cases s; cases t) simp_all

lemma stage_terminal: "stage s = 4 \<longleftrightarrow> is_terminal s"
  by (cases s) (simp_all add: is_terminal_def)

lemma live_can_cancel: "\<not> is_terminal s \<Longrightarrow> can_transition s Cancelled"
  by (cases s) (simp_all add: is_terminal_def)

end
