(* ===== verification/HE_Models.thy ===== *)
theory HE_Models
  imports HE_Float HE_Enums
begin

text \<open>
  \<open>crates/domain/src/models.rs\<close> and \<open>error.rs\<close>: the order, account, risk and market records that the
  components pass to each other, their derived reads, and the error hierarchy with its codes.
  \<open>DateTime<Utc>\<close> is an \<open>int\<close> of nanoseconds since the epoch (chrono's resolution), \<open>time_ns\<close>.
  Integer counters of the records are \<open>int\<close> or \<open>nat\<close>.
\<close>

type_synonym time_ns = int

text \<open>\<open>TimeDelta::num_milliseconds\<close> and \<open>num_seconds\<close> truncate towards zero.\<close>

definition num_milliseconds :: "time_ns \<Rightarrow> int" where "num_milliseconds d = d sdiv 1000000"
definition num_seconds :: "time_ns \<Rightarrow> int" where "num_seconds d = d sdiv 1000000000"

text \<open>\<open>Decimal::from_str_lenient(s).unwrap()\<close> of a literal.\<close>

definition unwrap_lenient :: "string \<Rightarrow> decimal option" where
  "unwrap_lenient s = (case from_str_lenient s of Inr d \<Rightarrow> Some d | Inl _ \<Rightarrow> None)"

section \<open>Errors\<close>

datatype hypeedge_error =
    EventBusBackpressure string
  | Config string
  | MarketData string
  | WebSocketDisconnected
  | RateLimitExceeded string string "f64 option"
  | Execution string
  | OrderRejected string "string option" "string option"
  | OrderTimeout string "string option"
  | OrderNormalization string string string
  | Signing string
  | Nonce string
  | RiskCheck string
  | RiskCheckTimeout
  | KillSwitchTriggered string "string option"
  | Storage string
  | ClickHouse string
  | Postgres string
  | Reconciliation string
  | InvalidStateTransition order_status order_status "string option"
  | TradingCommand string
  | TradingCommandConflict string
  | TradingCommandPersistence string
  | StrategyRegistration string
  | StrategyLifecycle string

fun error_code :: "hypeedge_error \<Rightarrow> string" where
  "error_code (EventBusBackpressure _) = ''event_bus_backpressure''"
| "error_code (Config _) = ''config_error''"
| "error_code (MarketData _) = ''market_data_error''"
| "error_code WebSocketDisconnected = ''websocket_disconnected''"
| "error_code (RateLimitExceeded _ _ _) = ''rate_limit_exceeded''"
| "error_code (Execution _) = ''execution_error''"
| "error_code (OrderRejected _ _ _) = ''order_rejected''"
| "error_code (OrderTimeout _ _) = ''order_timeout''"
| "error_code (OrderNormalization _ _ _) = ''order_normalization''"
| "error_code (Signing _) = ''signing_error''"
| "error_code (Nonce _) = ''nonce_error''"
| "error_code (RiskCheck _) = ''risk_check_error''"
| "error_code RiskCheckTimeout = ''risk_check_timeout''"
| "error_code (KillSwitchTriggered _ _) = ''kill_switch_triggered''"
| "error_code (Storage _) = ''storage_error''"
| "error_code (ClickHouse _) = ''clickhouse_error''"
| "error_code (Postgres _) = ''postgres_error''"
| "error_code (Reconciliation _) = ''reconciliation_error''"
| "error_code (InvalidStateTransition _ _ _) = ''invalid_state_transition''"
| "error_code (TradingCommand _) = ''trading_command_error''"
| "error_code (TradingCommandConflict _) = ''trading_command_conflict''"
| "error_code (TradingCommandPersistence _) = ''trading_command_persistence''"
| "error_code (StrategyRegistration _) = ''strategy_registration_error''"
| "error_code (StrategyLifecycle _) = ''strategy_lifecycle_error''"

text \<open>\<open>{:?}\<close> of an \<open>Option<String>\<close>, with the escapes of \<open>str::escape_debug\<close> on ASCII.\<close>

definition hex_char :: "nat \<Rightarrow> char" where
  "hex_char n = (if n < 10 then char_of (48 + n) else char_of (87 + n))"

definition escape_debug_char :: "char \<Rightarrow> string" where
  "escape_debug_char c =
     (let n = (of_char c :: nat) in
      if n = 0 then [CHR 0x5C, CHR ''0''] else if n = 9 then [CHR 0x5C, CHR ''t'']
      else if n = 10 then [CHR 0x5C, CHR ''n''] else if n = 13 then [CHR 0x5C, CHR ''r'']
      else if n = 34 then [CHR 0x5C, CHR 0x22] else if n = 92 then [CHR 0x5C, CHR 0x5C]
      else if n < 16 then [CHR 0x5C, CHR ''u'', CHR 0x7B, hex_char n, CHR 0x7D]
      else if n < 32 \<or> n = 127 then
        [CHR 0x5C, CHR ''u'', CHR 0x7B, hex_char (n div 16), hex_char (n mod 16), CHR 0x7D]
      else [c])"

definition debug_str :: "string \<Rightarrow> string" where
  "debug_str s = [CHR 0x22] @ concat (map escape_debug_char s) @ [CHR 0x22]"

fun debug_opt :: "string option \<Rightarrow> string" where
  "debug_opt None = ''None''"
| "debug_opt (Some s) = ''Some('' @ debug_str s @ '')''"

text \<open>The \<open>#[error]\<close> formats.\<close>

fun error_display :: "hypeedge_error \<Rightarrow> string" where
  "error_display (EventBusBackpressure e) = ''reliable event queue is full: event_type='' @ e"
| "error_display (Config m) = ''configuration error: '' @ m"
| "error_display (MarketData m) = ''market data error: '' @ m"
| "error_display WebSocketDisconnected = ''websocket connection lost''"
| "error_display (RateLimitExceeded m l _) = ''rate limit exceeded ('' @ l @ ''): '' @ m"
| "error_display (Execution m) = ''execution error: '' @ m"
| "error_display (OrderRejected m c r) = ''order rejected by exchange: '' @ m @ '' (cloid='' @ debug_opt c @
     '' reason='' @ debug_opt r @ '')''"
| "error_display (OrderTimeout m c) = ''order submission timed out: '' @ m @ '' (cloid='' @ debug_opt c @ '')''"
| "error_display (OrderNormalization m s r) =
     ''order cannot be represented by the instrument'' @ [CHR 0x27] @ ''s trading rules: '' @ m @
     '' (symbol='' @ s @ '' reason='' @ r @ '')''"
| "error_display (Signing m) = ''order signing failed: '' @ m"
| "error_display (Nonce m) = ''nonce management error: '' @ m"
| "error_display (RiskCheck m) = ''risk check failed: '' @ m"
| "error_display RiskCheckTimeout = ''risk check timed out (fail-safe: treated as rejection)''"
| "error_display (KillSwitchTriggered m _) = ''kill switch triggered: '' @ m"
| "error_display (Storage m) = ''storage error: '' @ m"
| "error_display (ClickHouse m) = ''clickhouse error: '' @ m"
| "error_display (Postgres m) = ''postgres error: '' @ m"
| "error_display (Reconciliation m) = ''reconciliation error: '' @ m"
| "error_display (InvalidStateTransition f t c) = ''invalid transition: '' @ order_status_as_str f @ '' -> '' @
     order_status_as_str t @ '' (cloid='' @ debug_opt c @ '')''"
| "error_display (TradingCommand m) = ''trading command error: '' @ m"
| "error_display (TradingCommandConflict m) = ''command id reused with a different normalized payload: '' @ m"
| "error_display (TradingCommandPersistence m) = ''durable command boundary unavailable (fail closed): '' @ m"
| "error_display (StrategyRegistration m) = ''strategy registration error: '' @ m"
| "error_display (StrategyLifecycle m) = ''strategy lifecycle error: '' @ m"

section \<open>Market data\<close>

record l2_level =
  lv_price :: decimal
  lv_size :: decimal

record l2_book_snapshot =
  sn_symbol :: string
  sn_bids :: "l2_level list"
  sn_asks :: "l2_level list"
  sn_timestamp :: int
  sn_local_ts :: time_ns
  sn_version :: nat
  sn_generation :: nat

fun first_level :: "l2_level list \<Rightarrow> l2_level option" where
  "first_level [] = None"
| "first_level (l # _) = Some l"

definition snapshot_best_bid :: "l2_book_snapshot \<Rightarrow> l2_level option" where
  "snapshot_best_bid s = first_level (sn_bids s)"

definition snapshot_best_ask :: "l2_book_snapshot \<Rightarrow> l2_level option" where
  "snapshot_best_ask s = first_level (sn_asks s)"

text \<open>The mid divides by two, which never panics: the inner option of \<open>dec_div\<close> is always \<open>Some\<close>
  (\<open>snapshot_mid_no_panic\<close>).\<close>

definition snapshot_mid_price :: "l2_book_snapshot \<Rightarrow> decimal option" where
  "snapshot_mid_price s =
     (case (snapshot_best_bid s, snapshot_best_ask s) of
        (Some b, Some a) \<Rightarrow> dec_div (lv_price b + lv_price a) (from_i128_unchecked 2)
      | _ \<Rightarrow> None)"

text \<open>The spread in basis points: \<open>(ask - bid) / mid\<close> through its decimal text to a float.\<close>

definition snapshot_spread_bps :: "l2_book_snapshot \<Rightarrow> f64 option" where
  "snapshot_spread_bps s =
     (case snapshot_mid_price s of
        None \<Rightarrow> None
      | Some mid \<Rightarrow>
          if is_zero mid then None
          else (case (snapshot_best_bid s, snapshot_best_ask s) of
                  (Some b, Some a) \<Rightarrow>
                    map_option (\<lambda>spread. f64_mul (dec_to_f64 spread) (f64_of_int 10000))
                      (dec_div (lv_price a - lv_price b) mid)
                | _ \<Rightarrow> None))"

section \<open>Orders\<close>

record order_intent =
  oi_symbol :: string
  oi_side :: side
  oi_size :: decimal
  oi_price :: "decimal option"
  oi_order_type :: order_type
  oi_tif :: time_in_force
  oi_strategy_id :: "string option"
  oi_sub_account :: "string option"
  oi_reduce_only :: bool
  oi_cloid :: "string option"
  oi_client_id :: "string option"
  oi_is_spot :: bool
  oi_risk_reducing :: bool
  oi_max_slippage_bps :: nat

definition intent_validate :: "order_intent \<Rightarrow> hypeedge_error + unit" where
  "intent_validate i =
     (if \<not> (1 \<le> oi_max_slippage_bps i \<and> oi_max_slippage_bps i \<le> 500)
      then Inl (Config ''max_slippage_bps must be between 1 and 500'') else Inr ())"

record order =
  od_cloid :: string
  od_symbol :: string
  od_side :: side
  od_size :: decimal
  od_price :: "decimal option"
  od_order_type :: order_type
  od_tif :: time_in_force
  od_status :: order_status
  od_strategy_id :: "string option"
  od_sub_account :: "string option"
  od_reduce_only :: bool
  od_is_spot :: bool
  od_risk_reducing :: bool
  od_max_slippage_bps :: nat
  od_exchange_oid :: "string option"
  od_filled_size :: decimal
  od_avg_fill_price :: "decimal option"
  od_submitted_at :: "time_ns option"
  od_acknowledged_at :: "time_ns option"
  od_filled_at :: "time_ns option"
  od_error_message :: "string option"
  od_created_at :: time_ns

definition order_new :: "time_ns \<Rightarrow> string \<Rightarrow> string \<Rightarrow> side \<Rightarrow> decimal \<Rightarrow> decimal option \<Rightarrow>
    order_type \<Rightarrow> time_in_force \<Rightarrow> order" where
  "order_new now cloid symbol sd sz price ot tif =
     \<lparr>od_cloid = cloid, od_symbol = symbol, od_side = sd, od_size = sz, od_price = price,
      od_order_type = ot, od_tif = tif, od_status = Pending, od_strategy_id = None,
      od_sub_account = None, od_reduce_only = False, od_is_spot = False, od_risk_reducing = False,
      od_max_slippage_bps = 50, od_exchange_oid = None, od_filled_size = ZERO,
      od_avg_fill_price = None, od_submitted_at = None, od_acknowledged_at = None,
      od_filled_at = None, od_error_message = None, od_created_at = now\<rparr>"

definition order_is_terminal :: "order \<Rightarrow> bool" where
  "order_is_terminal o' = is_terminal (od_status o')"

definition remaining_size :: "order \<Rightarrow> decimal" where
  "remaining_size o' = od_size o' - od_filled_size o'"

section \<open>Account\<close>

record position =
  ps_symbol :: string
  ps_size :: decimal
  ps_entry_price :: "decimal option"
  ps_mark_price :: "decimal option"
  ps_unrealized_pnl :: "decimal option"
  ps_leverage :: nat
  ps_liquidation_price :: "decimal option"
  ps_sub_account :: "string option"
  ps_strategy_id :: "string option"

definition position_is_long :: "position \<Rightarrow> bool" where "position_is_long p = is_positive (ps_size p)"
definition position_is_short :: "position \<Rightarrow> bool" where "position_is_short p = is_negative (ps_size p)"
definition position_is_flat :: "position \<Rightarrow> bool" where "position_is_flat p = is_zero (ps_size p)"

record spot_balance =
  sb_token :: string
  sb_total :: decimal
  sb_hold :: decimal
  sb_entry_ntl :: decimal
  sb_sub_account :: "string option"
  sb_updated_at :: time_ns

definition spot_available :: "spot_balance \<Rightarrow> decimal" where
  "spot_available b =
     (let available = sb_total b - sb_hold b in if is_negative available then ZERO else available)"

record account_state =
  ac_equity :: decimal
  ac_available_balance :: decimal
  ac_total_margin_used :: decimal
  ac_total_unrealized_pnl :: decimal
  ac_peak_equity :: decimal
  ac_sub_account :: "string option"

text \<open>Drawdown from the peak as a fraction; a peak that is not positive counts as no drawdown.\<close>

definition drawdown_pct :: "account_state \<Rightarrow> f64" where
  "drawdown_pct a =
     (if ac_peak_equity a \<le> ZERO then F64_Fin 0
      else case dec_div (ac_equity a) (ac_peak_equity a) of
             None \<Rightarrow> F64_Fin 0
           | Some q \<Rightarrow> f64_max (dec_to_f64 (ONE - q)) (F64_Fin 0))"

section \<open>Risk\<close>

record risk_check_result =
  rc_passed :: bool
  rc_reason :: "string option"
  rc_checked_limits :: "string list"

record risk_limits =
  rl_max_position_pct :: f64
  rl_max_strategy_loss_pct :: f64
  rl_max_drawdown_pct :: f64
  rl_max_leverage :: nat
  rl_timeout_ms :: nat
  rl_account_stale_seconds :: f64

definition risk_limits_default :: risk_limits where
  "risk_limits_default =
     \<lparr>rl_max_position_pct = round_f64 (20 / 100), rl_max_strategy_loss_pct = round_f64 (5 / 100),
      rl_max_drawdown_pct = round_f64 (10 / 100), rl_max_leverage = 5, rl_timeout_ms = 500,
      rl_account_stale_seconds = F64_Fin 360\<rparr>"

section \<open>Facts\<close>

lemma two_decimal: "raw (from_i128_unchecked 2) = 2 * SCALE_I128"
  by (simp add: from_i128_unchecked_def SCALE_I128_def in_i128_def i128_bounds)

lemma snapshot_mid_no_panic:
  "snapshot_best_bid s = Some b \<Longrightarrow> snapshot_best_ask s = Some a \<Longrightarrow> \<exists>m. snapshot_mid_price s = Some m"
  by (simp add: snapshot_mid_price_def two_decimal)

lemma position_trichotomy:
  "position_is_long p \<or> position_is_short p \<or> position_is_flat p"
  "\<not> (position_is_long p \<and> position_is_short p)"
  by (auto simp: position_is_long_def position_is_short_def position_is_flat_def is_positive_def
      is_negative_def is_zero_def)

lemma spot_available_nonneg: "0 \<le> raw (spot_available b)"
  by (simp add: spot_available_def Let_def is_negative_def)

end
