(* ===== verification/HE_Orders.thy ===== *)
theory HE_Orders
  imports HE_Models
begin

text \<open>
  \<open>crates/trading/src/execution/order_state.rs\<close>: the checked transition of an order. The order is
  passed and returned; an illegal move returns the error and, as in the code, no changed order.
  A life of an order is a sequence of requested statuses, applied in turn.
\<close>

definition transition :: "order \<Rightarrow> order_status \<Rightarrow> hypeedge_error + order" where
  "transition o' new_status =
     (let current = od_status o' in
      if \<not> can_transition current new_status
      then Inl (InvalidStateTransition current new_status (Some (od_cloid o')))
      else Inr (o'\<lparr>od_status := new_status\<rparr>))"

definition sm_is_terminal :: "order \<Rightarrow> bool" where
  "sm_is_terminal o' = is_terminal (od_status o')"

definition sm_can_transition :: "order \<Rightarrow> order_status \<Rightarrow> bool" where
  "sm_can_transition o' s = can_transition (od_status o') s"

text \<open>One attempt: the order after it, unchanged when the transition is refused.\<close>

definition attempt :: "order \<Rightarrow> order_status \<Rightarrow> order" where
  "attempt o' s = (case transition o' s of Inl _ \<Rightarrow> o' | Inr n \<Rightarrow> n)"

text \<open>The statuses an order can take one after the other.\<close>

inductive life :: "order \<Rightarrow> order \<Rightarrow> bool" where
  life_refl: "life o' o'"
| life_step: "life a b \<Longrightarrow> transition b s = Inr c \<Longrightarrow> life a c"

inductive_cases life_stepE: "life a c"

lemma transition_Inr_iff:
  "transition o' s = Inr n \<longleftrightarrow> can_transition (od_status o') s \<and> n = o'\<lparr>od_status := s\<rparr>"
  by (auto simp: transition_def Let_def)

lemma transition_Inl_iff:
  "transition o' s = Inl e \<longleftrightarrow> \<not> can_transition (od_status o') s \<and>
     e = InvalidStateTransition (od_status o') s (Some (od_cloid o'))"
  by (auto simp: transition_def Let_def)

lemmas transition_iffs = transition_Inr_iff transition_Inl_iff

text \<open>Nothing but the status changes.\<close>

lemma transition_frame: "transition o' s = Inr n \<Longrightarrow> n\<lparr>od_status := od_status o'\<rparr> = o' \<and> od_status n = s"
  by (auto simp: transition_iffs)

lemma life_frame: "life a b \<Longrightarrow> b\<lparr>od_status := od_status a\<rparr> = a"
proof (induction rule: life.induct)
  case (life_step a b s c)
  have "c\<lparr>od_status := od_status a\<rparr> = b\<lparr>od_status := od_status a\<rparr>"
    using life_step.hyps(2) by (simp add: transition_iffs)
  with life_step.IH show ?case by simp
qed simp

lemma life_stage: "life a b \<Longrightarrow> stage (od_status a) \<le> stage (od_status b)"
proof (induction rule: life.induct)
  case (life_step a b s c)
  then have "stage (od_status b) \<le> stage (od_status c)"
    by (auto simp: transition_iffs can_transition_stage)
  with life_step.IH show ?case by simp
qed simp

lemma terminal_stuck: "is_terminal (od_status b) \<Longrightarrow> transition b s \<noteq> Inr c"
  using terminal_iff_no_successor by (auto simp: transition_iffs)

text \<open>C10: along any sequence of accepted transitions an order only moves forward through its stages
  and keeps every field but its status; a terminal order never changes again, and an order that is
  not terminal can always still be moved to Cancelled.\<close>

theorem order_life_forward:
  assumes "life a b"
  shows "stage (od_status a) \<le> stage (od_status b) \<and> b\<lparr>od_status := od_status a\<rparr> = a \<and>
    (is_terminal (od_status a) \<longrightarrow> b = a) \<and>
    (\<not> is_terminal (od_status b) \<longrightarrow> (\<exists>c. transition b Cancelled = Inr c \<and> is_terminal (od_status c)))"
proof (intro conjI impI)
  show "b = a" if "is_terminal (od_status a)"
    using assms that by (induction rule: life.induct) (auto dest: terminal_stuck)
  show "\<exists>c. transition b Cancelled = Inr c \<and> is_terminal (od_status c)" if "\<not> is_terminal (od_status b)"
    using live_can_cancel [OF that] by (auto simp: transition_iffs is_terminal_def)
qed (rule life_stage [OF assms], rule life_frame [OF assms])

definition sample_order :: order where
  "sample_order = order_new 0 ''0xdead'' ''BTC'' Buy ONE None OT_Limit Gtc"

theorem order_life_forward_witness:
  "life sample_order (sample_order\<lparr>od_status := Submitted\<rparr>) \<and>
   stage (od_status sample_order) \<le> stage Submitted"
proof -
  have l: "life sample_order (sample_order\<lparr>od_status := Submitted\<rparr>)"
    by (rule life_step [OF life_refl, of _ Submitted])
      (simp add: transition_iffs sample_order_def order_new_def)
  from order_life_forward [OF l] l show ?thesis by simp
qed

end
