(* ===== verification/HE_Normalizer.thy ===== *)
theory HE_Normalizer
  imports HE_Models
begin

text \<open>
  \<open>crates/trading/src/execution/normalizer.rs\<close>: the gate every order intent passes before risk
  admission. The instrument lookup (\<open>InstrumentSpecProvider\<close>) is the argument \<open>get\<close>. Step rounding
  divides by the lot and tick sizes and panics on zero, so \<open>normalize\<close> returns an option, \<open>None\<close>
  for the panic; \<open>normalize_no_panic\<close> shows that a validated specification excludes it.
\<close>

section \<open>Specification\<close>

record instrument_spec =
  is_symbol :: string
  is_tick_size :: decimal
  is_lot_size :: decimal
  is_min_size :: decimal
  is_min_notional :: "decimal option"
  is_max_price_decimals :: "nat option"
  is_max_significant_figures :: nat

definition spec_new :: "string \<Rightarrow> decimal \<Rightarrow> decimal \<Rightarrow> decimal \<Rightarrow> instrument_spec" where
  "spec_new symbol tick lot min_sz =
     \<lparr>is_symbol = symbol, is_tick_size = tick, is_lot_size = lot, is_min_size = min_sz,
      is_min_notional = None, is_max_price_decimals = None, is_max_significant_figures = 5\<rparr>"

definition spec_validate :: "instrument_spec \<Rightarrow> string + unit" where
  "spec_validate s =
     (if is_tick_size s \<le> ZERO then Inl ''tick_size must be positive''
      else if is_lot_size s \<le> ZERO then Inl ''lot_size must be positive''
      else if is_min_size s \<le> ZERO then Inl ''min_size must be positive''
      else if (case is_min_notional s of None \<Rightarrow> False | Some m \<Rightarrow> m \<le> ZERO)
        then Inl ''min_notional must be positive when configured''
      else if is_max_significant_figures s = 0 then Inl ''max_significant_figures must be positive''
      else Inr ())"

section \<open>Price rounding\<close>

definition is_sign :: "char \<Rightarrow> bool" where "is_sign c \<longleftrightarrow> c = CHR ''-'' \<or> c = CHR ''+''"

text \<open>Python's \<open>Decimal.adjusted()\<close>, on the exact text.\<close>

definition adjusted :: "decimal \<Rightarrow> int" where
  "adjusted d =
     (if is_zero d then 0
      else let s = trim_start_matches is_sign (to_exact_string d);
               int_part = takeWhile (\<lambda>c. c \<noteq> CHR ''.'') s
           in case dropWhile (\<lambda>c. c \<noteq> CHR ''.'') s of
                _ # frac_part \<Rightarrow>
                  if int_part \<noteq> [] \<and> int_part \<noteq> ''0''
                  then int (length (trim_start_matches (\<lambda>c. c = CHR ''0'') int_part)) - 1
                  else let leading_zeros = int (length (takeWhile (\<lambda>c. c = CHR ''0'') frac_part))
                       in if leading_zeros = 0 then - 1 else - leading_zeros - 1
              | [] \<Rightarrow> int (length s) - 1)"

definition dynamic_step :: "decimal \<Rightarrow> instrument_spec \<Rightarrow> nat \<Rightarrow> decimal" where
  "dynamic_step value spec max_decimals =
     (let significant_figures = wrap_i32 (int (max (is_max_significant_figures spec) 1));
          significant_decimals = max (wrap_i32 (wrap_i32 (significant_figures - adjusted value) - 1)) 0;
          allowed_decimals = max 0 (min 18 (min (wrap_i32 (int max_decimals)) significant_decimals))
      in case from_str_lenient (''1e-'' @ show_nat allowed_decimals) of
           Inr st \<Rightarrow> st | Inl _ \<Rightarrow> is_tick_size spec)"

definition price_step :: "decimal \<Rightarrow> instrument_spec \<Rightarrow> decimal" where
  "price_step value spec =
     (case is_max_price_decimals spec of
        None \<Rightarrow> is_tick_size spec
      | Some max_decimals \<Rightarrow>
          if snd (as_tuple value) \<ge> 0 then is_tick_size spec
          else dec_max (is_tick_size spec) (dynamic_step value spec max_decimals))"

definition normalize_price :: "decimal \<Rightarrow> instrument_spec \<Rightarrow> decimal option" where
  "normalize_price value spec = floor_to_step value (price_step value spec)"

section \<open>The gate\<close>

definition reject :: "string \<Rightarrow> string \<Rightarrow> string \<Rightarrow> hypeedge_error" where
  "reject symbol reason message = OrderNormalization message symbol reason"

definition normalize_notional :: "order_intent \<Rightarrow> instrument_spec \<Rightarrow> decimal \<Rightarrow> decimal option \<Rightarrow>
    hypeedge_error option" where
  "normalize_notional intent spec sz price =
     (case is_min_notional spec of
        None \<Rightarrow> None
      | Some min_notional \<Rightarrow>
          (case price of
             None \<Rightarrow> Some (reject (oi_symbol intent) ''reference_price_required''
                       ''A reference price is required to validate minimum notional'')
           | Some p \<Rightarrow>
               if sz * p < min_notional
               then Some (reject (oi_symbol intent) ''notional_below_minimum''
                      (''Normalized notional '' @ display (sz * p) @ '' is below '' @ display min_notional))
               else None))"

definition is_post_only :: "order_intent \<Rightarrow> bool" where
  "is_post_only intent \<longleftrightarrow> oi_tif intent = Alo \<or> oi_tif intent = Gtx"

definition normalize_crossing :: "order_intent \<Rightarrow> decimal option \<Rightarrow> decimal option \<Rightarrow> decimal option \<Rightarrow>
    hypeedge_error option" where
  "normalize_crossing intent price best_bid best_ask =
     (case (if is_post_only intent then price else None) of
        None \<Rightarrow> None
      | Some p \<Rightarrow>
          if oi_side intent = Buy \<and> (case best_ask of None \<Rightarrow> False | Some a \<Rightarrow> p \<ge> a)
          then Some (reject (oi_symbol intent) ''post_only_would_cross''
                 ''Post-only buy would cross the best ask'')
          else if oi_side intent = Sell \<and> (case best_bid of None \<Rightarrow> False | Some b \<Rightarrow> p \<le> b)
          then Some (reject (oi_symbol intent) ''post_only_would_cross''
                 ''Post-only sell would cross the best bid'')
          else None)"

definition normalize :: "(string \<Rightarrow> instrument_spec option) \<Rightarrow> order_intent \<Rightarrow> decimal option \<Rightarrow>
    decimal option \<Rightarrow> (hypeedge_error + order_intent) option" where
  "normalize get intent best_bid best_ask =
     (case get (oi_symbol intent) of
        None \<Rightarrow> Some (Inl (reject (oi_symbol intent) ''instrument_meta_unavailable''
                   ''Instrument metadata is unavailable''))
      | Some spec \<Rightarrow>
        (case floor_to_step (oi_size intent) (is_lot_size spec) of
           None \<Rightarrow> None
         | Some sz \<Rightarrow>
           if sz < is_min_size spec
           then Some (Inl (reject (oi_symbol intent) ''size_below_minimum''
                  (''Normalized size '' @ display sz @ '' is below '' @ display (is_min_size spec))))
           else
             (case (case oi_price intent of
                      None \<Rightarrow> Some (Inr None)
                    | Some p \<Rightarrow>
                      (case normalize_price p spec of
                         None \<Rightarrow> None
                       | Some q \<Rightarrow>
                           if q \<le> ZERO
                           then Some (Inl (reject (oi_symbol intent) ''price_not_positive''
                                  ''Normalized price must be positive''))
                           else Some (Inr (Some q)))) of
                None \<Rightarrow> None
              | Some (Inl e) \<Rightarrow> Some (Inl e)
              | Some (Inr price) \<Rightarrow>
                (case normalize_notional intent spec sz price of
                   Some e \<Rightarrow> Some (Inl e)
                 | None \<Rightarrow>
                   (case normalize_crossing intent price best_bid best_ask of
                      Some e \<Rightarrow> Some (Inl e)
                    | None \<Rightarrow> Some (Inr (intent\<lparr>oi_size := sz, oi_price := price\<rparr>)))))))"

section \<open>Facts\<close>

lemma spec_validate_iff: "spec_validate s = Inr () \<longleftrightarrow>
  0 < raw (is_tick_size s) \<and> 0 < raw (is_lot_size s) \<and> 0 < raw (is_min_size s) \<and>
  (\<forall>m. is_min_notional s = Some m \<longrightarrow> 0 < raw m) \<and> 0 < is_max_significant_figures s"
  by (auto simp: spec_validate_def dec_le_iff not_le split: option.splits)

definition lenient_step_ok :: "nat \<Rightarrow> bool" where
  "lenient_step_ok n \<longleftrightarrow> from_str_lenient (''1e-'' @ show_nat (int n)) = Inr (Dec (10 ^ (18 - n)))"

lemma lenient_step_0: "list_all lenient_step_ok [0, 1, 2, 3, 4]" by code_simp
lemma lenient_step_5: "list_all lenient_step_ok [5, 6, 7, 8, 9]" by code_simp
lemma lenient_step_10: "list_all lenient_step_ok [10, 11, 12, 13, 14]" by code_simp
lemma lenient_step_15: "list_all lenient_step_ok [15, 16, 17, 18]" by code_simp

text \<open>\<open>"1e-N"\<close> reads as the power of ten for every exponent the code can format.\<close>

lemma lenient_step: "n \<le> 18 \<Longrightarrow> from_str_lenient (''1e-'' @ show_nat (int n)) = Inr (Dec (10 ^ (18 - n)))"
proof -
  assume "n \<le> 18"
  then have "n \<in> set ([0, 1, 2, 3, 4] @ [5, 6, 7, 8, 9] @ [10, 11, 12, 13, 14] @ [15, 16, 17, 18])"
    by simp arith
  moreover have "list_all lenient_step_ok ([0, 1, 2, 3, 4] @ [5, 6, 7, 8, 9] @ [10, 11, 12, 13, 14] @ [15, 16, 17, 18])"
    unfolding list_all_append using lenient_step_0 lenient_step_5 lenient_step_10 lenient_step_15 by blast
  ultimately have "lenient_step_ok n" unfolding list_all_iff by blast
  then show ?thesis by (simp only: lenient_step_ok_def)
qed

lemma dynamic_step_pow10: "\<exists>n \<le> 18. dynamic_step value spec md = Dec (10 ^ n)"
proof -
  define a where "a = max 0 (min 18 (min (wrap_i32 (int md)) (max (wrap_i32 (wrap_i32
    (wrap_i32 (int (max (is_max_significant_figures spec) 1)) - adjusted value) - 1)) 0)))"
  have "a = int (nat a)" "nat a \<le> 18" by (auto simp: a_def)
  then have "from_str_lenient (''1e-'' @ show_nat a) = Inr (Dec (10 ^ (18 - nat a)))"
    using lenient_step by metis
  then have "dynamic_step value spec md = Dec (10 ^ (18 - nat a))"
    by (simp add: dynamic_step_def Let_def a_def)
  then show ?thesis by (intro exI [of _ "18 - nat a"]) simp
qed

lemma price_step_cases:
  "price_step v spec = is_tick_size spec \<or>
   (is_tick_size spec \<le> price_step v spec \<and> (\<exists>n \<le> 18. price_step v spec = Dec (10 ^ n)))"
proof (cases "is_max_price_decimals spec")
  case (Some md)
  obtain n where "n \<le> 18" "dynamic_step v spec md = Dec (10 ^ n)" using dynamic_step_pow10 by blast
  then show ?thesis using Some by (auto simp: price_step_def max_def)
qed (simp add: price_step_def)

lemma price_step_unit: "unit_step (is_tick_size spec) \<Longrightarrow> unit_step (price_step v spec)"
  using price_step_cases [of v spec] unit_step_pow10 by auto

lemma price_step_pos: "0 < raw (is_tick_size spec) \<Longrightarrow> 0 < raw (price_step v spec)"
  using price_step_cases [of v spec] by auto

lemma normalize_notional_None:
  "normalize_notional intent spec sz price = None \<longleftrightarrow>
     (\<forall>m. is_min_notional spec = Some m \<longrightarrow> (\<exists>p. price = Some p \<and> m \<le> sz * p))"
  by (auto simp: normalize_notional_def not_less split: option.splits)

lemma normalize_crossing_None:
  "normalize_crossing intent price bb ba = None \<longleftrightarrow>
     (\<forall>p. is_post_only intent \<and> price = Some p \<longrightarrow>
        (oi_side intent = Buy \<longrightarrow> (\<forall>a. ba = Some a \<longrightarrow> p < a)) \<and>
        (oi_side intent = Sell \<longrightarrow> (\<forall>b. bb = Some b \<longrightarrow> b < p)))"
  by (auto simp: normalize_crossing_def not_le split: option.splits)

text \<open>The accepting path, inverted.\<close>

lemma normalize_accepts:
  assumes "normalize get intent bb ba = Some (Inr n)" and "get (oi_symbol intent) = Some spec"
  obtains sz price where "floor_to_step (oi_size intent) (is_lot_size spec) = Some sz"
    "is_min_size spec \<le> sz"
    "(oi_price intent = None \<and> price = None) \<or>
       (\<exists>p q. oi_price intent = Some p \<and> normalize_price p spec = Some q \<and> ZERO < q \<and> price = Some q)"
    "normalize_notional intent spec sz price = None"
    "normalize_crossing intent price bb ba = None"
    "n = intent\<lparr>oi_size := sz, oi_price := price\<rparr>"
  using assms
  by (auto simp: normalize_def not_less not_le split: option.splits sum.splits if_splits)

lemma floor_to_step_accept:
  assumes "unit_step s" and "dec_ok v" and "floor_to_step v s = Some r" and "0 < raw r"
  shows "raw s dvd raw r" "r \<le> v" "0 \<le> raw v"
proof -
  have s0: "0 < raw s" using assms(1) by (simp add: unit_step_def)
  have v: "0 \<le> raw v" using floor_to_step_nonpos [OF assms(3) _ s0] assms(4) by linarith
  then show "0 \<le> raw v" "raw s dvd raw r" "r \<le> v"
    using floor_to_step_unit_le [OF assms(1,2) v assms(3)] by simp_all
qed


section \<open>Properties\<close>

text \<open>C8: a normalized order keeps every field of the intent but size and price; its size is a
  positive lot multiple between the instrument minimum and the requested size, its price is positive,
  never above the requested price and a multiple of a step that is at least one tick, its notional
  reaches the configured minimum, and a post-only order does not cross the opposite best price.\<close>

theorem normalize_sound:
  assumes "normalize get intent bb ba = Some (Inr n)"
    and "get (oi_symbol intent) = Some spec" and "spec_validate spec = Inr ()"
    and "unit_step (is_lot_size spec)" and "unit_step (is_tick_size spec)"
    and "dec_ok (oi_size intent)" and "\<forall>p. oi_price intent = Some p \<longrightarrow> dec_ok p"
  shows "n\<lparr>oi_size := oi_size intent, oi_price := oi_price intent\<rparr> = intent \<and>
    raw (is_lot_size spec) dvd raw (oi_size n) \<and> is_min_size spec \<le> oi_size n \<and> oi_size n \<le> oi_size intent \<and>
    (oi_price n = None \<longleftrightarrow> oi_price intent = None) \<and>
    (\<forall>p q. oi_price intent = Some p \<and> oi_price n = Some q \<longrightarrow> ZERO < q \<and> q \<le> p \<and>
       is_tick_size spec \<le> price_step p spec \<and> raw (price_step p spec) dvd raw q) \<and>
    (\<forall>m. is_min_notional spec = Some m \<longrightarrow> (\<exists>q. oi_price n = Some q \<and> m \<le> oi_size n * q)) \<and>
    (is_post_only n \<longrightarrow> (\<forall>q. oi_price n = Some q \<longrightarrow>
       (oi_side n = Buy \<longrightarrow> (\<forall>a. ba = Some a \<longrightarrow> q < a)) \<and>
       (oi_side n = Sell \<longrightarrow> (\<forall>b. bb = Some b \<longrightarrow> b < q))))"
proof -
  from normalize_accepts [OF assms(1,2)] obtain sz price where
    sz: "floor_to_step (oi_size intent) (is_lot_size spec) = Some sz" "is_min_size spec \<le> sz" and
    pr: "(oi_price intent = None \<and> price = None) \<or>
       (\<exists>p q. oi_price intent = Some p \<and> normalize_price p spec = Some q \<and> ZERO < q \<and> price = Some q)" and
    nt: "normalize_notional intent spec sz price = None" and
    cr: "normalize_crossing intent price bb ba = None" and
    n: "n = intent\<lparr>oi_size := sz, oi_price := price\<rparr>" by blast
  from assms(3) have "0 < raw (is_min_size spec)" by (simp add: spec_validate_iff)
  with sz(2) have "0 < raw sz" by (simp add: dec_le_iff)
  note s = floor_to_step_accept [OF assms(4,6) sz(1) this]
  have p: "ZERO < q \<and> q \<le> p \<and> is_tick_size spec \<le> price_step p spec \<and> raw (price_step p spec) dvd raw q"
    if "oi_price intent = Some p" "price = Some q" for p q
  proof -
    have "normalize_price p spec = Some q" "ZERO < q" using pr that by auto
    then show ?thesis
      using floor_to_step_accept [OF price_step_unit [OF assms(5), of p] _, of p q] that assms(7)
        price_step_cases [of p spec] by (auto simp: normalize_price_def dec_less_iff)
  qed
  show ?thesis
    using s sz(2) p pr nt cr
    by (auto simp: n normalize_notional_None normalize_crossing_None is_post_only_def)
qed

definition btc_spec :: instrument_spec where
  "btc_spec = (spec_new ''BTC'' (Dec 100000000000000000) (Dec 100000000000000) (Dec 100000000000000))
     \<lparr>is_min_notional := Some (Dec 10000000000000000000), is_max_price_decimals := Some 1\<rparr>"

definition btc_intent :: order_intent where
  "btc_intent = \<lparr>oi_symbol = ''BTC'', oi_side = Buy, oi_size = Dec 1234567890000000000,
     oi_price = Some (Dec 65000123456000000000000), oi_order_type = OT_Limit, oi_tif = Alo,
     oi_strategy_id = None, oi_sub_account = None, oi_reduce_only = False, oi_cloid = None,
     oi_client_id = None, oi_is_spot = False, oi_risk_reducing = False, oi_max_slippage_bps = 50\<rparr>"

definition btc_result :: order_intent where
  "btc_result = btc_intent\<lparr>oi_size := Dec 1234500000000000000, oi_price := Some (Dec 65000000000000000000000)\<rparr>"

theorem normalize_sound_witness:
  "normalize (\<lambda>_. Some btc_spec) btc_intent None (Some (Dec 65001000000000000000000)) = Some (Inr btc_result) \<and>
   oi_size btc_result \<le> oi_size btc_intent"
proof -
  have r: "normalize (\<lambda>_. Some btc_spec) btc_intent None (Some (Dec 65001000000000000000000)) = Some (Inr btc_result)"
    by code_simp
  have v: "spec_validate btc_spec = Inr ()" by code_simp
  have u: "unit_step (is_lot_size btc_spec)" "unit_step (is_tick_size btc_spec)"
    using unit_step_pow10 [of 14] unit_step_pow10 [of 17] by (simp_all add: btc_spec_def spec_new_def)
  have d: "dec_ok (oi_size btc_intent)" "\<forall>p. oi_price btc_intent = Some p \<longrightarrow> dec_ok p"
    by (simp_all add: btc_intent_def dec_ok_def in_i128_def i128_bounds)
  show ?thesis
    using normalize_sound [OF r _ v u d] r by simp
qed

text \<open>C9: with a validated specification and any intent and quotes, normalization never panics: it
  returns an order or an error.\<close>

theorem normalize_no_panic:
  assumes "\<forall>spec. get (oi_symbol intent) = Some spec \<longrightarrow> spec_validate spec = Inr ()"
  shows "\<exists>r. normalize get intent bb ba = Some r"
proof (cases "get (oi_symbol intent)")
  case None
  then show ?thesis by (simp add: normalize_def)
next
  case (Some spec)
  with assms have v: "0 < raw (is_lot_size spec)" "0 < raw (is_tick_size spec)"
    by (auto simp: spec_validate_iff)
  then have "raw (is_lot_size spec) \<noteq> 0" by simp
  then obtain sz where sz: "floor_to_step (oi_size intent) (is_lot_size spec) = Some sz"
    using floor_to_step_returns by blast
  have pr: "\<exists>q. normalize_price p spec = Some q" for p
    unfolding normalize_price_def using price_step_pos [OF v(2), of p]
      floor_to_step_returns [of "price_step p spec" p] by auto
  show ?thesis
  proof (cases "oi_price intent")
    case None
    then show ?thesis using sz by (auto simp: normalize_def Some split: option.splits sum.splits)
  next
    case (Some p)
    obtain q where "normalize_price p spec = Some q" using pr by blast
    then show ?thesis
      using sz Some \<open>get (oi_symbol intent) = Some spec\<close>
      by (auto simp: normalize_def split: option.splits sum.splits)
  qed
qed

theorem normalize_no_panic_witness:
  "spec_validate btc_spec = Inr () \<and> (\<exists>r. normalize (\<lambda>_. Some btc_spec) btc_intent None None = Some r)"
proof -
  have v: "spec_validate btc_spec = Inr ()" by code_simp
  then show ?thesis using normalize_no_panic [of "\<lambda>_. Some btc_spec" btc_intent None None] by simp
qed

end
