(* ===== verification/HE_Decimal_Props.thy ===== *)
theory HE_Decimal_Props
  imports HE_Decimal_Roundtrip
begin

text \<open>
  The properties of \<open>crates/domain/src/decimal.rs\<close>: what the strict parser accepts and returns, the
  round trip through the exact text, the rounding error of the products and quotients, the step
  rounding, the 28-digit rounding, and the inputs where the code departs from its own comments.
\<close>

section \<open>Text\<close>



text \<open>C12: the exact text of a decimal reads back as the same decimal through the strict parser, for
  every raw value of at most 38 digits.\<close>

theorem exact_text_roundtrip:
  assumes "\<bar>raw d\<bar> < 10 ^ 38"
  shows "from_str_strict (to_exact_string d) = Inr d"
proof (cases "raw d = 0")
  case True
  then show ?thesis
    using strict_reads_zero by (simp add: to_exact_string_def dec_eq_iff [symmetric] ZERO_def)
      (metis decimal.collapse)
next
  case False
  then show ?thesis using strict_reads_render [OF assms] by (simp add: to_exact_string_def)
qed

theorem exact_text_roundtrip_witness:
  "from_str_strict (to_exact_string (Dec (-99999999999999999999999999999999999999))) =
   Inr (Dec (-99999999999999999999999999999999999999))"
  by (rule exact_text_roundtrip) simp

section \<open>Arithmetic\<close>

text \<open>C13: products and quotients are the exact result to within half a unit in the last place,
  saturated to the bounds, and their 256-bit intermediates never overflow; division panics exactly on
  zero.\<close>

theorem mul_div_half_unit:
  assumes "dec_ok a" and "dec_ok b"
  shows "\<bar>raw a * raw b\<bar> + SCALE_I128 div 2 < 2 ^ 255 \<and>
    (\<exists>m. raw (a * b) = sat_i128 m \<and> \<bar>2 * SCALE_I128 * m - 2 * (raw a * raw b)\<bar> \<le> SCALE_I128) \<and>
    \<bar>raw a\<bar> * SCALE_I128 + \<bar>raw b\<bar> div 2 < 2 ^ 255 \<and>
    (dec_div a b = None \<longleftrightarrow> raw b = 0) \<and>
    (\<forall>q. dec_div a b = Some q \<longrightarrow>
       (\<exists>m. raw q = sat_i128 m \<and> \<bar>2 * \<bar>raw b\<bar> * m - 2 * (sgn (raw b) * raw a * SCALE_I128)\<bar> \<le> \<bar>raw b\<bar>))"
proof (intro conjI allI impI)
  show "\<bar>raw a * raw b\<bar> + SCALE_I128 div 2 < 2 ^ 255"
    using assms mul_intermediate_fits by (simp add: dec_ok_def)
  show "\<exists>m. raw (a * b) = sat_i128 m \<and> \<bar>2 * SCALE_I128 * m - 2 * (raw a * raw b)\<bar> \<le> SCALE_I128"
    using half_up_error [of SCALE_I128 "raw a * raw b"] by (intro exI conjI) (rule raw_mul, simp)
  have "\<bar>raw a\<bar> \<le> 2 ^ 127" "\<bar>raw b\<bar> div 2 \<le> 2 ^ 127"
    using assms by (auto simp: dec_ok_def in_i128_def i128_bounds)
  then show "\<bar>raw a\<bar> * SCALE_I128 + \<bar>raw b\<bar> div 2 < 2 ^ 255"
    by (simp add: SCALE_I128_def)
  show "dec_div a b = None \<longleftrightarrow> raw b = 0" by (simp add: dec_div_def is_zero_def Let_def)
  fix q assume q: "dec_div a b = Some q"
  then have b0: "0 < \<bar>raw b\<bar>" by (simp add: dec_div_def is_zero_def Let_def split: if_splits)
  then have "raw q = sat_i128 (half_up (sgn (raw b) * raw a * SCALE_I128) \<bar>raw b\<bar>)"
    using q dec_div_eq [of b a] by (auto simp: ac_simps)
  then show "\<exists>m. raw q = sat_i128 m \<and>
      \<bar>2 * \<bar>raw b\<bar> * m - 2 * (sgn (raw b) * raw a * SCALE_I128)\<bar> \<le> \<bar>raw b\<bar>"
    using half_up_error [OF b0] by blast
qed

theorem mul_div_half_unit_witness:
  "dec_ok (Dec 7) \<and> dec_ok (Dec (-3)) \<and> (\<exists>m. raw (Dec 7 * Dec (-3)) = sat_i128 m)"
proof -
  have o: "dec_ok (Dec 7)" "dec_ok (Dec (-3))" by (simp_all add: dec_ok_def in_i128_def i128_bounds)
  from mul_div_half_unit [OF o] o show ?thesis by blast
qed

text \<open>for a step that divides one, rounding a non-negative amount down to the step yields the
  largest multiple of the step not above the amount (as long as the quotient is in range), and
  never more than the amount.\<close>

theorem floor_to_step_spec:
  assumes "unit_step s" and "dec_ok v" and "0 \<le> raw v"
  shows "\<exists>r. floor_to_step v s = Some r \<and> 0 \<le> raw r \<and> r \<le> v \<and> raw s dvd raw r \<and>
    (raw v * (SCALE_I128 div raw s) \<le> i128_max \<longrightarrow> raw v - raw r < raw s)"
proof -
  from floor_to_step_unit [OF assms] obtain k where
    k: "floor_to_step v s = Some (Dec (k * raw s))"
       "raw v * (SCALE_I128 div raw s) \<le> i128_max \<longrightarrow> k = raw v div raw s" by blast
  note l = floor_to_step_unit_le [OF assms k(1)]
  have "0 < raw s" using assms(1) by (simp add: unit_step_def)
  then have "raw v - raw v div raw s * raw s < raw s" by (simp add: minus_div_mult_eq_mod)
  with k l show ?thesis by auto
qed

theorem floor_to_step_spec_witness:
  "\<exists>r. floor_to_step (Dec 1234567890000000000) (Dec 100000000000000) = Some r \<and>
     r \<le> Dec 1234567890000000000 \<and> 1234567890000000000 - raw r < 100000000000000"
proof -
  have u: "unit_step (Dec 100000000000000)" using unit_step_pow10 [of 14] by simp
  have o: "dec_ok (Dec 1234567890000000000)" by (simp add: dec_ok_def in_i128_def i128_bounds)
  from floor_to_step_spec [OF u o] show ?thesis by (auto simp: SCALE_I128_def i128_bounds)
qed

text \<open>The 28-digit rounding returns a multiple of a power of ten with at most 28 significant
  digits, at most half that power away from the input, without overflow, and the decimal places of a
  value are cut towards zero by \<open>quantize\<close>.\<close>

theorem rounding_bounds:
  assumes "dec_ok d"
  shows "(\<exists>k. 10 ^ k dvd raw (round_python_prec28 d) \<and> \<bar>raw (round_python_prec28 d)\<bar> \<le> 10 ^ (28 + k) \<and>
      2 * \<bar>raw (round_python_prec28 d) - raw d\<bar> \<le> 10 ^ k) \<and>
    (\<forall>p \<le> 18. 10 ^ (18 - p) dvd raw (quantize d p) \<and> \<bar>raw (quantize d p)\<bar> \<le> \<bar>raw d\<bar> \<and>
       \<bar>raw d\<bar> - \<bar>raw (quantize d p)\<bar> < 10 ^ (18 - p) \<and> quantize (quantize d p) p = quantize d p)"
  using round28_laws [OF assms] quantize_laws(1-3) [OF assms] quantize_idem [OF assms] by blast

theorem rounding_bounds_witness:
  "dec_ok DEC_MAX \<and> \<bar>raw (quantize DEC_MAX 8)\<bar> \<le> \<bar>raw DEC_MAX\<bar>"
  using rounding_bounds [of DEC_MAX] by (simp del: raw_consts)


section \<open>Where the code departs from its intent\<close>

text \<open>The strict parser checks the scaled integer part and the fraction for range, but adds them with
  a plain \<open>+\<close>: next to the largest value a positive text reads as a negative decimal.\<close>

lemma strict_parse_wraps:
  "from_str_strict ''170141183460469231731.9'' = Inr (Dec (-170141183460469231731474607431768211456))"
  by code_simp

text \<open>\<open>with_exponent\<close> documents the value \<open>coeff * 10^exp\<close>; for a non-negative exponent the scale factor
  is missing (five reads as 5e-18).\<close>

lemma with_exponent_misses_scale:
  "with_exponent 5 0 = Some (Inr (Dec 5)) \<and> with_exponent 5 (-1) = Some (Inr (Dec 500000000000000000))"
  by code_simp

text \<open>\<open>floor_to_step\<close> floors a quotient that was already rounded to 18 places: for a step that does not
  divide one it can round up, past the amount.\<close>

lemma floor_to_step_rounds_up:
  "floor_to_step (Dec 2999999999999999999) (Dec 3000000000000000000) = Some (Dec 3000000000000000000)"
  by code_simp

text \<open>The lenient parser takes a lone dot for zero.\<close>

lemma lenient_accepts_dot: "from_str_lenient ''.'' = Inr ZERO"
  by code_simp


end
