(* ===== verification/HE_Batch.thy ===== *)
theory HE_Batch
  imports HE_Models
begin

text \<open>
  \<open>crates/trading/src/execution/batch.rs\<close>: the dispatch guard and the durable batch of child
  actions. UUIDs are their text. SHA-256 and the fresh UUID of a network attempt are arguments. The
  sequences of dispatches and resolutions of a batch are the step relation \<open>batch_step\<close>.
\<close>

type_synonym uuid = string

section \<open>Data\<close>

datatype child_action_type = CA_Place | CA_Cancel | CA_Modify

fun child_action_type_as_str :: "child_action_type \<Rightarrow> string" where
  "child_action_type_as_str CA_Place = ''place''"
| "child_action_type_as_str CA_Cancel = ''cancel''"
| "child_action_type_as_str CA_Modify = ''modify''"

datatype child_outcome =
  CO_Pending | CO_Dispatching | CO_Succeeded | CO_Rejected | CO_Unknown | CO_Superseded | CO_Expired
  | CO_Blocked

fun child_outcome_as_str :: "child_outcome \<Rightarrow> string" where
  "child_outcome_as_str CO_Pending = ''pending''"
| "child_outcome_as_str CO_Dispatching = ''dispatching''"
| "child_outcome_as_str CO_Succeeded = ''succeeded''"
| "child_outcome_as_str CO_Rejected = ''rejected''"
| "child_outcome_as_str CO_Unknown = ''unknown''"
| "child_outcome_as_str CO_Superseded = ''superseded''"
| "child_outcome_as_str CO_Expired = ''expired''"
| "child_outcome_as_str CO_Blocked = ''blocked''"

definition TERMINAL_CHILD_OUTCOMES :: "child_outcome list" where
  "TERMINAL_CHILD_OUTCOMES = [CO_Succeeded, CO_Rejected, CO_Superseded, CO_Expired, CO_Blocked]"

definition child_terminal :: "child_outcome \<Rightarrow> bool" where
  "child_terminal oc \<longleftrightarrow> oc \<in> set TERMINAL_CHILD_OUTCOMES"

datatype batch_outcome =
  BO_Pending | BO_Dispatching | BO_Succeeded | BO_Partial | BO_Unknown | BO_Completed

fun batch_outcome_as_str :: "batch_outcome \<Rightarrow> string" where
  "batch_outcome_as_str BO_Pending = ''pending''"
| "batch_outcome_as_str BO_Dispatching = ''dispatching''"
| "batch_outcome_as_str BO_Succeeded = ''succeeded''"
| "batch_outcome_as_str BO_Partial = ''partial''"
| "batch_outcome_as_str BO_Unknown = ''unknown''"
| "batch_outcome_as_str BO_Completed = ''completed''"

datatype guard_decision = GD_Allow | GD_Superseded | GD_Expired | GD_Blocked

fun guard_decision_as_str :: "guard_decision \<Rightarrow> string" where
  "guard_decision_as_str GD_Allow = ''allow''"
| "guard_decision_as_str GD_Superseded = ''superseded''"
| "guard_decision_as_str GD_Expired = ''expired''"
| "guard_decision_as_str GD_Blocked = ''blocked''"

section \<open>The dispatch guard\<close>

record dispatch_guard_context =
  dg_now :: time_ns
  dg_deadline :: time_ns
  dg_expected_session_id :: string
  dg_active_session_id :: string
  dg_expected_config_version :: int
  dg_active_config_version :: int
  dg_expected_plan_revision :: int
  dg_active_plan_revision :: int
  dg_expected_connection_generation :: int
  dg_active_connection_generation :: int
  dg_market_fresh :: bool
  dg_account_fresh :: bool
  dg_user_stream_fresh :: bool
  dg_postgres_fresh :: bool
  dg_safety_allows_place :: bool
  dg_lifecycle_allows_place :: bool
  dg_budget_allows_place :: bool
  dg_reservation_valid :: bool
  dg_alo_valid :: bool

definition evaluate_dispatch_guard :: "child_action_type \<Rightarrow> dispatch_guard_context \<Rightarrow> guard_decision" where
  "evaluate_dispatch_guard action c =
     (if action = CA_Cancel then GD_Allow
      else if dg_now c \<ge> dg_deadline c then GD_Expired
      else if dg_expected_session_id c \<noteq> dg_active_session_id c
           \<or> dg_expected_config_version c \<noteq> dg_active_config_version c
           \<or> dg_expected_plan_revision c \<noteq> dg_active_plan_revision c
           \<or> dg_expected_connection_generation c \<noteq> dg_active_connection_generation c
        then GD_Superseded
      else if \<not> (dg_market_fresh c \<and> dg_account_fresh c \<and> dg_user_stream_fresh c
           \<and> dg_postgres_fresh c \<and> dg_safety_allows_place c \<and> dg_lifecycle_allows_place c
           \<and> dg_budget_allows_place c \<and> dg_reservation_valid c \<and> dg_alo_valid c)
        then GD_Blocked
      else GD_Allow)"

section \<open>Children\<close>

record network_attempt =
  na_attempt_id :: uuid
  na_request_hash :: string
  na_sent_at :: time_ns
  na_responded_at :: "time_ns option"

text \<open>\<open>sha256_hex\<close> is the digest crate's function, \<open>fresh\<close> the UUID drawn when none is given.\<close>

definition network_attempt_sent :: "('payload \<Rightarrow> string) \<Rightarrow> uuid \<Rightarrow> 'payload \<Rightarrow> time_ns \<Rightarrow> uuid option \<Rightarrow>
    network_attempt" where
  "network_attempt_sent sha256_hex fresh payload sent_at attempt_id =
     \<lparr>na_attempt_id = (case attempt_id of Some i \<Rightarrow> i | None \<Rightarrow> fresh),
      na_request_hash = sha256_hex payload, na_sent_at = sent_at, na_responded_at = None\<rparr>"

record batch_child =
  bc_child_id :: uuid
  bc_ordinal :: nat
  bc_action :: child_action_type
  bc_plan_revision :: int
  bc_outcome :: child_outcome
  bc_attempts :: "network_attempt list"
  bc_depends_on :: "uuid option"
  bc_resolution :: "string option"

definition batch_child_new :: "uuid \<Rightarrow> nat \<Rightarrow> child_action_type \<Rightarrow> int \<Rightarrow> uuid option \<Rightarrow> batch_child" where
  "batch_child_new i n a revision dep =
     \<lparr>bc_child_id = i, bc_ordinal = n, bc_action = a, bc_plan_revision = revision, bc_outcome = CO_Pending,
      bc_attempts = [], bc_depends_on = dep, bc_resolution = None\<rparr>"

definition child_action_cost :: "batch_child \<Rightarrow> nat" where
  "child_action_cost c = card (set (map na_attempt_id (bc_attempts c)))"

definition record_attempt :: "batch_child \<Rightarrow> network_attempt \<Rightarrow> string + batch_child" where
  "record_attempt c attempt =
     (if \<exists>a \<in> set (bc_attempts c). na_attempt_id a = na_attempt_id attempt then Inr c
      else if child_terminal (bc_outcome c) \<or> bc_outcome c = CO_Unknown
        then Inl ''cannot resend a terminal or UNKNOWN child''
      else Inr (c\<lparr>bc_outcome := CO_Dispatching, bc_attempts := bc_attempts c @ [attempt]\<rparr>))"

definition child_resolve :: "batch_child \<Rightarrow> child_outcome \<Rightarrow> string option \<Rightarrow> string + batch_child" where
  "child_resolve c oc resolution =
     (if oc = CO_Pending \<or> oc = CO_Dispatching then Inl ''resolve requires a result outcome''
      else if child_terminal (bc_outcome c) then
        (if bc_outcome c = oc then Inr c else Inl ''conflicting result for terminal child'')
      else Inr (c\<lparr>bc_outcome := oc, bc_resolution := resolution\<rparr>))"

section \<open>The batch\<close>

record batch_command =
  bx_command_id :: uuid
  bx_plan_revision :: int
  bx_children :: "batch_child list"

definition batch_new :: "uuid \<Rightarrow> int \<Rightarrow> batch_child list \<Rightarrow> string + batch_command" where
  "batch_new command_id plan_revision children =
     (if plan_revision < 0 then Inl ''plan revision cannot be negative''
      else if card (set (map bc_child_id children)) \<noteq> length children
        then Inl ''batch child IDs must be unique''
      else if sort (map bc_ordinal children) \<noteq> [0..<nat (int (length children) mod 2 ^ 32)]
        then Inl ''batch child ordinals must be contiguous''
      else if \<exists>c \<in> set children. (case bc_depends_on c of None \<Rightarrow> False
               | Some dep \<Rightarrow> dep \<notin> set (map bc_child_id children))
        then Inl ''batch child dependency must belong to the same command''
      else Inr \<lparr>bx_command_id = command_id, bx_plan_revision = plan_revision, bx_children = children\<rparr>)"

definition batch_action_cost :: "batch_command \<Rightarrow> nat" where
  "batch_action_cost b = sum_list (map child_action_cost (bx_children b))"

definition batch_outcome_of :: "batch_command \<Rightarrow> batch_outcome" where
  "batch_outcome_of b =
     (if bx_children b = [] then BO_Succeeded
      else let outcomes = set (map bc_outcome (bx_children b)) in
        if \<forall>oc \<in> outcomes. child_terminal oc then
          (if outcomes = {CO_Succeeded} then BO_Succeeded
           else if CO_Succeeded \<in> outcomes then BO_Partial else BO_Completed)
        else if CO_Unknown \<in> outcomes then BO_Unknown
        else if CO_Dispatching \<in> outcomes then BO_Dispatching
        else BO_Pending)"

definition replace_child :: "batch_command \<Rightarrow> batch_child \<Rightarrow> string + batch_command" where
  "replace_child b updated =
     (if \<forall>c \<in> set (bx_children b). bc_child_id c \<noteq> bc_child_id updated
      then Inl (''unknown child id '' @ bc_child_id updated)
      else Inr (b\<lparr>bx_children := map (\<lambda>c. if bc_child_id c = bc_child_id updated then updated else c)
                                  (bx_children b)\<rparr>))"

text \<open>\<open>by_id\<close> collects into a \<open>HashMap\<close>: the last child of an id wins.\<close>

definition children_by_id :: "batch_command \<Rightarrow> uuid \<Rightarrow> batch_child option" where
  "children_by_id b = map_of (rev (map (\<lambda>c. (bc_child_id c, c)) (bx_children b)))"

definition dispatchable_children :: "batch_command \<Rightarrow> batch_child list" where
  "dispatchable_children b =
     filter (\<lambda>c. case bc_depends_on c of
                 None \<Rightarrow> True
               | Some dep \<Rightarrow> (case children_by_id b dep of
                   None \<Rightarrow> False | Some d \<Rightarrow> bc_outcome d = CO_Succeeded))
       (filter (\<lambda>c. bc_outcome c = CO_Pending) (bx_children b))"

text \<open>What an executor does with a batch: it records an attempt on a dispatchable child, records a
  further attempt on a child in flight, or resolves a child.\<close>

inductive batch_step :: "batch_command \<Rightarrow> batch_command \<Rightarrow> bool" where
  dispatch: "c \<in> set (dispatchable_children b) \<Longrightarrow> record_attempt c a = Inr c' \<Longrightarrow>
     replace_child b c' = Inr b' \<Longrightarrow> batch_step b b'"
| redispatch: "c \<in> set (bx_children b) \<Longrightarrow> bc_outcome c = CO_Dispatching \<Longrightarrow>
     record_attempt c a = Inr c' \<Longrightarrow> replace_child b c' = Inr b' \<Longrightarrow> batch_step b b'"
| resolve: "c \<in> set (bx_children b) \<Longrightarrow> child_resolve c oc r = Inr c' \<Longrightarrow>
     replace_child b c' = Inr b' \<Longrightarrow> batch_step b b'"

inductive_cases batch_stepE: "batch_step b b'"

section \<open>One child\<close>

text \<open>How a child may change: its identity stays, its attempts grow, a terminal child is frozen, and
  an attempt is only added to a child that is neither terminal nor unknown.\<close>

definition child_advances :: "batch_child \<Rightarrow> batch_child \<Rightarrow> bool" where
  "child_advances c c' \<longleftrightarrow>
     bc_child_id c' = bc_child_id c \<and> bc_ordinal c' = bc_ordinal c \<and> bc_action c' = bc_action c \<and>
     bc_depends_on c' = bc_depends_on c \<and> bc_plan_revision c' = bc_plan_revision c \<and>
     (\<exists>new. bc_attempts c' = bc_attempts c @ new \<and> (new \<noteq> [] \<longrightarrow> bc_outcome c \<noteq> CO_Unknown)) \<and>
     (child_terminal (bc_outcome c) \<longrightarrow> c' = c)"

lemma child_advances_refl [simp]: "child_advances c c"
  by (simp add: child_advances_def)

lemma record_attempt_advances: "record_attempt c a = Inr c' \<Longrightarrow> child_advances c c'"
  by (auto simp: record_attempt_def child_advances_def split: if_splits)

lemma child_resolve_advances: "child_resolve c oc r = Inr c' \<Longrightarrow> child_advances c c'"
  by (auto simp: child_resolve_def child_advances_def split: if_splits)

lemma child_resolve_attempts: "child_resolve c oc r = Inr c' \<Longrightarrow> bc_attempts c' = bc_attempts c"
  by (auto simp: child_resolve_def split: if_splits)

lemma child_advances_same:
  "child_advances c c' \<Longrightarrow> bc_child_id c' = bc_child_id c"
  "child_advances c c' \<Longrightarrow> bc_ordinal c' = bc_ordinal c"
  "child_advances c c' \<Longrightarrow> bc_depends_on c' = bc_depends_on c"
  "child_advances c c' \<Longrightarrow> child_terminal (bc_outcome c) \<Longrightarrow> c' = c"
  by (auto simp: child_advances_def)

lemma child_advances_cost: "child_advances c c' \<Longrightarrow> child_action_cost c \<le> child_action_cost c'"
  by (auto simp: child_advances_def child_action_cost_def intro!: card_mono)

lemma succeeded_terminal [simp]: "child_terminal CO_Succeeded" "\<not> child_terminal CO_Pending"
  "\<not> child_terminal CO_Unknown" "\<not> child_terminal CO_Dispatching"
  by (simp_all add: child_terminal_def TERMINAL_CHILD_OUTCOMES_def)

section \<open>The batch as a whole\<close>

text \<open>A well-formed batch is one that the constructor accepts.\<close>

definition batch_wf :: "batch_command \<Rightarrow> bool" where
  "batch_wf b \<longleftrightarrow> batch_new (bx_command_id b) (bx_plan_revision b) (bx_children b) = Inr b"

definition child_ids :: "batch_command \<Rightarrow> uuid list" where
  "child_ids b = map bc_child_id (bx_children b)"

lemma batch_wf_iff:
  "batch_wf b \<longleftrightarrow> 0 \<le> bx_plan_revision b \<and> distinct (child_ids b) \<and>
     sort (map bc_ordinal (bx_children b)) = [0..<nat (int (length (bx_children b)) mod 2 ^ 32)] \<and>
     (\<forall>c \<in> set (bx_children b). \<forall>d. bc_depends_on c = Some d \<longrightarrow> d \<in> set (child_ids b))"
proof -
  have "card (set xs) = length xs \<longleftrightarrow> distinct xs" for xs :: "uuid list"
    using card_distinct distinct_card by blast
  from this [of "map bc_child_id (bx_children b)"] show ?thesis
    by (auto simp: batch_wf_def batch_new_def child_ids_def not_less split: option.splits if_splits)
qed

lemma batch_new_wf: "batch_new i p cs = Inr b \<Longrightarrow> batch_wf b"
  by (auto simp: batch_wf_def batch_new_def split: if_splits option.splits)

text \<open>The update of \<open>replace_child\<close> on a batch that holds the child.\<close>

lemma replace_child_eq:
  "c \<in> set (bx_children b) \<Longrightarrow> bc_child_id u = bc_child_id c \<Longrightarrow>
   replace_child b u = Inr (b\<lparr>bx_children :=
     map (\<lambda>x. if bc_child_id x = bc_child_id u then u else x) (bx_children b)\<rparr>)"
  by (auto simp: replace_child_def)

definition batch_advances :: "batch_command \<Rightarrow> batch_command \<Rightarrow> bool" where
  "batch_advances b b' \<longleftrightarrow> bx_command_id b' = bx_command_id b \<and> bx_plan_revision b' = bx_plan_revision b \<and>
     list_all2 child_advances (bx_children b) (bx_children b')"

lemma distinct_ids_inj:
  "distinct (child_ids b) \<Longrightarrow> x \<in> set (bx_children b) \<Longrightarrow> y \<in> set (bx_children b) \<Longrightarrow>
   bc_child_id x = bc_child_id y \<Longrightarrow> x = y"
  by (auto simp: child_ids_def distinct_map dest: inj_onD)

lemma replace_child_advances:
  assumes "distinct (child_ids b)" and "c \<in> set (bx_children b)" and "child_advances c u"
    and "replace_child b u = Inr b'"
  shows "batch_advances b b'"
proof -
  have u: "bc_child_id u = bc_child_id c" using assms(3) by (rule child_advances_same)
  have "child_advances x (if bc_child_id x = bc_child_id u then u else x)" if "x \<in> set (bx_children b)" for x
    using distinct_ids_inj [OF assms(1) that assms(2)] assms(3) u by auto
  then show ?thesis
    using assms(4) replace_child_eq [OF assms(2) u]
    by (auto simp: batch_advances_def list_all2_conv_all_nth)
qed

lemma record_attempt_dispatching: "record_attempt c a = Inr u \<Longrightarrow> bc_attempts u \<noteq> [] \<or> u = c"
  by (auto simp: record_attempt_def split: if_splits)

lemma child_resolve_dispatching: "child_resolve c oc r = Inr u \<Longrightarrow> bc_outcome u = CO_Dispatching \<Longrightarrow> u = c"
  by (auto simp: child_resolve_def split: if_splits)

lemma dispatchable_child: "c \<in> set (dispatchable_children b) \<Longrightarrow> c \<in> set (bx_children b)"
  by (simp add: dispatchable_children_def)

lemma batch_step_child:
  assumes "batch_step b b'"
  shows "\<exists>c u. c \<in> set (bx_children b) \<and> child_advances c u \<and> replace_child b u = Inr b' \<and>
    (bc_attempts u \<noteq> bc_attempts c \<longrightarrow> c \<in> set (dispatchable_children b) \<or> bc_outcome c = CO_Dispatching) \<and>
    (bc_outcome u = CO_Dispatching \<longrightarrow> bc_attempts u \<noteq> [] \<or> u = c)"
  using assms
proof (cases rule: batch_step.cases)
  case (dispatch c a u)
  then show ?thesis
    using record_attempt_advances record_attempt_dispatching dispatchable_child by blast
next
  case (redispatch c a u)
  then show ?thesis using record_attempt_advances record_attempt_dispatching by blast
next
  case (resolve c oc r u)
  then show ?thesis
    using child_resolve_advances child_resolve_attempts child_resolve_dispatching by metis
qed

lemma batch_step_advances: "batch_step b b' \<Longrightarrow> batch_wf b \<Longrightarrow> batch_advances b b'"
  using batch_step_child [of b b'] replace_child_advances by (auto simp: batch_wf_iff)

lemma batch_advances_maps:
  assumes "batch_advances b b'"
  shows "child_ids b' = child_ids b" "map bc_ordinal (bx_children b') = map bc_ordinal (bx_children b)"
    "map bc_depends_on (bx_children b') = map bc_depends_on (bx_children b)"
  using assms unfolding batch_advances_def child_ids_def
  by (auto simp: list_all2_conv_all_nth list_eq_iff_nth_eq child_advances_same)

lemma batch_advances_child:
  assumes "batch_advances b b'" and "c' \<in> set (bx_children b')"
  obtains c where "c \<in> set (bx_children b)" "child_advances c c'"
proof -
  from assms obtain i where "i < length (bx_children b)" "c' = bx_children b' ! i"
    "child_advances (bx_children b ! i) (bx_children b' ! i)"
    by (auto simp: batch_advances_def list_all2_conv_all_nth in_set_conv_nth)
  with that [of "bx_children b ! i"] show thesis by simp
qed

lemma batch_advances_terminal:
  assumes "batch_advances b b'" and "c \<in> set (bx_children b)" and "child_terminal (bc_outcome c)"
  shows "c \<in> set (bx_children b')"
  using assms child_advances_same(4)
  by (auto simp: batch_advances_def list_all2_conv_all_nth in_set_conv_nth)

lemma batch_advances_wf: "batch_advances b b' \<Longrightarrow> batch_wf b \<Longrightarrow> batch_wf b'"
proof -
  assume a: "batch_advances b b'" and w: "batch_wf b"
  note m = batch_advances_maps [OF a]
  have l: "length (bx_children b') = length (bx_children b)"
    using arg_cong [OF m(2), of length] by simp
  have "bc_depends_on ` set (bx_children b') = bc_depends_on ` set (bx_children b)"
    using arg_cong [OF m(3), of set] by simp
  then have "\<exists>c0 \<in> set (bx_children b). bc_depends_on c0 = bc_depends_on c"
    if "c \<in> set (bx_children b')" for c
    using that by (metis imageE imageI)
  then show "batch_wf b'"
    using w a m l by (auto simp: batch_wf_iff batch_advances_def) metis
qed

section \<open>Dependencies\<close>

text \<open>The dependency invariant: a child in flight has an attempt, and a child with an attempt has
  seen its dependency succeed.\<close>

definition deps_ok :: "batch_command \<Rightarrow> bool" where
  "deps_ok b \<longleftrightarrow> (\<forall>c \<in> set (bx_children b).
     (bc_outcome c = CO_Dispatching \<longrightarrow> bc_attempts c \<noteq> []) \<and>
     (bc_attempts c \<noteq> [] \<longrightarrow> (\<forall>d. bc_depends_on c = Some d \<longrightarrow>
        (\<exists>p \<in> set (bx_children b). bc_child_id p = d \<and> bc_outcome p = CO_Succeeded))))"

lemma children_by_id_Some:
  "children_by_id b d = Some p \<Longrightarrow> p \<in> set (bx_children b) \<and> bc_child_id p = d"
  by (auto simp: children_by_id_def dest!: map_of_SomeD)

lemma dispatchable_iff:
  "c \<in> set (dispatchable_children b) \<longleftrightarrow> c \<in> set (bx_children b) \<and> bc_outcome c = CO_Pending \<and>
     (\<forall>d. bc_depends_on c = Some d \<longrightarrow>
        (\<exists>p. children_by_id b d = Some p \<and> bc_outcome p = CO_Succeeded))"
  by (auto simp: dispatchable_children_def split: option.splits)

text \<open>The changed child of a step, before and after.\<close>

lemma replaced_child:
  assumes "replace_child b u = Inr b'" and "x \<in> set (bx_children b')"
  shows "x = u \<or> x \<in> set (bx_children b)"
  using assms by (auto simp: replace_child_def split: if_splits)

lemma deps_ok_step:
  assumes st: "batch_step b b'" and w: "batch_wf b" and d: "deps_ok b"
  shows "deps_ok b'"
proof -
  note adv = batch_step_advances [OF st w]
  obtain c u where c: "c \<in> set (bx_children b)" "child_advances c u" "replace_child b u = Inr b'"
    and disp: "bc_attempts u \<noteq> bc_attempts c \<longrightarrow>
      c \<in> set (dispatchable_children b) \<or> bc_outcome c = CO_Dispatching"
    and fl: "bc_outcome u = CO_Dispatching \<longrightarrow> bc_attempts u \<noteq> [] \<or> u = c"
    using batch_step_child [OF st] by blast
  have keep: "\<exists>q \<in> set (bx_children b'). bc_child_id q = e \<and> bc_outcome q = CO_Succeeded"
    if "\<exists>q \<in> set (bx_children b). bc_child_id q = e \<and> bc_outcome q = CO_Succeeded" for e
    using that batch_advances_terminal [OF adv] by force
  have dep_b: "\<exists>q \<in> set (bx_children b). bc_child_id q = e \<and> bc_outcome q = CO_Succeeded"
    if "bc_attempts c \<noteq> [] \<or> c \<in> set (dispatchable_children b) \<or> bc_outcome c = CO_Dispatching"
      "bc_depends_on c = Some e" for e
    using that d c(1) children_by_id_Some [of b e] unfolding deps_ok_def dispatchable_iff by blast
  have "(bc_outcome x = CO_Dispatching \<longrightarrow> bc_attempts x \<noteq> []) \<and>
     (bc_attempts x \<noteq> [] \<longrightarrow> (\<forall>e. bc_depends_on x = Some e \<longrightarrow>
        (\<exists>q \<in> set (bx_children b'). bc_child_id q = e \<and> bc_outcome q = CO_Succeeded)))"
    if "x \<in> set (bx_children b')" for x
    using replaced_child [OF c(3) that]
  proof
    assume x: "x = u"
    have "bc_attempts u \<noteq> [] \<Longrightarrow> bc_attempts c \<noteq> [] \<or> c \<in> set (dispatchable_children b) \<or>
        bc_outcome c = CO_Dispatching" using disp by auto
    then show ?thesis
      using fl d c(1) dep_b keep child_advances_same(3) [OF c(2)] unfolding x deps_ok_def by metis
  qed (use d keep deps_ok_def in blast)
  then show ?thesis by (simp add: deps_ok_def)
qed

lemma batch_advances_refl [simp]: "batch_advances b b"
  by (simp add: batch_advances_def list.rel_refl)

lemma child_advances_trans: "child_advances a b \<Longrightarrow> child_advances b c \<Longrightarrow> child_terminal (bc_outcome a) \<Longrightarrow> c = a"
  by (metis child_advances_same(4))

lemma cost_advances: "batch_advances b b' \<Longrightarrow> batch_action_cost b \<le> batch_action_cost b'"
  unfolding batch_advances_def batch_action_cost_def
  by (elim conjE, rotate_tac 2, induction rule: list_all2_induct)
    (auto dest: child_advances_cost intro: add_mono)

text \<open>Along any run: the invariants hold, the cost never falls and terminal children stay.\<close>

lemma batch_run:
  assumes "batch_step\<^sup>*\<^sup>* b b'" and "batch_wf b" and "deps_ok b"
  shows "batch_wf b' \<and> deps_ok b' \<and> child_ids b' = child_ids b \<and>
    batch_action_cost b \<le> batch_action_cost b' \<and>
    (\<forall>c \<in> set (bx_children b). child_terminal (bc_outcome c) \<longrightarrow> c \<in> set (bx_children b'))"
  using assms
proof (induction rule: rtranclp_induct)
  case (step y z)
  then have y: "batch_wf y" "deps_ok y" by simp_all
  note adv = batch_step_advances [OF step.hyps(2) y(1)]
  show ?case
    using step batch_advances_wf [OF adv y(1)] deps_ok_step [OF step.hyps(2) y]
      batch_advances_maps(1) [OF adv] cost_advances [OF adv] batch_advances_terminal [OF adv]
    by (auto intro: order_trans)
qed simp

text \<open>The outcome as a case distinction on the set of child outcomes.\<close>

definition child_outcomes :: "batch_command \<Rightarrow> child_outcome set" where
  "child_outcomes b = set (map bc_outcome (bx_children b))"

lemma child_terminal_iff: "child_terminal oc \<longleftrightarrow> oc \<noteq> CO_Pending \<and> oc \<noteq> CO_Dispatching \<and> oc \<noteq> CO_Unknown"
  by (cases oc) (simp_all add: child_terminal_def TERMINAL_CHILD_OUTCOMES_def)

lemma batch_outcome_cases:
  "batch_outcome_of b =
    (if child_outcomes b \<subseteq> {CO_Succeeded} then BO_Succeeded
     else if child_outcomes b \<inter> {CO_Pending, CO_Dispatching, CO_Unknown} = {}
       then (if CO_Succeeded \<in> child_outcomes b then BO_Partial else BO_Completed)
     else if CO_Unknown \<in> child_outcomes b then BO_Unknown
     else if CO_Dispatching \<in> child_outcomes b then BO_Dispatching else BO_Pending)"
proof (cases "bx_children b = []")
  case False
  define S where "S = child_outcomes b"
  have ne: "S \<noteq> {}" using False by (simp add: S_def child_outcomes_def)
  have t: "(\<forall>oc \<in> S. child_terminal oc) \<longleftrightarrow> S \<inter> {CO_Pending, CO_Dispatching, CO_Unknown} = {}"
    by (auto simp: child_terminal_iff)
  have "S = {CO_Succeeded} \<longleftrightarrow> S \<subseteq> {CO_Succeeded}" using ne by blast
  moreover have "S \<subseteq> {CO_Succeeded} \<Longrightarrow> S \<inter> {CO_Pending, CO_Dispatching, CO_Unknown} = {}" by blast
  ultimately show ?thesis
    unfolding batch_outcome_of_def Let_def child_outcomes_def [symmetric] S_def [symmetric] t
    using False by (simp only: if_False) (simp split: if_split)
qed (simp add: batch_outcome_of_def child_outcomes_def)

section \<open>Properties\<close>


definition two_children :: "batch_child list" where
  "two_children = [batch_child_new ''a'' 0 CA_Cancel 1 None, batch_child_new ''b'' 1 CA_Place 1 (Some ''a'')]"


text \<open>The guard always admits a cancel, and admits any other action exactly before its deadline,
  when the session, configuration, plan and connection it was made for are still the active ones and
  every freshness and permission fact holds; an expired deadline takes precedence over a superseded
  plan, and that over a missing fact.\<close>

theorem dispatch_guard_fail_closed:
  "(evaluate_dispatch_guard a c = GD_Allow \<longleftrightarrow> a = CA_Cancel \<or>
     (dg_now c < dg_deadline c \<and> dg_expected_session_id c = dg_active_session_id c \<and>
      dg_expected_config_version c = dg_active_config_version c \<and>
      dg_expected_plan_revision c = dg_active_plan_revision c \<and>
      dg_expected_connection_generation c = dg_active_connection_generation c \<and>
      dg_market_fresh c \<and> dg_account_fresh c \<and> dg_user_stream_fresh c \<and> dg_postgres_fresh c \<and>
      dg_safety_allows_place c \<and> dg_lifecycle_allows_place c \<and> dg_budget_allows_place c \<and>
      dg_reservation_valid c \<and> dg_alo_valid c)) \<and>
   (evaluate_dispatch_guard a c = GD_Expired \<longleftrightarrow> a \<noteq> CA_Cancel \<and> dg_deadline c \<le> dg_now c) \<and>
   (evaluate_dispatch_guard a c = GD_Superseded \<longleftrightarrow> a \<noteq> CA_Cancel \<and> dg_now c < dg_deadline c \<and>
     (dg_expected_session_id c, dg_expected_config_version c, dg_expected_plan_revision c,
      dg_expected_connection_generation c) \<noteq>
     (dg_active_session_id c, dg_active_config_version c, dg_active_plan_revision c,
      dg_active_connection_generation c))"
  by (cases "a = CA_Cancel"; cases "dg_deadline c \<le> dg_now c") (auto simp: evaluate_dispatch_guard_def)

text \<open>The aggregate outcome of a batch says what its children say: succeeded exactly when all
  succeeded, partial or completed exactly when all are terminal with some or no success besides,
  unknown exactly when one is unknown, and pending exactly when something is still to be sent and
  nothing is unknown or in flight.\<close>

theorem batch_outcome_spec:
  "(batch_outcome_of b = BO_Succeeded \<longleftrightarrow> child_outcomes b \<subseteq> {CO_Succeeded}) \<and>
   (batch_outcome_of b \<in> {BO_Succeeded, BO_Partial, BO_Completed} \<longleftrightarrow>
      child_outcomes b \<subseteq> set TERMINAL_CHILD_OUTCOMES) \<and>
   (batch_outcome_of b = BO_Partial \<longleftrightarrow> child_outcomes b \<subseteq> set TERMINAL_CHILD_OUTCOMES \<and>
      CO_Succeeded \<in> child_outcomes b \<and> child_outcomes b \<noteq> {CO_Succeeded}) \<and>
   (batch_outcome_of b = BO_Unknown \<longleftrightarrow> CO_Unknown \<in> child_outcomes b) \<and>
   (batch_outcome_of b = BO_Dispatching \<longleftrightarrow>
      CO_Dispatching \<in> child_outcomes b \<and> CO_Unknown \<notin> child_outcomes b) \<and>
   (batch_outcome_of b = BO_Pending \<longleftrightarrow> CO_Pending \<in> child_outcomes b \<and>
      CO_Unknown \<notin> child_outcomes b \<and> CO_Dispatching \<notin> child_outcomes b)"
proof -
  define S where "S = child_outcomes b"
  have t: "S \<subseteq> set TERMINAL_CHILD_OUTCOMES \<longleftrightarrow> S \<inter> {CO_Pending, CO_Dispatching, CO_Unknown} = {}"
    unfolding subset_iff child_terminal_def [symmetric] child_terminal_iff by blast
  have n: "x \<in> S \<Longrightarrow> x \<noteq> CO_Succeeded \<Longrightarrow> \<not> S \<subseteq> {CO_Succeeded}" for x by blast
  note n = n [of CO_Pending] n [of CO_Unknown] n [of CO_Dispatching]
  show ?thesis
    unfolding batch_outcome_cases S_def [symmetric] t using n
    by (cases "CO_Pending \<in> S"; cases "CO_Unknown \<in> S"; cases "CO_Dispatching \<in> S";
        cases "S \<subseteq> {CO_Succeeded}") auto
qed

end
