(* ===== verification/HE_Ids.thy ===== *)
theory HE_Ids
  imports HE_Models
begin

text \<open>
  \<open>crates/trading/src/execution/cloid.rs\<close> and \<open>nonce.rs\<close>: client order ids and the serial nonce
  queue. Strings are ASCII, so \<open>&s[..n]\<close> never splits a character. SHA-256 (crate \<open>sha2\<close>) is the
  argument \<open>sha256\<close>, the hexadecimal text of the digest, the random UUID is an argument, and the wall
  clock of each step is an argument.
\<close>

section \<open>Client order ids\<close>

definition HL_CLOID_LEN :: nat where "HL_CLOID_LEN = 34"

definition is_hex_digit :: "char \<Rightarrow> bool" where
  "is_hex_digit c \<longleftrightarrow> is_ascii_digit c \<or> (let n = (of_char c :: nat) in 97 \<le> n \<and> n \<le> 102 \<or> 65 \<le> n \<and> n \<le> 70)"

definition to_lower_char :: "char \<Rightarrow> char" where
  "to_lower_char c = (let n = (of_char c :: nat) in if 65 \<le> n \<and> n \<le> 90 then char_of (n + 32) else c)"

definition to_lowercase :: "string \<Rightarrow> string" where "to_lowercase s = map to_lower_char s"

definition show_int :: "int \<Rightarrow> string" where
  "show_int n = (if n < 0 then ''-'' @ show_nat (- n) else show_nat n)"

text \<open>\<open>{seq:04}\<close>\<close>

definition pad4 :: "int \<Rightarrow> string" where
  "pad4 n = replicate (4 - length (show_nat n)) (CHR ''0'') @ show_nat n"

definition truncate64 :: "string \<Rightarrow> string" where
  "truncate64 s = (if length s > 64 then take 64 s else s)"

definition cloid_prefix :: "string option \<Rightarrow> string" where
  "cloid_prefix sid = (case sid of Some s \<Rightarrow> take (min (length s) 20) s | None \<Rightarrow> ''sys'')"

definition cloid_generate :: "int \<Rightarrow> string \<Rightarrow> string option \<Rightarrow> string" where
  "cloid_generate ts short_id sid =
     truncate64 (cloid_prefix sid @ ''_'' @ show_int ts @ ''_'' @ short_id)"

definition uuid_short :: "string \<Rightarrow> string" where "uuid_short simple = take 8 simple"

definition generate_for_strategy :: "string \<Rightarrow> int \<Rightarrow> string" where
  "generate_for_strategy strategy_id seq = truncate64 (strategy_id @ ''_'' @ pad4 seq)"

definition cloid_deterministic :: "(string \<Rightarrow> string) \<Rightarrow> string option \<Rightarrow> string \<Rightarrow> string" where
  "cloid_deterministic sha256 sid intent_key =
     truncate64 (cloid_prefix sid @ ''_'' @ take 24 (sha256 intent_key))"

definition is_hl_cloid :: "string \<Rightarrow> bool" where
  "is_hl_cloid c \<longleftrightarrow> length c = HL_CLOID_LEN \<and> take 2 c = ''0x'' \<and> list_all is_hex_digit (drop 2 c)"

definition to_hl_cloid :: "(string \<Rightarrow> string) \<Rightarrow> string \<Rightarrow> string" where
  "to_hl_cloid sha256 c = (if is_hl_cloid c then to_lowercase c else ''0x'' @ take 32 (sha256 c))"

definition cloid_validate :: "string \<Rightarrow> bool" where
  "cloid_validate c \<longleftrightarrow> str_trim c \<noteq> [] \<and> length c \<le> 64"

section \<open>The nonce queue\<close>

text \<open>\<open>u64\<close> addition wraps in a release build.\<close>

definition nonce_next :: "int \<Rightarrow> int \<Rightarrow> int" where
  "nonce_next now_ms prev = max (max now_ms 0) ((prev + 1) mod 2 ^ 64)"

text \<open>A request carries what the action does with its nonce: \<open>None\<close> when it outlasts the per-action
  timeout. The queue keeps the requests in the channel, the last nonce, and the trace of the actions
  run with the nonce and reply of each.\<close>

type_synonym 'v action_result = "string + 'v"

record 'v action_request =
  ar_description :: string
  ar_run :: "int \<Rightarrow> 'v action_result option"

record 'v nonce_queue =
  nq_capacity :: nat
  nq_timeout_ms :: int
  nq_pending :: "'v action_request list"
  nq_last :: int
  nq_trace :: "(int \<times> string \<times> 'v action_result) list"

definition nonce_queue_new :: "nat \<Rightarrow> int \<Rightarrow> 'v nonce_queue" where
  "nonce_queue_new capacity timeout_ms =
     \<lparr>nq_capacity = capacity, nq_timeout_ms = timeout_ms, nq_pending = [], nq_last = 0, nq_trace = []\<rparr>"

text \<open>\<open>submit\<close> waits for room in the bounded channel: it has an effect only when there is some.\<close>

definition nonce_submit :: "'v nonce_queue \<Rightarrow> 'v action_request \<Rightarrow> 'v nonce_queue option" where
  "nonce_submit q r =
     (if length (nq_pending q) < nq_capacity q then Some (q\<lparr>nq_pending := nq_pending q @ [r]\<rparr>) else None)"

text \<open>One turn of the worker: it takes the first request, draws the nonce and runs the action.\<close>

definition nonce_worker :: "int \<Rightarrow> 'v nonce_queue \<Rightarrow> 'v nonce_queue option" where
  "nonce_worker now_ms q =
     (case nq_pending q of
        [] \<Rightarrow> None
      | req # rest \<Rightarrow>
          let nonce = nonce_next now_ms (nq_last q);
              result = (case ar_run req nonce of
                Some r \<Rightarrow> r
              | None \<Rightarrow> Inl (''action timed out after '' @ show_int (nq_timeout_ms q) @ ''ms: '' @
                         ar_description req))
          in Some (q\<lparr>nq_pending := rest, nq_last := nonce,
                     nq_trace := nq_trace q @ [(nonce, ar_description req, result)]\<rparr>))"

datatype 'v nonce_event = NE_Submit "'v action_request" | NE_Worker int

fun nonce_step :: "'v nonce_event \<Rightarrow> 'v nonce_queue \<Rightarrow> 'v nonce_queue option" where
  "nonce_step (NE_Submit r) q = nonce_submit q r"
| "nonce_step (NE_Worker now) q = nonce_worker now q"

fun nonce_run :: "'v nonce_event list \<Rightarrow> 'v nonce_queue \<Rightarrow> 'v nonce_queue option" where
  "nonce_run [] q = Some q"
| "nonce_run (e # es) q = (case nonce_step e q of None \<Rightarrow> None | Some q' \<Rightarrow> nonce_run es q')"

section \<open>Facts on ids\<close>

lemma truncate64_length: "length (truncate64 s) \<le> 64"
  by (simp add: truncate64_def)

lemma to_lower_hex: "is_hex_digit c \<Longrightarrow> is_hex_digit (to_lower_char c)"
  by (auto simp: is_hex_digit_def is_ascii_digit_def to_lower_char_def Let_def)

lemma to_lower_idem [simp]: "to_lower_char (to_lower_char c) = to_lower_char c"
  by (auto simp: to_lower_char_def Let_def)

lemma to_lowercase_idem [simp]: "to_lowercase (to_lowercase s) = to_lowercase s"
  by (simp add: to_lowercase_def)

lemma to_lower_prefix [simp]: "to_lower_char CHR ''0'' = CHR ''0''" "to_lower_char CHR ''x'' = CHR ''x''"
  by (simp_all add: to_lower_char_def)

lemma to_lowercase_hl: "is_hl_cloid c \<Longrightarrow> is_hl_cloid (to_lowercase c)"
  by (cases c; cases "tl c")
    (auto simp: is_hl_cloid_def to_lowercase_def HL_CLOID_LEN_def list_all_iff to_lower_hex)

lemma show_nat_inj: "0 \<le> a \<Longrightarrow> 0 \<le> b \<Longrightarrow> show_nat a = show_nat b \<Longrightarrow> a = b"
  by (metis show_nat_value)

lemma pad4_value: "0 \<le> n \<Longrightarrow> int_of_digits (pad4 n) = n"
  by (simp add: pad4_def show_nat_value)

lemma pad4_length: "0 \<le> n \<Longrightarrow> n < 10000 \<Longrightarrow> length (pad4 n) = 4"
  using show_nat_length_le [of n 4] by (simp add: pad4_def)

lemma generate_for_strategy_short:
  assumes "0 \<le> n" and "n < 2 ^ 32" and "length sid \<le> 53"
  shows "generate_for_strategy sid n = sid @ ''_'' @ pad4 n"
proof -
  have "n < 10 ^ 10" using assms(2) by simp
  then have "length (show_nat n) \<le> 10" by (rule show_nat_length_le) simp
  then have "length (pad4 n) \<le> 10" by (simp add: pad4_def)
  then show ?thesis using assms(3) by (simp add: generate_for_strategy_def truncate64_def)
qed

text \<open>For a strategy id of 64 characters or more the sequence number is cut off: all sequence numbers
  share one id.\<close>

lemma generate_for_strategy_long: "64 \<le> length sid \<Longrightarrow> generate_for_strategy sid n = take 64 sid"
  by (simp add: generate_for_strategy_def truncate64_def)

section \<open>Facts on nonces\<close>

lemma nonce_next_gt: "0 \<le> prev \<Longrightarrow> prev + 1 < 2 ^ 64 \<Longrightarrow> prev < nonce_next now prev \<and> now \<le> nonce_next now prev"
  by (auto simp: nonce_next_def max_def)

fun event_submits :: "'v nonce_event list \<Rightarrow> 'v action_request list" where
  "event_submits [] = []"
| "event_submits (NE_Submit r # es) = r # event_submits es"
| "event_submits (NE_Worker _ # es) = event_submits es"

fun event_clocks :: "'v nonce_event list \<Rightarrow> int list" where
  "event_clocks [] = []"
| "event_clocks (NE_Submit _ # es) = event_clocks es"
| "event_clocks (NE_Worker n # es) = n # event_clocks es"

abbreviation trace_nonces :: "'v nonce_queue \<Rightarrow> int list" where
  "trace_nonces q \<equiv> map fst (nq_trace q)"

definition queue_descriptions :: "'v nonce_queue \<Rightarrow> string list" where
  "queue_descriptions q = map (fst \<circ> snd) (nq_trace q) @ map ar_description (nq_pending q)"

definition nonce_inv :: "int \<Rightarrow> 'v nonce_queue \<Rightarrow> bool" where
  "nonce_inv bound q \<longleftrightarrow> 0 \<le> nq_last q \<and> nq_last q \<le> bound \<and> sorted_wrt (<) (trace_nonces q) \<and>
     (\<forall>n \<in> set (trace_nonces q). n \<le> nq_last q) \<and> length (nq_pending q) \<le> nq_capacity q"

lemma nonce_worker_cases:
  assumes "nonce_worker now q = Some q'"
  obtains req rest r where "nq_pending q = req # rest"
    "q' = q\<lparr>nq_pending := rest, nq_last := nonce_next now (nq_last q),
       nq_trace := nq_trace q @ [(nonce_next now (nq_last q), ar_description req, r)]\<rparr>"
  using assms by (auto simp: nonce_worker_def Let_def split: list.splits)

lemma nonce_worker_inv:
  assumes "nonce_inv B q" and "nonce_worker now q = Some q'" and "now \<le> B" and "B + 1 < 2 ^ 64"
  shows "nonce_inv (B + 1) q'"
proof -
  obtain req rest r where q: "nq_pending q = req # rest" "q' = q\<lparr>nq_pending := rest,
      nq_last := nonce_next now (nq_last q),
      nq_trace := nq_trace q @ [(nonce_next now (nq_last q), ar_description req, r)]\<rparr>"
    using nonce_worker_cases [OF assms(2)] by blast
  have "nq_last q < nonce_next now (nq_last q)"
    using nonce_next_gt [of "nq_last q" now] assms by (simp add: nonce_inv_def)
  moreover have "nonce_next now (nq_last q) \<le> B + 1"
    using assms by (simp add: nonce_next_def nonce_inv_def)
  ultimately show ?thesis
    using assms(1) by (fastforce simp: q nonce_inv_def sorted_wrt_append)
qed

lemma nonce_run_laws:
  assumes "nonce_inv B q" and "nonce_run es q = Some q'" and "\<forall>n \<in> set (event_clocks es). n \<le> B"
    and "B + int (length es) < 2 ^ 64"
  shows "nonce_inv (B + int (length es)) q' \<and>
    queue_descriptions q' = queue_descriptions q @ map ar_description (event_submits es) \<and>
    (\<exists>ns. trace_nonces q' = trace_nonces q @ ns \<and> list_all2 (\<le>) (event_clocks es) ns)"
  using assms
proof (induction es arbitrary: q B)
  case Nil
  then show ?case by simp
next
  case (Cons e es)
  then obtain q1 where s: "nonce_step e q = Some q1" "nonce_run es q1 = Some q'"
    by (auto split: option.splits)
  show ?case
  proof (cases e)
    case (NE_Submit r)
    with s(1) have q1: "q1 = q\<lparr>nq_pending := nq_pending q @ [r]\<rparr>" "length (nq_pending q) < nq_capacity q"
      by (auto simp: nonce_submit_def split: if_splits)
    then have "nonce_inv (B + 1) q1" using Cons.prems(1) by (simp add: nonce_inv_def)
    moreover have "\<forall>n \<in> set (event_clocks es). n \<le> B + 1"
      using Cons.prems(3) NE_Submit by fastforce
    moreover have "B + 1 + int (length es) < 2 ^ 64" using Cons.prems(4) by simp
    ultimately have "nonce_inv (B + 1 + int (length es)) q' \<and>
        queue_descriptions q' = queue_descriptions q1 @ map ar_description (event_submits es) \<and>
        (\<exists>ns. trace_nonces q' = trace_nonces q1 @ ns \<and> list_all2 (\<le>) (event_clocks es) ns)"
      using Cons.IH s(2) by blast
    moreover have "B + 1 + int (length es) = B + int (length (e # es))" by simp
    ultimately show ?thesis by (simp add: NE_Submit q1 queue_descriptions_def)
  next
    case (NE_Worker now)
    with s have w: "nonce_worker now q = Some q1" by simp
    have i: "nonce_inv (B + 1) q1"
      using nonce_worker_inv [OF Cons.prems(1) w] Cons.prems NE_Worker by simp
    obtain req rest r where q1: "nq_pending q = req # rest" "q1 = q\<lparr>nq_pending := rest,
        nq_last := nonce_next now (nq_last q),
        nq_trace := nq_trace q @ [(nonce_next now (nq_last q), ar_description req, r)]\<rparr>"
      using nonce_worker_cases [OF w] by blast
    have "now \<le> nonce_next now (nq_last q)" by (simp add: nonce_next_def)
    moreover have "queue_descriptions q1 = queue_descriptions q"
      by (simp add: queue_descriptions_def q1)
    moreover have "\<forall>n \<in> set (event_clocks es). n \<le> B + 1"
      using Cons.prems(3) NE_Worker by fastforce
    moreover have "B + 1 + int (length es) < 2 ^ 64" using Cons.prems(4) by simp
    ultimately obtain ns where "nonce_inv (B + 1 + int (length es)) q'"
        "queue_descriptions q' = queue_descriptions q @ map ar_description (event_submits es)"
        "trace_nonces q' = trace_nonces q1 @ ns" "list_all2 (\<le>) (event_clocks es) ns"
        "now \<le> nonce_next now (nq_last q)"
      using Cons.IH [OF i s(2)] by auto
    moreover have "B + 1 + int (length es) = B + int (length (e # es))" by simp
    ultimately show ?thesis by (simp add: NE_Worker q1)
  qed
qed

lemma nonce_run_capacity: "nonce_run es q = Some q' \<Longrightarrow> nq_capacity q' = nq_capacity q"
proof (induction es arbitrary: q)
  case (Cons e es)
  then obtain q1 where "nonce_step e q = Some q1" "nonce_run es q1 = Some q'"
    by (auto split: option.splits)
  with Cons.IH [of q1] show ?case
    by (cases e) (auto simp: nonce_submit_def split: if_splits elim!: nonce_worker_cases)
qed simp

section \<open>Properties\<close>

text \<open>C15: the serial queue runs the actions in submission order, each exactly once and with its own
  nonce; the nonces strictly increase and none is behind the clock of its turn, whatever the clock
  does, even when actions time out; the queue never holds more than its capacity.\<close>

theorem nonce_queue_serial:
  assumes "nonce_run es (nonce_queue_new cap timeout) = Some q"
    and "\<forall>n \<in> set (event_clocks es). n < 2 ^ 63" and "int (length es) < 2 ^ 63"
  shows "sorted_wrt (<) (trace_nonces q) \<and> list_all2 (\<le>) (event_clocks es) (trace_nonces q) \<and>
    map (fst \<circ> snd) (nq_trace q) @ map ar_description (nq_pending q) =
      map ar_description (event_submits es) \<and>
    length (nq_pending q) \<le> cap"
proof -
  let ?q0 = "nonce_queue_new cap timeout :: 'a nonce_queue"
  have i: "nonce_inv (2 ^ 63) ?q0" by (simp add: nonce_inv_def nonce_queue_new_def)
  have c: "\<forall>n \<in> set (event_clocks es). n \<le> 2 ^ 63" using assms(2) by fastforce
  have cap: "nq_capacity q = cap"
    using nonce_run_capacity [OF assms(1)] by (simp add: nonce_queue_new_def)
  from nonce_run_laws [OF i assms(1) c] assms(3) cap show ?thesis
    by (auto simp: nonce_inv_def queue_descriptions_def nonce_queue_new_def)
qed

definition echo_request :: "string \<Rightarrow> int action_request" where
  "echo_request d = \<lparr>ar_description = d, ar_run = (\<lambda>n. Some (Inr n))\<rparr>"

definition stuck_request :: "string \<Rightarrow> int action_request" where
  "stuck_request d = \<lparr>ar_description = d, ar_run = (\<lambda>_. None)\<rparr>"

definition nonce_events :: "int nonce_event list" where
  "nonce_events = [NE_Submit (stuck_request ''a''), NE_Submit (echo_request ''b''), NE_Worker 1000, NE_Worker 990]"

lemma nonce_events_run:
  "map_option trace_nonces (nonce_run nonce_events (nonce_queue_new 64 15000)) = Some [1000, 1001]"
  by (simp add: nonce_events_def nonce_queue_new_def nonce_submit_def nonce_worker_def Let_def
      nonce_next_def stuck_request_def echo_request_def)

lemma nonce_events_bounds:
  "\<forall>n \<in> set (event_clocks nonce_events). n < 2 ^ 63" "int (length nonce_events) < 2 ^ 63"
  by (simp_all add: nonce_events_def)

theorem nonce_queue_serial_witness:
  "\<exists>q. nonce_run nonce_events (nonce_queue_new 64 15000) = Some q \<and> trace_nonces q = [1000, 1001] \<and>
     sorted_wrt (<) (trace_nonces q)"
  using nonce_events_run nonce_queue_serial [OF _ nonce_events_bounds]
  unfolding map_option_eq_Some by metis

text \<open>Every id the exchange sees has its format, whatever the internal id: \<open>0x\<close> and 32 hexadecimal
  digits, and converting it again changes nothing; and two sequence numbers of one strategy (with an
  id of at most 53 characters) never share an internal id. The digest's text is taken to be 64
  hexadecimal digits.\<close>

theorem cloid_formats:
  assumes "\<forall>s. length (sha256 s) = 64 \<and> list_all is_hex_digit (sha256 s)"
  shows "is_hl_cloid (to_hl_cloid sha256 c) \<and>
    to_hl_cloid sha256 (to_hl_cloid sha256 c) = to_lowercase (to_hl_cloid sha256 c) \<and>
    (is_hl_cloid c \<longrightarrow> to_hl_cloid sha256 (to_hl_cloid sha256 c) = to_hl_cloid sha256 c) \<and>
    (length sid \<le> 53 \<and> 0 \<le> m \<and> m < 2 ^ 32 \<and> 0 \<le> n \<and> n < 2 ^ 32 \<and>
       generate_for_strategy sid m = generate_for_strategy sid n \<longrightarrow> m = n)"
proof -
  have "is_hl_cloid (''0x'' @ take 32 (sha256 c))"
    using assms by (auto simp: is_hl_cloid_def HL_CLOID_LEN_def list_all_iff dest: in_set_takeD)
  then have h: "is_hl_cloid (to_hl_cloid sha256 c)"
    by (simp add: to_hl_cloid_def to_lowercase_hl)
  moreover have "m = n" if "length sid \<le> 53" "0 \<le> m" "m < 2 ^ 32" "0 \<le> n" "n < 2 ^ 32"
      "generate_for_strategy sid m = generate_for_strategy sid n"
  proof -
    have "pad4 m = pad4 n" using that generate_for_strategy_short [of _ sid] by simp
    then show "m = n" using pad4_value that by metis
  qed
  ultimately show ?thesis by (auto simp: to_hl_cloid_def)
qed

theorem cloid_formats_witness:
  "is_hl_cloid (to_hl_cloid (\<lambda>_. replicate 64 CHR ''a'') ''trend_0001'') \<and>
   generate_for_strategy ''trend'' 1 \<noteq> generate_for_strategy ''trend'' 2"
proof -
  have h: "\<forall>s. length (replicate 64 CHR ''a'') = 64 \<and> list_all is_hex_digit (replicate 64 CHR ''a'')"
    by (simp add: list_all_iff is_hex_digit_def Let_def)
  from cloid_formats [of "\<lambda>_. replicate 64 CHR ''a''" "''trend_0001''" "''trend''" 1 2, OF h]
  show ?thesis by auto
qed

end
