(* ===== verification/HE_Safety.thy ===== *)
theory HE_Safety
  imports HE_Models
begin

text \<open>
  \<open>crates/trading/src/risk/kill_switch.rs\<close> and \<open>safety.rs\<close>: the kill-switch latch and the safety-mode
  controller. Both are latches that block placements until an explicit release; that contract is the
  locale \<open>halt_latch\<close>, interpreted on both. What a call of the kill switch does after it has let go of
  its locks (persist, cancel, publish) is a list of effects, so that calls can interleave: the step
  relation \<open>ks_step\<close> over the switch, the durable row and the effects still to come.
\<close>

section \<open>The latch contract\<close>

locale halt_latch =
  fixes step :: "'op \<Rightarrow> 's \<Rightarrow> 's" and halted :: "'s \<Rightarrow> bool" and releases :: "'op \<Rightarrow> bool"
    and check :: "'s \<Rightarrow> 'i \<Rightarrow> hypeedge_error + unit"
  assumes stays_halted: "halted s \<Longrightarrow> \<not> releases x \<Longrightarrow> halted (step x s)"
    and halted_blocks: "halted s \<Longrightarrow> \<exists>m r. check s i = Inl (KillSwitchTriggered m r)"
begin

lemma run_halted: "halted s \<Longrightarrow> \<forall>x \<in> set xs. \<not> releases x \<Longrightarrow> halted (fold step xs s)"
  by (induction xs arbitrary: s) (auto intro: stays_halted)

lemma run_blocks:
  "halted s \<Longrightarrow> \<forall>x \<in> set xs. \<not> releases x \<Longrightarrow> \<exists>m r. check (fold step xs s) i = Inl (KillSwitchTriggered m r)"
  by (intro halted_blocks run_halted)

lemma run_unblocked:
  "check (fold step xs s) i = Inr () \<Longrightarrow> halted s \<Longrightarrow> \<exists>x \<in> set xs. releases x"
  using run_blocks [of s xs i] by auto

end

section \<open>The kill switch\<close>

record kill_switch =
  ks_active :: bool
  ks_reason :: "string option"
  ks_enabled :: bool
  ks_cancel_all :: bool
  ks_state_store :: bool

definition kill_switch_new :: "bool \<Rightarrow> kill_switch" where
  "kill_switch_new enabled =
     \<lparr>ks_active = False, ks_reason = None, ks_enabled = enabled, ks_cancel_all = False, ks_state_store = False\<rparr>"

definition with_cancel_all :: "kill_switch \<Rightarrow> kill_switch" where
  "with_cancel_all k = k\<lparr>ks_cancel_all := True\<rparr>"

definition with_state_store :: "kill_switch \<Rightarrow> kill_switch" where
  "with_state_store k = k\<lparr>ks_state_store := True\<rparr>"

datatype ks_effect =
    KE_Persist string "string option" bool string
  | KE_CancelAll
  | KE_Publish string

definition ks_trigger :: "string \<Rightarrow> kill_switch \<Rightarrow> kill_switch \<times> ks_effect list" where
  "ks_trigger reason k =
     (if \<not> ks_active k then
        (k\<lparr>ks_active := True, ks_reason := Some reason\<rparr>,
         (if ks_state_store k then [KE_Persist ''halted'' (Some reason) True ''kill_switch''] else []) @
         (if ks_cancel_all k then [KE_CancelAll] else []) @ [KE_Publish reason])
      else (k, []))"

definition ks_reset :: "kill_switch \<Rightarrow> kill_switch \<times> ks_effect list" where
  "ks_reset k =
     (if ks_active k then
        (k\<lparr>ks_active := False, ks_reason := None\<rparr>,
         if ks_state_store k then [KE_Persist ''normal'' None False ''api_reset''] else [])
      else (k, []))"

definition ks_check :: "kill_switch \<Rightarrow> hypeedge_error + unit" where
  "ks_check k =
     (if ks_active k \<and> ks_enabled k
      then Inl (KillSwitchTriggered ''kill switch triggered'' (ks_reason k)) else Inr ())"

definition ks_restore_active :: "string option \<Rightarrow> kill_switch \<Rightarrow> kill_switch" where
  "ks_restore_active reason k = k\<lparr>ks_active := True, ks_reason := reason\<rparr>"

datatype ks_op = KO_Trigger string | KO_Reset | KO_Restore "string option"

fun ks_apply :: "ks_op \<Rightarrow> kill_switch \<Rightarrow> kill_switch" where
  "ks_apply (KO_Trigger r) k = fst (ks_trigger r k)"
| "ks_apply KO_Reset k = fst (ks_reset k)"
| "ks_apply (KO_Restore r) k = ks_restore_active r k"

definition ks_halted :: "kill_switch \<Rightarrow> bool" where
  "ks_halted k \<longleftrightarrow> ks_active k \<and> ks_enabled k"

interpretation kill: halt_latch ks_apply ks_halted "\<lambda>x. x = KO_Reset" "\<lambda>k (_::order_intent). ks_check k"
proof
  fix s x i
  show "ks_halted s \<Longrightarrow> \<not> x = KO_Reset \<Longrightarrow> ks_halted (ks_apply x s)"
    by (cases x) (auto simp: ks_halted_def ks_trigger_def ks_restore_active_def)
  show "ks_halted s \<Longrightarrow> \<exists>m r. ks_check s = Inl (KillSwitchTriggered m r)"
    by (simp add: ks_halted_def ks_check_def)
qed

section \<open>Durability of the latch\<close>

record durable_system_state =
  ds_state :: string
  ds_kill_switch_active :: bool
  ds_reason :: "string option"

text \<open>The switch of the running process, the durable row, and the effects that the calls in flight
  have still to perform. A write of the row may fail (the error is only logged).\<close>

record ks_world =
  kw_switch :: kill_switch
  kw_row :: "durable_system_state option"
  kw_in_flight :: "ks_effect list list"

fun ks_perform :: "ks_effect \<Rightarrow> durable_system_state option \<Rightarrow> durable_system_state option" where
  "ks_perform (KE_Persist st r active by_whom) row =
     Some \<lparr>ds_state = st, ds_kill_switch_active = active, ds_reason = r\<rparr>"
| "ks_perform KE_CancelAll row = row"
| "ks_perform (KE_Publish r) row = row"

text \<open>A restart builds a new switch and restores an active row (\<open>app/runtime.rs\<close>).\<close>

definition ks_boot :: "bool \<Rightarrow> durable_system_state option \<Rightarrow> kill_switch" where
  "ks_boot enabled row =
     (let k = with_state_store (with_cancel_all (kill_switch_new enabled)) in
      case row of
        Some d \<Rightarrow> if ds_kill_switch_active d then ks_restore_active (ds_reason d) k else k
      | None \<Rightarrow> k)"

datatype ks_call = KC_Trigger string | KC_Reset

fun ks_begin :: "ks_call \<Rightarrow> kill_switch \<Rightarrow> kill_switch \<times> ks_effect list" where
  "ks_begin (KC_Trigger r) k = ks_trigger r k"
| "ks_begin KC_Reset k = ks_reset k"

inductive ks_step :: "ks_world \<Rightarrow> ks_world \<Rightarrow> bool" where
  ks_call_begins: "ks_begin c (kw_switch w) = (k, es) \<Longrightarrow>
     ks_step w (w\<lparr>kw_switch := k, kw_in_flight := kw_in_flight w @ [es]\<rparr>)"
| ks_effect_done: "kw_in_flight w = xs @ (e # es) # ys \<Longrightarrow>
     ks_step w (w\<lparr>kw_row := ks_perform e (kw_row w), kw_in_flight := xs @ es # ys\<rparr>)"
| ks_effect_failed: "kw_in_flight w = xs @ (e # es) # ys \<Longrightarrow>
     ks_step w (w\<lparr>kw_in_flight := xs @ es # ys\<rparr>)"
| ks_restart:
     "ks_step w \<lparr>kw_switch = ks_boot (ks_enabled (kw_switch w)) (kw_row w), kw_row = kw_row w,
        kw_in_flight = []\<rparr>"

inductive_cases ks_stepE: "ks_step w w'"

section \<open>The safety controller\<close>

record safety_state =
  sf_mode :: safety_mode
  sf_reason :: "string option"

definition safety_new :: "safety_mode \<Rightarrow> safety_state" where
  "safety_new m = \<lparr>sf_mode = m, sf_reason = None\<rparr>"

definition safety_default :: safety_state where "safety_default = safety_new SM_Starting"

definition safety_transition :: "safety_mode \<Rightarrow> string option \<Rightarrow> safety_state \<Rightarrow> safety_state" where
  "safety_transition m reason s = \<lparr>sf_mode = m, sf_reason = reason\<rparr>"

definition enter_cancel_only :: "string \<Rightarrow> safety_state \<Rightarrow> safety_state" where
  "enter_cancel_only reason s =
     (if sf_mode s \<noteq> SM_Halting \<and> sf_mode s \<noteq> SM_Halted
      then safety_transition SM_CancelOnly (Some reason) s else s)"

definition check_placement :: "safety_state \<Rightarrow> order_intent \<Rightarrow> hypeedge_error + unit" where
  "check_placement s intent =
     (case sf_mode s of
        SM_Normal \<Rightarrow> Inr ()
      | m \<Rightarrow>
          if m = SM_ReduceOnly \<and> (oi_reduce_only intent \<or> oi_risk_reducing intent) then Inr ()
          else if m = SM_Halting \<or> m = SM_Halted
            then Inl (KillSwitchTriggered ''kill switch triggered'' (sf_reason s))
          else Inl (OrderRejected
                 (''Trading mode '' @ safety_mode_as_str m @ '' does not permit order placement'')
                 (oi_cloid intent) (Some (''safety_mode_'' @ safety_mode_as_str m))))"

definition check_emergency_close :: "safety_state \<Rightarrow> hypeedge_error + unit" where
  "check_emergency_close s =
     (let m = sf_mode s in
      if m = SM_Starting \<or> m = SM_Reconciling
      then Inl (OrderRejected
             (''Trading mode '' @ safety_mode_as_str m @ '' does not permit emergency close'')
             None (Some (''safety_mode_'' @ safety_mode_as_str m)))
      else Inr ())"

datatype safety_op = SO_Transition safety_mode "string option" | SO_CancelOnly string

fun safety_apply :: "safety_op \<Rightarrow> safety_state \<Rightarrow> safety_state" where
  "safety_apply (SO_Transition m r) s = safety_transition m r s"
| "safety_apply (SO_CancelOnly r) s = enter_cancel_only r s"

definition safety_halted :: "safety_state \<Rightarrow> bool" where
  "safety_halted s \<longleftrightarrow> sf_mode s = SM_Halting \<or> sf_mode s = SM_Halted"

text \<open>Only an explicit transition to another mode lifts a halt.\<close>

fun safety_releases :: "safety_op \<Rightarrow> bool" where
  "safety_releases (SO_Transition m r) \<longleftrightarrow> m \<noteq> SM_Halting \<and> m \<noteq> SM_Halted"
| "safety_releases (SO_CancelOnly r) \<longleftrightarrow> False"

interpretation safety: halt_latch safety_apply safety_halted safety_releases check_placement
proof
  fix s x i
  show "safety_halted s \<Longrightarrow> \<not> safety_releases x \<Longrightarrow> safety_halted (safety_apply x s)"
    by (cases x) (auto simp: safety_halted_def safety_transition_def enter_cancel_only_def)
  show "safety_halted s \<Longrightarrow> \<exists>m r. check_placement s i = Inl (KillSwitchTriggered m r)"
    by (auto simp: safety_halted_def check_placement_def)
qed

section \<open>Facts\<close>

lemma check_placement_Inr: "check_placement s i = Inr () \<longleftrightarrow>
  sf_mode s = SM_Normal \<or> (sf_mode s = SM_ReduceOnly \<and> (oi_reduce_only i \<or> oi_risk_reducing i))"
  by (cases "sf_mode s") (simp_all add: check_placement_def)

lemma cancel_only_mode: "sf_mode (enter_cancel_only r s) \<in> {SM_CancelOnly, SM_Halting, SM_Halted}"
  by (simp add: enter_cancel_only_def safety_transition_def)

lemma cancel_only_run: "rs \<noteq> [] \<Longrightarrow> sf_mode (fold enter_cancel_only rs s) \<in> {SM_CancelOnly, SM_Halting, SM_Halted}"
proof -
  assume "rs \<noteq> []"
  then obtain ys y where "rs = ys @ [y]" using rev_exhaust by blast
  then show ?thesis using cancel_only_mode [of y "fold enter_cancel_only ys s"] by simp
qed

lemma cancel_only_halted: "safety_halted s \<Longrightarrow> fold enter_cancel_only rs s = s"
  by (induction rs) (auto simp: enter_cancel_only_def safety_halted_def)

text \<open>Within one call the latch and its row agree: once the effects of the last call have been
  performed, the row says what the switch says.\<close>

definition row_agrees :: "kill_switch \<Rightarrow> durable_system_state option \<Rightarrow> bool" where
  "row_agrees k row \<longleftrightarrow>
     (case row of None \<Rightarrow> \<not> ks_active k
      | Some d \<Rightarrow> ds_kill_switch_active d = ks_active k \<and> (ks_active k \<longrightarrow> ds_reason d = ks_reason k))"

lemma trigger_row_agrees:
  "ks_state_store k \<Longrightarrow> row_agrees k row \<Longrightarrow> ks_trigger r k = (k', es) \<Longrightarrow>
   row_agrees k' (fold ks_perform es row) \<and> ks_state_store k'"
  by (auto simp: ks_trigger_def row_agrees_def split: if_splits)

lemma reset_row_agrees:
  "ks_state_store k \<Longrightarrow> row_agrees k row \<Longrightarrow> ks_reset k = (k', es) \<Longrightarrow>
   row_agrees k' (fold ks_perform es row) \<and> ks_state_store k'"
  by (auto simp: ks_reset_def row_agrees_def split: if_splits)

lemma boot_active: "row_agrees k row \<Longrightarrow> ks_active (ks_boot en row) = ks_active k"
  by (auto simp: row_agrees_def ks_boot_def Let_def with_state_store_def with_cancel_all_def
      kill_switch_new_def ks_restore_active_def split: option.splits)

text \<open>Calls that do not overlap: each performs its effects before the next begins.\<close>

fun serial_call :: "ks_call \<Rightarrow> kill_switch \<times> durable_system_state option \<Rightarrow>
    kill_switch \<times> durable_system_state option" where
  "serial_call c (k, row) = (case ks_begin c k of (k', es) \<Rightarrow> (k', fold ks_perform es row))"

lemma begin_row_agrees:
  "ks_state_store k \<Longrightarrow> row_agrees k row \<Longrightarrow> ks_begin c k = (k', es) \<Longrightarrow>
   row_agrees k' (fold ks_perform es row) \<and> ks_state_store k'"
  by (cases c) (metis ks_begin.simps(1) trigger_row_agrees, metis ks_begin.simps(2) reset_row_agrees)

lemma serial_calls_agree:
  assumes "ks_state_store k" and "row_agrees k row" and "fold serial_call xs (k, row) = (k', row')"
  shows "row_agrees k' row' \<and> ks_state_store k'"
  using assms
proof (induction xs arbitrary: k row)
  case (Cons x xs)
  obtain k1 es where s: "ks_begin x k = (k1, es)" by (cases "ks_begin x k")
  have "fold serial_call xs (k1, fold ks_perform es row) = (k', row')"
    using Cons.prems(3) by (simp add: s)
  with begin_row_agrees [OF Cons.prems(1,2) s] show ?case using Cons.IH by blast
qed simp

section \<open>Properties\<close>





text \<open>The controller admits a placement exactly in normal mode, or in reduce-only mode when the
  order reduces risk; no sequence of cancel-only requests ever makes placements possible or lifts a
  halt; and an emergency close is refused only while starting or reconciling.\<close>

theorem safety_gate:
  assumes "s' = fold enter_cancel_only reasons s"
  shows "(check_placement s i = Inr () \<longleftrightarrow> sf_mode s = SM_Normal \<or>
      (sf_mode s = SM_ReduceOnly \<and> (oi_reduce_only i \<or> oi_risk_reducing i))) \<and>
    (check_placement s' i = Inr () \<longrightarrow> reasons = [] \<and> check_placement s i = Inr ()) \<and>
    (safety_halted s \<longrightarrow> s' = s) \<and>
    (check_emergency_close s = Inr () \<longleftrightarrow> sf_mode s \<noteq> SM_Starting \<and> sf_mode s \<noteq> SM_Reconciling)"
proof -
  have "check_placement s' i \<noteq> Inr ()" if "reasons \<noteq> []"
    using cancel_only_run [OF that, of s] assms by (auto simp: check_placement_Inr)
  moreover have "check_emergency_close s = Inr () \<longleftrightarrow> sf_mode s \<noteq> SM_Starting \<and> sf_mode s \<noteq> SM_Reconciling"
    by (simp add: check_emergency_close_def Let_def)
  ultimately show ?thesis
    using assms cancel_only_halted [of s reasons] check_placement_Inr by (cases "reasons = []") auto
qed

theorem safety_gate_witness:
  "fold enter_cancel_only [''stale''] (safety_new SM_Normal) = \<lparr>sf_mode = SM_CancelOnly, sf_reason = Some ''stale''\<rparr> \<and>
   (\<forall>i. check_placement (fold enter_cancel_only [''stale''] (safety_new SM_Normal)) i \<noteq> Inr ())"
  using safety_gate [of _ "[''stale'']" "safety_new SM_Normal", OF refl]
  by (simp add: enter_cancel_only_def safety_new_def safety_transition_def)

section \<open>Overlapping calls\<close>

text \<open>The row is written after the locks are released. When a trigger overtakes a reset that has not
  yet written its row, the reset's write lands last: the switch is latched, nothing is in flight, and
  the row says normal, so a restart comes up unlatched.\<close>

lemma kill_switch_persist_race:
  fixes k0 defines "k0 \<equiv> ks_boot True (Some \<lparr>ds_state = ''halted'', ds_kill_switch_active = True, ds_reason = None\<rparr>)"
  shows "\<exists>w. ks_step\<^sup>*\<^sup>* \<lparr>kw_switch = k0, kw_row = Some \<lparr>ds_state = ''halted'', ds_kill_switch_active = True,
      ds_reason = None\<rparr>, kw_in_flight = []\<rparr> w \<and> ks_active (kw_switch w) \<and>
      (\<forall>es \<in> set (kw_in_flight w). es = []) \<and> \<not> ks_active (ks_boot True (kw_row w))"
proof -
  let ?w0 = "\<lparr>kw_switch = k0, kw_row = Some \<lparr>ds_state = ''halted'', ds_kill_switch_active = True,
      ds_reason = None\<rparr>, kw_in_flight = []\<rparr>"
  let ?k1 = "fst (ks_reset k0)" and ?p1 = "KE_Persist ''normal'' None False ''api_reset''"
  let ?k2 = "fst (ks_trigger ''loss'' ?k1)" and ?p2 = "KE_Persist ''halted'' (Some ''loss'') True ''kill_switch''"
  let ?rest = "[KE_CancelAll, KE_Publish ''loss'']"
  let ?w1 = "?w0\<lparr>kw_switch := ?k1, kw_in_flight := [[?p1]]\<rparr>"
  let ?w2 = "?w1\<lparr>kw_switch := ?k2, kw_in_flight := [[?p1], ?p2 # ?rest]\<rparr>"
  let ?w3 = "?w2\<lparr>kw_row := ks_perform ?p2 (kw_row ?w2), kw_in_flight := [[?p1], ?rest]\<rparr>"
  let ?w4 = "?w3\<lparr>kw_row := ks_perform ?p1 (kw_row ?w3), kw_in_flight := [[], ?rest]\<rparr>"
  let ?w5 = "?w4\<lparr>kw_row := ks_perform KE_CancelAll (kw_row ?w4), kw_in_flight := [[], [KE_Publish ''loss'']]\<rparr>"
  let ?w6 = "?w5\<lparr>kw_row := ks_perform (KE_Publish ''loss'') (kw_row ?w5), kw_in_flight := [[], []]\<rparr>"
  note defs = k0_def ks_boot_def Let_def with_state_store_def with_cancel_all_def kill_switch_new_def
    ks_restore_active_def ks_reset_def ks_trigger_def
  have 1: "ks_step ?w0 ?w1" using ks_call_begins [of KC_Reset ?w0 ?k1 "[?p1]"] by (simp add: defs)
  have 2: "ks_step ?w1 ?w2" using ks_call_begins [of "KC_Trigger ''loss''" ?w1 ?k2 "?p2 # ?rest"] by (simp add: defs)
  have 3: "ks_step ?w2 ?w3" using ks_effect_done [of ?w2 "[[?p1]]" ?p2 ?rest "[]"] by simp
  have 4: "ks_step ?w3 ?w4" using ks_effect_done [of ?w3 "[]" ?p1 "[]" "[?rest]"] by simp
  have 5: "ks_step ?w4 ?w5" using ks_effect_done [of ?w4 "[[]]" KE_CancelAll "[KE_Publish ''loss'']" "[]"] by simp
  have 6: "ks_step ?w5 ?w6" using ks_effect_done [of ?w5 "[[]]" "KE_Publish ''loss''" "[]" "[]"] by simp
  have "ks_step\<^sup>*\<^sup>* ?w0 ?w6"
    using 1 2 3 4 5 6 by (meson rtranclp.rtrancl_refl rtranclp.rtrancl_into_rtrancl)
  then show ?thesis by (intro exI [of _ ?w6]) (simp add: defs)
qed

end
