(* ===== verification/HE_Canary.thy ===== *)
theory HE_Canary
  imports HE_Models
begin

text \<open>
  \<open>crates/trading/src/risk/canary.rs\<close>: the release gates of a mainnet canary. Durations are
  nanoseconds. The \<open>unwrap\<close> of the two literal thresholds cannot panic (\<open>literal_thresholds\<close>).
\<close>

section \<open>Data\<close>

datatype canary_directive = CD_Running | CD_Paused | CD_CancelOnly | CD_Halted

fun canary_directive_as_str :: "canary_directive \<Rightarrow> string" where
  "canary_directive_as_str CD_Running = ''running''"
| "canary_directive_as_str CD_Paused = ''paused''"
| "canary_directive_as_str CD_CancelOnly = ''cancel_only''"
| "canary_directive_as_str CD_Halted = ''halted''"

record canary_risk_envelope =
  ce_version :: int
  ce_max_deployed_equity :: decimal
  ce_max_quote_notional :: decimal
  ce_max_daily_loss :: decimal
  ce_max_cumulative_loss :: decimal
  ce_max_daily_actions :: int
  ce_max_total_actions :: int
  ce_min_action_credits :: int
  ce_min_cancel_headroom :: int
  ce_max_forced_flatten_count :: int
  ce_max_forced_flatten_cost :: decimal
  ce_unknown_sla :: int
  ce_max_duration :: int
  ce_max_filled_volume :: decimal

definition envelope_validate :: "canary_risk_envelope \<Rightarrow> string + unit" where
  "envelope_validate e =
     (if ce_version e \<le> 0 then Inl ''canary envelope version must be positive''
      else if \<exists>d \<in> set [ce_max_deployed_equity e, ce_max_quote_notional e, ce_max_daily_loss e,
             ce_max_cumulative_loss e, ce_max_forced_flatten_cost e, ce_max_filled_volume e]. d < ZERO
        then Inl ''canary monetary limits cannot be negative''
      else if \<exists>c \<in> set [ce_max_daily_actions e, ce_max_total_actions e, ce_min_action_credits e,
             ce_min_cancel_headroom e, ce_max_forced_flatten_count e]. c < 0
        then Inl ''canary count limits cannot be negative''
      else if ce_max_daily_actions e > ce_max_total_actions e
        then Inl ''daily actions cannot exceed total actions''
      else if ce_unknown_sla e = 0 \<or> ce_max_duration e = 0
        then Inl ''canary time limits must be positive''
      else Inr ())"

record release_evidence =
  re_shadow_complete_utc_days :: int
  re_testnet_clean_utc_days :: int
  re_reconciliation_diff_count :: nat
  re_duplicate_order_count :: nat
  re_risk_bypass_count :: nat
  re_hard_inventory_breach_count :: nat
  re_unresolved_unknown_count :: nat
  re_pessimistic_net_edge_usdc :: decimal
  re_projected_runway_hours :: decimal
  re_required_runway_hours :: decimal

record canary_observation =
  co_observed_at :: int
  co_started_at :: int
  co_deployed_equity :: decimal
  co_live_quote_notional :: decimal
  co_daily_pnl :: decimal
  co_cumulative_pnl :: decimal
  co_daily_actions :: int
  co_total_actions :: int
  co_action_credits :: int
  co_cancel_headroom :: int
  co_forced_flatten_count :: int
  co_forced_flatten_cost :: decimal
  co_oldest_unknown_age :: "int option"
  co_filled_volume :: decimal
  co_reconciliation_healthy :: bool
  co_market_data_healthy :: bool
  co_account_healthy :: bool

record expansion_evidence =
  xe_complete_utc_days :: int
  xe_independent_inventory_episodes :: nat
  xe_regime_coverage_complete :: bool
  xe_accounting_edge_ci95_lower :: decimal
  xe_marginal_usdc_per_action :: decimal
  xe_critical_reconciliation_diff_count :: nat
  xe_duplicate_order_count :: nat
  xe_hard_inventory_breach_count :: nat
  xe_unknown_with_terminal_fact_count :: nat
  xe_unknown_total_count :: nat
  xe_directional_concentration :: decimal

record gate_decision =
  gt_allowed :: bool
  gt_directive :: canary_directive
  gt_reasons :: "string list"

record canary_gate_evaluator =
  cg_shadow_min_days :: int
  cg_testnet_min_days :: int
  cg_expansion_min_days :: int
  cg_expansion_min_episodes :: nat
  cg_max_directional_concentration :: decimal

definition unwrap_strict :: "string \<Rightarrow> decimal option" where
  "unwrap_strict s = (case from_str_strict s of Inr d \<Rightarrow> Some d | Inl _ \<Rightarrow> None)"

definition evaluator_new :: "canary_gate_evaluator option" where
  "evaluator_new =
     map_option (\<lambda>c. \<lparr>cg_shadow_min_days = 14, cg_testnet_min_days = 14, cg_expansion_min_days = 30,
        cg_expansion_min_episodes = 30, cg_max_directional_concentration = c\<rparr>) (unwrap_strict ''0.50'')"

definition evaluator_with_limits :: "int \<Rightarrow> int \<Rightarrow> int \<Rightarrow> nat \<Rightarrow> decimal \<Rightarrow> string + canary_gate_evaluator" where
  "evaluator_with_limits shadow testnet days episodes conc =
     (if shadow \<le> 0 \<or> testnet \<le> 0 \<or> days \<le> 0 \<or> episodes = 0
      then Inl ''release-gate sample minimums must be positive''
      else if conc \<le> ZERO \<or> conc > ONE then Inl ''directional concentration limit must be in (0, 1]''
      else Inr \<lparr>cg_shadow_min_days = shadow, cg_testnet_min_days = testnet, cg_expansion_min_days = days,
             cg_expansion_min_episodes = episodes, cg_max_directional_concentration = conc\<rparr>)"

section \<open>The gates\<close>

text \<open>Each check pushes its reason when it fails: a reason list is the concatenation of the checks.\<close>

definition push :: "bool \<Rightarrow> string \<Rightarrow> string list" where
  "push failed reason = (if failed then [reason] else [])"

definition strict_gate :: "string list \<Rightarrow> gate_decision" where
  "strict_gate reasons =
     \<lparr>gt_allowed = (reasons = []), gt_directive = (if reasons = [] then CD_Running else CD_Halted),
      gt_reasons = reasons\<rparr>"

definition can_start_canary :: "canary_gate_evaluator \<Rightarrow> release_evidence \<Rightarrow> gate_decision" where
  "can_start_canary g e = strict_gate
     (push (re_shadow_complete_utc_days e < cg_shadow_min_days g) ''shadow_observation_incomplete'' @
      push (re_testnet_clean_utc_days e < cg_testnet_min_days g) ''testnet_soak_incomplete'' @
      push (re_reconciliation_diff_count e > 0) ''reconciliation_diff_present'' @
      push (re_duplicate_order_count e > 0) ''duplicate_orders_present'' @
      push (re_risk_bypass_count e > 0) ''risk_bypass_present'' @
      push (re_hard_inventory_breach_count e > 0) ''hard_inventory_breach_present'' @
      push (re_unresolved_unknown_count e > 0) ''unresolved_unknown_present'' @
      push (re_pessimistic_net_edge_usdc e < ZERO) ''pessimistic_edge_negative'' @
      push (re_projected_runway_hours e < re_required_runway_hours e) ''action_runway_insufficient'')"

text \<open>\<open>elapsed\<close> is a plain \<open>i64\<close> subtraction, \<open>as_millis() as i64\<close> a truncating cast.\<close>

definition co_elapsed :: "canary_observation \<Rightarrow> int" where
  "co_elapsed o' = wrap_i64 (co_observed_at o' - co_started_at o')"

definition ce_max_duration_ms :: "canary_risk_envelope \<Rightarrow> int" where
  "ce_max_duration_ms e = wrap_i64 (ce_max_duration e div 1000000)"

definition live_halted :: "canary_risk_envelope \<Rightarrow> canary_observation \<Rightarrow> string list" where
  "live_halted e o' =
     push (\<not> co_reconciliation_healthy o') ''reconciliation_unhealthy'' @
     push (co_deployed_equity o' > ce_max_deployed_equity e) ''deployed_equity_limit'' @
     push (- co_cumulative_pnl o' > ce_max_cumulative_loss e) ''cumulative_loss_limit'' @
     push (co_total_actions o' > ce_max_total_actions e) ''total_action_limit'' @
     push (co_elapsed o' > ce_max_duration_ms e) ''maximum_duration'' @
     push (co_filled_volume o' > ce_max_filled_volume e) ''filled_volume_limit'' @
     push (co_forced_flatten_count o' > ce_max_forced_flatten_count e) ''forced_flatten_count_limit'' @
     push (co_forced_flatten_cost o' > ce_max_forced_flatten_cost e) ''forced_flatten_cost_limit''"

definition live_cancel_only :: "canary_risk_envelope \<Rightarrow> canary_observation \<Rightarrow> string list" where
  "live_cancel_only e o' =
     push (case co_oldest_unknown_age o' of None \<Rightarrow> False | Some age \<Rightarrow> age > ce_unknown_sla e)
       ''unknown_sla_exceeded'' @
     push (co_action_credits o' < ce_min_action_credits e) ''action_credits_below_minimum'' @
     push (co_cancel_headroom o' < ce_min_cancel_headroom e) ''cancel_headroom_below_minimum'' @
     push (\<not> co_market_data_healthy o' \<or> \<not> co_account_healthy o') ''runtime_data_unhealthy''"

definition live_paused :: "canary_risk_envelope \<Rightarrow> canary_observation \<Rightarrow> string list" where
  "live_paused e o' =
     push (co_live_quote_notional o' > ce_max_quote_notional e) ''quote_notional_limit'' @
     push (- co_daily_pnl o' > ce_max_daily_loss e) ''daily_loss_limit'' @
     push (co_daily_actions o' > ce_max_daily_actions e) ''daily_action_limit''"

definition evaluate_live :: "canary_risk_envelope \<Rightarrow> canary_observation \<Rightarrow> gate_decision" where
  "evaluate_live e o' =
     (let halted = live_halted e o'; cancel_only = live_cancel_only e o'; paused = live_paused e o' in
      if halted \<noteq> []
        then \<lparr>gt_allowed = False, gt_directive = CD_Halted, gt_reasons = halted @ cancel_only @ paused\<rparr>
      else if cancel_only \<noteq> []
        then \<lparr>gt_allowed = False, gt_directive = CD_CancelOnly, gt_reasons = cancel_only @ paused\<rparr>
      else if paused \<noteq> []
        then \<lparr>gt_allowed = False, gt_directive = CD_Paused, gt_reasons = paused\<rparr>
      else \<lparr>gt_allowed = True, gt_directive = CD_Running, gt_reasons = []\<rparr>)"

definition can_expand :: "canary_gate_evaluator \<Rightarrow> expansion_evidence \<Rightarrow> gate_decision option" where
  "can_expand g e = map_option (\<lambda>gate. strict_gate
     (push (xe_complete_utc_days e < cg_expansion_min_days g) ''observation_window_incomplete'' @
      push (xe_independent_inventory_episodes e < cg_expansion_min_episodes g)
        ''inventory_episode_sample_insufficient'' @
      push (\<not> xe_regime_coverage_complete e) ''regime_coverage_incomplete'' @
      push (xe_accounting_edge_ci95_lower e \<le> ZERO) ''accounting_edge_ci_not_positive'' @
      push (xe_marginal_usdc_per_action e < gate) ''marginal_usdc_per_action_below_gate'' @
      push (xe_critical_reconciliation_diff_count e > 0) ''critical_reconciliation_diff_present'' @
      push (xe_duplicate_order_count e > 0) ''duplicate_orders_present'' @
      push (xe_hard_inventory_breach_count e > 0) ''hard_inventory_breach_present'' @
      push (xe_unknown_with_terminal_fact_count e \<noteq> xe_unknown_total_count e)
        ''unknown_without_terminal_fact'' @
      push (xe_directional_concentration e > cg_max_directional_concentration g)
        ''directional_pnl_concentration'')) (unwrap_strict ''1.25'')"

section \<open>Facts\<close>

lemma literal_thresholds:
  "unwrap_strict ''0.50'' = Some (Dec 500000000000000000)"
  "unwrap_strict ''1.25'' = Some (Dec 1250000000000000000)"
  by code_simp+

lemma push_Nil [simp]: "push b r = [] \<longleftrightarrow> \<not> b"
  by (simp add: push_def)

lemma push_mono: "(b \<longrightarrow> c) \<Longrightarrow> set (push b r) \<subseteq> set (push c r)"
  by (auto simp: push_def)

fun severity :: "canary_directive \<Rightarrow> nat" where
  "severity CD_Running = 0" | "severity CD_Paused = 1" | "severity CD_CancelOnly = 2" | "severity CD_Halted = 3"

text \<open>\<open>worse o p\<close>: no measure of \<open>p\<close> is better than that of \<open>o\<close>.\<close>

definition worse :: "canary_observation \<Rightarrow> canary_observation \<Rightarrow> bool" where
  "worse o' p \<longleftrightarrow>
     (co_reconciliation_healthy p \<longrightarrow> co_reconciliation_healthy o') \<and>
     (co_market_data_healthy p \<longrightarrow> co_market_data_healthy o') \<and>
     (co_account_healthy p \<longrightarrow> co_account_healthy o') \<and>
     co_deployed_equity o' \<le> co_deployed_equity p \<and> co_cumulative_pnl p \<le> co_cumulative_pnl o' \<and>
     co_total_actions o' \<le> co_total_actions p \<and> co_elapsed o' \<le> co_elapsed p \<and>
     co_filled_volume o' \<le> co_filled_volume p \<and> co_forced_flatten_count o' \<le> co_forced_flatten_count p \<and>
     co_forced_flatten_cost o' \<le> co_forced_flatten_cost p \<and>
     (\<forall>a. co_oldest_unknown_age o' = Some a \<longrightarrow> (\<exists>b. co_oldest_unknown_age p = Some b \<and> a \<le> b)) \<and>
     co_action_credits p \<le> co_action_credits o' \<and> co_cancel_headroom p \<le> co_cancel_headroom o' \<and>
     co_live_quote_notional o' \<le> co_live_quote_notional p \<and> co_daily_pnl p \<le> co_daily_pnl o' \<and>
     co_daily_actions o' \<le> co_daily_actions p"

lemma neg_antimono: "d \<le> e \<Longrightarrow> - e \<le> - d" for d e :: decimal
  by (simp add: dec_le_iff sat_i128_mono)

lemma live_halted_mono: "worse o' p \<Longrightarrow> set (live_halted e o') \<subseteq> set (live_halted e p)"
  unfolding live_halted_def set_append
  by (intro Un_mono push_mono) (auto simp: worse_def dest: neg_antimono)

lemma live_cancel_only_mono: "worse o' p \<Longrightarrow> set (live_cancel_only e o') \<subseteq> set (live_cancel_only e p)"
  unfolding live_cancel_only_def set_append
  by (intro Un_mono push_mono) (auto simp: worse_def split: option.splits)

lemma live_paused_mono: "worse o' p \<Longrightarrow> set (live_paused e o') \<subseteq> set (live_paused e p)"
  unfolding live_paused_def set_append
  by (intro Un_mono push_mono) (auto simp: worse_def dest: neg_antimono)

lemmas live_mono = live_halted_mono live_cancel_only_mono live_paused_mono

lemma evaluate_live_directive:
  "gt_directive (evaluate_live e o') =
     (if live_halted e o' \<noteq> [] then CD_Halted else if live_cancel_only e o' \<noteq> [] then CD_CancelOnly
      else if live_paused e o' \<noteq> [] then CD_Paused else CD_Running)"
  by (simp add: evaluate_live_def Let_def)

lemma evaluate_live_reasons:
  "gt_reasons (evaluate_live e o') = live_halted e o' @ live_cancel_only e o' @ live_paused e o'"
  by (simp add: evaluate_live_def Let_def)

section \<open>Properties\<close>

text \<open>The live gate allows a canary to run exactly when no limit of its envelope is exceeded and
  every feed is healthy, halts it exactly when a halting limit is exceeded, and reports every failed
  check; an observation that is worse in any measure and better in none never gets a milder directive
  or fewer reasons.\<close>

theorem canary_live_gate:
  assumes "worse o' p"
  shows "(gt_allowed (evaluate_live e o') \<longleftrightarrow> gt_directive (evaluate_live e o') = CD_Running) \<and>
    (gt_allowed (evaluate_live e o') \<longleftrightarrow> gt_reasons (evaluate_live e o') = []) \<and>
    (gt_allowed (evaluate_live e o') \<longleftrightarrow>
       co_reconciliation_healthy o' \<and> co_market_data_healthy o' \<and> co_account_healthy o' \<and>
       co_deployed_equity o' \<le> ce_max_deployed_equity e \<and> - co_cumulative_pnl o' \<le> ce_max_cumulative_loss e \<and>
       co_total_actions o' \<le> ce_max_total_actions e \<and> co_elapsed o' \<le> ce_max_duration_ms e \<and>
       co_filled_volume o' \<le> ce_max_filled_volume e \<and>
       co_forced_flatten_count o' \<le> ce_max_forced_flatten_count e \<and>
       co_forced_flatten_cost o' \<le> ce_max_forced_flatten_cost e \<and>
       (\<forall>age. co_oldest_unknown_age o' = Some age \<longrightarrow> age \<le> ce_unknown_sla e) \<and>
       ce_min_action_credits e \<le> co_action_credits o' \<and> ce_min_cancel_headroom e \<le> co_cancel_headroom o' \<and>
       co_live_quote_notional o' \<le> ce_max_quote_notional e \<and> - co_daily_pnl o' \<le> ce_max_daily_loss e \<and>
       co_daily_actions o' \<le> ce_max_daily_actions e) \<and>
    (gt_directive (evaluate_live e o') = CD_Halted \<longleftrightarrow> live_halted e o' \<noteq> []) \<and>
    severity (gt_directive (evaluate_live e o')) \<le> severity (gt_directive (evaluate_live e p)) \<and>
    set (gt_reasons (evaluate_live e o')) \<subseteq> set (gt_reasons (evaluate_live e p))"
proof (intro conjI)
  have al: "gt_allowed (evaluate_live e o') \<longleftrightarrow>
      live_halted e o' = [] \<and> live_cancel_only e o' = [] \<and> live_paused e o' = []"
    by (simp add: evaluate_live_def Let_def)
  then show "gt_allowed (evaluate_live e o') \<longleftrightarrow> gt_directive (evaluate_live e o') = CD_Running"
    and "gt_allowed (evaluate_live e o') \<longleftrightarrow> gt_reasons (evaluate_live e o') = []"
    by (simp_all add: evaluate_live_directive evaluate_live_reasons)
  show "gt_allowed (evaluate_live e o') \<longleftrightarrow>
       co_reconciliation_healthy o' \<and> co_market_data_healthy o' \<and> co_account_healthy o' \<and>
       co_deployed_equity o' \<le> ce_max_deployed_equity e \<and> - co_cumulative_pnl o' \<le> ce_max_cumulative_loss e \<and>
       co_total_actions o' \<le> ce_max_total_actions e \<and> co_elapsed o' \<le> ce_max_duration_ms e \<and>
       co_filled_volume o' \<le> ce_max_filled_volume e \<and>
       co_forced_flatten_count o' \<le> ce_max_forced_flatten_count e \<and>
       co_forced_flatten_cost o' \<le> ce_max_forced_flatten_cost e \<and>
       (\<forall>age. co_oldest_unknown_age o' = Some age \<longrightarrow> age \<le> ce_unknown_sla e) \<and>
       ce_min_action_credits e \<le> co_action_credits o' \<and> ce_min_cancel_headroom e \<le> co_cancel_headroom o' \<and>
       co_live_quote_notional o' \<le> ce_max_quote_notional e \<and> - co_daily_pnl o' \<le> ce_max_daily_loss e \<and>
       co_daily_actions o' \<le> ce_max_daily_actions e"
    unfolding al live_halted_def live_cancel_only_def live_paused_def append_is_Nil_conv push_Nil not_less
    by (auto split: option.splits)
  show "severity (gt_directive (evaluate_live e o')) \<le> severity (gt_directive (evaluate_live e p))"
    using live_mono [OF assms, of e] by (auto simp: evaluate_live_directive)
  show "set (gt_reasons (evaluate_live e o')) \<subseteq> set (gt_reasons (evaluate_live e p))"
    unfolding evaluate_live_reasons set_append using live_mono [OF assms, of e] by blast
qed (simp add: evaluate_live_directive)

definition sample_observation :: canary_observation where
  "sample_observation =
     \<lparr>co_observed_at = 1000, co_started_at = 0, co_deployed_equity = ONE, co_live_quote_notional = ONE,
      co_daily_pnl = ZERO, co_cumulative_pnl = ZERO, co_daily_actions = 1, co_total_actions = 1,
      co_action_credits = 10, co_cancel_headroom = 10, co_forced_flatten_count = 0,
      co_forced_flatten_cost = ZERO, co_oldest_unknown_age = None, co_filled_volume = ZERO,
      co_reconciliation_healthy = True, co_market_data_healthy = True, co_account_healthy = True\<rparr>"

theorem canary_live_gate_witness:
  "worse sample_observation (sample_observation\<lparr>co_reconciliation_healthy := False\<rparr>) \<and>
   (\<forall>e. severity (gt_directive (evaluate_live e sample_observation)) \<le>
      severity (gt_directive (evaluate_live e (sample_observation\<lparr>co_reconciliation_healthy := False\<rparr>))))"
proof -
  have w: "worse sample_observation (sample_observation\<lparr>co_reconciliation_healthy := False\<rparr>)"
    by (simp add: worse_def sample_observation_def co_elapsed_def)
  from canary_live_gate [OF w] w show ?thesis by blast
qed

text \<open>A mainnet canary may start exactly when every piece of release evidence is in place, and risk
  may be expanded exactly when every piece of expansion evidence is; neither gate panics, and a refusal
  always names a reason and halts.\<close>

theorem canary_release_gates:
  "(gt_allowed (can_start_canary g r) \<longleftrightarrow>
      cg_shadow_min_days g \<le> re_shadow_complete_utc_days r \<and>
      cg_testnet_min_days g \<le> re_testnet_clean_utc_days r \<and>
      re_reconciliation_diff_count r = 0 \<and> re_duplicate_order_count r = 0 \<and> re_risk_bypass_count r = 0 \<and>
      re_hard_inventory_breach_count r = 0 \<and> re_unresolved_unknown_count r = 0 \<and>
      ZERO \<le> re_pessimistic_net_edge_usdc r \<and> re_required_runway_hours r \<le> re_projected_runway_hours r) \<and>
   (gt_allowed (can_start_canary g r) \<longleftrightarrow> gt_directive (can_start_canary g r) = CD_Running) \<and>
   (\<exists>d. can_expand g x = Some d \<and> (gt_allowed d \<longleftrightarrow> gt_reasons d = []) \<and>
      (gt_directive d = (if gt_allowed d then CD_Running else CD_Halted)) \<and>
      (gt_allowed d \<longleftrightarrow> cg_expansion_min_days g \<le> xe_complete_utc_days x \<and>
        cg_expansion_min_episodes g \<le> xe_independent_inventory_episodes x \<and> xe_regime_coverage_complete x \<and>
        ZERO < xe_accounting_edge_ci95_lower x \<and>
        Dec 1250000000000000000 \<le> xe_marginal_usdc_per_action x \<and>
        xe_critical_reconciliation_diff_count x = 0 \<and> xe_duplicate_order_count x = 0 \<and>
        xe_hard_inventory_breach_count x = 0 \<and>
        xe_unknown_with_terminal_fact_count x = xe_unknown_total_count x \<and>
        xe_directional_concentration x \<le> cg_max_directional_concentration g))"
  unfolding can_expand_def literal_thresholds
  by (simp add: can_start_canary_def strict_gate_def not_less not_le)

end
