(* ===== verification/HE_Rate_Limiter.thy ===== *)
theory HE_Rate_Limiter
  imports HE_Models
begin

text \<open>
  \<open>crates/trading/src/market_data/rate_limiter.rs\<close>: the sliding window of request weights and the
  action credits. Every \<open>Instant::now()\<close> of the code is a clock reading given as an argument, in
  nanoseconds; \<open>acquire\<close> reads it twice per attempt (the cutoff, then the stamp it records). Weights
  are unbounded naturals here: \<open>calculate_weight_fits\<close> shows that they are far from \<open>u64\<close> overflow.
\<close>

section \<open>Weights\<close>

definition IP_WEIGHT_LIMIT_PER_MIN :: nat where "IP_WEIGHT_LIMIT_PER_MIN = 1200"
definition DEFAULT_INFO_WEIGHT :: nat where "DEFAULT_INFO_WEIGHT = 20"
definition EXCHANGE_WEIGHT_BASE :: nat where "EXCHANGE_WEIGHT_BASE = 1"
definition ACTION_CREDITS_INITIAL :: int where "ACTION_CREDITS_INITIAL = 10000"

definition ENDPOINT_WEIGHTS :: "(string \<times> nat) list" where
  "ENDPOINT_WEIGHTS =
     [(''l2Book'', 2), (''allMids'', 2), (''clearinghouseState'', 2), (''orderStatus'', 2),
      (''spotClearinghouseState'', 2), (''exchangeStatus'', 2), (''userRole'', 60), (''explorer'', 40)]"

definition PER_ITEM_ENDPOINTS :: "(string \<times> nat) list" where
  "PER_ITEM_ENDPOINTS =
     [(''fundingHistory'', 20), (''candleSnapshot'', 60), (''userFills'', 20),
      (''userFillsByTime'', 20), (''recentTrades'', 20), (''historicalOrders'', 20)]"

definition div_ceil :: "nat \<Rightarrow> nat \<Rightarrow> nat" where
  "div_ceil a b = (if a mod b > 0 then a div b + 1 else a div b)"

definition calculate_weight :: "string \<Rightarrow> nat \<Rightarrow> nat \<Rightarrow> nat" where
  "calculate_weight endpoint batch_length item_count =
     (if endpoint = ''exchange'' then EXCHANGE_WEIGHT_BASE + batch_length div 40
      else let base = (case map_of ENDPOINT_WEIGHTS endpoint of Some w \<Rightarrow> w | None \<Rightarrow> DEFAULT_INFO_WEIGHT);
               item_weight = (case map_of PER_ITEM_ENDPOINTS endpoint of
                  Some batch \<Rightarrow> if item_count > 0 then div_ceil item_count batch else 0
                | None \<Rightarrow> 0)
           in base + item_weight)"

section \<open>State and operations\<close>

record rate_limiter =
  rt_ip_weight_limit :: nat
  rt_low_watermark :: int
  rt_stamps :: "(time_ns \<times> nat) list"
  rt_credits :: int
  rt_last_query :: "time_ns option"

definition rate_limiter_new :: "nat \<Rightarrow> int \<Rightarrow> rate_limiter" where
  "rate_limiter_new limit watermark =
     \<lparr>rt_ip_weight_limit = limit, rt_low_watermark = watermark, rt_stamps = [],
      rt_credits = ACTION_CREDITS_INITIAL, rt_last_query = None\<rparr>"

definition rate_limiter_default :: rate_limiter where
  "rate_limiter_default = rate_limiter_new IP_WEIGHT_LIMIT_PER_MIN 1000"

definition WINDOW :: time_ns where "WINDOW = 60000000000"

text \<open>\<open>current_weight\<close> drops the stamps that left the window and sums the rest.\<close>

definition current_weight :: "time_ns \<Rightarrow> rate_limiter \<Rightarrow> rate_limiter \<times> nat" where
  "current_weight now rt =
     (let kept = filter (\<lambda>(ts, _). ts > now - WINDOW) (rt_stamps rt)
      in (rt\<lparr>rt_stamps := kept\<rparr>, sum_list (map snd kept)))"

text \<open>One attempt of \<open>acquire\<close>: \<open>now\<close> is read for the cutoff, \<open>stamp\<close> when the weight is recorded.
  The value is the weight in use when there was no room.\<close>

definition acquire_attempt :: "nat \<Rightarrow> time_ns \<Rightarrow> time_ns \<Rightarrow> rate_limiter \<Rightarrow> rate_limiter \<times> nat option" where
  "acquire_attempt weight now stamp rt =
     (let (rt', current) = current_weight now rt in
      if current + weight \<le> rt_ip_weight_limit rt'
      then (rt'\<lparr>rt_stamps := rt_stamps rt' @ [(stamp, weight)]\<rparr>, None)
      else (rt', Some current))"

text \<open>The retry loop: an attempt, then up to sixty more, one second apart. \<open>clock\<close> gives the two
  readings of each attempt.\<close>

function acquire_loop :: "nat \<Rightarrow> (nat \<Rightarrow> time_ns \<times> time_ns) \<Rightarrow> nat \<Rightarrow> rate_limiter \<Rightarrow>
    rate_limiter \<times> (string + unit)" where
  "acquire_loop weight clock attempts rt =
     (case acquire_attempt weight (fst (clock attempts)) (snd (clock attempts)) rt of
        (rt', None) \<Rightarrow> (rt', Inr ())
      | (rt', Some current) \<Rightarrow>
          if attempts + 1 > 60
          then (rt', Inl (''IP weight limit exceeded after 60 retries: need '' @ show_nat (int weight) @
                 '', have '' @ show_nat (int (rt_ip_weight_limit rt' - current))))
          else acquire_loop weight clock (attempts + 1) rt')"
  by pat_completeness auto
termination by (relation "measure (\<lambda>(_, _, attempts, _). 61 - attempts)") auto

declare acquire_loop.simps [simp del]

definition acquire :: "string \<Rightarrow> nat \<Rightarrow> nat \<Rightarrow> (nat \<Rightarrow> time_ns \<times> time_ns) \<Rightarrow> rate_limiter \<Rightarrow>
    rate_limiter \<times> (string + unit)" where
  "acquire endpoint batch_length item_count clock rt =
     acquire_loop (calculate_weight endpoint batch_length item_count) clock 0 rt"

definition acquire_action_credits :: "int \<Rightarrow> rate_limiter \<Rightarrow> bool" where
  "acquire_action_credits count rt = (\<not> rt_credits rt < count)"

definition update_action_credits :: "time_ns \<Rightarrow> int \<Rightarrow> rate_limiter \<Rightarrow> rate_limiter" where
  "update_action_credits now remaining rt = rt\<lparr>rt_credits := remaining, rt_last_query := Some now\<rparr>"

text \<open>\<open>Duration::as_secs_f64\<close>; \<open>Instant::elapsed\<close> saturates at zero.\<close>

definition as_secs_f64 :: "int \<Rightarrow> f64" where
  "as_secs_f64 d = f64_add (f64_of_int (d div 1000000000))
     (f64_div (f64_of_int (d mod 1000000000)) (f64_of_int 1000000000))"

definition action_credits_are_fresh :: "time_ns \<Rightarrow> f64 \<Rightarrow> rate_limiter \<Rightarrow> bool" where
  "action_credits_are_fresh now max_age rt =
     (case rt_last_query rt of
        Some ts \<Rightarrow> f64_le (as_secs_f64 (max 0 (now - ts))) max_age
      | None \<Rightarrow> False)"

definition check_action_credits :: "time_ns \<Rightarrow> rate_limiter \<Rightarrow> bool" where
  "check_action_credits now rt \<longleftrightarrow>
     action_credits_are_fresh now (F64_Fin 120) rt \<and> rt_credits rt \<ge> rt_low_watermark rt"

definition ip_weight_remaining :: "time_ns \<Rightarrow> rate_limiter \<Rightarrow> rate_limiter \<times> nat" where
  "ip_weight_remaining now rt =
     (let (rt', current) = current_weight now rt in (rt', rt_ip_weight_limit rt' - current))"

section \<open>The window over the history of grants\<close>

text \<open>A history: the limiter together with every grant ever made, oldest first. Each operation reads
  the clock no earlier than the operations before it.\<close>

record limiter_history =
  lh_limiter :: rate_limiter
  lh_grants :: "(time_ns \<times> nat) list"
  lh_now :: time_ns

inductive limiter_step :: "limiter_history \<Rightarrow> limiter_history \<Rightarrow> bool" where
  grant: "lh_now h \<le> now \<Longrightarrow> now \<le> stamp \<Longrightarrow> acquire_attempt w now stamp (lh_limiter h) = (rt, None) \<Longrightarrow>
     limiter_step h \<lparr>lh_limiter = rt, lh_grants = lh_grants h @ [(stamp, w)], lh_now = stamp\<rparr>"
| refuse: "lh_now h \<le> now \<Longrightarrow> acquire_attempt w now stamp (lh_limiter h) = (rt, Some c) \<Longrightarrow>
     limiter_step h \<lparr>lh_limiter = rt, lh_grants = lh_grants h, lh_now = now\<rparr>"
| query: "lh_now h \<le> now \<Longrightarrow> ip_weight_remaining now (lh_limiter h) = (rt, n) \<Longrightarrow>
     limiter_step h \<lparr>lh_limiter = rt, lh_grants = lh_grants h, lh_now = now\<rparr>"
| credits: "lh_now h \<le> now \<Longrightarrow>
     limiter_step h \<lparr>lh_limiter = update_action_credits now r (lh_limiter h), lh_grants = lh_grants h, lh_now = now\<rparr>"

definition granted_between :: "time_ns \<Rightarrow> time_ns \<Rightarrow> (time_ns \<times> nat) list \<Rightarrow> nat" where
  "granted_between lo hi gs = sum_list (map snd (filter (\<lambda>(ts, _). lo < ts \<and> ts \<le> hi) gs))"

text \<open>The stamps kept are the grants after the last cutoff; no window of the history is overfull.\<close>

definition limiter_inv :: "limiter_history \<Rightarrow> bool" where
  "limiter_inv h \<longleftrightarrow>
     (\<forall>(ts, w) \<in> set (lh_grants h). ts \<le> lh_now h) \<and>
     (\<exists>cut. cut \<le> lh_now h - WINDOW \<and>
        rt_stamps (lh_limiter h) = filter (\<lambda>(ts, _). ts > cut) (lh_grants h)) \<and>
     (\<forall>t. granted_between (t - WINDOW) t (lh_grants h) \<le> rt_ip_weight_limit (lh_limiter h))"

lemma granted_between_append [simp]:
  "granted_between lo hi (gs @ hs) = granted_between lo hi gs + granted_between lo hi hs"
  by (simp add: granted_between_def)

lemma granted_between_le:
  "lo' \<le> lo \<Longrightarrow> granted_between lo hi gs \<le> sum_list (map snd (filter (\<lambda>(ts, _). ts > lo') gs))"
  unfolding granted_between_def by (induction gs) auto

lemma WINDOW_pos: "0 < WINDOW" by (simp add: WINDOW_def)

lemma filter_cut:
  "cut \<le> now \<Longrightarrow> filter (\<lambda>(ts, _). now < ts) (filter (\<lambda>(ts, _). cut < ts) gs) =
   filter (\<lambda>(ts, _). now < ts) gs" for cut now :: time_ns
  by (induction gs) auto

lemma current_weight_history:
  assumes "limiter_inv h" and "lh_now h \<le> now" and "current_weight now (lh_limiter h) = (rt, c)"
  shows "rt_stamps rt = filter (\<lambda>(ts, _). now - WINDOW < ts) (lh_grants h)"
    "c = sum_list (map snd (rt_stamps rt))" "rt_ip_weight_limit rt = rt_ip_weight_limit (lh_limiter h)"
proof -
  from assms(1) obtain cut where cut: "cut \<le> lh_now h - WINDOW"
    "rt_stamps (lh_limiter h) = filter (\<lambda>(ts, _). ts > cut) (lh_grants h)"
    by (auto simp: limiter_inv_def)
  then have "cut \<le> now - WINDOW" using assms(2) by simp
  moreover have "rt_stamps rt = filter (\<lambda>(ts, _). now - WINDOW < ts) (rt_stamps (lh_limiter h))"
    using assms(3) by (auto simp: current_weight_def Let_def)
  ultimately show "rt_stamps rt = filter (\<lambda>(ts, _). now - WINDOW < ts) (lh_grants h)"
    unfolding cut(2) by (simp only: filter_cut)
  show "c = sum_list (map snd (rt_stamps rt))" "rt_ip_weight_limit rt = rt_ip_weight_limit (lh_limiter h)"
    using assms(3) by (auto simp: current_weight_def Let_def)
qed

lemma granted_nil [simp]: "granted_between lo hi [] = 0"
  by (simp add: granted_between_def)

text \<open>A grant keeps every window within the limit: a window that contains it starts no earlier than
  the cutoff of its attempt.\<close>

lemma grant_inv:
  assumes i: "limiter_inv h" and le: "lh_now h \<le> now" "now \<le> stamp"
    and a: "acquire_attempt w now stamp (lh_limiter h) = (rt, None)"
  shows "limiter_inv \<lparr>lh_limiter = rt, lh_grants = lh_grants h @ [(stamp, w)], lh_now = stamp\<rparr>"
proof -
  obtain rt0 c0 where cw: "current_weight now (lh_limiter h) = (rt0, c0)"
    by (cases "current_weight now (lh_limiter h)")
  note k = current_weight_history [OF i le(1) cw]
  from a cw have fit: "c0 + w \<le> rt_ip_weight_limit rt0"
    and rt: "rt = rt0\<lparr>rt_stamps := rt_stamps rt0 @ [(stamp, w)]\<rparr>"
    by (auto simp: acquire_attempt_def Let_def split: if_splits)
  have old: "granted_between (t - WINDOW) t (lh_grants h) \<le> rt_ip_weight_limit rt0" for t
    using i k(3) by (simp add: limiter_inv_def)
  have w: "granted_between (t - WINDOW) t (lh_grants h @ [(stamp, w)]) \<le> rt_ip_weight_limit rt" for t
  proof (cases "t - WINDOW < stamp \<and> stamp \<le> t")
    case True
    then have "now - WINDOW \<le> t - WINDOW" using le by simp
    then have "granted_between (t - WINDOW) t (lh_grants h) \<le> c0"
      unfolding k(2) k(1) by (rule granted_between_le)
    then show ?thesis using True fit by (simp add: rt granted_between_def [of _ _ "[(stamp, w)]"])
  next
    case False
    then show ?thesis using old by (auto simp: rt granted_between_def [of _ _ "[(stamp, w)]"])
  qed
  have "rt_stamps rt = filter (\<lambda>(ts, _). ts > now - WINDOW) (lh_grants h @ [(stamp, w)])"
    using le WINDOW_pos by (simp add: rt k(1))
  then have "\<exists>cut \<le> stamp - WINDOW. rt_stamps rt = filter (\<lambda>(ts, _). ts > cut) (lh_grants h @ [(stamp, w)])"
    using le by (intro exI [of _ "now - WINDOW"]) simp
  moreover have "\<forall>(ts, w) \<in> set (lh_grants h @ [(stamp, w)]). ts \<le> stamp"
    using i le by (fastforce simp: limiter_inv_def)
  ultimately show ?thesis using w unfolding limiter_inv_def limiter_history.simps by blast
qed

lemma prune_inv:
  assumes i: "limiter_inv h" and le: "lh_now h \<le> now" and cw: "current_weight now (lh_limiter h) = (rt, w)"
  shows "limiter_inv \<lparr>lh_limiter = rt, lh_grants = lh_grants h, lh_now = now\<rparr>"
proof -
  note k = current_weight_history [OF i le cw]
  have "\<forall>(ts, w) \<in> set (lh_grants h). ts \<le> now"
    using i le by (fastforce simp: limiter_inv_def)
  then show ?thesis using i k by (auto simp: limiter_inv_def)
qed

lemma limiter_step_inv: "limiter_step h h' \<Longrightarrow> limiter_inv h \<Longrightarrow> limiter_inv h'"
proof (induction rule: limiter_step.induct)
  case (grant h now stamp w rt)
  then show ?case using grant_inv by blast
next
  case (refuse h now w stamp rt c)
  have "current_weight now (lh_limiter h) = (rt, c)"
    using refuse.hyps(2) by (auto simp: acquire_attempt_def Let_def split: prod.splits if_splits)
  then show ?case using refuse prune_inv by blast
next
  case (query h now rt n)
  then obtain w where "current_weight now (lh_limiter h) = (rt, w)"
    by (auto simp: ip_weight_remaining_def Let_def split: prod.splits)
  then show ?case using query prune_inv by blast
next
  case (credits h now r)
  then have "\<forall>(ts, w) \<in> set (lh_grants h). ts \<le> now"
    by (fastforce simp: limiter_inv_def)
  moreover from credits obtain cut where "cut \<le> lh_now h - WINDOW"
    "rt_stamps (lh_limiter h) = filter (\<lambda>(ts, _). ts > cut) (lh_grants h)"
    by (auto simp: limiter_inv_def)
  then have "\<exists>cut \<le> now - WINDOW. rt_stamps (lh_limiter h) = filter (\<lambda>(ts, _). ts > cut) (lh_grants h)"
    using credits.hyps by (intro exI [of _ cut]) simp
  ultimately show ?case
    using credits.prems by (simp add: limiter_inv_def update_action_credits_def)
qed

definition history_new :: "nat \<Rightarrow> int \<Rightarrow> time_ns \<Rightarrow> limiter_history" where
  "history_new limit watermark now = \<lparr>lh_limiter = rate_limiter_new limit watermark, lh_grants = [], lh_now = now\<rparr>"

lemma history_new_inv: "limiter_inv (history_new limit watermark now)"
  by (auto simp: limiter_inv_def history_new_def rate_limiter_new_def)

lemma limiter_step_limit:
  "limiter_step h h' \<Longrightarrow> rt_ip_weight_limit (lh_limiter h') = rt_ip_weight_limit (lh_limiter h)"
  by (induction rule: limiter_step.induct)
    (auto simp: acquire_attempt_def ip_weight_remaining_def current_weight_def Let_def
      update_action_credits_def split: if_splits)

lemma limiter_run:
  assumes "limiter_step\<^sup>*\<^sup>* h h'" and "limiter_inv h"
  shows "limiter_inv h' \<and> rt_ip_weight_limit (lh_limiter h') = rt_ip_weight_limit (lh_limiter h)"
  using assms by (induction rule: rtranclp_induct) (auto intro: limiter_step_inv dest: limiter_step_limit)

section \<open>The retry loop\<close>

lemma calculate_weight_fits:
  "batch < 2 ^ 64 \<Longrightarrow> items < 2 ^ 64 \<Longrightarrow> calculate_weight e batch items \<le> 2 ^ 60"
proof -
  assume "batch < 2 ^ 64" and items: "items < 2 ^ 64"
  then have b: "batch div 40 \<le> 2 ^ 59" by simp
  have d: "div_ceil items k \<le> 2 ^ 64 div 20 + 1" if "20 \<le> k" for k
  proof -
    have "items div k \<le> items div 20" using that by (rule div_le_mono2 [rotated]) simp
    also have "\<dots> \<le> 2 ^ 64 div 20" using items by (intro div_le_mono) simp
    finally show ?thesis by (simp add: div_ceil_def)
  qed
  show ?thesis
    using b d [of 20] d [of 60]
    by (auto simp: calculate_weight_def EXCHANGE_WEIGHT_BASE_def ENDPOINT_WEIGHTS_def
        PER_ITEM_ENDPOINTS_def DEFAULT_INFO_WEIGHT_def Let_def)
qed

text \<open>A request that fits the limit on its own is granted as soon as the window is empty.\<close>

lemma acquire_attempt_empty:
  "\<forall>(ts, _) \<in> set (rt_stamps rt). ts \<le> now - WINDOW \<Longrightarrow> w \<le> rt_ip_weight_limit rt \<Longrightarrow>
   snd (acquire_attempt w now stamp rt) = None"
proof -
  assume o: "\<forall>(ts, _) \<in> set (rt_stamps rt). ts \<le> now - WINDOW" and w: "w \<le> rt_ip_weight_limit rt"
  from o have "filter (\<lambda>(ts, _). now - WINDOW < ts) (rt_stamps rt) = []"
    by (auto simp: filter_empty_conv)
  with w show ?thesis by (simp add: acquire_attempt_def current_weight_def Let_def)
qed

lemma acquire_attempt_refused:
  assumes "acquire_attempt w now stamp rt = (rt', Some c)"
  shows "set (rt_stamps rt') \<subseteq> set (rt_stamps rt)" "rt_ip_weight_limit rt' = rt_ip_weight_limit rt"
  using assms by (auto simp: acquire_attempt_def current_weight_def Let_def split: if_splits)

lemma acquire_loop_granted:
  assumes "w \<le> rt_ip_weight_limit rt" and "\<forall>(ts, _) \<in> set (rt_stamps rt). ts \<le> fst (clock 60) - WINDOW"
    and "n \<le> 60"
  shows "snd (acquire_loop w clock n rt) = Inr ()"
  using assms
proof (induction "60 - n" arbitrary: n rt)
  case 0
  then have "n = 60" by simp
  with 0 have "snd (acquire_attempt w (fst (clock n)) (snd (clock n)) rt) = None"
    by (intro acquire_attempt_empty) auto
  then show ?case
    by (subst acquire_loop.simps) (auto split: prod.split option.split)
next
  case (Suc k)
  show ?case
  proof (cases "acquire_attempt w (fst (clock n)) (snd (clock n)) rt")
    case (Pair rt' r)
    show ?thesis
    proof (cases r)
      case None
      with Pair show ?thesis by (subst acquire_loop.simps) simp
    next
      case (Some c)
      note k = acquire_attempt_refused [OF Pair [unfolded Some]]
      have "snd (acquire_loop w clock (n + 1) rt') = Inr ()"
        by (rule Suc.hyps(1)) (use Suc k in auto)
      with Pair Some Suc.hyps(2) show ?thesis by (subst acquire_loop.simps) simp
    qed
  qed
qed

lemma acquire_attempt_too_big:
  "rt_ip_weight_limit rt < w \<Longrightarrow> \<exists>rt' c. acquire_attempt w now stamp rt = (rt', Some c) \<and>
     rt_ip_weight_limit rt' = rt_ip_weight_limit rt"
  by (auto simp: acquire_attempt_def current_weight_def Let_def)

lemma acquire_loop_too_big:
  "rt_ip_weight_limit rt < w \<Longrightarrow> n \<le> 60 \<Longrightarrow> \<exists>m. snd (acquire_loop w clock n rt) = Inl m"
proof (induction "60 - n" arbitrary: n rt)
  case 0
  obtain rt' c where "acquire_attempt w (fst (clock n)) (snd (clock n)) rt = (rt', Some c)"
    using acquire_attempt_too_big [OF 0(2)] by blast
  with 0 show ?case by (subst acquire_loop.simps) simp
next
  case (Suc k)
  obtain rt' c where s: "acquire_attempt w (fst (clock n)) (snd (clock n)) rt = (rt', Some c)"
    "rt_ip_weight_limit rt' = rt_ip_weight_limit rt"
    using acquire_attempt_too_big [OF Suc(3)] by blast
  have "\<exists>m. snd (acquire_loop w clock (n + 1) rt') = Inl m"
    by (rule Suc.hyps(1)) (use Suc s in auto)
  with s Suc.hyps(2) show ?case by (subst acquire_loop.simps) simp
qed

section \<open>Properties\<close>

text \<open>C18: whatever sequence of acquisitions, refusals, queries and credit updates happens, at
  non-decreasing clock readings, the weights granted in any sixty-second window never exceed the
  limit.\<close>

theorem rate_window_never_overfull:
  assumes "limiter_step\<^sup>*\<^sup>* (history_new limit watermark now0) h"
  shows "granted_between (t - WINDOW) t (lh_grants h) \<le> limit"
proof -
  have "limiter_inv h" "rt_ip_weight_limit (lh_limiter h) = limit"
    using limiter_run [OF assms history_new_inv] by (simp_all add: history_new_def rate_limiter_new_def)
  then show ?thesis unfolding limiter_inv_def by metis
qed

theorem rate_window_never_overfull_witness:
  "\<exists>h. limiter_step\<^sup>*\<^sup>* (history_new 10 0 0) h \<and> lh_grants h = [(5, 7)] \<and>
     granted_between (5 - WINDOW) 5 (lh_grants h) \<le> 10"
proof -
  let ?h0 = "history_new 10 0 0"
  let ?rt = "(rate_limiter_new 10 0)\<lparr>rt_stamps := [(5, 7)]\<rparr>"
  let ?h1 = "\<lparr>lh_limiter = ?rt, lh_grants = [(5, 7)], lh_now = 5\<rparr>"
  have "acquire_attempt 7 3 5 (lh_limiter ?h0) = (?rt, None)"
    by (simp add: acquire_attempt_def current_weight_def history_new_def rate_limiter_new_def)
  then have "limiter_step ?h0 ?h1"
    using limiter_step.grant [of ?h0 3 5 7 ?rt] by (simp add: history_new_def)
  then have r: "limiter_step\<^sup>*\<^sup>* ?h0 ?h1" by blast
  show ?thesis
    by (intro exI [of _ ?h1] conjI r rate_window_never_overfull [OF r]) simp
qed

text \<open>Acquisition always returns. When no one else uses the limiter and each retry comes at least a
  second after the one before, a request within the limit is granted, at the latest by the sixtieth
  retry; a request above the limit is always refused with an error.\<close>

theorem acquire_outcome:
  assumes "\<forall>k. fst (clock k) \<ge> fst (clock 0) + int k * 1000000000"
    and "\<forall>(ts, _) \<in> set (rt_stamps rt). ts \<le> fst (clock 0)"
  shows "snd (acquire endpoint batch items clock rt) = Inr () \<longleftrightarrow>
    calculate_weight endpoint batch items \<le> rt_ip_weight_limit rt"
proof
  have "fst (clock 0) \<le> fst (clock 60) - WINDOW" using assms(1) [rule_format, of 60] by (simp add: WINDOW_def)
  then have "\<forall>(ts, _) \<in> set (rt_stamps rt). ts \<le> fst (clock 60) - WINDOW" using assms(2) by fastforce
  then show "calculate_weight endpoint batch items \<le> rt_ip_weight_limit rt \<Longrightarrow>
      snd (acquire endpoint batch items clock rt) = Inr ()"
    unfolding acquire_def by (intro acquire_loop_granted) simp_all
  show "snd (acquire endpoint batch items clock rt) = Inr () \<Longrightarrow>
      calculate_weight endpoint batch items \<le> rt_ip_weight_limit rt"
    using acquire_loop_too_big [of rt _ 0 clock] unfolding acquire_def
    by (metis Inl_Inr_False le0 not_le)
qed

theorem acquire_outcome_witness:
  "snd (acquire ''l2Book'' 0 0 (\<lambda>k. (int k * 1000000000, int k * 1000000000 + 1)) rate_limiter_default) = Inr ()"
proof -
  have c: "\<forall>k. fst (int k * 1000000000, int k * 1000000000 + 1) \<ge>
      fst (int 0 * 1000000000, int 0 * 1000000000 + 1) + int k * (1000000000::int)" by simp
  have s: "\<forall>(ts, _) \<in> set (rt_stamps rate_limiter_default). ts \<le> fst (int 0 * 1000000000, int 0 * 1000000000 + 1)"
    by (simp add: rate_limiter_default_def rate_limiter_new_def)
  have "calculate_weight ''l2Book'' 0 0 = 2" by code_simp
  then show ?thesis
    using acquire_outcome [of "\<lambda>k. (int k * 1000000000, int k * 1000000000 + 1)", OF c s]
    by (simp add: rate_limiter_default_def rate_limiter_new_def IP_WEIGHT_LIMIT_PER_MIN_def)
qed

end
