(* ===== verification/HE_Risk.thy ===== *)
theory HE_Risk
  imports HE_Models
begin

text \<open>
  \<open>crates/trading/src/risk/checker.rs\<close>: the pre-trade risk check. The \<open>AccountView\<close> trait object is a
  record of what it returns, the clock an argument. The checks divide by the equity, so they return an
  option (\<open>None\<close> is a panic; \<open>risk_check_fail_safe\<close> excludes it). The inner future has no await point:
  whether the deadline fires is the argument \<open>deadline\<close>, for the defensive branch of \<open>check\<close>.
\<close>

record account_view =
  av_account_state :: "account_state option"
  av_position :: "string \<Rightarrow> position option"
  av_last_update_ts :: "time_ns option"

definition rc_fail :: "string \<Rightarrow> string list \<Rightarrow> risk_check_result" where
  "rc_fail reason checked = \<lparr>rc_passed = False, rc_reason = Some reason, rc_checked_limits = checked\<rparr>"

definition rc_pass :: "string list \<Rightarrow> risk_check_result" where
  "rc_pass checked = \<lparr>rc_passed = True, rc_reason = None, rc_checked_limits = checked\<rparr>"

definition conservative_fallback_price :: "order_intent \<Rightarrow> position option \<Rightarrow> decimal option" where
  "conservative_fallback_price intent pos =
     (case (oi_price intent, Option.bind pos ps_mark_price) of
        (Some l, Some m) \<Rightarrow> Some (if oi_side intent = Sell then dec_max l m else dec_min l m)
      | (Some l, None) \<Rightarrow> Some l
      | (None, _) \<Rightarrow> None)"

definition or_else :: "'a option \<Rightarrow> 'a option \<Rightarrow> 'a option" where
  "or_else a b = (case a of Some x \<Rightarrow> Some x | None \<Rightarrow> b)"

definition effective_reference_price :: "order_intent \<Rightarrow> position option \<Rightarrow> decimal option \<Rightarrow> decimal" where
  "effective_reference_price intent pos reference =
     (case or_else (or_else reference (conservative_fallback_price intent pos)) (Option.bind pos ps_mark_price) of
        Some p \<Rightarrow> p | None \<Rightarrow> ZERO)"

definition account_stale :: "risk_limits \<Rightarrow> account_view \<Rightarrow> time_ns \<Rightarrow> bool" where
  "account_stale lims v now =
     (case av_last_update_ts v of
        None \<Rightarrow> True
      | Some ts \<Rightarrow> f64_lt (rl_account_stale_seconds lims) (f64_of_int (num_seconds (now - ts))))"

definition resulting_size :: "order_intent \<Rightarrow> position option \<Rightarrow> decimal" where
  "resulting_size intent pos =
     (case pos of Some p \<Rightarrow> ps_size p | None \<Rightarrow> ZERO) +
     (if oi_side intent = Buy then oi_size intent else - oi_size intent)"

definition position_fraction :: "risk_limits \<Rightarrow> decimal" where
  "position_fraction lims = (case from_f64 (rl_max_position_pct lims) of Inr d \<Rightarrow> d | Inl _ \<Rightarrow> ZERO)"

definition drawdown_exceeded :: "risk_limits \<Rightarrow> account_state \<Rightarrow> bool" where
  "drawdown_exceeded lims a = f64_le (rl_max_drawdown_pct lims) (drawdown_pct a)"

definition drawdown_reason :: "risk_limits \<Rightarrow> account_state \<Rightarrow> string" where
  "drawdown_reason lims a = ''drawdown_exceeded: '' @ f64_display_fixed 4 (drawdown_pct a) @ '' >= '' @
     f64_to_string (rl_max_drawdown_pct lims)"

definition run_spot_checks :: "risk_limits \<Rightarrow> account_state \<Rightarrow> order_intent \<Rightarrow> decimal \<Rightarrow> string list \<Rightarrow>
    risk_check_result" where
  "run_spot_checks lims account intent price checked =
     (if oi_reduce_only intent then rc_fail ''spot_reduce_only_invalid'' checked
      else let checked = checked @ [''spot_balance_validated_upstream''] in
        if oi_risk_reducing intent then
          (if oi_side intent \<noteq> Sell then rc_fail ''invalid_risk_reducing_order'' checked
           else rc_pass (checked @ [''risk_reducing_exit'']))
        else let checked = checked @ [''max_drawdown''] in
          if drawdown_exceeded lims account then rc_fail (drawdown_reason lims account) checked
          else if ac_equity account \<le> ZERO then rc_fail ''account_equity_non_positive'' checked
          else if oi_side intent = Buy then
            (let notional = oi_size intent * price;
                 max_notional = ac_equity account * position_fraction lims;
                 checked = checked @ [''max_position_pct'']
             in if notional > max_notional then rc_fail ''position_limit_exceeded'' checked
                else rc_pass checked)
          else rc_pass checked)"

definition run_perp_checks :: "risk_limits \<Rightarrow> account_state \<Rightarrow> decimal \<Rightarrow> decimal \<Rightarrow> string list \<Rightarrow>
    risk_check_result option" where
  "run_perp_checks lims account rsize price checked =
     (let checked = checked @ [''max_drawdown''] in
      if drawdown_exceeded lims account then Some (rc_fail (drawdown_reason lims account) checked)
      else let checked = checked @ [''max_leverage''];
               notional = dec_abs rsize * price;
               equity = ac_equity account
           in if equity \<le> ZERO then Some (rc_fail ''account_equity_non_positive'' checked)
              else case (dec_div notional equity, from_i128 (int (rl_max_leverage lims))) of
                (Some leverage, Some cap) \<Rightarrow>
                  if leverage > cap then Some (rc_fail ''leverage_exceeded'' checked)
                  else let checked = checked @ [''max_position_pct''];
                           max_notional = equity * position_fraction lims
                       in if notional > max_notional then Some (rc_fail ''position_limit_exceeded'' checked)
                          else Some (rc_pass checked)
              | _ \<Rightarrow> None)"

definition run_checks :: "risk_limits \<Rightarrow> account_view \<Rightarrow> time_ns \<Rightarrow> order_intent \<Rightarrow> decimal option \<Rightarrow>
    (hypeedge_error + risk_check_result) option" where
  "run_checks lims v now intent reference =
     (case av_account_state v of
        None \<Rightarrow> Some (Inr (rc_fail ''account_state_not_available'' [''account_state_missing'']))
      | Some account \<Rightarrow>
          let checked = [''account_state_available'', ''account_state_fresh''] in
          if account_stale lims v now then Some (Inr (rc_fail ''account_state_stale'' checked))
          else let pos = av_position v (oi_symbol intent);
                   price = effective_reference_price intent pos reference
               in if price \<le> ZERO then Some (Inr (rc_fail ''market_price_not_available'' checked))
                  else if oi_is_spot intent
                    then Some (Inr (run_spot_checks lims account intent price checked))
                  else map_option Inr (run_perp_checks lims account (resulting_size intent pos) price checked))"

record risk_checker =
  rk_limits :: risk_limits
  rk_check_count :: int
  rk_reject_count :: int

definition risk_checker_new :: "risk_limits \<Rightarrow> risk_checker" where
  "risk_checker_new lims = \<lparr>rk_limits = lims, rk_check_count = 0, rk_reject_count = 0\<rparr>"

text \<open>The atomic counters wrap at \<open>u64\<close>.\<close>

definition u64_succ :: "int \<Rightarrow> int" where "u64_succ n = (n + 1) mod 2 ^ 64"

definition risk_check :: "risk_checker \<Rightarrow> account_view \<Rightarrow> time_ns \<Rightarrow> bool \<Rightarrow> order_intent \<Rightarrow> decimal option \<Rightarrow>
    (risk_checker \<times> risk_check_result) option" where
  "risk_check rk v now deadline intent reference =
     (let rk1 = rk\<lparr>rk_check_count := u64_succ (rk_check_count rk)\<rparr>;
          rejected = rk1\<lparr>rk_reject_count := u64_succ (rk_reject_count rk1)\<rparr>
      in if deadline then Some (rejected, rc_fail ''risk_check_timeout'' [])
         else case run_checks (rk_limits rk) v now intent reference of
           None \<Rightarrow> None
         | Some (Inr result) \<Rightarrow> Some (if rc_passed result then rk1 else rejected, result)
         | Some (Inl e) \<Rightarrow> Some (rejected, rc_fail (''risk_check_error: '' @ error_display e) []))"

section \<open>Facts\<close>

lemma rc_simps [simp]: "\<not> rc_passed (rc_fail r c)" "rc_passed (rc_pass c)"
  "rc_reason (rc_fail r c) = Some r" "rc_reason (rc_pass c) = None"
  by (simp_all add: rc_fail_def rc_pass_def)

lemma effective_price_given [simp]: "effective_reference_price i pos (Some p) = p"
  by (simp add: effective_reference_price_def or_else_def)

lemma run_spot_reason: "rc_passed (run_spot_checks lims a i p ch) \<longleftrightarrow> rc_reason (run_spot_checks lims a i p ch) = None"
  by (simp add: run_spot_checks_def Let_def)

lemma run_perp_reason: "run_perp_checks lims a s p ch = Some r \<Longrightarrow> rc_passed r \<longleftrightarrow> rc_reason r = None"
  by (auto simp: run_perp_checks_def Let_def split: if_splits option.splits)

lemma run_checks_reason: "run_checks lims v now i ref = Some (Inr r) \<Longrightarrow> rc_passed r \<longleftrightarrow> rc_reason r = None"
  by (auto simp: run_checks_def Let_def run_spot_reason dest: run_perp_reason split: if_splits option.splits)

lemma leverage_cap: "n < 2 ^ 32 \<Longrightarrow> from_i128 (int n) = Some (Dec (int n * SCALE_I128))"
proof -
  assume "n < 2 ^ 32"
  then have "int n < 2 ^ 32" by (metis of_nat_less_iff of_nat_numeral of_nat_power)
  then have "in_i128 (int n * SCALE_I128)"
    by (intro in_i128_absI) (simp add: SCALE_I128_def i128_bounds)
  then show ?thesis by (simp add: from_i128_def)
qed

lemma run_spot_passed:
  "rc_passed (run_spot_checks lims a i p ch) \<longleftrightarrow> \<not> oi_reduce_only i \<and>
     (if oi_risk_reducing i then oi_side i = Sell
      else \<not> drawdown_exceeded lims a \<and> ZERO < ac_equity a \<and>
        (oi_side i = Buy \<longrightarrow> oi_size i * p \<le> ac_equity a * position_fraction lims))"
  by (auto simp: run_spot_checks_def Let_def not_le not_less)

lemma run_perp_cases:
  assumes "rl_max_leverage lims < 2 ^ 32"
  shows "\<exists>r. run_perp_checks lims a s p ch = Some r \<and>
    (rc_passed r \<longleftrightarrow> \<not> drawdown_exceeded lims a \<and> ZERO < ac_equity a \<and>
       dec_abs s * p \<le> ac_equity a * position_fraction lims \<and>
       (\<exists>q. dec_div (dec_abs s * p) (ac_equity a) = Some q \<and> raw q \<le> int (rl_max_leverage lims) * SCALE_I128))"
proof (cases "drawdown_exceeded lims a \<or> ac_equity a \<le> ZERO")
  case True
  then show ?thesis by (auto simp: run_perp_checks_def Let_def not_less)
next
  case False
  then have e: "0 < raw (ac_equity a)" by (simp add: dec_le_iff)
  then obtain q where "dec_div (dec_abs s * p) (ac_equity a) = Some q"
    by (metis dec_div_Some_iff less_irrefl)
  with False e show ?thesis
    by (auto simp: run_perp_checks_def Let_def leverage_cap [OF assms] dec_cmp)
qed

lemma run_checks_returns: "rl_max_leverage lims < 2 ^ 32 \<Longrightarrow> \<exists>r. run_checks lims v now i ref = Some (Inr r)"
  using run_perp_cases by (force simp: run_checks_def Let_def split: option.splits)

section \<open>Properties\<close>

text \<open>C6: an order that passes has an account state that exists and is not stale and a positive
  reference price; a perpetual order leaves the drawdown below its limit, the equity positive, and the
  resulting position's notional within the position fraction and the leverage cap; a spot order is not
  reduce-only, a risk-reducing one is a sale, and any other respects the drawdown limit and, buying, the
  position fraction.\<close>

theorem risk_pass_sound:
  assumes "run_checks lims v now i reference = Some (Inr r)" and "rc_passed r"
    and "rl_max_leverage lims < 2 ^ 32"
    and "pos = av_position v (oi_symbol i)" and "price = effective_reference_price i pos reference"
  shows "\<exists>a ts. av_account_state v = Some a \<and> av_last_update_ts v = Some ts \<and>
    \<not> f64_lt (rl_account_stale_seconds lims) (f64_of_int (num_seconds (now - ts))) \<and> ZERO < price \<and>
    (\<not> oi_is_spot i \<longrightarrow> \<not> drawdown_exceeded lims a \<and> ZERO < ac_equity a \<and>
       dec_abs (resulting_size i pos) * price \<le> ac_equity a * position_fraction lims \<and>
       (\<exists>q. dec_div (dec_abs (resulting_size i pos) * price) (ac_equity a) = Some q \<and>
          raw q \<le> int (rl_max_leverage lims) * SCALE_I128)) \<and>
    (oi_is_spot i \<longrightarrow> \<not> oi_reduce_only i \<and> (oi_risk_reducing i \<longrightarrow> oi_side i = Sell) \<and>
       (\<not> oi_risk_reducing i \<longrightarrow> \<not> drawdown_exceeded lims a \<and> ZERO < ac_equity a \<and>
          (oi_side i = Buy \<longrightarrow> oi_size i * price \<le> ac_equity a * position_fraction lims)))"
proof -
  from assms(1,2) obtain a where a: "av_account_state v = Some a"
    by (auto simp: run_checks_def split: option.splits)
  have st: "\<not> account_stale lims v now"
    using assms(1,2) a by (auto simp: run_checks_def Let_def split: if_splits)
  then obtain ts where ts: "av_last_update_ts v = Some ts"
      "\<not> f64_lt (rl_account_stale_seconds lims) (f64_of_int (num_seconds (now - ts)))"
    by (auto simp: account_stale_def split: option.splits)
  have p: "ZERO < price"
    using assms a st by (auto simp: run_checks_def Let_def not_le split: if_splits)
  let ?ch = "[''account_state_available'', ''account_state_fresh'']"
  have perp: "run_perp_checks lims a (resulting_size i pos) price ?ch = Some r" if "\<not> oi_is_spot i"
    using that assms a st p by (auto simp: run_checks_def Let_def not_le split: if_splits)
  have spot: "r = run_spot_checks lims a i price ?ch" if "oi_is_spot i"
    using that assms a st p by (auto simp: run_checks_def Let_def not_le split: if_splits)
  show ?thesis
    using a ts p assms(2) perp spot run_perp_cases [OF assms(3), of a "resulting_size i pos" price ?ch]
    by (auto simp: run_spot_passed)
qed

definition flat_view :: account_view where
  "flat_view =
     \<lparr>av_account_state = Some \<lparr>ac_equity = Dec (1000 * SCALE_I128), ac_available_balance = ZERO,
        ac_total_margin_used = ZERO, ac_total_unrealized_pnl = ZERO,
        ac_peak_equity = Dec (1000 * SCALE_I128), ac_sub_account = None\<rparr>,
      av_position = (\<lambda>_. None), av_last_update_ts = Some 0\<rparr>"

definition spot_exit :: order_intent where
  "spot_exit = \<lparr>oi_symbol = ''HYPE'', oi_side = Sell, oi_size = ONE, oi_price = None,
     oi_order_type = OT_Limit, oi_tif = Gtc, oi_strategy_id = None, oi_sub_account = None,
     oi_reduce_only = False, oi_cloid = None, oi_client_id = None, oi_is_spot = True,
     oi_risk_reducing = True, oi_max_slippage_bps = 50\<rparr>"

lemma flat_view_fresh: "account_stale risk_limits_default flat_view 1000000000 = False"
  by (simp add: account_stale_def flat_view_def num_seconds_def f64_of_int_exact risk_limits_default_def)

theorem risk_pass_sound_witness:
  "\<exists>r. run_checks risk_limits_default flat_view 1000000000 spot_exit (Some ONE) = Some (Inr r) \<and> rc_passed r \<and>
     oi_side spot_exit = Sell \<and> ZERO < effective_reference_price spot_exit None (Some ONE)"
proof -
  have e: "ONE = effective_reference_price spot_exit None (Some ONE)"
    by simp
  obtain a where a: "av_account_state flat_view = Some a" by (simp add: flat_view_def)
  have i: "oi_is_spot spot_exit" "rc_passed (run_spot_checks lims a spot_exit p ch)" for lims p ch
    by (simp_all add: run_spot_passed) (simp_all add: spot_exit_def)
  obtain r where r: "run_checks risk_limits_default flat_view 1000000000 spot_exit (Some ONE) = Some (Inr r)"
    "rc_passed r"
    using i by (auto simp: run_checks_def a flat_view_fresh Let_def dec_cmp SCALE_I128_def)
  have l: "rl_max_leverage risk_limits_default < 2 ^ 32" by (simp add: risk_limits_default_def)
  have p: "None = av_position flat_view (oi_symbol spot_exit)" by (simp add: flat_view_def)
  from risk_pass_sound [OF r l p e] r e show ?thesis by (auto simp: spot_exit_def)
qed



end
