(* ===== verification/HE_Action_Budget.thy ===== *)
theory HE_Action_Budget
  imports HE_Models HE_Ids
begin

text \<open>
  \<open>crates/trading/src/risk/action_budget.rs\<close>: the action-quota controller of the market maker, with its
  address, cancel and IP ledgers. The attempts (a \<open>HashMap\<close> by attempt id) and the allocations are lists
  with distinct keys; only sums and filters of them are used, so their order does not matter. Every
  \<open>Utc::now()\<close> is an argument, one per reading of the clock. The \<open>i64\<close> counts are exact integers (quota
  counts are far below the bounds of \<open>i64\<close>). The statistics divide decimals, so they return an option;
  \<open>window_stats_returns\<close> shows that they do not panic.
\<close>

section \<open>Data\<close>

record budget_settings =
  bs_snapshot_max_age :: f64
  bs_poll_normal :: f64
  bs_poll_conserve :: f64
  bs_poll_critical :: f64
  bs_address_conserve :: int
  bs_address_critical :: int
  bs_address_cancel_only :: int
  bs_cancel_retry_buffer :: int
  bs_close_action_reserve :: int
  bs_cancel_headroom_initial :: int
  bs_ip_weight_limit :: int
  bs_ip_emergency_reserve :: int
  bs_runway_conserve :: f64
  bs_runway_critical :: f64
  bs_runway_cancel_only :: f64
  bs_min_marginal_usdc :: f64
  bs_min_actions_economic :: int

definition budget_settings_default :: budget_settings where
  "budget_settings_default =
     \<lparr>bs_snapshot_max_age = F64_Fin 60, bs_poll_normal = F64_Fin 30, bs_poll_conserve = F64_Fin 15,
      bs_poll_critical = F64_Fin 5, bs_address_conserve = 3000, bs_address_critical = 1500,
      bs_address_cancel_only = 500, bs_cancel_retry_buffer = 10, bs_close_action_reserve = 5,
      bs_cancel_headroom_initial = 10000, bs_ip_weight_limit = 1200, bs_ip_emergency_reserve = 100,
      bs_runway_conserve = F64_Fin 24, bs_runway_critical = F64_Fin 6, bs_runway_cancel_only = F64_Fin 1,
      bs_min_marginal_usdc = F64_Fin (5 / 4), bs_min_actions_economic = 20\<rparr>"

datatype budget_action = BA_Place | BA_Cancel | BA_Modify | BA_Close

fun budget_action_as_str :: "budget_action \<Rightarrow> string" where
  "budget_action_as_str BA_Place = ''place''"
| "budget_action_as_str BA_Cancel = ''cancel''"
| "budget_action_as_str BA_Modify = ''modify''"
| "budget_action_as_str BA_Close = ''close''"

definition is_canonical_address :: "string \<Rightarrow> bool" where
  "is_canonical_address s \<longleftrightarrow> length s = 42 \<and> take 2 s = ''0x'' \<and> list_all is_hex_digit (drop 2 s)"

record remote_snapshot =
  rs_quota_owner :: string
  rs_cap :: int
  rs_used :: int
  rs_observed_at :: time_ns

definition remote_remaining :: "remote_snapshot \<Rightarrow> int" where
  "remote_remaining s = rs_cap s - rs_used s"

text \<open>The JSON payload is given by its two integer fields, absent or not an integer as \<open>None\<close>.\<close>

definition from_user_rate_limit :: "string \<Rightarrow> int option \<Rightarrow> int option \<Rightarrow> time_ns \<Rightarrow> string + remote_snapshot" where
  "from_user_rate_limit owner cap_field used_field observed_at =
     (case (cap_field, used_field) of
        (Some cap, Some used) \<Rightarrow>
          let normalized = to_lowercase owner in
          if \<not> is_canonical_address normalized
          then Inl ''quota_owner_address must be a canonical 20-byte hex address''
          else if cap < 0 \<or> used < 0 \<or> used > cap
          then Inl ''remote action quota must satisfy 0 <= used <= cap''
          else Inr \<lparr>rs_quota_owner = normalized, rs_cap = cap, rs_used = used, rs_observed_at = observed_at\<rparr>
      | _ \<Rightarrow> Inl ''userRateLimit response lacks valid nRequestsCap/nRequestsUsed'')"

record cancel_snapshot =
  cs_cap :: int
  cs_used :: int
  cs_observed_at :: time_ns

definition cancel_snapshot_remaining :: "cancel_snapshot \<Rightarrow> int" where
  "cancel_snapshot_remaining s = cs_cap s - cs_used s"

record attempt_debit =
  ad_attempt_id :: string
  ad_child_actions :: "budget_action list"
  ad_ip_weight :: int
  ad_occurred_at :: time_ns
  ad_strategy_id :: "string option"
  ad_symbol :: "string option"

definition address_cost :: "attempt_debit \<Rightarrow> int" where
  "address_cost d = int (length (ad_child_actions d))"

definition cancel_cost :: "attempt_debit \<Rightarrow> int" where
  "cancel_cost d = int (length (filter (\<lambda>a. a = BA_Cancel) (ad_child_actions d)))"

record fill_credit =
  fc_volume_usdc :: decimal
  fc_occurred_at :: time_ns

record budget_allocation =
  al_strategy_id :: string
  al_symbol :: string
  al_soft_limit :: int
  al_hard_limit :: int

record budget_permission =
  bp_allowed :: bool
  bp_mode :: action_budget_mode
  bp_reason :: string

record budget_window_stats =
  ws_window_hours :: int
  ws_burned_actions :: int
  ws_earned_actions :: decimal
  ws_fills :: nat
  ws_actions_per_fill :: "decimal option"
  ws_marginal_usdc :: "decimal option"
  ws_net_burn_per_hour :: decimal
  ws_runway_hours :: f64

record action_budget_view =
  bv_quota_owner :: string
  bv_mode :: action_budget_mode
  bv_remote_cap :: int
  bv_remote_used :: int
  bv_address_remaining :: int
  bv_required_cancel_reserve :: int
  bv_close_action_reserve :: int
  bv_placement_available :: int
  bv_cancel_headroom_remaining :: int
  bv_ip_weight_remaining :: int
  bv_possible_live_orders :: int
  bv_remote_fresh :: bool
  bv_cancel_headroom_fresh :: bool
  bv_restored_conservatively :: bool
  bv_windows :: "budget_window_stats list"

record recovery_state =
  rv_remote_snapshot :: "remote_snapshot option"
  rv_cancel_snapshot :: "cancel_snapshot option"
  rv_attempts :: "attempt_debit list"
  rv_fills :: "fill_credit list"
  rv_allocations :: "budget_allocation list"
  rv_possible_live_orders :: int

record permission_request =
  pr_action :: budget_action
  pr_strategy_id :: "string option"
  pr_symbol :: "string option"
  pr_child_actions :: int
  pr_ip_weight :: int
  pr_risk_reducing :: bool
  pr_emergency :: bool

definition permission_request_new :: "budget_action \<Rightarrow> permission_request" where
  "permission_request_new a =
     \<lparr>pr_action = a, pr_strategy_id = None, pr_symbol = None, pr_child_actions = 1, pr_ip_weight = 1,
      pr_risk_reducing = False, pr_emergency = False\<rparr>"

definition STAT_WINDOWS_HOURS :: "int list" where "STAT_WINDOWS_HOURS = [1, 6, 24]"

record budget =
  bg_quota_owner :: string
  bg_settings :: budget_settings
  bg_remote :: "remote_snapshot option"
  bg_cancel :: "cancel_snapshot option"
  bg_attempts :: "attempt_debit list"
  bg_fills :: "fill_credit list"
  bg_allocations :: "budget_allocation list"
  bg_possible_live_orders :: int
  bg_forced_cancel_only :: bool
  bg_restored :: bool

definition budget_new :: "string \<Rightarrow> budget_settings \<Rightarrow> string + budget" where
  "budget_new owner settings =
     (let owner = to_lowercase owner in
      if \<not> is_canonical_address owner
      then Inl ''quota_owner_address must be a canonical 20-byte hex address''
      else Inr \<lparr>bg_quota_owner = owner, bg_settings = settings, bg_remote = None, bg_cancel = None,
             bg_attempts = [], bg_fills = [], bg_allocations = [], bg_possible_live_orders = 0,
             bg_forced_cancel_only = True, bg_restored = False\<rparr>)"

section \<open>Updates\<close>

definition allocation_key :: "budget_allocation \<Rightarrow> string \<times> string" where
  "allocation_key a = (al_strategy_id a, al_symbol a)"

definition release_allocation :: "string \<Rightarrow> string \<Rightarrow> budget \<Rightarrow> budget" where
  "release_allocation sid symb b =
     b\<lparr>bg_allocations := filter (\<lambda>a. allocation_key a \<noteq> (sid, symb)) (bg_allocations b)\<rparr>"

definition set_allocation :: "budget_allocation \<Rightarrow> budget \<Rightarrow> budget" where
  "set_allocation a b =
     (if al_soft_limit a < 0 \<or> al_hard_limit a < al_soft_limit a then b
      else b\<lparr>bg_allocations := a # filter (\<lambda>x. allocation_key x \<noteq> allocation_key a) (bg_allocations b)\<rparr>)"

definition update_possible_live_orders :: "int \<Rightarrow> budget \<Rightarrow> budget" where
  "update_possible_live_orders count b = (if count < 0 then b else b\<lparr>bg_possible_live_orders := count\<rparr>)"

text \<open>\<open>Ord::clamp\<close> panics (\<open>None\<close>) when the bounds cross.\<close>

definition i64_clamp :: "int \<Rightarrow> int \<Rightarrow> int \<Rightarrow> int option" where
  "i64_clamp lo hi x = (if lo > hi then None else Some (if x < lo then lo else if x > hi then hi else x))"

definition advance_cancel_headroom :: "remote_snapshot \<Rightarrow> budget \<Rightarrow> budget option" where
  "advance_cancel_headroom s b =
     (case bg_cancel b of
        None \<Rightarrow> Some b
      | Some c \<Rightarrow>
          let previous_used = (case bg_remote b of Some r \<Rightarrow> rs_used r | None \<Rightarrow> 0);
              remote_delta = rs_used s - previous_used
          in map_option (\<lambda>remaining. b\<lparr>bg_cancel := Some \<lparr>cs_cap = cs_cap c,
               cs_used = cs_cap c - remaining, cs_observed_at = rs_observed_at s\<rparr>\<rparr>)
             (i64_clamp 0 (cs_cap c) (cs_cap c - cs_used c - remote_delta)))"

definition reconcile_remote :: "remote_snapshot \<Rightarrow> budget \<Rightarrow> (string + budget) option" where
  "reconcile_remote s b =
     (if rs_quota_owner s \<noteq> bg_quota_owner b
      then Some (Inl ''remote snapshot belongs to a different quota owner'')
      else if (case bg_remote b of Some p \<Rightarrow> rs_observed_at s < rs_observed_at p | None \<Rightarrow> False)
      then Some (Inl ''remote action snapshot timestamp regressed'')
      else map_option (\<lambda>b'. Inr (b'\<lparr>bg_remote := Some s, bg_forced_cancel_only := False\<rparr>))
             (advance_cancel_headroom s b))"

definition reconcile_cancel_headroom :: "cancel_snapshot \<Rightarrow> budget \<Rightarrow> budget" where
  "reconcile_cancel_headroom s b = b\<lparr>bg_cancel := Some s\<rparr>"

definition find_attempt :: "budget \<Rightarrow> string \<Rightarrow> attempt_debit option" where
  "find_attempt b i = find (\<lambda>d. ad_attempt_id d = i) (bg_attempts b)"

definition debit_network_attempt :: "attempt_debit \<Rightarrow> budget \<Rightarrow> string + (bool \<times> budget)" where
  "debit_network_attempt d b =
     (case find_attempt b (ad_attempt_id d) of
        Some existing \<Rightarrow>
          if existing \<noteq> d then Inl ''attempt_id was reused with different budget facts'' else Inr (False, b)
      | None \<Rightarrow> Inr (True, b\<lparr>bg_attempts := bg_attempts b @ [d]\<rparr>))"

definition record_fill :: "decimal \<Rightarrow> time_ns \<Rightarrow> budget \<Rightarrow> budget" where
  "record_fill volume occurred_at b =
     (if is_negative volume then b
      else b\<lparr>bg_fills := bg_fills b @ [\<lparr>fc_volume_usdc = volume, fc_occurred_at = occurred_at\<rparr>]\<rparr>)"

text \<open>The debits of \<open>restore\<close>: \<open>None\<close> at the first attempt older than the snapshot or in conflict.\<close>

fun restore_attempts :: "time_ns \<Rightarrow> attempt_debit list \<Rightarrow> budget \<Rightarrow> budget + budget" where
  "restore_attempts since [] b = Inr b"
| "restore_attempts since (d # ds) b =
     (if ad_occurred_at d < since then Inl b
      else case debit_network_attempt d b of
        Inl _ \<Rightarrow> Inl (b\<lparr>bg_attempts := []\<rparr>)
      | Inr (_, b') \<Rightarrow> restore_attempts since ds b')"

definition budget_cleared :: "recovery_state \<Rightarrow> budget \<Rightarrow> budget" where
  "budget_cleared st b =
     b\<lparr>bg_remote := None, bg_cancel := None, bg_attempts := [], bg_fills := [], bg_allocations := [],
       bg_possible_live_orders := max (rv_possible_live_orders st) 0, bg_forced_cancel_only := True,
       bg_restored := True\<rparr>"

definition restore :: "recovery_state \<Rightarrow> budget \<Rightarrow> budget \<times> bool" where
  "restore st b =
     (let b0 = budget_cleared st b in
      case (rv_remote_snapshot st, rv_cancel_snapshot st) of
        (Some remote, Some cancel) \<Rightarrow>
          if rs_quota_owner remote \<noteq> bg_quota_owner b then (b0, False)
          else (case restore_attempts (rs_observed_at remote) (rv_attempts st) b0 of
            Inl b1 \<Rightarrow> (b1, False)
          | Inr b1 \<Rightarrow>
              ((fold set_allocation (rv_allocations st) (b1\<lparr>bg_fills := rv_fills st\<rparr>))
                \<lparr>bg_remote := Some remote, bg_cancel := Some cancel, bg_forced_cancel_only := False\<rparr>, True))
      | _ \<Rightarrow> (b0, False))"

text \<open>\<open>min_utc\<close> stands for \<open>DateTime::<Utc>::MIN_UTC\<close>, before every time stamp.\<close>

definition export_recovery_state :: "time_ns \<Rightarrow> budget \<Rightarrow> recovery_state" where
  "export_recovery_state min_utc b =
     (let remote_at = (case bg_remote b of Some s \<Rightarrow> rs_observed_at s | None \<Rightarrow> min_utc) in
      \<lparr>rv_remote_snapshot = bg_remote b, rv_cancel_snapshot = bg_cancel b,
       rv_attempts = filter (\<lambda>d. ad_occurred_at d \<ge> remote_at) (bg_attempts b),
       rv_fills = bg_fills b, rv_allocations = bg_allocations b,
       rv_possible_live_orders = bg_possible_live_orders b\<rparr>)"

section \<open>Ledgers\<close>

definition shadow_address_debit :: "time_ns \<Rightarrow> budget \<Rightarrow> int" where
  "shadow_address_debit observed_at b =
     sum_list (map address_cost (filter (\<lambda>d. ad_occurred_at d > observed_at) (bg_attempts b)))"

definition address_remaining :: "budget \<Rightarrow> int" where
  "address_remaining b =
     (case bg_remote b of
        None \<Rightarrow> 0
      | Some remote \<Rightarrow> max (remote_remaining remote - shadow_address_debit (rs_observed_at remote) b) 0)"

definition cancel_remaining :: "budget \<Rightarrow> int" where
  "cancel_remaining b =
     (case bg_cancel b of
        None \<Rightarrow> 0
      | Some c \<Rightarrow>
          max (cancel_snapshot_remaining c -
            sum_list (map cancel_cost (filter (\<lambda>d. ad_occurred_at d > cs_observed_at c) (bg_attempts b)))) 0)"

definition minutes :: "int \<Rightarrow> time_ns" where "minutes n = n * 60000000000"
definition hours :: "int \<Rightarrow> time_ns" where "hours n = n * 3600000000000"

definition ip_remaining :: "time_ns \<Rightarrow> budget \<Rightarrow> int" where
  "ip_remaining now b =
     max (bs_ip_weight_limit (bg_settings b) -
       sum_list (map ad_ip_weight
         (filter (\<lambda>d. now - minutes 1 < ad_occurred_at d \<and> ad_occurred_at d \<le> now) (bg_attempts b)))) 0"

definition required_cancel_reserve :: "budget \<Rightarrow> int" where
  "required_cancel_reserve b = bg_possible_live_orders b + bs_cancel_retry_buffer (bg_settings b)"

definition placement_remaining_raw :: "budget \<Rightarrow> int" where
  "placement_remaining_raw b =
     max (address_remaining b - required_cancel_reserve b - bs_close_action_reserve (bg_settings b)) 0"

definition allocation_consumed :: "string \<Rightarrow> string \<Rightarrow> budget \<Rightarrow> int" where
  "allocation_consumed sid symb b =
     sum_list (map address_cost
       (filter (\<lambda>d. ad_strategy_id d = Some sid \<and> ad_symbol d = Some symb) (bg_attempts b)))"

definition is_fresh :: "time_ns \<Rightarrow> time_ns \<Rightarrow> budget \<Rightarrow> bool" where
  "is_fresh observed_at now b =
     (let age = f64_div (f64_of_int (num_milliseconds (now - observed_at))) (F64_Fin 1000)
      in f64_le (F64_Fin 0) age \<and> f64_le age (bs_snapshot_max_age (bg_settings b)))"

definition window_stats :: "int \<Rightarrow> time_ns \<Rightarrow> budget \<Rightarrow> budget_window_stats option" where
  "window_stats h now b =
     (let cutoff = now - hours h;
          attempts = filter (\<lambda>d. cutoff < ad_occurred_at d \<and> ad_occurred_at d \<le> now) (bg_attempts b);
          fills = filter (\<lambda>f. cutoff < fc_occurred_at f \<and> fc_occurred_at f \<le> now) (bg_fills b);
          burned = sum_list (map address_cost attempts);
          earned = foldl (\<lambda>acc f. acc + fc_volume_usdc f) ZERO fills
      in do {
        burned_dec \<leftarrow> from_i128 burned;
        hours_dec \<leftarrow> from_i128 h;
        net_burn \<leftarrow> dec_div (dec_max (burned_dec - earned) ZERO) hours_dec;
        actions_per_fill \<leftarrow>
          (if fills = [] then Some None
           else do { n \<leftarrow> from_i128 (int (length fills)); map_option Some (dec_div burned_dec n) });
        marginal \<leftarrow> (if burned = 0 then Some None else map_option Some (dec_div earned burned_dec));
        Some \<lparr>ws_window_hours = h, ws_burned_actions = burned, ws_earned_actions = earned,
              ws_fills = length fills, ws_actions_per_fill = actions_per_fill, ws_marginal_usdc = marginal,
              ws_net_burn_per_hour = net_burn,
              ws_runway_hours = (if net_burn \<le> ZERO then F64_PInf
                else f64_div (f64_of_int (placement_remaining_raw b)) (dec_to_f64 net_burn))\<rparr>
      })"

text \<open>The mode of a fresh budget, from its remaining placements and the statistics of the last hour.\<close>

definition mode_from_stats :: "budget \<Rightarrow> int \<Rightarrow> budget_window_stats \<Rightarrow> action_budget_mode" where
  "mode_from_stats b placement stats =
     (let st = bg_settings b in
      if placement \<le> bs_address_cancel_only st \<or> f64_le (ws_runway_hours stats) (bs_runway_cancel_only st)
        then ABM_CancelOnly
      else if placement \<le> bs_address_critical st \<or> f64_le (ws_runway_hours stats) (bs_runway_critical st)
        then ABM_Critical
      else if placement \<le> bs_address_conserve st \<or> f64_le (ws_runway_hours stats) (bs_runway_conserve st)
        then ABM_Conserve
      else if ws_burned_actions stats \<ge> bs_min_actions_economic st \<and>
          (case ws_marginal_usdc stats of
             None \<Rightarrow> False
           | Some m \<Rightarrow> m < (case from_f64 (bs_min_marginal_usdc st) of Inr d \<Rightarrow> d | Inl _ \<Rightarrow> ZERO))
        then ABM_Conserve
      else ABM_Normal)"

definition calculate_mode :: "time_ns \<Rightarrow> budget \<Rightarrow> action_budget_mode option" where
  "calculate_mode now b =
     (case (bg_remote b, bg_cancel b) of
        (Some remote, Some cancel) \<Rightarrow>
          if bg_forced_cancel_only b then Some ABM_CancelOnly
          else if \<not> is_fresh (rs_observed_at remote) now b \<or> \<not> is_fresh (cs_observed_at cancel) now b
          then Some ABM_CancelOnly
          else let address = address_remaining b; cancels = cancel_remaining b; ip = ip_remaining now b;
                   required = required_cancel_reserve b; close = bs_close_action_reserve (bg_settings b)
               in if address \<le> 0 \<or> cancels \<le> 0 \<or> ip \<le> 0 then Some ABM_Exhausted
                  else if address \<le> required + close \<or> cancels \<le> required
                       \<or> ip \<le> bs_ip_emergency_reserve (bg_settings b)
                  then Some ABM_CancelOnly
                  else map_option (mode_from_stats b (address - required - close)) (window_stats 1 now b)
      | _ \<Rightarrow> Some ABM_CancelOnly)"

definition next_remote_poll_interval :: "time_ns \<Rightarrow> budget \<Rightarrow> f64 option" where
  "next_remote_poll_interval now b =
     map_option (\<lambda>m. case m of
         ABM_Conserve \<Rightarrow> bs_poll_conserve (bg_settings b)
       | ABM_Normal \<Rightarrow> bs_poll_normal (bg_settings b)
       | _ \<Rightarrow> bs_poll_critical (bg_settings b)) (calculate_mode now b)"

definition budget_snapshot :: "time_ns \<Rightarrow> budget \<Rightarrow> action_budget_view option" where
  "budget_snapshot now b = do {
     windows \<leftarrow> those (map (\<lambda>h. window_stats h now b) STAT_WINDOWS_HOURS);
     mode \<leftarrow> calculate_mode now b;
     Some \<lparr>bv_quota_owner = bg_quota_owner b, bv_mode = mode,
           bv_remote_cap = (case bg_remote b of Some s \<Rightarrow> rs_cap s | None \<Rightarrow> 0),
           bv_remote_used = (case bg_remote b of Some s \<Rightarrow> rs_used s | None \<Rightarrow> 0),
           bv_address_remaining = address_remaining b,
           bv_required_cancel_reserve = required_cancel_reserve b,
           bv_close_action_reserve = bs_close_action_reserve (bg_settings b),
           bv_placement_available =
             max (address_remaining b - required_cancel_reserve b - bs_close_action_reserve (bg_settings b)) 0,
           bv_cancel_headroom_remaining = cancel_remaining b, bv_ip_weight_remaining = ip_remaining now b,
           bv_possible_live_orders = bg_possible_live_orders b,
           bv_remote_fresh = (case bg_remote b of Some s \<Rightarrow> is_fresh (rs_observed_at s) now b | None \<Rightarrow> False),
           bv_cancel_headroom_fresh =
             (case bg_cancel b of Some s \<Rightarrow> is_fresh (cs_observed_at s) now b | None \<Rightarrow> False),
           bv_restored_conservatively = bg_restored b, bv_windows = windows\<rparr>
   }"

section \<open>Permissions\<close>

definition find_allocation :: "budget \<Rightarrow> string \<Rightarrow> string \<Rightarrow> budget_allocation option" where
  "find_allocation b sid symb = find (\<lambda>a. allocation_key a = (sid, symb)) (bg_allocations b)"

definition permit :: "bool \<Rightarrow> action_budget_mode \<Rightarrow> string \<Rightarrow> string + budget_permission" where
  "permit allowed m reason = Inr \<lparr>bp_allowed = allowed, bp_mode = m, bp_reason = reason\<rparr>"

definition permission_allocation :: "permission_request \<Rightarrow> action_budget_mode \<Rightarrow> budget \<Rightarrow>
    string + budget_permission" where
  "permission_allocation r m b =
     (case (pr_strategy_id r, pr_symbol r) of
        (None, None) \<Rightarrow> permit True m ''budget available''
      | (Some sid, Some symb) \<Rightarrow>
          (case find_allocation b sid symb of
             None \<Rightarrow> permit False m ''no active strategy/symbol allocation''
           | Some a \<Rightarrow>
               if allocation_consumed sid symb b + pr_child_actions r > al_hard_limit a
               then permit False m ''strategy/symbol hard allocation exhausted''
               else permit True m ''budget available'')
      | _ \<Rightarrow> Inl ''strategy_id and symbol must be supplied together'')"

text \<open>\<open>now1\<close> is the reading of \<open>mode()\<close>, \<open>now2\<close> that of \<open>snapshot()\<close>.\<close>

definition permission :: "time_ns \<Rightarrow> time_ns \<Rightarrow> permission_request \<Rightarrow> budget \<Rightarrow>
    (string + budget_permission) option" where
  "permission now1 now2 r b =
     (if pr_child_actions r \<le> 0 \<or> pr_ip_weight r < 0
      then Some (Inl ''child_actions must be positive and ip_weight non-negative'')
      else do {
        m \<leftarrow> calculate_mode now1 b;
        if pr_action r = BA_Cancel then Some (permit True m ''cancel bypasses placement budget gates'')
        else do {
          view \<leftarrow> budget_snapshot now2 b;
          Some (
            if pr_action r = BA_Close \<and> pr_emergency r then
              (let allowed = bv_address_remaining view \<ge> pr_child_actions r \<and>
                             bv_ip_weight_remaining view \<ge> pr_ip_weight r
               in permit allowed m (if allowed then ''emergency close reserve'' else ''quota exhausted''))
            else if (m = ABM_CancelOnly \<or> m = ABM_Exhausted \<or> m = ABM_Critical) \<and> \<not> pr_risk_reducing r
              then permit False m ''budget mode permits only risk-reducing placement''
            else if bv_placement_available view < pr_child_actions r
              then permit False m ''address action reserve would be consumed''
            else if bv_ip_weight_remaining view - pr_ip_weight r < bs_ip_emergency_reserve (bg_settings b)
              then permit False m ''IP emergency reserve would be consumed''
            else permission_allocation r m b)
        }
      })"

definition ip_request_permission :: "time_ns \<Rightarrow> time_ns \<Rightarrow> int \<Rightarrow> bool \<Rightarrow> budget \<Rightarrow>
    (string + budget_permission) option" where
  "ip_request_permission now1 now2 weight emergency b =
     (if weight \<le> 0 then Some (Inl ''ip_weight must be positive'')
      else do {
        m \<leftarrow> calculate_mode now1 b;
        let remaining = ip_remaining now2 b;
            required_after = (if emergency then 0 else bs_ip_emergency_reserve (bg_settings b));
            allowed = remaining \<ge> weight \<and> remaining - weight \<ge> required_after
        in Some (permit allowed m (if allowed then ''IP weight available''
             else ''IP emergency reserve would be consumed''))
      })"

section \<open>Debits\<close>

lemma find_attempt_None: "find_attempt b i = None \<longleftrightarrow> i \<notin> ad_attempt_id ` set (bg_attempts b)"
  by (auto simp: find_attempt_def find_None_iff)

lemma debit_cases:
  assumes "debit_network_attempt d b = Inr (new, b')"
  obtains "new" "find_attempt b (ad_attempt_id d) = None" "b' = b\<lparr>bg_attempts := bg_attempts b @ [d]\<rparr>"
    | "\<not> new" "find_attempt b (ad_attempt_id d) = Some d" "b' = b"
  using assms by (auto simp: debit_network_attempt_def split: option.splits if_splits)

lemma address_cost_nonneg [simp]: "0 \<le> address_cost d" and cancel_cost_nonneg [simp]: "0 \<le> cancel_cost d"
  by (simp_all add: address_cost_def cancel_cost_def)

lemma cancel_le_address: "cancel_cost d \<le> address_cost d"
  by (simp add: address_cost_def cancel_cost_def)

lemma debit_frame:
  assumes "debit_network_attempt d b = Inr (new, b')"
  shows "bg_remote b' = bg_remote b" "bg_cancel b' = bg_cancel b" "bg_settings b' = bg_settings b"
    "bg_possible_live_orders b' = bg_possible_live_orders b" "bg_allocations b' = bg_allocations b"
    "bg_forced_cancel_only b' = bg_forced_cancel_only b" "bg_quota_owner b' = bg_quota_owner b"
  using assms by (auto elim: debit_cases)

text \<open>A sequence of debits, the rejected ones without effect.\<close>

definition debit_all :: "attempt_debit list \<Rightarrow> budget \<Rightarrow> budget" where
  "debit_all ds b = fold (\<lambda>d b. case debit_network_attempt d b of Inl _ \<Rightarrow> b | Inr (_, b') \<Rightarrow> b') ds b"

lemma debit_all_simps [simp]: "debit_all [] b = b"
  "debit_all (d # ds) b = debit_all ds (case debit_network_attempt d b of Inl _ \<Rightarrow> b | Inr (_, b') \<Rightarrow> b')"
  by (simp_all add: debit_all_def)

text \<open>The contract of a ledger: a debit takes at most its charge from what remains. The permission checks
  rest on it: what the check leaves aside is still there after the debit.\<close>

locale debit_ledger =
  fixes remaining :: "budget \<Rightarrow> int" and charge :: "attempt_debit \<Rightarrow> int"
  assumes remaining_nonneg: "0 \<le> remaining b"
    and charge_nonneg: "0 \<le> charge d"
    and debit_charge: "debit_network_attempt d b = Inr (new, b') \<Longrightarrow> remaining b - charge d \<le> remaining b'"
begin

lemma reserve_kept:
  "debit_network_attempt d b = Inr (new, b') \<Longrightarrow> charge d \<le> k \<Longrightarrow> reserve + k \<le> remaining b \<Longrightarrow>
   reserve \<le> remaining b'"
  using debit_charge [of d b new b'] by linarith

lemma debit_all_charge: "remaining b - sum_list (map charge ds) \<le> remaining (debit_all ds b)"
proof (induction ds arbitrary: b)
  case (Cons d ds)
  define b' where "b' = (case debit_network_attempt d b of Inl _ \<Rightarrow> b | Inr (_, b') \<Rightarrow> b')"
  have "remaining b - charge d \<le> remaining b'"
    using debit_charge [of d b] charge_nonneg [of d] by (auto simp: b'_def split: sum.splits)
  with Cons.IH [of b'] show ?case by (simp add: b'_def [symmetric])
qed simp

end

locale strict_ledger = debit_ledger +
  assumes debit_antitone: "debit_network_attempt d b = Inr (new, b') \<Longrightarrow> remaining b' \<le> remaining b"
begin

lemma debit_all_antitone: "remaining (debit_all ds b) \<le> remaining b"
proof (induction ds arbitrary: b)
  case (Cons d ds)
  define b' where "b' = (case debit_network_attempt d b of Inl _ \<Rightarrow> b | Inr (_, b') \<Rightarrow> b')"
  have "remaining b' \<le> remaining b"
    using debit_antitone [of d b] by (auto simp: b'_def split: sum.splits)
  with Cons.IH [of b'] show ?case by (simp add: b'_def [symmetric])
qed simp

lemma exhausted_stays: "remaining b = 0 \<Longrightarrow> remaining (debit_all ds b) = 0"
  using debit_all_antitone [of ds b] remaining_nonneg [of "debit_all ds b"] by simp

end

lemma remaining_step:
  fixes x s k :: int
  assumes "0 \<le> k"
  shows "max (x - s) 0 - k \<le> max (x - (s + k)) 0" "x - (s + k) \<le> max (x - s) 0"
  using assms by linarith+

interpretation address_ledger: strict_ledger address_remaining address_cost
proof
  fix d b new b'
  assume "debit_network_attempt d b = Inr (new, b')"
  then show "address_remaining b - address_cost d \<le> address_remaining b'"
    and "address_remaining b' \<le> address_remaining b"
    by (auto elim!: debit_cases simp: address_remaining_def shadow_address_debit_def remaining_step split: option.splits)
qed (auto simp: address_remaining_def split: option.splits)

interpretation cancel_ledger: strict_ledger cancel_remaining cancel_cost
proof
  fix d b new b'
  assume "debit_network_attempt d b = Inr (new, b')"
  then show "cancel_remaining b - cancel_cost d \<le> cancel_remaining b'"
    and "cancel_remaining b' \<le> cancel_remaining b"
    by (auto elim!: debit_cases simp: cancel_remaining_def remaining_step split: option.splits)
qed (auto simp: cancel_remaining_def split: option.splits)

interpretation ip_ledger: debit_ledger "ip_remaining now" "\<lambda>d. max (ad_ip_weight d) 0" for now
proof
  fix d b new b'
  assume "debit_network_attempt d b = Inr (new, b')"
  then show "ip_remaining now b - max (ad_ip_weight d) 0 \<le> ip_remaining now b'"
    by (auto elim!: debit_cases simp: ip_remaining_def)
qed (auto simp: ip_remaining_def)

section \<open>Permissions leave the reserves\<close>

lemma permit_simps [simp]: "permit a m t = Inr p \<longleftrightarrow> p = \<lparr>bp_allowed = a, bp_mode = m, bp_reason = t\<rparr>"
  "permit a m t \<noteq> Inl e"
  by (auto simp: permit_def)

lemma permission_allocation_allowed:
  assumes "permission_allocation r m b = Inr p" and "bp_allowed p"
  shows "bp_mode p = m" and "pr_strategy_id r = Some sid \<Longrightarrow> pr_symbol r = Some symb \<Longrightarrow>
    \<exists>a. find_allocation b sid symb = Some a \<and>
      allocation_consumed sid symb b + pr_child_actions r \<le> al_hard_limit a"
    and "pr_strategy_id r = None \<longleftrightarrow> pr_symbol r = None"
  using assms by (auto simp: permission_allocation_def split: option.splits if_splits)

lemma budget_snapshot_fields:
  assumes "budget_snapshot now b = Some view"
  shows "bv_address_remaining view = address_remaining b" "bv_ip_weight_remaining view = ip_remaining now b"
    "bv_placement_available view =
      max (address_remaining b - required_cancel_reserve b - bs_close_action_reserve (bg_settings b)) 0"
  using assms by (auto simp: budget_snapshot_def split: Option.bind_splits)

text \<open>What an allowed request that is neither a cancel nor an emergency close has passed.\<close>

lemma permission_allowed:
  assumes "permission now1 now2 r b = Some (Inr p)" and "bp_allowed p"
    and "pr_action r \<noteq> BA_Cancel" and "\<not> (pr_action r = BA_Close \<and> pr_emergency r)"
  shows "0 < pr_child_actions r" "0 \<le> pr_ip_weight r"
    "calculate_mode now1 b = Some (bp_mode p)"
    "bp_mode p = ABM_CancelOnly \<or> bp_mode p = ABM_Exhausted \<or> bp_mode p = ABM_Critical \<Longrightarrow> pr_risk_reducing r"
    "required_cancel_reserve b + bs_close_action_reserve (bg_settings b) + pr_child_actions r \<le> address_remaining b"
    "bs_ip_emergency_reserve (bg_settings b) + pr_ip_weight r \<le> ip_remaining now2 b"
    "permission_allocation r (bp_mode p) b = Inr p"
proof -
  obtain m where m: "calculate_mode now1 b = Some m" and pos: "0 < pr_child_actions r" "0 \<le> pr_ip_weight r"
    using assms(1) by (auto simp: permission_def split: if_splits Option.bind_splits)
  obtain view where view: "budget_snapshot now2 b = Some view"
    using assms m pos by (auto simp: permission_def split: if_splits Option.bind_splits)
  have *: "\<not> ((m = ABM_CancelOnly \<or> m = ABM_Exhausted \<or> m = ABM_Critical) \<and> \<not> pr_risk_reducing r)"
    "\<not> bv_placement_available view < pr_child_actions r"
    "\<not> bv_ip_weight_remaining view - pr_ip_weight r < bs_ip_emergency_reserve (bg_settings b)"
    "permission_allocation r m b = Inr p"
    using assms m pos view
    by (simp_all add: permission_def split: if_splits)
  have "bp_mode p = m"
    using permission_allocation_allowed(1) [OF *(4) assms(2)] .
  with * m pos show "calculate_mode now1 b = Some (bp_mode p)"
    "bp_mode p = ABM_CancelOnly \<or> bp_mode p = ABM_Exhausted \<or> bp_mode p = ABM_Critical \<Longrightarrow> pr_risk_reducing r"
    "permission_allocation r (bp_mode p) b = Inr p" by auto
  show "0 < pr_child_actions r" "0 \<le> pr_ip_weight r" by fact+
  show "required_cancel_reserve b + bs_close_action_reserve (bg_settings b) + pr_child_actions r \<le> address_remaining b"
    "bs_ip_emergency_reserve (bg_settings b) + pr_ip_weight r \<le> ip_remaining now2 b"
    using * pos budget_snapshot_fields [OF view] by (auto simp: max_def split: if_splits)
qed

lemma allocation_consumed_debit:
  assumes "debit_network_attempt d b = Inr (new, b')"
  shows "allocation_consumed sid symb b' \<le> allocation_consumed sid symb b + address_cost d"
  using assms by (auto elim!: debit_cases simp: allocation_consumed_def)

lemma find_allocation_debit:
  "debit_network_attempt d b = Inr (new, b') \<Longrightarrow> find_allocation b' sid symb = find_allocation b sid symb"
  by (simp add: find_allocation_def debit_frame)

lemma required_cancel_reserve_debit:
  "debit_network_attempt d b = Inr (new, b') \<Longrightarrow> required_cancel_reserve b' = required_cancel_reserve b"
  by (simp add: required_cancel_reserve_def debit_frame)

text \<open>A budget for the witnesses: fresh snapshots, one allocation, three possible live orders.\<close>

definition sample_budget :: budget where
  "sample_budget = \<lparr>bg_quota_owner = ''o'', bg_settings = budget_settings_default,
      bg_remote = Some \<lparr>rs_quota_owner = ''o'', rs_cap = 10000, rs_used = 0, rs_observed_at = 0\<rparr>,
      bg_cancel = Some \<lparr>cs_cap = 10000, cs_used = 0, cs_observed_at = 0\<rparr>,
      bg_attempts = [], bg_fills = [],
      bg_allocations = [\<lparr>al_strategy_id = ''s'', al_symbol = ''BTC'', al_soft_limit = 1, al_hard_limit = 5\<rparr>],
      bg_possible_live_orders = 3, bg_forced_cancel_only = False, bg_restored = False\<rparr>"

definition sample_request :: permission_request where
  "sample_request =
     (permission_request_new BA_Place)\<lparr>pr_strategy_id := Some ''s'', pr_symbol := Some ''BTC''\<rparr>"

definition sample_debit :: attempt_debit where
  "sample_debit = \<lparr>ad_attempt_id = ''a'', ad_child_actions = [BA_Place], ad_ip_weight = 1, ad_occurred_at = 1,
      ad_strategy_id = Some ''s'', ad_symbol = Some ''BTC''\<rparr>"

lemma sample_settings: "bg_settings sample_budget = budget_settings_default"
  and sample_remote: "bg_remote sample_budget =
    Some \<lparr>rs_quota_owner = ''o'', rs_cap = 10000, rs_used = 0, rs_observed_at = 0\<rparr>"
  and sample_cancel: "bg_cancel sample_budget = Some \<lparr>cs_cap = 10000, cs_used = 0, cs_observed_at = 0\<rparr>"
  and sample_attempts: "bg_attempts sample_budget = []" and sample_fills: "bg_fills sample_budget = []"
  and sample_forced: "\<not> bg_forced_cancel_only sample_budget"
  and sample_live: "bg_possible_live_orders sample_budget = 3"
  by (simp_all add: sample_budget_def)

lemmas sample_fields = sample_settings sample_remote sample_cancel sample_attempts sample_fills
  sample_forced sample_live

lemma sample_reads: "is_fresh 0 0 sample_budget" "address_remaining sample_budget = 10000"
  "cancel_remaining sample_budget = 10000" "ip_remaining 0 sample_budget = 1200"
  "required_cancel_reserve sample_budget = 13"
  by (simp_all add: sample_fields is_fresh_def num_milliseconds_def f64_of_int_def Let_def address_remaining_def
      cancel_remaining_def ip_remaining_def required_cancel_reserve_def remote_remaining_def
      cancel_snapshot_remaining_def shadow_address_debit_def budget_settings_default_def)

lemma sample_stats: "h \<in> {1, 6, 24} \<Longrightarrow> \<exists>w. window_stats h 0 sample_budget = Some w \<and>
    ws_runway_hours w = F64_PInf \<and> ws_burned_actions w = 0 \<and> ws_marginal_usdc w = None"
  by (auto simp: window_stats_def sample_fields from_i128_def checked_i128_def in_i128_def i128_bounds
        SCALE_I128_def dec_div_eq dec_le_iff sat_i128_def)

lemma sample_mode: "calculate_mode 0 sample_budget = Some ABM_Normal"
proof -
  obtain w where w: "window_stats 1 0 sample_budget = Some w" "ws_runway_hours w = F64_PInf"
    "ws_burned_actions w = 0" "ws_marginal_usdc w = None"
    using sample_stats [of 1] by auto
  then show ?thesis
    by (simp add: calculate_mode_def mode_from_stats_def sample_fields sample_reads budget_settings_default_def)
qed

lemma sample_permission: "permission 0 0 sample_request sample_budget =
    Some (permit True ABM_Normal ''budget available'')"
proof -
  obtain view where view: "budget_snapshot 0 sample_budget = Some view"
    using sample_stats [of 1] sample_stats [of 6] sample_stats [of 24] sample_mode
    by (fastforce simp: budget_snapshot_def STAT_WINDOWS_HOURS_def)
  have alloc: "find_allocation sample_budget ''s'' ''BTC'' =
      Some \<lparr>al_strategy_id = ''s'', al_symbol = ''BTC'', al_soft_limit = 1, al_hard_limit = 5\<rparr>"
    by (simp add: find_allocation_def sample_budget_def allocation_key_def)
  show ?thesis
    using sample_mode view budget_snapshot_fields [OF view] alloc
    by (simp add: permission_def sample_request_def permission_request_new_def sample_fields sample_reads
        budget_settings_default_def permission_allocation_def allocation_consumed_def)
qed

lemma sample_debited: "debit_network_attempt sample_debit sample_budget =
    Inr (True, sample_budget\<lparr>bg_attempts := [sample_debit]\<rparr>)"
  by (simp add: debit_network_attempt_def find_attempt_def sample_fields)



section \<open>Every request gets an answer\<close>

text \<open>The bound under which the counts fit a decimal: \<open>10^20\<close> actions and fills.\<close>

definition budget_small :: "budget \<Rightarrow> bool" where
  "budget_small b \<longleftrightarrow> sum_list (map address_cost (bg_attempts b)) \<le> 10 ^ 20 \<and> length (bg_fills b) \<le> 10 ^ 20"

lemma from_i128_small: "0 \<le> n \<Longrightarrow> n \<le> 10 ^ 20 \<Longrightarrow> from_i128 n = Some (Dec (n * SCALE_I128))"
  by (simp add: from_i128_def checked_i128_def in_i128_def i128_bounds SCALE_I128_def)

lemma burned_bounds:
  "0 \<le> sum_list (map address_cost (filter P ds))"
  "sum_list (map address_cost (filter P ds)) \<le> sum_list (map address_cost ds)"
  by (auto intro!: sum_list_map_nonneg sum_list_filter_le)

lemma window_stats_returns:
  assumes "budget_small b" and "0 < h" and "h \<le> 10 ^ 20"
  shows "\<exists>w. window_stats h now b = Some w"
proof -
  define attempts where
    "attempts = filter (\<lambda>d. now - hours h < ad_occurred_at d \<and> ad_occurred_at d \<le> now) (bg_attempts b)"
  define fills where
    "fills = filter (\<lambda>f. now - hours h < fc_occurred_at f \<and> fc_occurred_at f \<le> now) (bg_fills b)"
  define burned where "burned = sum_list (map address_cost attempts)"
  have b: "0 \<le> burned" "burned \<le> 10 ^ 20"
    unfolding burned_def attempts_def
    by (rule burned_bounds(1), rule order_trans [OF burned_bounds(2)],
        rule assms(1) [unfolded budget_small_def, THEN conjunct1])
  have "length fills \<le> length (bg_fills b)" by (simp add: fills_def)
  also have "\<dots> \<le> 10 ^ 20" using assms(1) by (simp only: budget_small_def)
  finally have "int (length fills) \<le> int (10 ^ 20)" by (simp only: of_nat_le_iff)
  then have f: "int (length fills) \<le> 10 ^ 20" by (simp only: of_nat_power of_nat_numeral)
  define earned where "earned = foldl (\<lambda>acc f. acc + fc_volume_usdc f) ZERO fills"
  have h: "raw (Dec (h * SCALE_I128)) \<noteq> 0" using assms(2) by simp
  obtain net where net: "dec_div (dec_max (Dec (burned * SCALE_I128) - earned) ZERO) (Dec (h * SCALE_I128)) = Some net"
    using dec_div_Some_iff h by blast
  have decs: "from_i128 burned = Some (Dec (burned * SCALE_I128))" "from_i128 h = Some (Dec (h * SCALE_I128))"
    "from_i128 (int (length fills)) = Some (Dec (int (length fills) * SCALE_I128))"
    using b f assms(2,3) by (simp_all only: from_i128_small of_nat_0_le_iff order.strict_implies_order)
  obtain x where x: "(if fills = [] then Some None else do { n \<leftarrow> from_i128 (int (length fills));
      map_option Some (dec_div (Dec (burned * SCALE_I128)) n) }) = Some x"
    unfolding decs using dec_div_Some_iff [of "Dec (burned * SCALE_I128)" "Dec (int (length fills) * SCALE_I128)"]
    by (cases "fills = []") fastforce+
  obtain y where y: "(if burned = 0 then Some None
      else map_option Some (dec_div earned (Dec (burned * SCALE_I128)))) = Some y"
    using dec_div_Some_iff [of earned "Dec (burned * SCALE_I128)"] by (cases "burned = 0") fastforce+
  show ?thesis
    unfolding window_stats_def Let_def attempts_def [symmetric] fills_def [symmetric]
      burned_def [symmetric] earned_def [symmetric] decs(1,2) Option.bind.simps net x y
    by (rule exI, rule refl)
qed

lemma calculate_mode_returns: "budget_small b \<Longrightarrow> \<exists>m. calculate_mode now b = Some m"
  using window_stats_returns [of b 1 now]
  by (auto simp: calculate_mode_def Let_def split: option.splits)

lemma budget_snapshot_returns: "budget_small b \<Longrightarrow> \<exists>v. budget_snapshot now b = Some v"
  using window_stats_returns [of b 1 now] window_stats_returns [of b 6 now] window_stats_returns [of b 24 now]
    calculate_mode_returns [of b now]
  by (auto simp: budget_snapshot_def STAT_WINDOWS_HOURS_def)

text \<open>Without two fresh snapshots the mode is \<open>CancelOnly\<close>.\<close>

definition budget_blind :: "time_ns \<Rightarrow> budget \<Rightarrow> bool" where
  "budget_blind now b \<longleftrightarrow> bg_forced_cancel_only b \<or>
     (case (bg_remote b, bg_cancel b) of
        (Some r, Some c) \<Rightarrow> \<not> is_fresh (rs_observed_at r) now b \<or> \<not> is_fresh (cs_observed_at c) now b
      | _ \<Rightarrow> True)"

lemma budget_blind_mode: "budget_blind now b \<Longrightarrow> calculate_mode now b = Some ABM_CancelOnly"
  by (auto simp: budget_blind_def calculate_mode_def split: option.splits)

text \<open>every request gets an answer. The controller never panics while the counts stay below the
  stated bound; a malformed request and only a half-named allocation is an error; a cancel is always
  allowed; and while the controller has no two fresh snapshots, or was forced to cancel-only, it allows
  nothing but cancels, risk-reducing requests and emergency closes.\<close>

theorem permission_answers:
  assumes "budget_small b"
  shows "\<exists>res. permission now1 now2 r b = Some res
    \<and> (pr_child_actions r \<le> 0 \<or> pr_ip_weight r < 0 \<longrightarrow> (\<exists>e. res = Inl e))
    \<and> (\<forall>e. res = Inl e \<longrightarrow> pr_child_actions r \<le> 0 \<or> pr_ip_weight r < 0 \<or>
          (pr_strategy_id r = None) \<noteq> (pr_symbol r = None))
    \<and> (0 < pr_child_actions r \<and> 0 \<le> pr_ip_weight r \<and> pr_action r = BA_Cancel \<longrightarrow>
          (\<exists>p. res = Inr p \<and> bp_allowed p))
    \<and> (\<forall>p. res = Inr p \<and> bp_allowed p \<and> budget_blind now1 b \<longrightarrow>
          pr_action r = BA_Cancel \<or> pr_risk_reducing r \<or> (pr_action r = BA_Close \<and> pr_emergency r))"
proof -
  obtain m v where m: "calculate_mode now1 b = Some m" and v: "budget_snapshot now2 b = Some v"
    using calculate_mode_returns budget_snapshot_returns assms by blast
  have blind: "m = ABM_CancelOnly" if "budget_blind now1 b"
    using budget_blind_mode [OF that] m by simp
  obtain res where res: "permission now1 now2 r b = Some res"
    by (cases "pr_child_actions r \<le> 0 \<or> pr_ip_weight r < 0"; cases "pr_action r = BA_Cancel")
      (simp_all add: permission_def m v)
  show ?thesis
  proof (intro exI conjI)
    show "permission now1 now2 r b = Some res" by (rule res)
    show "pr_child_actions r \<le> 0 \<or> pr_ip_weight r < 0 \<longrightarrow> (\<exists>e. res = Inl e)"
      using res by (auto simp: permission_def)
    show "\<forall>e. res = Inl e \<longrightarrow> pr_child_actions r \<le> 0 \<or> pr_ip_weight r < 0 \<or>
        (pr_strategy_id r = None) \<noteq> (pr_symbol r = None)"
      using res m v
      by (auto simp: permission_def permission_allocation_def Let_def split: if_splits option.splits)
    show "0 < pr_child_actions r \<and> 0 \<le> pr_ip_weight r \<and> pr_action r = BA_Cancel \<longrightarrow>
        (\<exists>p. res = Inr p \<and> bp_allowed p)"
      using res m by (auto simp: permission_def permit_def)
    show "\<forall>p. res = Inr p \<and> bp_allowed p \<and> budget_blind now1 b \<longrightarrow>
        pr_action r = BA_Cancel \<or> pr_risk_reducing r \<or> (pr_action r = BA_Close \<and> pr_emergency r)"
      using permission_allowed(3,4) [of now1 now2 r b] res m blind
      by (cases "pr_action r = BA_Close \<and> pr_emergency r") auto
  qed
qed

theorem permission_answers_witness:
  "\<exists>res. permission 0 0 (permission_request_new BA_Cancel) sample_budget = Some (Inr res) \<and> bp_allowed res"
  using permission_answers [of sample_budget 0 0 "permission_request_new BA_Cancel"]
  by (auto simp: budget_small_def sample_fields permission_request_new_def)

section \<open>Invariant of the controller\<close>

definition allocations_ok :: "budget_allocation list \<Rightarrow> bool" where
  "allocations_ok as \<longleftrightarrow> distinct (map allocation_key as) \<and>
     (\<forall>a \<in> set as. 0 \<le> al_soft_limit a \<and> al_soft_limit a \<le> al_hard_limit a)"

definition remote_ok :: "string \<Rightarrow> remote_snapshot \<Rightarrow> bool" where
  "remote_ok owner s \<longleftrightarrow> rs_quota_owner s = owner \<and> 0 \<le> rs_used s \<and> rs_used s \<le> rs_cap s"

definition cancel_ok :: "cancel_snapshot \<Rightarrow> bool" where
  "cancel_ok c \<longleftrightarrow> 0 \<le> cs_used c \<and> cs_used c \<le> cs_cap c"

definition budget_ok :: "budget \<Rightarrow> bool" where
  "budget_ok b \<longleftrightarrow>
     distinct (map ad_attempt_id (bg_attempts b)) \<and> allocations_ok (bg_allocations b)
     \<and> (\<forall>f \<in> set (bg_fills b). 0 \<le> raw (fc_volume_usdc f)) \<and> 0 \<le> bg_possible_live_orders b
     \<and> (\<forall>s. bg_remote b = Some s \<longrightarrow> remote_ok (bg_quota_owner b) s)
     \<and> (\<forall>c. bg_cancel b = Some c \<longrightarrow> cancel_ok c)
     \<and> (bg_remote b = None \<longrightarrow> bg_forced_cancel_only b)"

text \<open>A recovery state as \<open>export_recovery_state\<close> and the durable log make them.\<close>

definition recovery_ok :: "recovery_state \<Rightarrow> bool" where
  "recovery_ok st \<longleftrightarrow>
     (\<forall>s. rv_remote_snapshot st = Some s \<longrightarrow> 0 \<le> rs_used s \<and> rs_used s \<le> rs_cap s)
     \<and> (\<forall>c. rv_cancel_snapshot st = Some c \<longrightarrow> cancel_ok c)
     \<and> (\<forall>f \<in> set (rv_fills st). 0 \<le> raw (fc_volume_usdc f))"

text \<open>The calls of the engine, the strategies and the quota poller, in any order. The remote snapshots come
  from \<open>from_user_rate_limit\<close>.\<close>

inductive budget_step :: "budget \<Rightarrow> budget \<Rightarrow> bool" where
  step_set: "budget_step b (set_allocation a b)"
| step_release: "budget_step b (release_allocation sid symb b)"
| step_live: "budget_step b (update_possible_live_orders n b)"
| step_remote: "from_user_rate_limit owner capf usedf obs = Inr s \<Longrightarrow>
    reconcile_remote s b = Some (Inr b') \<Longrightarrow> budget_step b b'"
| step_cancel: "cancel_ok c \<Longrightarrow> budget_step b (reconcile_cancel_headroom c b)"
| step_debit: "debit_network_attempt d b = Inr (new, b') \<Longrightarrow> budget_step b b'"
| step_fill: "budget_step b (record_fill v obs b)"
| step_restore: "recovery_ok st \<Longrightarrow> restore st b = (b', flag) \<Longrightarrow> budget_step b b'"

inductive budget_reachable :: "budget \<Rightarrow> bool" where
  budget_start: "budget_new owner st = Inr b \<Longrightarrow> budget_reachable b"
| budget_next: "budget_reachable b \<Longrightarrow> budget_step b b' \<Longrightarrow> budget_reachable b'"

lemma distinct_map_filter: "distinct (map f xs) \<Longrightarrow> distinct (map f (filter P xs))"
  by (induction xs) auto

lemma set_allocation_ok [inv_intros]: "allocations_ok (bg_allocations b) \<Longrightarrow>
    allocations_ok (bg_allocations (set_allocation a b))"
  by (auto simp: set_allocation_def allocations_ok_def distinct_map_filter)

lemma set_allocation_frame [simp]:
  "bg_attempts (set_allocation a b) = bg_attempts b" "bg_fills (set_allocation a b) = bg_fills b"
  "bg_possible_live_orders (set_allocation a b) = bg_possible_live_orders b"
  "bg_remote (set_allocation a b) = bg_remote b" "bg_cancel (set_allocation a b) = bg_cancel b"
  "bg_forced_cancel_only (set_allocation a b) = bg_forced_cancel_only b"
  "bg_quota_owner (set_allocation a b) = bg_quota_owner b" "bg_settings (set_allocation a b) = bg_settings b"
  by (simp_all add: set_allocation_def)

lemma fold_set_allocation_frame:
  "bg_attempts (fold set_allocation as b) = bg_attempts b" "bg_fills (fold set_allocation as b) = bg_fills b"
  "bg_possible_live_orders (fold set_allocation as b) = bg_possible_live_orders b"
  "bg_quota_owner (fold set_allocation as b) = bg_quota_owner b"
  "bg_settings (fold set_allocation as b) = bg_settings b"
  "allocations_ok (bg_allocations b) \<Longrightarrow> allocations_ok (bg_allocations (fold set_allocation as b))"
  by (induction as arbitrary: b) (simp_all add: set_allocation_ok)

lemma debit_distinct [inv_intros]:
  "debit_network_attempt d b = Inr (new, b') \<Longrightarrow> distinct (map ad_attempt_id (bg_attempts b)) \<Longrightarrow>
   distinct (map ad_attempt_id (bg_attempts b'))"
  by (auto elim!: debit_cases simp: find_attempt_None)

lemma debit_only_attempts:
  "debit_network_attempt d b = Inr (new, b') \<Longrightarrow> \<exists>as. b' = b\<lparr>bg_attempts := as\<rparr>"
  by (elim debit_cases) (auto intro: exI [of _ "bg_attempts b"])

text \<open>Both results of the debits of \<open>restore\<close> differ from the start in the attempts only.\<close>

definition restore_result :: "budget + budget \<Rightarrow> budget" where
  "restore_result r = (case r of Inl x \<Rightarrow> x | Inr x \<Rightarrow> x)"

lemma restore_attempts_only:
  "(\<exists>as. restore_result (restore_attempts since ds b) = b\<lparr>bg_attempts := as\<rparr>) \<and>
   (distinct (map ad_attempt_id (bg_attempts b)) \<longrightarrow>
     distinct (map ad_attempt_id (bg_attempts (restore_result (restore_attempts since ds b)))))"
proof (induction ds arbitrary: b)
  case Nil
  show ?case by (auto simp: restore_result_def intro: exI [of _ "bg_attempts b"])
next
  case (Cons d ds)
  consider "ad_occurred_at d < since" | e where "\<not> ad_occurred_at d < since" "debit_network_attempt d b = Inl e"
    | new b1 where "\<not> ad_occurred_at d < since" "debit_network_attempt d b = Inr (new, b1)"
    by (cases "debit_network_attempt d b") force+
  then show ?case
  proof cases
    case 1
    then show ?thesis by (auto simp: restore_result_def intro: exI [of _ "bg_attempts b"])
  next
    case 2
    then show ?thesis by (auto simp: restore_result_def)
  next
    case 3
    then show ?thesis
      using Cons.IH [of b1] debit_only_attempts [OF 3(2)] debit_distinct [OF 3(2)] by auto
  qed
qed

lemma restore_shape:
  assumes "restore st b = (b', flag)"
  shows "bg_quota_owner b' = bg_quota_owner b" "bg_settings b' = bg_settings b"
    "bg_possible_live_orders b' = max (rv_possible_live_orders st) 0"
    "distinct (map ad_attempt_id (bg_attempts b'))" "allocations_ok (bg_allocations b')"
    "\<not> flag \<Longrightarrow> bg_remote b' = None \<and> bg_cancel b' = None \<and> bg_forced_cancel_only b' \<and> bg_fills b' = []"
    "flag \<Longrightarrow> bg_remote b' = rv_remote_snapshot st \<and> bg_cancel b' = rv_cancel_snapshot st
      \<and> \<not> bg_forced_cancel_only b' \<and> bg_fills b' = rv_fills st
      \<and> (\<exists>s. rv_remote_snapshot st = Some s \<and> rs_quota_owner s = bg_quota_owner b)"
proof -
  define b0 where "b0 = budget_cleared st b"
  have b0: "bg_attempts b0 = []" "bg_fills b0 = []" "bg_allocations b0 = []" "bg_remote b0 = None"
    "bg_cancel b0 = None" "bg_forced_cancel_only b0" "bg_quota_owner b0 = bg_quota_owner b"
    "bg_settings b0 = bg_settings b" "bg_possible_live_orders b0 = max (rv_possible_live_orders st) 0"
    by (simp_all add: b0_def budget_cleared_def)
  have ok0: "allocations_ok []" by (simp add: allocations_ok_def)
  define goal where "goal \<longleftrightarrow> bg_quota_owner b' = bg_quota_owner b \<and> bg_settings b' = bg_settings b
    \<and> bg_possible_live_orders b' = max (rv_possible_live_orders st) 0
    \<and> distinct (map ad_attempt_id (bg_attempts b')) \<and> allocations_ok (bg_allocations b')
    \<and> (\<not> flag \<longrightarrow> bg_remote b' = None \<and> bg_cancel b' = None \<and> bg_forced_cancel_only b' \<and> bg_fills b' = [])
    \<and> (flag \<longrightarrow> bg_remote b' = rv_remote_snapshot st \<and> bg_cancel b' = rv_cancel_snapshot st
      \<and> \<not> bg_forced_cancel_only b' \<and> bg_fills b' = rv_fills st
      \<and> (\<exists>s. rv_remote_snapshot st = Some s \<and> rs_quota_owner s = bg_quota_owner b))"
  consider (none) "(b', flag) = (b0, False)"
    | (conflict) remote :: remote_snapshot and b1 :: budget where "restore_attempts (rs_observed_at remote) (rv_attempts st) b0 = Inl b1"
      "(b', flag) = (b1, False)"
    | (complete) remote cancel b1 where "rv_remote_snapshot st = Some remote" "rv_cancel_snapshot st = Some cancel"
      "rs_quota_owner remote = bg_quota_owner b"
      "restore_attempts (rs_observed_at remote) (rv_attempts st) b0 = Inr b1"
      "b' = (fold set_allocation (rv_allocations st) (b1\<lparr>bg_fills := rv_fills st\<rparr>))
        \<lparr>bg_remote := Some remote, bg_cancel := Some cancel, bg_forced_cancel_only := False\<rparr>" "flag"
    using assms
    by (auto simp: restore_def Let_def b0_def [symmetric] split: option.splits if_splits sum.splits)
  then have goal
  proof cases
    case none
    then show ?thesis by (simp add: goal_def b0 ok0)
  next
    case conflict
    then show ?thesis
      using restore_attempts_only [of "rs_observed_at remote" "rv_attempts st" b0]
      by (auto simp: goal_def restore_result_def b0 ok0)
  next
    case complete
    obtain as where as: "b1 = b0\<lparr>bg_attempts := as\<rparr>" "distinct (map ad_attempt_id as)"
      using restore_attempts_only [of "rs_observed_at remote" "rv_attempts st" b0] complete(4)
      by (auto simp: restore_result_def b0)
    show ?thesis
      unfolding goal_def using complete as
      by (simp add: fold_set_allocation_frame b0 ok0)
  qed
  then show "bg_quota_owner b' = bg_quota_owner b" "bg_settings b' = bg_settings b"
    "bg_possible_live_orders b' = max (rv_possible_live_orders st) 0"
    "distinct (map ad_attempt_id (bg_attempts b'))" "allocations_ok (bg_allocations b')"
    "\<not> flag \<Longrightarrow> bg_remote b' = None \<and> bg_cancel b' = None \<and> bg_forced_cancel_only b' \<and> bg_fills b' = []"
    "flag \<Longrightarrow> bg_remote b' = rv_remote_snapshot st \<and> bg_cancel b' = rv_cancel_snapshot st
      \<and> \<not> bg_forced_cancel_only b' \<and> bg_fills b' = rv_fills st
      \<and> (\<exists>s. rv_remote_snapshot st = Some s \<and> rs_quota_owner s = bg_quota_owner b)"
    by (simp_all add: goal_def)
qed

lemma budget_new_ok: "budget_new owner st = Inr b \<Longrightarrow> budget_ok b"
  by (auto simp: budget_new_def Let_def budget_ok_def allocations_ok_def split: if_splits)

lemma from_user_rate_limit_ok:
  "from_user_rate_limit owner capf usedf obs = Inr s \<Longrightarrow> 0 \<le> rs_used s \<and> rs_used s \<le> rs_cap s"
  by (auto simp: from_user_rate_limit_def Let_def split: option.splits if_splits)

text \<open>The clamp of the cancel projection never panics, and keeps the used headroom within the cap.\<close>

lemma advance_cancel_headroom_ok:
  assumes "\<forall>c. bg_cancel b = Some c \<longrightarrow> cancel_ok c"
  shows "\<exists>b'. advance_cancel_headroom s b = Some b' \<and> (\<exists>c'. b' = b\<lparr>bg_cancel := c'\<rparr>)
    \<and> (\<forall>c. bg_cancel b' = Some c \<longrightarrow> cancel_ok c)"
proof (cases "bg_cancel b")
  case None
  then show ?thesis by (auto simp: advance_cancel_headroom_def intro: exI [of _ None])
next
  case (Some c)
  then have "0 \<le> cs_cap c" using assms by (auto simp: cancel_ok_def)
  then show ?thesis
    by (auto simp: advance_cancel_headroom_def Some i64_clamp_def Let_def cancel_ok_def)
qed

lemma reconcile_remote_ok:
  assumes "budget_ok b" and "0 \<le> rs_used s" and "rs_used s \<le> rs_cap s"
  shows "\<exists>r. reconcile_remote s b = Some r" and "reconcile_remote s b = Some (Inr b') \<Longrightarrow> budget_ok b'"
proof -
  obtain b1 c' where b1: "advance_cancel_headroom s b = Some b1" "b1 = b\<lparr>bg_cancel := c'\<rparr>"
    "\<forall>c. bg_cancel b1 = Some c \<longrightarrow> cancel_ok c"
    using advance_cancel_headroom_ok [of b s] assms(1) unfolding budget_ok_def by metis
  show "\<exists>r. reconcile_remote s b = Some r" by (auto simp: reconcile_remote_def b1(1))
  show "budget_ok b'" if "reconcile_remote s b = Some (Inr b')"
    using that assms b1 by (auto simp: reconcile_remote_def budget_ok_def remote_ok_def split: if_splits)
qed

lemma budget_step_ok: "budget_step b b' \<Longrightarrow> budget_ok b \<Longrightarrow> budget_ok b'"
proof (induction rule: budget_step.induct)
  case (step_set b a)
  then show ?case by (simp add: budget_ok_def set_allocation_ok)
next
  case (step_release b sid symb)
  then show ?case by (simp add: budget_ok_def release_allocation_def allocations_ok_def distinct_map_filter)
next
  case (step_live b n)
  then show ?case by (simp add: budget_ok_def update_possible_live_orders_def)
next
  case (step_remote owner capf usedf obs s b b')
  then show ?case using reconcile_remote_ok(2) from_user_rate_limit_ok by blast
next
  case (step_cancel c b)
  then show ?case by (simp add: budget_ok_def reconcile_cancel_headroom_def)
next
  case (step_debit d b new b')
  then show ?case
    using debit_distinct [OF step_debit(1)] debit_only_attempts [OF step_debit(1)]
    by (auto simp: budget_ok_def)
next
  case (step_fill b v obs)
  then show ?case by (auto simp: budget_ok_def record_fill_def is_negative_def)
next
  case (step_restore st b b' flag)
  note shape = restore_shape [OF step_restore(2)]
  show ?case
    using step_restore(1) shape
    by (cases flag) (auto simp: budget_ok_def recovery_ok_def remote_ok_def)
qed

lemma budget_reachable_ok: "budget_reachable b \<Longrightarrow> budget_ok b"
  by (induction rule: budget_reachable.induct) (auto intro: budget_new_ok budget_step_ok)

lemma cancel_remaining_le: "bg_cancel b = Some c \<Longrightarrow> cancel_ok c \<Longrightarrow> cancel_remaining b \<le> cs_cap c"
proof -
  assume c: "bg_cancel b = Some c" "cancel_ok c"
  have "0 \<le> sum_list (map cancel_cost (filter (\<lambda>d. ad_occurred_at d > cs_observed_at c) (bg_attempts b)))"
    by (rule sum_list_map_nonneg) simp
  with c show ?thesis by (simp add: cancel_remaining_def cancel_snapshot_remaining_def cancel_ok_def)
qed

lemma address_remaining_le: "bg_remote b = Some s \<Longrightarrow> remote_ok owner s \<Longrightarrow> address_remaining b \<le> rs_cap s"
proof -
  assume s: "bg_remote b = Some s" "remote_ok owner s"
  have "0 \<le> shadow_address_debit (rs_observed_at s) b"
    unfolding shadow_address_debit_def by (rule sum_list_map_nonneg) simp
  with s show ?thesis by (simp add: address_remaining_def remote_remaining_def remote_ok_def)
qed


lemma sample_start: "\<exists>b. budget_new (''0x'' @ replicate 40 CHR ''a'') budget_settings_default = Inr b"
  by (simp add: budget_new_def is_canonical_address_def to_lowercase_def is_hex_digit_def Let_def
      list_all_iff to_lower_char_def)


section \<open>Restart\<close>

lemma restore_attempts_append:
  assumes "\<forall>d \<in> set ds. \<not> ad_occurred_at d < since"
    and "distinct (map ad_attempt_id (bg_attempts b @ ds))"
  shows "restore_attempts since ds b = Inr (b\<lparr>bg_attempts := bg_attempts b @ ds\<rparr>)"
  using assms
proof (induction ds arbitrary: b)
  case (Cons d ds)
  then have "find_attempt b (ad_attempt_id d) = None" by (auto simp: find_attempt_None)
  with Cons.prems Cons.IH [of "b\<lparr>bg_attempts := bg_attempts b @ [d]\<rparr>"]
  show ?case by (simp add: debit_network_attempt_def)
qed simp

lemma find_key:
  "distinct (map k xs) \<Longrightarrow> find (\<lambda>x. k x = v) xs = Some x \<longleftrightarrow> x \<in> set xs \<and> k x = v"
  by (induction xs) auto

lemma find_key_cong:
  assumes "distinct (map k xs)" and "distinct (map k ys)" and "set xs = set ys"
  shows "find (\<lambda>x. k x = v) xs = find (\<lambda>x. k x = v) ys"
proof (cases "find (\<lambda>x. k x = v) ys")
  case None
  then show ?thesis using assms(3) by (metis find_None_iff)
next
  case (Some y)
  with assms(2) have "y \<in> set ys \<and> k y = v" by (simp only: find_key)
  with assms have "find (\<lambda>x. k x = v) xs = Some y" by (simp only: find_key)
  with Some show ?thesis by simp
qed

lemma fold_set_allocation:
  assumes "allocations_ok as" and "allocation_key ` set as \<inter> allocation_key ` set (bg_allocations b) = {}"
  shows "bg_allocations (fold set_allocation as b) = rev as @ bg_allocations b"
  using assms
proof (induction as arbitrary: b)
  case (Cons a as)
  have "filter (\<lambda>x. allocation_key x \<noteq> allocation_key a) (bg_allocations b) = bg_allocations b"
    using Cons.prems(2) by (intro filter_True) (metis disjoint_iff imageI list.set_intros(1))
  then have "set_allocation a b = b\<lparr>bg_allocations := a # bg_allocations b\<rparr>"
    using Cons.prems by (auto simp: set_allocation_def allocations_ok_def filter_id_conv)
  then show ?case
    using Cons.IH [of "set_allocation a b"] Cons.prems by (auto simp: allocations_ok_def)
qed simp

lemma filter_later:
  "since \<le> t \<Longrightarrow> filter (\<lambda>d. t < ad_occurred_at d) (filter (\<lambda>d. since \<le> ad_occurred_at d) ds) =
    filter (\<lambda>d. t < ad_occurred_at d) ds"
  by (induction ds) auto

text \<open>The controller that a restart makes from an exported state.\<close>

lemma restore_export:
  assumes ok: "budget_ok b" and r: "bg_remote b = Some r" and c: "bg_cancel b = Some c"
    and owner: "bg_quota_owner b0 = bg_quota_owner b"
  shows "\<exists>b'. restore (export_recovery_state m b) b0 = (b', True) \<and> bg_remote b' = Some r \<and> bg_cancel b' = Some c
    \<and> bg_attempts b' = filter (\<lambda>d. rs_observed_at r \<le> ad_occurred_at d) (bg_attempts b)
    \<and> bg_fills b' = bg_fills b \<and> bg_allocations b' = rev (bg_allocations b)
    \<and> bg_possible_live_orders b' = bg_possible_live_orders b \<and> bg_settings b' = bg_settings b0"
proof -
  define ds where "ds = filter (\<lambda>d. rs_observed_at r \<le> ad_occurred_at d) (bg_attempts b)"
  define st where "st = export_recovery_state m b"
  have st: "rv_remote_snapshot st = Some r" "rv_cancel_snapshot st = Some c" "rv_attempts st = ds"
    "rv_fills st = bg_fills b" "rv_allocations st = bg_allocations b"
    "rv_possible_live_orders st = bg_possible_live_orders b"
    by (simp_all add: st_def export_recovery_state_def r c ds_def)
  have own: "rs_quota_owner r = bg_quota_owner b0" and al: "allocations_ok (bg_allocations b)"
    and live: "0 \<le> bg_possible_live_orders b" and dist: "distinct (map ad_attempt_id ds)"
    using ok r owner by (auto simp: budget_ok_def remote_ok_def ds_def distinct_map_filter)
  have att: "restore_attempts (rs_observed_at r) ds (budget_cleared st b0) =
      Inr ((budget_cleared st b0)\<lparr>bg_attempts := ds\<rparr>)"
    by (subst restore_attempts_append) (auto simp: budget_cleared_def dist, auto simp: ds_def)
  have fld: "bg_allocations (fold set_allocation (bg_allocations b)
      ((budget_cleared st b0)\<lparr>bg_attempts := ds, bg_fills := bg_fills b\<rparr>)) = rev (bg_allocations b)"
    by (subst fold_set_allocation [OF al]) (simp_all add: budget_cleared_def)
  show ?thesis
    unfolding st_def [symmetric] ds_def [symmetric]
    using live fld
    by (simp add: restore_def st own att fold_set_allocation_frame) (simp add: budget_cleared_def st)
qed

lemma find_snoc: "find P (xs @ [x]) = (case find P xs of None \<Rightarrow> if P x then Some x else None | Some y \<Rightarrow> Some y)"
  by (induction xs) auto

lemma debit_then_find:
  "debit_network_attempt d b = Inr (new, b') \<Longrightarrow> find_attempt b' (ad_attempt_id d) = Some d"
  by (elim debit_cases) (simp_all add: find_attempt_def find_snoc)


lemma sample_ok: "budget_ok sample_budget"
  by (simp add: budget_ok_def sample_fields remote_ok_def cancel_ok_def)
    (simp add: sample_budget_def allocations_ok_def)


text \<open>The export keeps only the attempts since the remote snapshot. The consumption of the allocations and
  the IP window count the older ones too, so a restart gives both back.\<close>

definition sample_spent :: budget where
  "sample_spent = sample_budget\<lparr>bg_attempts := [sample_debit],
      bg_remote := Some \<lparr>rs_quota_owner = ''o'', rs_cap = 10000, rs_used = 1, rs_observed_at = 2\<rparr>\<rparr>"

lemma sample_spent_fields: "bg_attempts sample_spent = [sample_debit]"
  "bg_remote sample_spent = Some \<lparr>rs_quota_owner = ''o'', rs_cap = 10000, rs_used = 1, rs_observed_at = 2\<rparr>"
  "bg_cancel sample_spent = Some \<lparr>cs_cap = 10000, cs_used = 0, cs_observed_at = 0\<rparr>"
  "bg_settings sample_spent = budget_settings_default"
  by (simp_all add: sample_spent_def sample_fields)

lemma restart_forgets_consumption:
  "allocation_consumed ''s'' ''BTC'' sample_spent = 1 \<and> ip_remaining 3 sample_spent = 1199
   \<and> (\<exists>b'. restore (export_recovery_state 0 sample_spent) sample_spent = (b', True)
        \<and> allocation_consumed ''s'' ''BTC'' b' = 0 \<and> ip_remaining 3 b' = 1200)"
proof (intro conjI)
  show "allocation_consumed ''s'' ''BTC'' sample_spent = 1" "ip_remaining 3 sample_spent = 1199"
    by (simp_all add: allocation_consumed_def ip_remaining_def sample_debit_def address_cost_def
        sample_spent_fields budget_settings_default_def minutes_def)
  have ok: "budget_ok sample_spent"
    using sample_ok by (simp add: sample_spent_def budget_ok_def remote_ok_def)
      (simp add: sample_budget_def)
  obtain b' where "restore (export_recovery_state 0 sample_spent) sample_spent = (b', True)"
    "bg_attempts b' = filter (\<lambda>d. 2 \<le> ad_occurred_at d) [sample_debit]"
    "bg_settings b' = budget_settings_default"
    using restore_export [OF ok sample_spent_fields(2,3) refl, of 0]
    unfolding sample_spent_fields by auto
  then show "\<exists>b'. restore (export_recovery_state 0 sample_spent) sample_spent = (b', True)
        \<and> allocation_consumed ''s'' ''BTC'' b' = 0 \<and> ip_remaining 3 b' = 1200"
    by (auto simp: allocation_consumed_def ip_remaining_def sample_debit_def budget_settings_default_def)
qed

end
