(* ===== verification/HE_Quotes.thy ===== *)
theory HE_Quotes
  imports HE_Models
begin

text \<open>
  \<open>crates/trading/src/trading/quotes.rs\<close>: desired quotes, the orders that can still fill (risk owners), the
  authoritative view of a quote slot, diffs and plans, with their validation. \<open>Price\<close>, \<open>Size\<close> and \<open>Usd\<close> are
  the decimals they wrap.
\<close>

section \<open>Desired quotes\<close>

record quote_slot_key =
  qk_strategy_id :: string
  qk_symbol :: string
  qk_side :: side
  qk_level :: nat

record desired_quote =
  dq_slot :: quote_slot_key
  dq_decision :: quote_decision
  dq_price :: "decimal option"
  dq_size :: "decimal option"
  dq_gross_edge :: decimal
  dq_reason :: string

definition desired_quote_validate :: "desired_quote \<Rightarrow> string + unit" where
  "desired_quote_validate q =
     (if (dq_decision q = QD_Quote) \<noteq> (dq_price q \<noteq> None \<and> dq_size q \<noteq> None)
      then Inl ''QUOTE requires price and size; non-QUOTE decisions must omit them''
      else if (case dq_size q of Some sz \<Rightarrow> sz \<le> ZERO | None \<Rightarrow> False) then Inl ''quote size must be positive''
      else if (case dq_price q of Some px \<Rightarrow> px \<le> ZERO | None \<Rightarrow> False) then Inl ''quote price must be positive''
      else Inr ())"

record desired_quote_set =
  ds_strategy_id :: string
  ds_symbol :: string
  ds_session_id :: string
  ds_config_version :: int
  ds_model_version :: string
  ds_market_version :: int
  ds_connection_generation :: int
  ds_current_slot_revision :: int
  ds_revision :: int
  ds_fair_price :: decimal
  ds_reservation_price :: decimal
  ds_inventory_notional :: decimal
  ds_expected_utility :: decimal
  ds_budget_mode :: action_budget_mode
  ds_bid :: desired_quote
  ds_ask :: desired_quote
  ds_created_at :: time_ns
  ds_valid_until :: time_ns
  ds_feature_values :: "(string \<times> decimal) list"

text \<open>One turn of the loop over the two sides.\<close>

definition check_quote_slot :: "desired_quote_set \<Rightarrow> side \<Rightarrow> desired_quote \<Rightarrow> string option" where
  "check_quote_slot s sd q =
     (if qk_strategy_id (dq_slot q) \<noteq> ds_strategy_id s \<or> qk_symbol (dq_slot q) \<noteq> ds_symbol s
      then Some ''quote slot does not belong to quote set''
      else if qk_side (dq_slot q) \<noteq> sd then Some ''quote slot side does not match quote-set side''
      else None)"

definition quote_set_validate :: "desired_quote_set \<Rightarrow> string + unit" where
  "quote_set_validate s =
     (if ds_revision s < 0 \<or> ds_current_slot_revision s < 0 \<or> ds_market_version s < 0
      then Inl ''quote and market revisions cannot be negative''
      else if ds_config_version s = 0 then Inl ''config version must be positive''
      else if ds_valid_until s \<le> ds_created_at s
      then Inl ''quote set validity deadline must be after creation''
      else case check_quote_slot s Buy (ds_bid s) of
             Some e \<Rightarrow> Inl e
           | None \<Rightarrow> (case check_quote_slot s Sell (ds_ask s) of Some e \<Rightarrow> Inl e | None \<Rightarrow> Inr ()))"

section \<open>Authoritative slots\<close>

record quote_risk_owner =
  ro_order_id :: "string option"
  ro_cloid :: string
  ro_price :: decimal
  ro_remaining :: decimal
  ro_status :: order_status
  ro_plan_revision :: int
  ro_live_since :: time_ns
  ro_exchange_id_known :: bool

definition owner_validate :: "quote_risk_owner \<Rightarrow> string + unit" where
  "owner_validate o' =
     (if ro_price o' \<le> ZERO \<or> ro_remaining o' \<le> ZERO
      then Inl ''risk-owner price and remaining size must be positive''
      else if ro_plan_revision o' < 0 then Inl ''risk-owner plan revision cannot be negative'' else Inr ())"

definition owner_unknown :: "quote_risk_owner \<Rightarrow> bool" where
  "owner_unknown o' \<longleftrightarrow> ro_status o' = SubmitUnknown \<or> ro_status o' = CancelUnknown"

definition owner_inflight :: "quote_risk_owner \<Rightarrow> bool" where
  "owner_inflight o' \<longleftrightarrow> ro_status o' = Pending \<or> ro_status o' = Submitted"

record quote_slot_view =
  sv_key :: quote_slot_key
  sv_revision :: int
  sv_plan_revision :: int
  sv_owners :: "quote_risk_owner list"
  sv_last_transition_at :: "time_ns option"

text \<open>The insertions into the \<open>HashSet\<close> fail at the first repeated id.\<close>

definition slot_view_validate :: "quote_slot_view \<Rightarrow> string + unit" where
  "slot_view_validate v =
     (if sv_revision v < 0 \<or> sv_plan_revision v < 0 then Inl ''slot revisions cannot be negative''
      else if \<not> distinct (map ro_cloid (sv_owners v))
      then Inl ''a risk owner may appear only once in a slot'' else Inr ())"

definition has_unknown :: "quote_slot_view \<Rightarrow> bool" where
  "has_unknown v \<longleftrightarrow> list_ex owner_unknown (sv_owners v)"

definition has_inflight :: "quote_slot_view \<Rightarrow> bool" where
  "has_inflight v \<longleftrightarrow> list_ex owner_inflight (sv_owners v)"

definition has_orphaned_owner :: "quote_slot_view \<Rightarrow> bool" where
  "has_orphaned_owner v \<longleftrightarrow> list_ex (\<lambda>o'. ro_plan_revision o' \<noteq> sv_plan_revision v) (sv_owners v)"

definition current_owner :: "quote_slot_view \<Rightarrow> string + quote_risk_owner option" where
  "current_owner v =
     (case filter (\<lambda>o'. ro_plan_revision o' = sv_plan_revision v) (sv_owners v) of
        [] \<Rightarrow> Inr None
      | [o'] \<Rightarrow> Inr (Some o')
      | _ \<Rightarrow> Inl ''slot has more than one current desired owner'')"

section \<open>Diffs and plans\<close>

record quote_diff =
  qd_slot :: quote_slot_key
  qd_action :: quote_action
  qd_source :: "quote_risk_owner option"
  qd_desired :: desired_quote
  qd_child_actions :: "string list"
  qd_reason :: string
  qd_gross_edge :: decimal
  qd_transition_cost :: decimal
  qd_net_utility :: decimal

definition diff_incremental_actions :: "quote_diff \<Rightarrow> nat" where
  "diff_incremental_actions d = length (qd_child_actions d)"

record quote_plan =
  qp_strategy_id :: string
  qp_symbol :: string
  qp_session_id :: string
  qp_config_version :: int
  qp_revision :: int
  qp_market_version :: int
  qp_connection_generation :: int
  qp_valid_until :: time_ns
  qp_diffs :: "quote_diff list"
  qp_fair_price :: "decimal option"
  qp_reservation_price :: "decimal option"
  qp_inventory_notional :: decimal
  qp_budget_mode :: action_budget_mode
  qp_fenced :: bool
  qp_fence_reason :: "string option"

definition plan_incremental_actions :: "quote_plan \<Rightarrow> nat" where
  "plan_incremental_actions p = sum_list (map diff_incremental_actions (qp_diffs p))"

section \<open>Facts\<close>

lemma current_owner_None:
  "current_owner v = Inr None \<Longrightarrow> \<not> has_orphaned_owner v \<Longrightarrow> sv_owners v = []"
  by (auto simp: current_owner_def has_orphaned_owner_def list_ex_iff filter_empty_conv
      split: list.splits)

lemma current_owner_Some:
  assumes "current_owner v = Inr (Some o')" and "\<not> has_orphaned_owner v"
  shows "sv_owners v = [o']"
proof -
  have "filter (\<lambda>x. ro_plan_revision x = sv_plan_revision v) (sv_owners v) = sv_owners v"
    using assms(2) by (auto simp: has_orphaned_owner_def list_ex_iff filter_id_conv)
  with assms(1) show ?thesis by (auto simp: current_owner_def split: list.splits)
qed

lemma quote_set_slots:
  "quote_set_validate s = Inr () \<Longrightarrow> qk_side (dq_slot (ds_bid s)) = Buy \<and> qk_side (dq_slot (ds_ask s)) = Sell"
  by (auto simp: quote_set_validate_def check_quote_slot_def split: if_splits)

end
