(* ===== verification/HE_Coordinator.thy ===== *)
theory HE_Coordinator
  imports HE_Quotes
begin

text \<open>
  \<open>crates/trading/src/trading/quote_coordinator.rs\<close>: the reconciliation of a desired quote set with the
  authoritative slots into a plan of at most two diffs. Results are \<open>(string + plan) option\<close>: a panic of the
  decimal arithmetic is \<open>None\<close>, and \<open>coordinate_returns\<close> shows that there is none. Durations are
  nanoseconds. Logging is left out.
\<close>

section \<open>Configuration\<close>

record coordinator_config =
  qc_min_quote_lifetime :: time_ns
  qc_refresh_cooldown :: time_ns
  qc_max_quote_age :: time_ns
  qc_price_hysteresis_ticks :: int
  qc_size_hysteresis :: decimal
  qc_replace_hysteresis :: decimal
  qc_action_shadow_cost :: decimal
  qc_failure_tail_cost :: decimal
  qc_modify_enabled :: bool

definition coordinator_config_default :: coordinator_config where
  "coordinator_config_default =
     \<lparr>qc_min_quote_lifetime = 500 * 1000000, qc_refresh_cooldown = 100 * 1000000,
      qc_max_quote_age = 15 * 1000000000, qc_price_hysteresis_ticks = 1, qc_size_hysteresis = ZERO,
      qc_replace_hysteresis = ZERO, qc_action_shadow_cost = ZERO, qc_failure_tail_cost = ZERO,
      qc_modify_enabled = False\<rparr>"

definition coordinator_config_validate :: "coordinator_config \<Rightarrow> string + unit" where
  "coordinator_config_validate c =
     (if qc_min_quote_lifetime c < 0 \<or> qc_refresh_cooldown c < 0 \<or> qc_max_quote_age c < 0
      then Inl ''quote timing controls cannot be negative''
      else if qc_replace_hysteresis c < ZERO then Inl ''replace hysteresis cannot be negative''
      else if qc_action_shadow_cost c < ZERO \<or> qc_failure_tail_cost c < ZERO
      then Inl ''transition costs cannot be negative''
      else if qc_modify_enabled c
      then Inl ''MODIFY is disabled until exchange recovery semantics are authoritative''
      else Inr ())"

definition coordinator_new :: "coordinator_config \<Rightarrow> string + coordinator_config" where
  "coordinator_new c = (case coordinator_config_validate c of Inl e \<Rightarrow> Inl e | Inr _ \<Rightarrow> Inr c)"

section \<open>Building blocks\<close>

definition no_quote_desired :: "desired_quote \<Rightarrow> string \<Rightarrow> desired_quote" where
  "no_quote_desired q reason =
     q\<lparr>dq_decision := QD_NoQuote, dq_price := None, dq_size := None, dq_reason := reason\<rparr>"

definition crossed :: "desired_quote_set \<Rightarrow> bool" where
  "crossed s \<longleftrightarrow> dq_decision (ds_bid s) = QD_Quote \<and> dq_decision (ds_ask s) = QD_Quote \<and>
     (case (dq_price (ds_bid s), dq_price (ds_ask s)) of
        (Some bid, Some ask) \<Rightarrow> bid \<ge> ask | _ \<Rightarrow> False)"

definition reject_crossed :: "desired_quote_set \<Rightarrow> desired_quote_set" where
  "reject_crossed s =
     (if \<not> crossed s then s
      else s\<lparr>ds_bid := no_quote_desired (ds_bid s) ''crossed_quote_rejected'',
             ds_ask := no_quote_desired (ds_ask s) ''crossed_quote_rejected''\<rparr>)"

definition transition_cost :: "coordinator_config \<Rightarrow> nat \<Rightarrow> decimal option" where
  "transition_cost c n =
     map_option (\<lambda>k. (qc_action_shadow_cost c + qc_failure_tail_cost c) * k) (from_i128 (int n))"

definition make_diff :: "coordinator_config \<Rightarrow> desired_quote \<Rightarrow> quote_risk_owner option \<Rightarrow> quote_action \<Rightarrow>
    string list \<Rightarrow> string \<Rightarrow> (string + quote_diff) option" where
  "make_diff c desired source action children reason =
     map_option (\<lambda>cost. Inr
       \<lparr>qd_slot = dq_slot desired, qd_action = action, qd_source = source, qd_desired = desired,
        qd_child_actions = children, qd_reason = reason, qd_gross_edge = dq_gross_edge desired,
        qd_transition_cost = cost, qd_net_utility = dq_gross_edge desired - cost\<rparr>)
       (transition_cost c (length children))"

definition check_view :: "desired_quote_set \<Rightarrow> side \<Rightarrow> quote_slot_view \<Rightarrow> string + unit" where
  "check_view s sd v =
     (if qk_strategy_id (sv_key v) \<noteq> ds_strategy_id s \<or> qk_symbol (sv_key v) \<noteq> ds_symbol s
         \<or> qk_side (sv_key v) \<noteq> sd
      then Inl ''authoritative slot view does not belong to desired quote set''
      else case current_owner v of Inl e \<Rightarrow> Inl e | Inr _ \<Rightarrow> Inr ())"

definition validate_views :: "desired_quote_set \<Rightarrow> quote_slot_view \<Rightarrow> quote_slot_view \<Rightarrow> string + unit" where
  "validate_views s bid ask =
     (case check_view s Buy bid of Inl e \<Rightarrow> Inl e | Inr _ \<Rightarrow> check_view s Sell ask)"

definition fence_reason_of :: "desired_quote_set \<Rightarrow> quote_slot_view \<Rightarrow> quote_slot_view \<Rightarrow> time_ns \<Rightarrow> string option" where
  "fence_reason_of s bid ask now =
     (if now \<ge> ds_valid_until s then Some ''candidate_expired''
      else if ds_revision s \<le> max (sv_plan_revision bid) (sv_plan_revision ask)
      then Some ''stale_plan_revision''
      else if ds_current_slot_revision s \<noteq> max (sv_revision bid) (sv_revision ask)
      then Some ''slot_revision_mismatch''
      else None)"

section \<open>Diffs\<close>

definition blocked_reason :: "quote_slot_view \<Rightarrow> string" where
  "blocked_reason v =
     (if has_unknown v then ''unknown_risk_owner_requires_reconciliation''
      else ''orphaned_live_owner_requires_recovery'')"

text \<open>The size of a replacement is at most 1.2 times what remains of the order that it replaces.\<close>

definition SHRINK_HYSTERESIS :: string where "SHRINK_HYSTERESIS = ''0.2''"

definition clamp_to_partial_fill :: "desired_quote \<Rightarrow> quote_risk_owner \<Rightarrow> desired_quote option" where
  "clamp_to_partial_fill desired owner =
     (case dq_size desired of
        None \<Rightarrow> Some desired
      | Some sz \<Rightarrow>
          if sz \<le> ro_remaining owner then Some desired
          else map_option (\<lambda>h. desired\<lparr>dq_size := Some (dec_min sz (ro_remaining owner * (ONE + h)))\<rparr>)
                 (unwrap_lenient SHRINK_HYSTERESIS))"

text \<open>The decision on a quote for a slot with a live owner, from the clamped quote on.\<close>

definition diff_replace :: "coordinator_config \<Rightarrow> desired_quote \<Rightarrow> quote_slot_view \<Rightarrow> quote_risk_owner \<Rightarrow>
    decimal \<Rightarrow> time_ns \<Rightarrow> (string + quote_diff) option" where
  "diff_replace c eff v owner price_ticks now =
     (case dq_size eff of
        None \<Rightarrow> Some (Inl ''QUOTE requires size'')
      | Some sz \<Rightarrow>
          let age = now - ro_live_since owner;
              size_delta = dec_abs (sz - ro_remaining owner);
              keep = make_diff c eff (Some owner) QA_Keep []
          in case from_i128 (qc_price_hysteresis_ticks c) of
               None \<Rightarrow> None
             | Some ticks \<Rightarrow>
               if price_ticks \<le> ticks \<and> size_delta \<le> qc_size_hysteresis c
               then keep ''within_price_size_hysteresis''
               else if age < qc_min_quote_lifetime c then keep ''minimum_quote_lifetime''
               else if (case sv_last_transition_at v of Some t \<Rightarrow> now - t < qc_refresh_cooldown c | None \<Rightarrow> False)
               then keep ''refresh_cooldown''
               else let forced_by_age = age \<ge> qc_max_quote_age c in
                 case transition_cost c 2 of
                   None \<Rightarrow> None
                 | Some cost \<Rightarrow>
                   if \<not> forced_by_age \<and> dq_gross_edge eff - cost \<le> qc_replace_hysteresis c
                   then keep ''replace_not_incrementally_better''
                   else make_diff c eff (Some owner) QA_CancelThenPlace [''cancel'', ''place'']
                          (if forced_by_age then ''maximum_quote_age'' else ''replace_hysteresis_passed''))"

definition diff_slot :: "coordinator_config \<Rightarrow> desired_quote \<Rightarrow> quote_slot_view \<Rightarrow> decimal \<Rightarrow> time_ns \<Rightarrow>
    (string + quote_diff) option" where
  "diff_slot c desired v tick_size now =
     (case current_owner v of
        Inl e \<Rightarrow> Some (Inl e)
      | Inr owner \<Rightarrow>
          if has_unknown v \<or> has_orphaned_owner v
          then make_diff c desired owner QA_BlockedUnknown [] (blocked_reason v)
          else if has_inflight v then make_diff c desired owner QA_Keep [] ''child_action_inflight''
          else if dq_decision desired = QD_Keep
          then make_diff c desired owner (if owner \<noteq> None then QA_Keep else QA_NoAction) [] ''policy_keep''
          else if dq_decision desired = QD_NoQuote
          then (if owner = None then make_diff c desired None QA_NoAction [] (dq_reason desired)
                else make_diff c desired owner QA_Cancel [''cancel''] (dq_reason desired))
          else case owner of
                 None \<Rightarrow> make_diff c desired None QA_Place [''place''] (dq_reason desired)
               | Some own \<Rightarrow>
                   (case dq_price desired of
                      None \<Rightarrow> Some (Inl ''QUOTE requires price'')
                    | Some price \<Rightarrow>
                        (case dec_div (dec_abs (price - ro_price own)) tick_size of
                           None \<Rightarrow> None
                         | Some price_ticks \<Rightarrow>
                             (case clamp_to_partial_fill desired own of
                                None \<Rightarrow> None
                              | Some eff \<Rightarrow> diff_replace c eff v own price_ticks now))))"

text \<open>The body of the loop of \<open>fenced_diffs\<close>: no diff where the fence suppresses a placement.\<close>

definition fenced_diff :: "coordinator_config \<Rightarrow> desired_quote \<Rightarrow> quote_slot_view \<Rightarrow>
    (string + quote_diff option) option" where
  "fenced_diff c q v =
     (let some = map_option (map_sum id Some) in
      if has_unknown v \<or> has_orphaned_owner v
      then (case current_owner v of
              Inl e \<Rightarrow> Some (Inl e)
            | Inr owner \<Rightarrow> some (make_diff c q owner QA_BlockedUnknown [] (blocked_reason v)))
      else if dq_decision q \<noteq> QD_NoQuote then Some (Inr None)
      else case current_owner v of
             Inl e \<Rightarrow> Some (Inl e)
           | Inr (Some owner) \<Rightarrow> some (make_diff c q (Some owner) QA_Cancel [''cancel''] (dq_reason q))
           | Inr None \<Rightarrow> some (make_diff c q None QA_NoAction [] (dq_reason q)))"

fun opt_list :: "'a option \<Rightarrow> 'a list" where
  "opt_list None = []"
| "opt_list (Some x) = [x]"

definition fenced_diffs :: "coordinator_config \<Rightarrow> desired_quote_set \<Rightarrow> quote_slot_view \<Rightarrow> quote_slot_view \<Rightarrow>
    (string + quote_diff list) option" where
  "fenced_diffs c s bid ask =
     res_bind (fenced_diff c (ds_bid s) bid) (\<lambda>d1.
     res_bind (fenced_diff c (ds_ask s) ask) (\<lambda>d2. Some (Inr (opt_list d1 @ opt_list d2))))"

section \<open>Plans\<close>

definition plan_of :: "desired_quote_set \<Rightarrow> string option \<Rightarrow> quote_diff list \<Rightarrow> quote_plan" where
  "plan_of s fence ds =
     \<lparr>qp_strategy_id = ds_strategy_id s, qp_symbol = ds_symbol s, qp_session_id = ds_session_id s,
      qp_config_version = ds_config_version s, qp_revision = ds_revision s,
      qp_market_version = ds_market_version s, qp_connection_generation = ds_connection_generation s,
      qp_valid_until = ds_valid_until s, qp_diffs = ds, qp_fair_price = Some (ds_fair_price s),
      qp_reservation_price = Some (ds_reservation_price s), qp_inventory_notional = ds_inventory_notional s,
      qp_budget_mode = ds_budget_mode s, qp_fenced = (fence \<noteq> None), qp_fence_reason = fence\<rparr>"

definition fenced_plan :: "desired_quote_set \<Rightarrow> string \<Rightarrow> quote_diff list \<Rightarrow> quote_plan" where
  "fenced_plan s reason ds = plan_of s (Some reason) ds"

definition coordinate :: "coordinator_config \<Rightarrow> desired_quote_set \<Rightarrow> quote_slot_view \<Rightarrow> quote_slot_view \<Rightarrow>
    decimal \<Rightarrow> time_ns \<Rightarrow> (string + quote_plan) option" where
  "coordinate c desired bid ask tick_size now =
     (case validate_views desired bid ask of
        Inl e \<Rightarrow> Some (Inl e)
      | Inr _ \<Rightarrow>
          let working = reject_crossed desired in
          case fence_reason_of working bid ask now of
            Some reason \<Rightarrow>
              res_bind (fenced_diffs c working bid ask) (\<lambda>ds. Some (Inr (fenced_plan working reason ds)))
          | None \<Rightarrow>
              if tick_size \<le> ZERO then Some (Inl ''tick size must be positive'')
              else res_bind (diff_slot c (ds_bid working) bid tick_size now) (\<lambda>d1.
                   res_bind (diff_slot c (ds_ask working) ask tick_size now) (\<lambda>d2.
                     Some (Inr (plan_of working None [d1, d2])))))"

section \<open>What a diff may do\<close>

definition placing :: "quote_diff \<Rightarrow> bool" where
  "placing d \<longleftrightarrow> qd_action d = QA_Place \<or> qd_action d = QA_CancelThenPlace"

text \<open>The contract of a diff for a desired quote and a slot: place only into an empty slot, replace only the
  sole, known, settled order of the slot and never for more than 1.2 times what remains of it, cancel only
  the sole order, touch nothing while an order of the slot is unknown or orphaned, never modify.\<close>

definition diff_spec :: "desired_quote \<Rightarrow> quote_slot_view \<Rightarrow> quote_diff \<Rightarrow> bool" where
  "diff_spec q v d \<longleftrightarrow> qd_slot d = dq_slot q \<and>
     (has_unknown v \<or> has_orphaned_owner v \<longleftrightarrow> qd_action d = QA_BlockedUnknown) \<and>
     (case qd_action d of
        QA_Place \<Rightarrow> sv_owners v = [] \<and> dq_decision q = QD_Quote \<and> qd_desired d = q
          \<and> qd_child_actions d = [''place'']
      | QA_CancelThenPlace \<Rightarrow> dq_decision q = QD_Quote \<and> qd_child_actions d = [''cancel'', ''place'']
          \<and> dq_price (qd_desired d) = dq_price q \<and> dq_price q \<noteq> None
          \<and> (\<exists>own sz old. sv_owners v = [own] \<and> qd_source d = Some own \<and> \<not> owner_unknown own
              \<and> \<not> owner_inflight own \<and> dq_size q = Some old \<and> dq_size (qd_desired d) = Some sz
              \<and> sz \<le> old \<and> sz \<le> max (ro_remaining own) (ro_remaining own * Dec 1200000000000000000))
      | QA_Cancel \<Rightarrow> dq_decision q = QD_NoQuote \<and> qd_child_actions d = [''cancel'']
          \<and> (\<exists>own. sv_owners v = [own] \<and> qd_source d = Some own)
      | QA_Modify \<Rightarrow> False
      | QA_Keep \<Rightarrow> sv_owners v \<noteq> [] \<and> qd_child_actions d = []
      | QA_NoAction \<Rightarrow> sv_owners v = [] \<and> dq_decision q \<noteq> QD_Quote \<and> qd_child_actions d = []
      | QA_BlockedUnknown \<Rightarrow> qd_child_actions d = [])"

lemma make_diff_Inr:
  "make_diff c q src act ch why = Some (Inr d) \<Longrightarrow> qd_slot d = dq_slot q \<and> qd_action d = act \<and>
   qd_source d = src \<and> qd_desired d = q \<and> qd_child_actions d = ch \<and> qd_reason d = why"
  by (auto simp: make_diff_def)

lemma make_diff_returns: "length ch \<le> 2 \<Longrightarrow> \<exists>d. make_diff c q src act ch why = Some (Inr d)"
  by (auto simp: make_diff_def transition_cost_def from_i128_def checked_i128_def in_i128_def i128_bounds
      SCALE_I128_def)

lemma shrink_literal: "unwrap_lenient SHRINK_HYSTERESIS = Some (Dec 200000000000000000)"
  by code_simp

lemma clamp_eq: "clamp_to_partial_fill q own = Some (case dq_size q of None \<Rightarrow> q | Some sz \<Rightarrow>
    if sz \<le> ro_remaining own then q
    else q\<lparr>dq_size := Some (min sz (ro_remaining own * Dec 1200000000000000000))\<rparr>)"
proof -
  have "ONE + Dec 200000000000000000 = Dec 1200000000000000000"
    by (simp add: dec_eq_iff SCALE_I128_def sat_i128_def i128_bounds)
  then show ?thesis
    by (auto simp: clamp_to_partial_fill_def shrink_literal split: option.splits)
qed

lemma diff_replace_cases:
  assumes "diff_replace c eff v own ticks now = Some (Inr d)"
  shows "qd_slot d = dq_slot eff \<and> qd_source d = Some own \<and> qd_desired d = eff \<and>
    (qd_action d = QA_Keep \<and> qd_child_actions d = [] \<or>
     qd_action d = QA_CancelThenPlace \<and> qd_child_actions d = [''cancel'', ''place''] \<and> dq_size eff \<noteq> None)"
  using assms
  by (auto simp: diff_replace_def Let_def split: option.splits if_splits dest!: make_diff_Inr)

lemma not_unknown_owner: "\<not> has_unknown v \<Longrightarrow> sv_owners v = [own] \<Longrightarrow> \<not> owner_unknown own"
  and not_inflight_owner: "\<not> has_inflight v \<Longrightarrow> sv_owners v = [own] \<Longrightarrow> \<not> owner_inflight own"
  by (auto simp: has_unknown_def has_inflight_def)

lemma has_inflight_owners: "has_inflight v \<Longrightarrow> sv_owners v \<noteq> []"
  by (auto simp: has_inflight_def)

lemma diff_slot_spec:
  assumes "diff_slot c q v tick now = Some (Inr d)"
  shows "diff_spec q v d"
proof -
  obtain owner where o: "current_owner v = Inr owner"
    using assms by (auto simp: diff_slot_def split: sum.splits)
  consider (blocked) "has_unknown v \<or> has_orphaned_owner v"
    | (free) "\<not> has_unknown v" "\<not> has_orphaned_owner v" by blast
  then show ?thesis
  proof cases
    case blocked
    then show ?thesis
      using assms o by (auto simp: diff_slot_def diff_spec_def dest!: make_diff_Inr)
  next
    case free
    show ?thesis
    proof (cases "has_inflight v \<or> dq_decision q \<noteq> QD_Quote \<or> owner = None")
      case True
      with assms o free show ?thesis
        using current_owner_None [of v] current_owner_Some [of v] has_inflight_owners [of v]
        by (cases owner; cases "dq_decision q")
          (auto simp: diff_slot_def diff_spec_def split: if_splits dest!: make_diff_Inr)
    next
      case False
      then obtain own where own: "owner = Some own" and q: "dq_decision q = QD_Quote" "\<not> has_inflight v"
        by auto
      have own1: "sv_owners v = [own]" using current_owner_Some [of v own] o own free by simp
      obtain price ticks where pr: "dq_price q = Some price"
        and r: "diff_replace c (the (clamp_to_partial_fill q own)) v own ticks now = Some (Inr d)"
        using assms o free q own
        by (auto simp: diff_slot_def clamp_eq split: option.splits if_splits)
      show ?thesis
        using diff_replace_cases [OF r] pr q free own1 not_unknown_owner [OF free(1) own1]
          not_inflight_owner [OF q(2) own1]
        by (auto simp: diff_spec_def clamp_eq le_max_iff_disj min_le_iff_disj split: option.splits if_splits)
    qed
  qed
qed

lemma map_some_Inr [simp]: "map_sum id Some z = Inr (Some d) \<longleftrightarrow> z = Inr d"
  by (cases z) auto

lemma fenced_diff_spec:
  assumes "fenced_diff c q v = Some (Inr (Some d))"
  shows "diff_spec q v d \<and> qd_action d \<in> {QA_Cancel, QA_BlockedUnknown, QA_NoAction}"
proof -
  consider (blocked) "has_unknown v \<or> has_orphaned_owner v"
    | (free) "\<not> has_unknown v" "\<not> has_orphaned_owner v" "dq_decision q = QD_NoQuote"
    using assms by (auto simp: fenced_diff_def Let_def split: if_splits)
  then show ?thesis
  proof cases
    case blocked
    then obtain owner where "make_diff c q owner QA_BlockedUnknown [] (blocked_reason v) = Some (Inr d)"
      using assms
      by (cases "current_owner v") (auto simp: fenced_diff_def Let_def)
    with blocked show ?thesis by (auto simp: diff_spec_def dest!: make_diff_Inr)
  next
    case free
    then consider own where "current_owner v = Inr (Some own)"
        "make_diff c q (Some own) QA_Cancel [''cancel''] (dq_reason q) = Some (Inr d)"
      | "current_owner v = Inr None" "make_diff c q None QA_NoAction [] (dq_reason q) = Some (Inr d)"
      using assms by (auto simp: fenced_diff_def Let_def split: sum.splits option.splits)
    then show ?thesis
      using free current_owner_None [of v] current_owner_Some [of v]
      by cases (auto simp: diff_spec_def dest!: make_diff_Inr)
  qed
qed

section \<open>Plans\<close>

lemma reject_crossed_not_crossed: "\<not> crossed (reject_crossed s)"
  by (auto simp: reject_crossed_def crossed_def no_quote_desired_def)

lemma reject_crossed_slots [simp]:
  "dq_slot (ds_bid (reject_crossed s)) = dq_slot (ds_bid s)"
  "dq_slot (ds_ask (reject_crossed s)) = dq_slot (ds_ask s)"
  by (simp_all add: reject_crossed_def no_quote_desired_def)

text \<open>The diffs of a plan: those of the two slots, or while fenced at most one per slot.\<close>

lemma coordinate_cases:
  assumes "coordinate c s bid ask tick now = Some (Inr plan)"
  obtains (fenced) d1 d2 reason where "fence_reason_of (reject_crossed s) bid ask now = Some reason"
      "fenced_diff c (ds_bid (reject_crossed s)) bid = Some (Inr d1)"
      "fenced_diff c (ds_ask (reject_crossed s)) ask = Some (Inr d2)"
      "plan = fenced_plan (reject_crossed s) reason (opt_list d1 @ opt_list d2)"
    | (unfenced) d1 d2 where "fence_reason_of (reject_crossed s) bid ask now = None"
      "diff_slot c (ds_bid (reject_crossed s)) bid tick now = Some (Inr d1)"
      "diff_slot c (ds_ask (reject_crossed s)) ask tick now = Some (Inr d2)"
      "plan = plan_of (reject_crossed s) None [d1, d2]" "0 < raw tick"
  using assms
  by (auto simp: coordinate_def Let_def fenced_diffs_def res_bind_Inr dec_le_iff
      split: sum.splits option.splits if_splits)

lemma set_opt_list [simp]: "set (opt_list x) = set_option x"
  by (cases x) auto

lemma placing_price:
  "diff_spec q v d \<Longrightarrow> placing d \<Longrightarrow> dq_decision q = QD_Quote \<and> dq_price (qd_desired d) = dq_price q"
  by (auto simp: diff_spec_def placing_def)

lemma placed_uncrossed:
  assumes "desired_quote_validate (ds_bid s) = Inr ()" and "desired_quote_validate (ds_ask s) = Inr ()"
    and "diff_spec (ds_bid (reject_crossed s)) bid d1" and "diff_spec (ds_ask (reject_crossed s)) ask d2"
    and "placing d1" and "placing d2"
  shows "\<exists>p q. dq_price (qd_desired d1) = Some p \<and> dq_price (qd_desired d2) = Some q \<and> p < q"
proof -
  define w where "w = reject_crossed s"
  have q: "dq_decision (ds_bid w) = QD_Quote" "dq_price (qd_desired d1) = dq_price (ds_bid w)"
    using placing_price [OF assms(3,5)] by (simp_all add: w_def)
  have q': "dq_decision (ds_ask w) = QD_Quote" "dq_price (qd_desired d2) = dq_price (ds_ask w)"
    using placing_price [OF assms(4,6)] by (simp_all add: w_def)
  have "\<not> crossed s"
    using q(1) by (auto simp: w_def reject_crossed_def no_quote_desired_def)
  then have w: "w = s" by (simp add: w_def reject_crossed_def)
  obtain p r where "dq_price (ds_bid s) = Some p" "dq_price (ds_ask s) = Some r"
    using assms(1,2) q(1) q'(1) unfolding w
    by (auto simp: desired_quote_validate_def split: if_splits)
  with \<open>\<not> crossed s\<close> q q' show ?thesis
    unfolding w by (simp add: crossed_def)
qed

text \<open>C22: a plan never puts two live orders on a side or crosses itself. Every diff of a plan obeys its
  contract: orders are only placed into an empty slot, replaced only where the sole order of the slot is
  known and settled, and then for at most 1.2 times its remaining size; a slot with an unknown or orphaned
  order is left alone. If both sides place, the bid is below the ask. A fenced plan places nothing and
  keeps nothing alive: it only cancels, reports blocked slots or does nothing.\<close>

theorem coordinate_safe:
  assumes "coordinate c s bid ask tick now = Some (Inr plan)" and "quote_set_validate s = Inr ()"
    and "desired_quote_validate (ds_bid s) = Inr ()" and "desired_quote_validate (ds_ask s) = Inr ()"
    and "d \<in> set (qp_diffs plan)"
  shows "diff_spec (if qk_side (qd_slot d) = Buy then ds_bid (reject_crossed s) else ds_ask (reject_crossed s))
      (if qk_side (qd_slot d) = Buy then bid else ask) d
    \<and> (\<forall>e \<in> set (qp_diffs plan). qk_side (qd_slot e) = qk_side (qd_slot d) \<longrightarrow> e = d)
    \<and> (qp_fenced plan \<longrightarrow> qd_action d \<in> {QA_Cancel, QA_BlockedUnknown, QA_NoAction})
    \<and> (qp_fenced plan \<longleftrightarrow> fence_reason_of s bid ask now \<noteq> None)
    \<and> (\<forall>e \<in> set (qp_diffs plan). placing d \<and> placing e \<and> qk_side (qd_slot d) = Buy \<and>
        qk_side (qd_slot e) = Sell \<longrightarrow>
        (\<exists>p q. dq_price (qd_desired d) = Some p \<and> dq_price (qd_desired e) = Some q \<and> p < q))"
proof -
  define w where "w = reject_crossed s"
  have sides: "qk_side (dq_slot (ds_bid w)) = Buy" "qk_side (dq_slot (ds_ask w)) = Sell"
    using quote_set_slots [OF assms(2)] by (simp_all add: w_def)
  have fence: "fence_reason_of w bid ask now = fence_reason_of s bid ask now"
    by (simp add: w_def reject_crossed_def fence_reason_of_def)
  from assms(1) show ?thesis
  proof (cases rule: coordinate_cases)
    case (fenced d1 d2 reason)
    note f = fenced [folded w_def, unfolded fence]
    have spec: "diff_spec (ds_bid w) bid x" "qd_action x \<in> {QA_Cancel, QA_BlockedUnknown, QA_NoAction}"
      "qk_side (qd_slot x) = Buy" if "d1 = Some x" for x
      using fenced_diff_spec [of c "ds_bid w" bid x] f(2) that sides by (auto simp: diff_spec_def)
    have spec2: "diff_spec (ds_ask w) ask x" "qd_action x \<in> {QA_Cancel, QA_BlockedUnknown, QA_NoAction}"
      "qk_side (qd_slot x) = Sell" if "d2 = Some x" for x
      using fenced_diff_spec [of c "ds_ask w" ask x] f(3) that sides by (auto simp: diff_spec_def)
    have mem: "d1 = Some d \<or> d2 = Some d" using assms(5) f(4) by (auto simp: fenced_plan_def plan_of_def)
    show ?thesis
      using mem f(1,4) spec spec2
      unfolding w_def [symmetric] by (auto simp: fenced_plan_def plan_of_def placing_def)
  next
    case (unfenced d1 d2)
    note f = unfenced [folded w_def, unfolded fence]
    have spec: "diff_spec (ds_bid w) bid d1" "diff_spec (ds_ask w) ask d2"
      using diff_slot_spec f by blast+
    then have side: "qk_side (qd_slot d1) = Buy" "qk_side (qd_slot d2) = Sell"
      using sides by (auto simp: diff_spec_def)
    have cross: "\<exists>p q. dq_price (qd_desired d1) = Some p \<and> dq_price (qd_desired d2) = Some q \<and> p < q"
      if "placing d1" "placing d2"
      using placed_uncrossed [OF assms(3,4)] spec that unfolding w_def by blast
    have mem: "d = d1 \<or> d = d2" using assms(5) f(4) by (auto simp: plan_of_def)
    show ?thesis
      using mem f(1,4) spec side cross
      unfolding w_def [symmetric] by (auto simp: plan_of_def)
  qed
qed

definition sample_quote :: "side \<Rightarrow> decimal \<Rightarrow> desired_quote" where
  "sample_quote sd price =
     \<lparr>dq_slot = \<lparr>qk_strategy_id = ''mm'', qk_symbol = ''BTC'', qk_side = sd, qk_level = 0\<rparr>,
      dq_decision = QD_Quote, dq_price = Some price, dq_size = Some ONE, dq_gross_edge = ONE, dq_reason = ''edge''\<rparr>"

definition sample_set :: desired_quote_set where
  "sample_set =
     \<lparr>ds_strategy_id = ''mm'', ds_symbol = ''BTC'', ds_session_id = ''s'', ds_config_version = 1,
      ds_model_version = ''v1'', ds_market_version = 1, ds_connection_generation = 0,
      ds_current_slot_revision = 0, ds_revision = 1, ds_fair_price = Dec 2000000000000000000,
      ds_reservation_price = Dec 2000000000000000000, ds_inventory_notional = ZERO, ds_expected_utility = ONE,
      ds_budget_mode = ABM_Normal, ds_bid = sample_quote Buy ONE, ds_ask = sample_quote Sell (Dec 3000000000000000000),
      ds_created_at = 0, ds_valid_until = 10, ds_feature_values = []\<rparr>"

definition sample_view :: "side \<Rightarrow> quote_slot_view" where
  "sample_view sd =
     \<lparr>sv_key = \<lparr>qk_strategy_id = ''mm'', qk_symbol = ''BTC'', qk_side = sd, qk_level = 0\<rparr>,
      sv_revision = 0, sv_plan_revision = 0, sv_owners = [], sv_last_transition_at = None\<rparr>"

lemma sample_set_valid: "quote_set_validate sample_set = Inr ()"
  "desired_quote_validate (ds_bid sample_set) = Inr ()" "desired_quote_validate (ds_ask sample_set) = Inr ()"
  by (simp_all add: sample_set_def sample_quote_def quote_set_validate_def check_quote_slot_def
      desired_quote_validate_def dec_le_iff SCALE_I128_def)

lemma sample_views: "validate_views sample_set (sample_view Buy) (sample_view Sell) = Inr ()"
  by (simp add: validate_views_def check_view_def sample_view_def sample_set_def current_owner_def)

lemma sample_uncrossed: "reject_crossed sample_set = sample_set"
  by (simp add: reject_crossed_def crossed_def sample_set_def sample_quote_def dec_le_iff SCALE_I128_def)

lemma sample_unfenced: "fence_reason_of sample_set (sample_view Buy) (sample_view Sell) 5 = None"
  by (simp add: fence_reason_of_def sample_set_def sample_view_def)

lemma sample_place: "\<exists>d. diff_slot coordinator_config_default (sample_quote sd p) (sample_view sd) EPSILON 5 = Some (Inr d)"
  using make_diff_returns [of "[''place'']"]
  by (simp add: diff_slot_def sample_quote_def sample_view_def current_owner_def has_unknown_def
      has_orphaned_owner_def has_inflight_def)

lemma sample_coordinate: "\<exists>d1 d2. coordinate coordinator_config_default sample_set (sample_view Buy)
    (sample_view Sell) EPSILON 5 = Some (Inr (plan_of sample_set None [d1, d2]))"
proof -
  obtain d1 d2 where
    "diff_slot coordinator_config_default (sample_quote Buy ONE) (sample_view Buy) EPSILON 5 = Some (Inr d1)"
    "diff_slot coordinator_config_default (sample_quote Sell (Dec 3000000000000000000)) (sample_view Sell) EPSILON 5
      = Some (Inr d2)"
    using sample_place by blast
  moreover have "ds_bid sample_set = sample_quote Buy ONE"
    "ds_ask sample_set = sample_quote Sell (Dec 3000000000000000000)"
    by (simp_all add: sample_set_def)
  ultimately show ?thesis
    by (intro exI [of _ d1] exI [of _ d2])
      (simp add: coordinate_def sample_views sample_uncrossed sample_unfenced dec_le_iff)
qed

theorem coordinate_safe_witness:
  "\<exists>plan d. coordinate coordinator_config_default sample_set (sample_view Buy) (sample_view Sell) EPSILON 5 =
     Some (Inr plan) \<and> d \<in> set (qp_diffs plan) \<and> \<not> qp_fenced plan \<and> qd_action d \<noteq> QA_Modify"
proof -
  obtain d1 d2 where p: "coordinate coordinator_config_default sample_set (sample_view Buy) (sample_view Sell)
      EPSILON 5 = Some (Inr (plan_of sample_set None [d1, d2]))"
    using sample_coordinate by blast
  have d: "d1 \<in> set (qp_diffs (plan_of sample_set None [d1, d2]))" by (simp add: plan_of_def)
  show ?thesis
    using p d coordinate_safe [OF p sample_set_valid d] sample_unfenced by (auto simp: diff_spec_def)
qed

section \<open>Every valid request gets a plan\<close>

text \<open>The tick count of the hysteresis is a \<open>u64\<close>.\<close>

definition u64_value :: "int \<Rightarrow> bool" where "u64_value n \<longleftrightarrow> 0 \<le> n \<and> n < 2 ^ 64"

lemma from_i128_u64: "u64_value n \<Longrightarrow> \<exists>d. from_i128 n = Some d"
  by (simp add: u64_value_def from_i128_def checked_i128_def in_i128_def i128_bounds SCALE_I128_def)

lemma diff_replace_returns:
  assumes "u64_value (qc_price_hysteresis_ticks c)" and "dq_size eff \<noteq> None"
  shows "\<exists>d. diff_replace c eff v own ticks now = Some (Inr d)"
proof -
  obtain sz where sz: "dq_size eff = Some sz" using assms(2) by blast
  obtain t where t: "from_i128 (qc_price_hysteresis_ticks c) = Some t"
    using from_i128_u64 [OF assms(1)] by blast
  obtain cost where cost: "transition_cost c 2 = Some cost"
    by (auto simp: transition_cost_def from_i128_def checked_i128_def in_i128_def i128_bounds SCALE_I128_def)
  have ret: "\<exists>d. make_diff c eff (Some own) act ch why = Some (Inr d)" if "length ch \<le> 2" for act ch why
    by (rule make_diff_returns [OF that])
  show ?thesis
    unfolding diff_replace_def by (simp add: sz t cost Let_def ret)
qed

lemma diff_slot_returns:
  assumes "current_owner v = Inr owner" and "0 < raw tick" and "desired_quote_validate q = Inr ()"
    and "u64_value (qc_price_hysteresis_ticks c)"
  shows "\<exists>d. diff_slot c q v tick now = Some (Inr d)"
proof (cases "has_unknown v \<or> has_orphaned_owner v \<or> has_inflight v \<or> dq_decision q \<noteq> QD_Quote \<or> owner = None")
  case True
  then show ?thesis
    using assms(1) make_diff_returns by (cases "dq_decision q") (auto simp: diff_slot_def)
next
  case False
  then obtain own where own: "owner = Some own" "dq_decision q = QD_Quote" by auto
  then obtain price sz where q: "dq_price q = Some price" "dq_size q = Some sz"
    using assms(3) by (auto simp: desired_quote_validate_def split: if_splits)
  obtain ticks where ticks: "dec_div (dec_abs (price - ro_price own)) tick = Some ticks"
    using assms(2) dec_div_Some_iff by (metis less_irrefl)
  obtain eff where eff: "clamp_to_partial_fill q own = Some eff" "dq_size eff \<noteq> None"
    by (auto simp: clamp_eq q)
  show ?thesis
    using False assms(1) own q ticks eff diff_replace_returns [OF assms(4) eff(2)]
    by (simp add: diff_slot_def)
qed

lemma fenced_diff_returns:
  assumes "current_owner v = Inr owner"
  shows "\<exists>d. fenced_diff c q v = Some (Inr d)"
  using assms make_diff_returns [of "[]" c] make_diff_returns [of "[''cancel'']" c]
  by (cases owner) (auto simp: fenced_diff_def Let_def map_sum_def; fastforce)+

text \<open>An order that a slot owns alone and that is known, settled and of the current plan.\<close>

definition settled_owner :: "quote_slot_view \<Rightarrow> quote_risk_owner \<Rightarrow> bool" where
  "settled_owner v own \<longleftrightarrow> sv_owners v = [own] \<and> ro_plan_revision own = sv_plan_revision v \<and>
     \<not> owner_unknown own \<and> \<not> owner_inflight own"

lemma settled_owner_reads:
  "settled_owner v own \<Longrightarrow> current_owner v = Inr (Some own) \<and> \<not> has_unknown v \<and> \<not> has_orphaned_owner v \<and>
     \<not> has_inflight v"
  by (auto simp: settled_owner_def current_owner_def has_unknown_def has_orphaned_owner_def has_inflight_def)

lemma no_quote_cancels:
  assumes "settled_owner v own" and "dq_decision q = QD_NoQuote"
  shows "diff_slot c q v tick now = Some (Inr d) \<Longrightarrow> qd_action d = QA_Cancel \<and> qd_source d = Some own"
    and "fenced_diff c q v = Some (Inr x) \<Longrightarrow> \<exists>d. x = Some d \<and> qd_action d = QA_Cancel \<and> qd_source d = Some own"
proof -
  obtain d0 where d0: "make_diff c q (Some own) QA_Cancel [''cancel''] (dq_reason q) = Some (Inr d0)"
    using make_diff_returns [of "[''cancel'']" c q "Some own"] by auto
  note r = settled_owner_reads [OF assms(1)]
  have "diff_slot c q v tick now = Some (Inr d0)" "fenced_diff c q v = Some (Inr (Some d0))"
    using r d0 assms(2) by (simp_all add: diff_slot_def fenced_diff_def)
  then show "diff_slot c q v tick now = Some (Inr d) \<Longrightarrow> qd_action d = QA_Cancel \<and> qd_source d = Some own"
    and "fenced_diff c q v = Some (Inr x) \<Longrightarrow> \<exists>d. x = Some d \<and> qd_action d = QA_Cancel \<and> qd_source d = Some own"
    using make_diff_Inr [OF d0] by auto
qed

lemma empty_slot_places:
  "sv_owners v = [] \<Longrightarrow> dq_decision q = QD_Quote \<Longrightarrow> diff_slot c q v tick now = Some (Inr d) \<Longrightarrow>
   qd_action d = QA_Place \<and> qd_desired d = q"
  by (auto simp: diff_slot_def current_owner_def has_unknown_def has_orphaned_owner_def has_inflight_def
      dest!: make_diff_Inr)


text \<open>A set that wants nothing yields a plan that places nothing and cancels every settled order.\<close>

lemma coordinate_no_quote:
  assumes "validate_views s bid ask = Inr ()" and "0 < raw tick" and "u64_value (qc_price_hysteresis_ticks c)"
    and "\<And>q. q = ds_bid s \<or> q = ds_ask s \<Longrightarrow> dq_decision q = QD_NoQuote \<and> desired_quote_validate q = Inr ()"
  shows "\<exists>plan. coordinate c s bid ask tick now = Some (Inr plan) \<and> (\<forall>d \<in> set (qp_diffs plan). \<not> placing d)
    \<and> (\<forall>v own. (v = bid \<or> v = ask) \<and> settled_owner v own \<longrightarrow>
        (\<exists>d \<in> set (qp_diffs plan). qd_action d = QA_Cancel \<and> qd_source d = Some own))"
proof -
  have w: "reject_crossed s = s" using assms(4) by (simp add: reject_crossed_def crossed_def)
  obtain o1 o2 where o: "current_owner bid = Inr o1" "current_owner ask = Inr o2"
    using assms(1) by (auto simp: validate_views_def check_view_def split: if_splits sum.splits)
  have nq: "dq_decision (ds_bid s) = QD_NoQuote" "dq_decision (ds_ask s) = QD_NoQuote"
    "desired_quote_validate (ds_bid s) = Inr ()" "desired_quote_validate (ds_ask s) = Inr ()"
    using assms(4) by blast+
  show ?thesis
  proof (cases "fence_reason_of s bid ask now")
    case None
    obtain d1 d2 where d: "diff_slot c (ds_bid s) bid tick now = Some (Inr d1)"
      "diff_slot c (ds_ask s) ask tick now = Some (Inr d2)"
      using diff_slot_returns o assms(2,3) nq by blast
    have "coordinate c s bid ask tick now = Some (Inr (plan_of s None [d1, d2]))"
      using assms(1,2) None d by (simp add: coordinate_def w dec_le_iff)
    moreover have "\<not> placing d1" "\<not> placing d2"
      using diff_slot_spec [OF d(1)] diff_slot_spec [OF d(2)] nq by (auto simp: placing_def diff_spec_def)
    ultimately show ?thesis
      using no_quote_cancels(1) [OF _ nq(1) d(1)] no_quote_cancels(1) [OF _ nq(2) d(2)]
      by (auto simp: plan_of_def)
  next
    case (Some reason)
    obtain x1 x2 where x: "fenced_diff c (ds_bid s) bid = Some (Inr x1)"
      "fenced_diff c (ds_ask s) ask = Some (Inr x2)"
      using fenced_diff_returns o by blast
    have "coordinate c s bid ask tick now = Some (Inr (fenced_plan s reason (opt_list x1 @ opt_list x2)))"
      using assms(1) Some x by (simp add: coordinate_def w fenced_diffs_def)
    moreover have "x1 = Some d \<Longrightarrow> \<not> placing d" "x2 = Some d \<Longrightarrow> \<not> placing d" for d
      using fenced_diff_spec [of c "ds_bid s" bid d] fenced_diff_spec [of c "ds_ask s" ask d] x
      by (auto simp: placing_def)
    ultimately show ?thesis
      using no_quote_cancels(2) [OF _ nq(1) x(1)] no_quote_cancels(2) [OF _ nq(2) x(2)]
      by (fastforce simp: fenced_plan_def plan_of_def)
  qed
qed

text \<open>C23: every valid request gets a plan, and protection outranks the fences. For views that belong to the
  set, validated quotes and a positive tick, coordination neither panics nor fails. A side on which nothing
  is wanted (or whose quotes cross) has its settled order cancelled, whether the plan is fenced or not; on
  an open plan a quote for an empty slot is placed as it was asked for.\<close>

theorem coordinate_protects:
  assumes "validate_views s bid ask = Inr ()" and "0 < raw tick"
    and "desired_quote_validate (ds_bid s) = Inr ()" and "desired_quote_validate (ds_ask s) = Inr ()"
    and "u64_value (qc_price_hysteresis_ticks c)"
  shows "\<exists>plan. coordinate c s bid ask tick now = Some (Inr plan)
    \<and> (\<forall>(q, v) \<in> {(ds_bid (reject_crossed s), bid), (ds_ask (reject_crossed s), ask)}. \<forall>own.
        dq_decision q = QD_NoQuote \<and> settled_owner v own \<longrightarrow>
        (\<exists>d \<in> set (qp_diffs plan). qd_action d = QA_Cancel \<and> qd_source d = Some own))
    \<and> (\<forall>(q, v) \<in> {(ds_bid (reject_crossed s), bid), (ds_ask (reject_crossed s), ask)}.
        fence_reason_of s bid ask now = None \<and> dq_decision q = QD_Quote \<and> sv_owners v = [] \<longrightarrow>
        (\<exists>d \<in> set (qp_diffs plan). qd_action d = QA_Place \<and> qd_desired d = q))
    \<and> (crossed s \<longrightarrow> dq_decision (ds_bid (reject_crossed s)) = QD_NoQuote \<and>
        dq_decision (ds_ask (reject_crossed s)) = QD_NoQuote)"
proof -
  define w where "w = reject_crossed s"
  obtain o1 o2 where o: "current_owner bid = Inr o1" "current_owner ask = Inr o2"
    using assms(1) by (auto simp: validate_views_def check_view_def split: if_splits sum.splits)
  have valid: "desired_quote_validate (ds_bid w) = Inr ()" "desired_quote_validate (ds_ask w) = Inr ()"
    using assms(3,4)
    by (cases "crossed s"; simp add: w_def reject_crossed_def no_quote_desired_def;
        simp add: desired_quote_validate_def)+
  have fence: "fence_reason_of w bid ask now = fence_reason_of s bid ask now"
    by (simp add: w_def reject_crossed_def fence_reason_of_def)
  have crossing: "crossed s \<longrightarrow> dq_decision (ds_bid w) = QD_NoQuote \<and> dq_decision (ds_ask w) = QD_NoQuote"
    by (simp add: w_def reject_crossed_def no_quote_desired_def)
  show ?thesis
  proof (cases "fence_reason_of s bid ask now")
    case None
    obtain d1 d2 where d: "diff_slot c (ds_bid w) bid tick now = Some (Inr d1)"
      "diff_slot c (ds_ask w) ask tick now = Some (Inr d2)"
      using diff_slot_returns o assms(2,5) valid by blast
    have "coordinate c s bid ask tick now = Some (Inr (plan_of w None [d1, d2]))"
      using assms(1,2) None fence d by (simp add: coordinate_def w_def [symmetric] dec_le_iff)
    then show ?thesis
      using no_quote_cancels(1) empty_slot_places d crossing
      unfolding w_def [symmetric] by (auto simp: plan_of_def)
  next
    case (Some reason)
    obtain x1 x2 where x: "fenced_diff c (ds_bid w) bid = Some (Inr x1)"
      "fenced_diff c (ds_ask w) ask = Some (Inr x2)"
      using fenced_diff_returns o by blast
    have "coordinate c s bid ask tick now = Some (Inr (fenced_plan w reason (opt_list x1 @ opt_list x2)))"
      using assms(1) Some fence x by (simp add: coordinate_def w_def [symmetric] fenced_diffs_def)
    then show ?thesis
      using no_quote_cancels(2) [OF _ _ x(1)] no_quote_cancels(2) [OF _ _ x(2)] crossing Some
      unfolding w_def [symmetric] by (fastforce simp: fenced_plan_def plan_of_def)
  qed
qed

theorem coordinate_protects_witness:
  "\<exists>plan. coordinate coordinator_config_default sample_set (sample_view Buy) (sample_view Sell) EPSILON 5 =
     Some (Inr plan) \<and> (\<exists>d \<in> set (qp_diffs plan). qd_action d = QA_Place \<and> qd_desired d = ds_bid sample_set)"
  using coordinate_protects [OF sample_views _ sample_set_valid(2,3), of EPSILON coordinator_config_default 5]
  by (auto simp: u64_value_def coordinator_config_default_def sample_uncrossed sample_unfenced)
    (auto simp: sample_set_def sample_quote_def sample_view_def)

end
