(* ===== verification/HE_Maker.thy ===== *)
theory HE_Maker
  imports HE_Models
begin

text \<open>
  The market maker below its policy: \<open>market_maker/models.rs\<close> (features, inventory, budget and configuration
  records with their validation), \<open>fair_value.rs\<close>, \<open>inventory.rs\<close> and \<open>estimators.rs\<close> (under
  \<open>crates/trading/src/\<close>). Decimal literals are read by the lenient parser as in the code; divisions can
  panic, so the calculations return options, and the lemmas below show that they do not for a validated
  configuration.
\<close>

section \<open>Literals\<close>

text \<open>\<open>Decimal::from_str_lenient("...").unwrap()\<close>; all literals in use parse (\<open>maker_literals\<close>).\<close>

definition dec_lit :: "string \<Rightarrow> decimal" where
  "dec_lit s = (case from_str_lenient s of Inr d \<Rightarrow> d | Inl _ \<Rightarrow> ZERO)"

lemma maker_literals [simp]:
  "dec_lit ''0.05'' = Dec 50000000000000000" "dec_lit ''0.5'' = Dec 500000000000000000"
  "dec_lit ''0.25'' = Dec 250000000000000000" "dec_lit ''2'' = Dec 2000000000000000000"
  "dec_lit ''0.02'' = Dec 20000000000000000" "dec_lit ''75'' = Dec 75000000000000000000"
  "dec_lit ''3'' = Dec 3000000000000000000" "dec_lit ''0.1'' = Dec 100000000000000000"
  "dec_lit ''5'' = Dec 5000000000000000000" "dec_lit ''20'' = Dec 20000000000000000000"
  "dec_lit ''10'' = Dec 10000000000000000000" "dec_lit ''-0.0002'' = Dec (- 200000000000000)"
  "dec_lit ''0.10'' = Dec 100000000000000000" "dec_lit ''-2'' = Dec (- 2000000000000000000)"
  "dec_lit ''10000'' = Dec 10000000000000000000000" "dec_lit ''3600'' = Dec 3600000000000000000000"
  by code_simp+

section \<open>Models\<close>

record market_features =
  mf_symbol :: string
  mf_market_version :: int
  mf_connection_generation :: int
  mf_exchange_ts :: int
  mf_received_at :: time_ns
  mf_healthy :: bool
  mf_best_bid :: decimal
  mf_best_ask :: decimal
  mf_best_bid_size :: decimal
  mf_best_ask_size :: decimal
  mf_microprice :: decimal
  mf_normalized_ofi :: decimal
  mf_trade_flow :: decimal
  mf_short_return :: decimal
  mf_variance_per_second :: decimal
  mf_adverse_markout_bps :: decimal
  mf_latency_buffer_bps :: decimal
  mf_toxicity :: decimal
  mf_funding_rate :: decimal
  mf_external_source :: "string option"
  mf_external_symbol :: "string option"
  mf_external_raw_price :: "decimal option"
  mf_external_adjusted_price :: "decimal option"
  mf_external_basis_bps :: decimal
  mf_external_weight :: decimal
  mf_external_confidence :: decimal
  mf_external_age_ms :: "int option"
  mf_external_quality :: string
  mf_external_observed_at :: "time_ns option"
  mf_latency_quality :: string
  mf_markout_quality :: string

definition mf_mid_price :: "market_features \<Rightarrow> decimal option" where
  "mf_mid_price f = do { two \<leftarrow> from_i128 2; dec_div (mf_best_bid f + mf_best_ask f) two }"

definition features_validate :: "market_features \<Rightarrow> string + unit" where
  "features_validate f =
     (if mf_market_version f < 0 \<or> mf_connection_generation f < 0
      then Inl ''market versions cannot be negative''
      else if mf_best_bid f \<le> ZERO \<or> mf_best_ask f \<le> mf_best_bid f
      then Inl ''market features require a positive non-crossed book''
      else if mf_best_bid_size f \<le> ZERO \<or> mf_best_ask_size f \<le> ZERO
      then Inl ''top-of-book sizes must be positive''
      else if \<not> (ZERO \<le> mf_toxicity f \<and> mf_toxicity f \<le> ONE) then Inl ''toxicity must be in [0, 1]''
      else if mf_variance_per_second f < ZERO then Inl ''return variance cannot be negative''
      else if \<not> (ZERO \<le> mf_external_weight f \<and> mf_external_weight f \<le> ONE)
      then Inl ''external effective weight must be in [0, 1]''
      else if \<not> (ZERO \<le> mf_external_confidence f \<and> mf_external_confidence f \<le> ONE)
      then Inl ''external confidence must be in [0, 1]''
      else if (case mf_external_age_ms f of Some age \<Rightarrow> age < 0 | None \<Rightarrow> False)
      then Inl ''external age cannot be negative''
      else Inr ())"

record external_reference_input =
  er_source :: string
  er_symbol :: string
  er_raw_price :: "decimal option"
  er_adjusted_price :: "decimal option"
  er_basis_bps :: decimal
  er_effective_weight :: decimal
  er_confidence :: decimal
  er_quality :: string
  er_observed_at :: time_ns

record inventory_snapshot =
  iv_position_size :: decimal
  iv_equity :: decimal
  iv_available_balance :: decimal
  iv_margin_used :: decimal
  iv_observed_at :: time_ns
  iv_healthy :: bool

record action_budget_snapshot =
  as_mode :: action_budget_mode
  as_address_actions_remaining :: int
  as_cancel_headroom :: int
  as_ip_weight_remaining :: int
  as_action_shadow_cost :: decimal
  as_observed_at :: time_ns
  as_healthy :: bool

record maker_config =
  mc_version :: int
  mc_model_version :: string
  mc_tick_size :: decimal
  mc_lot_size :: decimal
  mc_min_size :: decimal
  mc_soft_inventory :: decimal
  mc_hard_inventory :: decimal
  mc_emergency_inventory :: decimal
  mc_quote_size :: decimal
  mc_max_depth_participation :: decimal
  mc_beta_microprice :: decimal
  mc_beta_ofi_ticks :: decimal
  mc_beta_trade_flow_ticks :: decimal
  mc_beta_short_return_ticks :: decimal
  mc_max_fair_shift_ticks :: decimal
  mc_external_reference_weight :: decimal
  mc_external_basis_alpha :: decimal
  mc_external_max_age_seconds :: decimal
  mc_external_outlier_bps :: decimal
  mc_max_external_shift_ticks :: decimal
  mc_max_total_fair_shift_ticks :: decimal
  mc_latency_risk_multiplier :: decimal
  mc_conservative_latency_seconds :: decimal
  mc_conservative_markout_bps :: decimal
  mc_min_markout_samples :: nat
  mc_inventory_skew_bps :: decimal
  mc_inventory_gamma_bps :: decimal
  mc_max_inventory_shift_bps :: decimal
  mc_horizon_seconds :: decimal
  mc_min_half_spread_bps :: decimal
  mc_toxicity_spread_bps :: decimal
  mc_signed_maker_fee_rate :: decimal
  mc_expected_fill_probability :: decimal
  mc_min_expected_pnl :: decimal
  mc_max_quote_lifetime_seconds :: decimal

definition maker_config_default_with :: "int \<Rightarrow> decimal \<Rightarrow> decimal \<Rightarrow> decimal \<Rightarrow> maker_config" where
  "maker_config_default_with version tick_size lot_size min_size =
     \<lparr>mc_version = version, mc_model_version = ''v1'', mc_tick_size = tick_size, mc_lot_size = lot_size,
      mc_min_size = min_size, mc_soft_inventory = ZERO, mc_hard_inventory = ZERO,
      mc_emergency_inventory = ZERO, mc_quote_size = ZERO, mc_max_depth_participation = dec_lit ''0.05'',
      mc_beta_microprice = dec_lit ''0.5'', mc_beta_ofi_ticks = dec_lit ''0.25'',
      mc_beta_trade_flow_ticks = dec_lit ''0.25'', mc_beta_short_return_ticks = dec_lit ''0.25'',
      mc_max_fair_shift_ticks = dec_lit ''2'', mc_external_reference_weight = dec_lit ''0.25'',
      mc_external_basis_alpha = dec_lit ''0.02'', mc_external_max_age_seconds = dec_lit ''0.5'',
      mc_external_outlier_bps = dec_lit ''75'', mc_max_external_shift_ticks = dec_lit ''2'',
      mc_max_total_fair_shift_ticks = dec_lit ''3'', mc_latency_risk_multiplier = ONE,
      mc_conservative_latency_seconds = dec_lit ''0.1'', mc_conservative_markout_bps = ONE,
      mc_min_markout_samples = 20, mc_inventory_skew_bps = dec_lit ''5'', mc_inventory_gamma_bps = ONE,
      mc_max_inventory_shift_bps = dec_lit ''20'', mc_horizon_seconds = dec_lit ''5'',
      mc_min_half_spread_bps = ONE, mc_toxicity_spread_bps = dec_lit ''10'',
      mc_signed_maker_fee_rate = dec_lit ''-0.0002'', mc_expected_fill_probability = dec_lit ''0.10'',
      mc_min_expected_pnl = ZERO, mc_max_quote_lifetime_seconds = dec_lit ''10''\<rparr>"

text \<open>The loops of the validation return at the first entry that fails.\<close>

definition first_bad :: "(decimal \<Rightarrow> bool) \<Rightarrow> (string \<times> decimal) list \<Rightarrow> string option" where
  "first_bad ok entries = map_option fst (find (\<lambda>(name, value). \<not> ok value) entries)"

definition positive_entries :: "maker_config \<Rightarrow> decimal \<Rightarrow> (string \<times> decimal) list" where
  "positive_entries c version =
     [(''version'', version), (''tick_size'', mc_tick_size c), (''lot_size'', mc_lot_size c),
      (''min_size'', mc_min_size c), (''soft_inventory_notional'', mc_soft_inventory c),
      (''hard_inventory_notional'', mc_hard_inventory c),
      (''emergency_inventory_notional'', mc_emergency_inventory c), (''quote_size'', mc_quote_size c),
      (''horizon_seconds'', mc_horizon_seconds c),
      (''max_quote_lifetime_seconds'', mc_max_quote_lifetime_seconds c)]"

definition maker_config_validate :: "maker_config \<Rightarrow> (string + unit) option" where
  "maker_config_validate c =
     (case from_i128 (mc_version c) of
        None \<Rightarrow> None
      | Some version \<Rightarrow> Some (
          case first_bad (\<lambda>v. ZERO < v) (positive_entries c version) of
            Some name \<Rightarrow> Inl (name @ '' must be positive'')
          | None \<Rightarrow>
          if \<not> (mc_soft_inventory c < mc_hard_inventory c \<and> mc_hard_inventory c < mc_emergency_inventory c)
          then Inl ''inventory limits must satisfy soft < hard < emergency''
          else (case first_bad (\<lambda>v. ZERO < v \<and> v \<le> ONE)
                  [(''max_depth_participation'', mc_max_depth_participation c),
                   (''expected_fill_probability'', mc_expected_fill_probability c)] of
            Some name \<Rightarrow> Inl (name @ '' must be in (0, 1]'')
          | None \<Rightarrow>
          if mc_max_fair_shift_ticks c < ZERO \<or> mc_max_external_shift_ticks c < ZERO
             \<or> mc_max_total_fair_shift_ticks c < ZERO \<or> mc_max_inventory_shift_bps c < ZERO
          then Inl ''fair and inventory shift caps cannot be negative''
          else (case first_bad (\<lambda>v. ZERO \<le> v \<and> v \<le> ONE)
                  [(''external_reference_weight'', mc_external_reference_weight c),
                   (''external_basis_alpha'', mc_external_basis_alpha c)] of
            Some name \<Rightarrow> Inl (name @ '' must be in [0, 1]'')
          | None \<Rightarrow>
          if mc_external_max_age_seconds c \<le> ZERO \<or> mc_external_outlier_bps c \<le> ZERO
          then Inl ''external age and outlier limits must be positive''
          else if mc_latency_risk_multiplier c < ZERO \<or> mc_conservative_latency_seconds c < ZERO
          then Inl ''latency configuration cannot be negative''
          else if mc_conservative_markout_bps c < ZERO \<or> mc_min_markout_samples c = 0
          then Inl ''markout configuration must be non-negative with a positive sample count''
          else Inr ()))))"

section \<open>Fair value\<close>

definition fair_local_shift :: "market_features \<Rightarrow> maker_config \<Rightarrow> decimal \<Rightarrow> decimal" where
  "fair_local_shift f c mid =
     (let tick = mc_tick_size c;
          raw_shift = mc_beta_microprice c * (mf_microprice f - mid)
            + mc_beta_ofi_ticks c * mf_normalized_ofi f * tick
            + mc_beta_trade_flow_ticks c * mf_trade_flow f * tick
            + mc_beta_short_return_ticks c * mf_short_return f * mid;
          cap = mc_max_fair_shift_ticks c * tick
      in clamp raw_shift (- cap) cap)"

definition fair_external_shift :: "market_features \<Rightarrow> maker_config \<Rightarrow> decimal \<Rightarrow> decimal" where
  "fair_external_shift f c mid =
     (case mf_external_adjusted_price f of
        Some ext \<Rightarrow>
          if mf_external_weight f > ZERO then
            (let cap = mc_max_external_shift_ticks c * mc_tick_size c
             in clamp ((ext - mid) * mf_external_weight f) (- cap) cap)
          else ZERO
      | None \<Rightarrow> ZERO)"

definition fair_value :: "market_features \<Rightarrow> maker_config \<Rightarrow> decimal option" where
  "fair_value f c =
     map_option (\<lambda>mid.
       let total_cap = mc_max_total_fair_shift_ticks c * mc_tick_size c
       in mid + clamp (fair_local_shift f c mid + fair_external_shift f c mid) (- total_cap) total_cap)
       (mf_mid_price f)"

section \<open>Inventory\<close>

record inventory_decision =
  id_inventory_notional :: decimal
  id_normalized_inventory :: decimal
  id_shift_bps :: decimal
  id_reservation_price :: decimal
  id_allow_bid :: bool
  id_allow_ask :: bool
  id_emergency :: bool

definition inventory_shift :: "decimal \<Rightarrow> market_features \<Rightarrow> maker_config \<Rightarrow> decimal" where
  "inventory_shift z f c =
     clamp (mc_inventory_skew_bps c * z
         + mc_inventory_gamma_bps c * z * mf_variance_per_second f * mc_horizon_seconds c)
       (- mc_max_inventory_shift_bps c) (mc_max_inventory_shift_bps c)"

definition inventory_calculate :: "decimal \<Rightarrow> inventory_snapshot \<Rightarrow> market_features \<Rightarrow> maker_config \<Rightarrow>
    (string + inventory_decision) option" where
  "inventory_calculate fair invt f c =
     (if \<not> iv_healthy invt \<or> iv_equity invt \<le> ZERO \<or> fair \<le> ZERO
      then Some (Inl ''inventory state, equity, and fair price must be healthy'')
      else do {
        let notional = iv_position_size invt * fair;
        ratio \<leftarrow> dec_div notional (mc_soft_inventory c);
        let z = clamp ratio (dec_lit ''-2'') (dec_lit ''2'');
        let shift = inventory_shift z f c;
        shift_rate \<leftarrow> dec_div shift (dec_lit ''10000'');
        let absolute = dec_abs notional;
        let long_inventory = notional > ZERO;
        let short_inventory = notional < ZERO;
        let at_soft = absolute \<ge> mc_soft_inventory c;
        let at_hard = absolute \<ge> mc_hard_inventory c;
        let emergency = absolute \<ge> mc_emergency_inventory c;
        let allow_bid = (if at_hard then short_inventory else \<not> (at_soft \<and> long_inventory));
        let allow_ask = (if at_hard then long_inventory else \<not> (at_soft \<and> short_inventory));
        Some (Inr \<lparr>id_inventory_notional = notional, id_normalized_inventory = z, id_shift_bps = shift,
          id_reservation_price = fair * (ONE - shift_rate),
          id_allow_bid = (allow_bid \<and> \<not> emergency), id_allow_ask = (allow_ask \<and> \<not> emergency),
          id_emergency = emergency\<rparr>)
      })"

section \<open>Estimators\<close>

record markout_estimate =
  me_adverse_bps :: decimal
  me_quality :: string
  me_sample_count :: nat

record markout_sample =
  ms_strategy_id :: string
  ms_symbol :: string
  ms_maker :: bool
  ms_horizon_ms :: int
  ms_horizon_ts :: time_ns
  ms_ts :: time_ns
  ms_fill_id :: string
  ms_calculation_version :: string
  ms_signed_markout_bps :: decimal

type_synonym sample_identity = "string \<times> int \<times> string"

record markout_estimator =
  mk_min_samples :: nat
  mk_max_samples :: nat
  mk_default :: decimal
  mk_samples :: "string \<times> string \<Rightarrow> (sample_identity \<times> decimal) list option"

definition markout_estimator_new :: "nat \<Rightarrow> nat \<Rightarrow> decimal \<Rightarrow> string + markout_estimator" where
  "markout_estimator_new min_samples max_samples default_bps =
     (if min_samples = 0 \<or> max_samples < min_samples
      then Inl ''markout sample windows must satisfy 0 < min <= max''
      else if default_bps < ZERO then Inl ''conservative markout default cannot be negative''
      else Inr \<lparr>mk_min_samples = min_samples, mk_max_samples = max_samples, mk_default = default_bps,
             mk_samples = Map.empty\<rparr>)"

definition sample_identity_of :: "markout_sample \<Rightarrow> sample_identity" where
  "sample_identity_of s = (ms_fill_id s, ms_horizon_ms s, ms_calculation_version s)"

definition entry_or_empty :: "('k \<Rightarrow> 'v list option) \<Rightarrow> 'k \<Rightarrow> 'v list" where
  "entry_or_empty m k = (case m k of Some xs \<Rightarrow> xs | None \<Rightarrow> [])"

definition markout_observe :: "markout_sample \<Rightarrow> time_ns \<Rightarrow> markout_estimator \<Rightarrow> markout_estimator \<times> bool" where
  "markout_observe s now e =
     (if \<not> ms_maker s \<or> ms_horizon_ms s \<le> 0 \<or> ms_horizon_ts s > now \<or> ms_ts s < ms_horizon_ts s
      then (e, False)
      else let identity = sample_identity_of s;
               key = (ms_strategy_id s, ms_symbol s);
               values = entry_or_empty (mk_samples e) key
           in if identity \<in> fst ` set values
              then (e\<lparr>mk_samples := (mk_samples e)(key \<mapsto> values)\<rparr>, False)
              else let kept = (if length values \<ge> mk_max_samples e then drop 1 values else values)
                   in (e\<lparr>mk_samples := (mk_samples e)(key \<mapsto>
                          kept @ [(identity, dec_max (- ms_signed_markout_bps s) ZERO)])\<rparr>, True))"

definition markout_estimate_of :: "string \<Rightarrow> string \<Rightarrow> nat option \<Rightarrow> decimal option \<Rightarrow> markout_estimator \<Rightarrow>
    string + markout_estimate" where
  "markout_estimate_of sid symb min_samples default_bps e =
     (let values = entry_or_empty (mk_samples e) (sid, symb);
          required = (case min_samples of Some n \<Rightarrow> n | None \<Rightarrow> mk_min_samples e);
          dflt = (case default_bps of Some d \<Rightarrow> d | None \<Rightarrow> mk_default e);
          len = length values
      in if required = 0 then Inl ''min_samples must be positive''
         else if dflt < ZERO then Inl ''conservative markout default cannot be negative''
         else if len < required
         then Inr \<lparr>me_adverse_bps = dflt, me_quality = ''conservative_default'', me_sample_count = len\<rparr>
         else Inr \<lparr>me_adverse_bps = sort (map snd values) ! min (len - 1) (len * 3 div 4),
                me_quality = ''mature'', me_sample_count = len\<rparr>)"

record latency_estimator =
  le_alpha :: decimal
  le_default :: decimal
  le_ewma :: "decimal option"
  le_samples :: nat
  le_min_samples :: nat

definition latency_estimator_new :: "decimal \<Rightarrow> decimal \<Rightarrow> nat \<Rightarrow> string + latency_estimator" where
  "latency_estimator_new alpha default_seconds min_samples =
     (if \<not> (ZERO < alpha \<and> alpha \<le> ONE) then Inl ''latency alpha must be in (0, 1]''
      else if default_seconds < ZERO then Inl ''latency default cannot be negative''
      else if min_samples = 0 then Inl ''latency min_samples must be positive''
      else Inr \<lparr>le_alpha = alpha, le_default = default_seconds, le_ewma = None, le_samples = 0,
             le_min_samples = min_samples\<rparr>)"

definition latency_observe :: "decimal \<Rightarrow> latency_estimator \<Rightarrow> latency_estimator" where
  "latency_observe seconds e =
     (if seconds < ZERO then e
      else e\<lparr>le_ewma := Some (case le_ewma e of
               None \<Rightarrow> seconds | Some prev \<Rightarrow> le_alpha e * seconds + (ONE - le_alpha e) * prev),
             le_samples := le_samples e + 1\<rparr>)"

definition latency_seconds :: "latency_estimator \<Rightarrow> decimal" where
  "latency_seconds e =
     (case le_ewma e of
        Some ewma \<Rightarrow> if le_samples e \<ge> le_min_samples e then ewma else le_default e
      | None \<Rightarrow> le_default e)"

definition latency_quality :: "latency_estimator \<Rightarrow> string" where
  "latency_quality e = (if le_samples e < le_min_samples e then ''conservative_default'' else ''observed'')"

section \<open>Facts\<close>

lemma clamp_bounds: "lo \<le> hi \<Longrightarrow> lo \<le> clamp d lo hi" "lo \<le> hi \<Longrightarrow> clamp d lo hi \<le> hi"
  by (auto simp: clamp_def dec_le_iff)

lemma clamp_ok: "dec_ok d \<Longrightarrow> dec_ok lo \<Longrightarrow> dec_ok hi \<Longrightarrow> dec_ok (clamp d lo hi)"
  by (simp add: clamp_def)

lemma clamp_nonneg: "0 \<le> raw d \<Longrightarrow> 0 \<le> raw hi \<Longrightarrow> 0 \<le> raw (clamp d lo hi)"
  and clamp_nonpos: "raw d \<le> 0 \<Longrightarrow> raw lo \<le> 0 \<Longrightarrow> raw (clamp d lo hi) \<le> 0"
  by (auto simp: clamp_def)

lemma clamp_within:
  assumes "a \<le> d" and "d \<le> b" and "a \<le> ZERO" and "ZERO \<le> b" and "lo \<le> ZERO" and "ZERO \<le> hi"
  shows "a \<le> clamp d lo hi \<and> clamp d lo hi \<le> b"
  using assms by (auto simp: clamp_def dec_le_iff)

lemma neg_cap_le: "ZERO \<le> cap \<Longrightarrow> - cap \<le> cap"
  by (simp add: dec_le_iff sat_i128_def i128_bounds)

lemma first_bad_None: "first_bad ok es = None \<longleftrightarrow> (\<forall>e \<in> set es. ok (snd e))"
  by (auto simp: first_bad_def find_None_iff)

lemma maker_config_participation:
  assumes "maker_config_validate c = Some (Inr ())"
  shows "0 < raw (mc_max_depth_participation c)" "mc_max_depth_participation c \<le> ONE"
proof -
  have "first_bad (\<lambda>v. ZERO < v \<and> v \<le> ONE)
      [(''max_depth_participation'', mc_max_depth_participation c),
       (''expected_fill_probability'', mc_expected_fill_probability c)] = None"
    using assms by (auto simp: maker_config_validate_def split: option.splits if_splits)
  then show "0 < raw (mc_max_depth_participation c)" "mc_max_depth_participation c \<le> ONE"
    unfolding first_bad_None by (simp_all add: dec_less_iff)
qed

text \<open>What validation guarantees.\<close>

lemma maker_config_valid:
  assumes "maker_config_validate c = Some (Inr ())"
  shows "0 < raw (mc_tick_size c)" "0 < raw (mc_lot_size c)" "0 < raw (mc_min_size c)"
    "0 < raw (mc_soft_inventory c)" "mc_soft_inventory c < mc_hard_inventory c"
    "mc_hard_inventory c < mc_emergency_inventory c" "0 < raw (mc_quote_size c)"
    "0 < raw (mc_horizon_seconds c)" "0 < raw (mc_max_quote_lifetime_seconds c)"
    "ZERO \<le> mc_max_fair_shift_ticks c" "ZERO \<le> mc_max_external_shift_ticks c"
    "ZERO \<le> mc_max_total_fair_shift_ticks c" "ZERO \<le> mc_max_inventory_shift_bps c"
proof -
  obtain version where v: "first_bad (\<lambda>v. ZERO < v) (positive_entries c version) = None"
    using assms by (auto simp: maker_config_validate_def split: option.splits)
  then show "0 < raw (mc_tick_size c)" "0 < raw (mc_lot_size c)" "0 < raw (mc_min_size c)"
    "0 < raw (mc_soft_inventory c)" "0 < raw (mc_quote_size c)" "0 < raw (mc_horizon_seconds c)"
    "0 < raw (mc_max_quote_lifetime_seconds c)"
    unfolding first_bad_None positive_entries_def by (simp_all add: dec_less_iff)
  show "mc_soft_inventory c < mc_hard_inventory c" "mc_hard_inventory c < mc_emergency_inventory c"
    "ZERO \<le> mc_max_fair_shift_ticks c" "ZERO \<le> mc_max_external_shift_ticks c"
    "ZERO \<le> mc_max_total_fair_shift_ticks c" "ZERO \<le> mc_max_inventory_shift_bps c"
    using assms by (auto simp: maker_config_validate_def not_less split: option.splits if_splits)
qed

lemma mid_returns: "\<exists>mid. mf_mid_price f = Some mid \<and> dec_ok mid"
proof -
  have two: "from_i128 2 = Some (Dec (2 * SCALE_I128))"
    by (simp add: from_i128_def checked_i128_def in_i128_def i128_bounds SCALE_I128_def)
  obtain mid where "dec_div (mf_best_bid f + mf_best_ask f) (Dec (2 * SCALE_I128)) = Some mid"
    using dec_div_Some_iff by fastforce
  then show ?thesis by (auto simp: mf_mid_price_def two dest: dec_div_ok)
qed

lemma cap_nonneg: "ZERO \<le> a \<Longrightarrow> 0 < raw b \<Longrightarrow> ZERO \<le> a * b"
  unfolding dec_le_iff raw_consts by (rule dec_mul_nonneg) auto

lemma fair_shift_bounds:
  assumes "maker_config_validate c = Some (Inr ())"
  shows "- (mc_max_fair_shift_ticks c * mc_tick_size c) \<le> fair_local_shift f c mid"
    "fair_local_shift f c mid \<le> mc_max_fair_shift_ticks c * mc_tick_size c"
    "- (mc_max_external_shift_ticks c * mc_tick_size c) \<le> fair_external_shift f c mid"
    "fair_external_shift f c mid \<le> mc_max_external_shift_ticks c * mc_tick_size c"
proof -
  note v = maker_config_valid [OF assms]
  note caps = cap_nonneg [OF v(10) v(1)] cap_nonneg [OF v(11) v(1)]
  show "- (mc_max_fair_shift_ticks c * mc_tick_size c) \<le> fair_local_shift f c mid"
    "fair_local_shift f c mid \<le> mc_max_fair_shift_ticks c * mc_tick_size c"
    using clamp_bounds [OF neg_cap_le [OF caps(1)]] by (simp_all add: fair_local_shift_def Let_def)
  have "- (mc_max_external_shift_ticks c * mc_tick_size c) \<le> ZERO"
    using caps(2) by (simp add: dec_le_iff sat_i128_nonpos)
  then show "- (mc_max_external_shift_ticks c * mc_tick_size c) \<le> fair_external_shift f c mid"
    "fair_external_shift f c mid \<le> mc_max_external_shift_ticks c * mc_tick_size c"
    using clamp_bounds [OF neg_cap_le [OF caps(2)]] caps(2)
    by (auto simp: fair_external_shift_def Let_def split: option.splits)
qed

lemma clamp_zero: "ZERO \<le> cap \<Longrightarrow> clamp ZERO (- cap) cap = ZERO"
  by (auto simp: clamp_def dec_le_iff sat_i128_def i128_bounds)

lemma dec_add_zero: "dec_ok d \<Longrightarrow> d + ZERO = d" "ZERO + ZERO = ZERO"
  by (simp_all add: dec_eq_iff dec_ok_def)

lemma fair_value_quiet:
  assumes "maker_config_validate c = Some (Inr ())" and "mf_mid_price f = Some mid" and "mf_microprice f = mid"
    and "mf_normalized_ofi f = ZERO" and "mf_trade_flow f = ZERO" and "mf_short_return f = ZERO"
    and "mf_external_adjusted_price f = None \<or> mf_external_weight f \<le> ZERO"
  shows "fair_value f c = Some mid"
proof -
  note v = maker_config_valid [OF assms(1)]
  have "mid - mid = ZERO" by (simp add: dec_eq_iff)
  then have "fair_local_shift f c mid = ZERO"
    using assms(3-6) cap_nonneg [OF v(10) v(1)]
    by (simp add: fair_local_shift_def Let_def dec_add_zero clamp_zero)
  moreover have "fair_external_shift f c mid = ZERO"
    using assms(7) by (auto simp: fair_external_shift_def not_less [symmetric] split: option.splits)
  moreover have "dec_ok mid" using mid_returns [of f] assms(2) by simp
  ultimately show ?thesis
    using cap_nonneg [OF v(12) v(1)] by (simp add: fair_value_def assms(2) Let_def dec_add_zero clamp_zero)
qed

text \<open>The fair value is bounded and quiet. With a validated configuration the model never panics; the
  fair value is the mid price shifted by at most the total cap of ticks, the local signals and the external
  reference by at most their own caps; and without any signal it is the mid price exactly.\<close>

theorem fair_value_bounded:
  assumes "maker_config_validate c = Some (Inr ())"
  shows "\<exists>mid fair. mf_mid_price f = Some mid \<and> fair_value f c = Some fair
    \<and> (let cap = mc_max_total_fair_shift_ticks c * mc_tick_size c;
           lc = mc_max_fair_shift_ticks c * mc_tick_size c; ec = mc_max_external_shift_ticks c * mc_tick_size c
       in mid + (- cap) \<le> fair \<and> fair \<le> mid + cap
          \<and> mid + (- lc + (- ec)) \<le> fair \<and> fair \<le> mid + (lc + ec))
    \<and> (mf_microprice f = mid \<and> mf_normalized_ofi f = ZERO \<and> mf_trade_flow f = ZERO \<and> mf_short_return f = ZERO
        \<and> (mf_external_adjusted_price f = None \<or> mf_external_weight f \<le> ZERO) \<longrightarrow> fair = mid)"
proof -
  note v = maker_config_valid [OF assms]
  define cap where "cap = mc_max_total_fair_shift_ticks c * mc_tick_size c"
  define lc where "lc = mc_max_fair_shift_ticks c * mc_tick_size c"
  define ec where "ec = mc_max_external_shift_ticks c * mc_tick_size c"
  have caps: "ZERO \<le> cap" "ZERO \<le> lc" "ZERO \<le> ec"
    unfolding cap_def lc_def ec_def using v cap_nonneg by blast+
  obtain mid where mid: "mf_mid_price f = Some mid" "dec_ok mid" using mid_returns by blast
  define shift where "shift = fair_local_shift f c mid + fair_external_shift f c mid"
  have fair: "fair_value f c = Some (mid + clamp shift (- cap) cap)"
    by (simp add: fair_value_def mid shift_def cap_def Let_def)
  have b: "- cap \<le> clamp shift (- cap) cap" "clamp shift (- cap) cap \<le> cap"
    using clamp_bounds [OF neg_cap_le [OF caps(1)]] by auto
  have s: "- lc + (- ec) \<le> shift" "shift \<le> lc + ec"
    unfolding shift_def lc_def ec_def by (rule dec_add_mono; rule fair_shift_bounds [OF assms])+
  have signs: "- lc + (- ec) \<le> ZERO" "ZERO \<le> lc + ec"
    using caps(2,3) by (simp_all add: dec_le_iff sat_i128_nonpos add_nonpos_nonpos)
  have up: "clamp shift (- cap) cap \<le> lc + ec" "- lc + (- ec) \<le> clamp shift (- cap) cap"
    using clamp_within [OF s signs, of "- cap" cap] caps(1) by (simp_all add: dec_le_iff sat_i128_nonpos)
  have quiet: "mid + clamp shift (- cap) cap = mid"
    if "mf_microprice f = mid" "mf_normalized_ofi f = ZERO" "mf_trade_flow f = ZERO" "mf_short_return f = ZERO"
      "mf_external_adjusted_price f = None \<or> mf_external_weight f \<le> ZERO"
    using fair_value_quiet [OF assms mid(1) that] fair by simp
  show ?thesis
    unfolding Let_def cap_def [symmetric] lc_def [symmetric] ec_def [symmetric]
    using mid fair b up quiet dec_add_mono [OF order_refl]
    by (intro exI [of _ mid] exI [of _ "mid + clamp shift (- cap) cap"] conjI) auto
qed

text \<open>A validated configuration and a set of features for the witnesses.\<close>

definition sample_maker_config :: maker_config where
  "sample_maker_config = (maker_config_default_with 1 (Dec (10 ^ 17)) (Dec (10 ^ 15)) (Dec (10 ^ 15)))
     \<lparr>mc_soft_inventory := Dec (10 ^ 21), mc_hard_inventory := Dec (2 * 10 ^ 21),
      mc_emergency_inventory := Dec (3 * 10 ^ 21), mc_quote_size := ONE\<rparr>"

lemma sample_maker_valid: "maker_config_validate sample_maker_config = Some (Inr ())"
  by (simp add: maker_config_validate_def sample_maker_config_def maker_config_default_with_def from_i128_def
      checked_i128_def in_i128_def i128_bounds first_bad_def positive_entries_def dec_less_iff dec_le_iff
      SCALE_I128_def)

definition sample_features :: market_features where
  "sample_features =
     \<lparr>mf_symbol = ''BTC'', mf_market_version = 1, mf_connection_generation = 0, mf_exchange_ts = 0,
      mf_received_at = 0, mf_healthy = True, mf_best_bid = Dec 99500000000000000000,
      mf_best_ask = Dec 100500000000000000000, mf_best_bid_size = ONE, mf_best_ask_size = ONE,
      mf_microprice = Dec 100000000000000000000, mf_normalized_ofi = ZERO, mf_trade_flow = ZERO,
      mf_short_return = ZERO, mf_variance_per_second = ZERO, mf_adverse_markout_bps = ZERO,
      mf_latency_buffer_bps = ZERO, mf_toxicity = ZERO, mf_funding_rate = ZERO, mf_external_source = None,
      mf_external_symbol = None, mf_external_raw_price = None, mf_external_adjusted_price = None,
      mf_external_basis_bps = ZERO, mf_external_weight = ZERO, mf_external_confidence = ZERO,
      mf_external_age_ms = None, mf_external_quality = ''unavailable'', mf_external_observed_at = None,
      mf_latency_quality = ''configured'', mf_markout_quality = ''configured''\<rparr>"

lemma sample_mid: "mf_mid_price sample_features = Some (Dec 100000000000000000000)"
  by code_simp

lemma sample_fair: "fair_value sample_features sample_maker_config = Some (Dec 100000000000000000000)"
  by (rule fair_value_quiet [OF sample_maker_valid sample_mid]) (simp_all add: sample_features_def)

theorem fair_value_bounded_witness:
  "fair_value sample_features sample_maker_config = Some (Dec 100000000000000000000)"
  using fair_value_bounded [OF sample_maker_valid, of sample_features]
  by (auto simp: sample_mid) (auto simp: sample_features_def)

definition inventory_sides :: "decimal \<Rightarrow> maker_config \<Rightarrow> bool \<times> bool" where
  "inventory_sides n c =
     (if dec_abs n \<ge> mc_emergency_inventory c then (False, False)
      else if dec_abs n \<ge> mc_hard_inventory c then (n < ZERO, ZERO < n)
      else if dec_abs n \<ge> mc_soft_inventory c then (\<not> ZERO < n, \<not> n < ZERO)
      else (True, True))"

lemma inventory_calculate_eq:
  assumes "maker_config_validate c = Some (Inr ())" and "iv_healthy invt" and "ZERO < iv_equity invt"
    and "ZERO < fair"
  shows "\<exists>q rate d. dec_div (iv_position_size invt * fair) (mc_soft_inventory c) = Some q
    \<and> id_inventory_notional d = iv_position_size invt * fair
    \<and> id_shift_bps d = inventory_shift (clamp q (dec_lit ''-2'') (dec_lit ''2'')) f c
    \<and> dec_div (id_shift_bps d) (dec_lit ''10000'') = Some rate
    \<and> id_reservation_price d = fair * (ONE - rate)
    \<and> (id_allow_bid d, id_allow_ask d) = inventory_sides (iv_position_size invt * fair) c
    \<and> id_emergency d = (dec_abs (iv_position_size invt * fair) \<ge> mc_emergency_inventory c)
    \<and> inventory_calculate fair invt f c = Some (Inr d)"
proof -
  note v = maker_config_valid [OF assms(1)]
  have soft: "raw (mc_soft_inventory c) \<noteq> 0" using v(4) by simp
  obtain q where q: "dec_div (iv_position_size invt * fair) (mc_soft_inventory c) = Some q"
    using dec_div_Some_iff soft by blast
  have "raw (dec_lit ''10000'') \<noteq> 0" by simp
  then obtain rate where r: "dec_div (inventory_shift (clamp q (dec_lit ''-2'') (dec_lit ''2'')) f c)
      (dec_lit ''10000'') = Some rate"
    using dec_div_Some_iff by blast
  have ok: "\<not> (\<not> iv_healthy invt \<or> iv_equity invt \<le> ZERO \<or> fair \<le> ZERO)"
    using assms(2-4) by auto
  show ?thesis
    unfolding inventory_calculate_def if_not_P [OF ok] Let_def q r Option.bind.simps
    using v(5,6)
    by (intro exI conjI) (auto simp: r inventory_sides_def simp del: maker_literals)
qed

lemma dec_mul_nonpos: "raw d * raw e \<le> 0 \<Longrightarrow> raw (d * e) \<le> 0"
  by (simp add: sat_i128_nonpos half_up_nonpos)

lemma inventory_shift_bounds:
  assumes "ZERO \<le> mc_max_inventory_shift_bps c"
  shows "- mc_max_inventory_shift_bps c \<le> inventory_shift z f c"
    "inventory_shift z f c \<le> mc_max_inventory_shift_bps c"
  using clamp_bounds [OF neg_cap_le [OF assms]] by (simp_all add: inventory_shift_def)

text \<open>The shift has the sign of the inventory.\<close>

lemma inventory_shift_sign:
  assumes "0 \<le> raw (mc_inventory_skew_bps c)" and "0 \<le> raw (mc_inventory_gamma_bps c)"
    and "0 \<le> raw (mf_variance_per_second f)" and "0 < raw (mc_horizon_seconds c)"
    and "0 \<le> raw (mc_max_inventory_shift_bps c)"
  shows "0 \<le> raw z \<Longrightarrow> 0 \<le> raw (inventory_shift z f c)"
    and "raw z \<le> 0 \<Longrightarrow> raw (inventory_shift z f c) \<le> 0"
proof -
  let ?var = "mc_inventory_gamma_bps c * z * mf_variance_per_second f * mc_horizon_seconds c"
  show "0 \<le> raw (inventory_shift z f c)" if z: "0 \<le> raw z"
  proof -
    have "0 \<le> raw (mc_inventory_skew_bps c * z)" "0 \<le> raw ?var"
      using assms z by (intro dec_mul_nonneg; simp)+
    then show ?thesis
      unfolding inventory_shift_def by (intro clamp_nonneg) (simp_all add: assms(5) del: raw_mul)
  qed
  show "raw (inventory_shift z f c) \<le> 0" if z: "raw z \<le> 0"
  proof -
    have g: "raw (mc_inventory_gamma_bps c * z) \<le> 0"
      using assms(2) z by (intro dec_mul_nonpos) (simp add: mult_nonneg_nonpos)
    have g2: "raw (mc_inventory_gamma_bps c * z * mf_variance_per_second f) \<le> 0"
      using g assms(3) by (intro dec_mul_nonpos) (rule mult_nonpos_nonneg)
    have "raw ?var \<le> 0" 
      by (rule dec_mul_nonpos) (rule mult_nonpos_nonneg [OF g2 less_imp_le [OF assms(4)]])
    moreover have "raw (mc_inventory_skew_bps c * z) \<le> 0"
      using assms(1) z by (intro dec_mul_nonpos) (simp add: mult_nonneg_nonpos)
    ultimately show ?thesis
      unfolding inventory_shift_def
      by (intro clamp_nonpos) (simp_all add: assms(5) sat_i128_nonpos del: raw_mul)
  qed
qed

lemma reservation_below:
  assumes "dec_ok fair" and "0 < raw fair"
  shows "0 \<le> raw rate \<Longrightarrow> fair * (ONE - rate) \<le> fair" and "raw rate \<le> 0 \<Longrightarrow> fair \<le> fair * (ONE - rate)"
proof -
  have "ONE - rate \<le> ONE" if "0 \<le> raw rate"
    using that sat_i128_mono [of "SCALE_I128 - raw rate" SCALE_I128] dec_ok_consts(2)
    by (simp add: dec_le_iff dec_ok_def)
  then show "fair * (ONE - rate) \<le> fair" if "0 \<le> raw rate"
    using dec_mul_mono [of fair "ONE - rate" ONE] that assms by simp
  have "ONE \<le> ONE - rate" if "raw rate \<le> 0"
    using that sat_i128_mono [of SCALE_I128 "SCALE_I128 - raw rate"] dec_ok_consts(2)
    by (simp add: dec_le_iff dec_ok_def)
  then show "fair \<le> fair * (ONE - rate)" if "raw rate \<le> 0"
    using dec_mul_mono [of fair ONE "ONE - rate"] that assms by simp
qed

text \<open>The inventory bands. With a validated configuration the controller returns: an error exactly for
  an unhealthy state, and otherwise a decision that allows both sides below the soft limit, forbids the
  increasing side from the soft limit on, allows only the reducing side from the hard limit on and nothing
  from the emergency limit on. The shift never exceeds its cap, and for non-negative coefficients it moves
  the reservation price against the inventory: at most the fair price when long, at least when short, and
  exactly the fair price when flat.\<close>

theorem inventory_bands:
  assumes "maker_config_validate c = Some (Inr ())"
  shows "((\<not> iv_healthy invt \<or> iv_equity invt \<le> ZERO \<or> fair \<le> ZERO) \<longrightarrow>
      (\<exists>e. inventory_calculate fair invt f c = Some (Inl e)))
    \<and> (iv_healthy invt \<and> ZERO < iv_equity invt \<and> ZERO < fair \<longrightarrow>
      (\<exists>d. inventory_calculate fair invt f c = Some (Inr d)
        \<and> (let n = iv_position_size invt * fair in
            id_inventory_notional d = n
            \<and> (id_emergency d \<longleftrightarrow> mc_emergency_inventory c \<le> dec_abs n)
            \<and> (id_emergency d \<longrightarrow> \<not> id_allow_bid d \<and> \<not> id_allow_ask d)
            \<and> (mc_hard_inventory c \<le> dec_abs n \<longrightarrow>
                (id_allow_bid d \<longrightarrow> n < ZERO) \<and> (id_allow_ask d \<longrightarrow> ZERO < n))
            \<and> (mc_soft_inventory c \<le> dec_abs n \<longrightarrow>
                (ZERO < n \<longrightarrow> \<not> id_allow_bid d) \<and> (n < ZERO \<longrightarrow> \<not> id_allow_ask d))
            \<and> (dec_abs n < mc_soft_inventory c \<longrightarrow> id_allow_bid d \<and> id_allow_ask d))
        \<and> - mc_max_inventory_shift_bps c \<le> id_shift_bps d \<and> id_shift_bps d \<le> mc_max_inventory_shift_bps c
        \<and> (ZERO \<le> mc_inventory_skew_bps c \<and> ZERO \<le> mc_inventory_gamma_bps c \<and>
            ZERO \<le> mf_variance_per_second f \<and> dec_ok fair \<longrightarrow>
            (ZERO \<le> iv_position_size invt \<longrightarrow> id_reservation_price d \<le> fair) \<and>
            (iv_position_size invt \<le> ZERO \<longrightarrow> fair \<le> id_reservation_price d))))"
proof (intro conjI impI)
  show "\<exists>e. inventory_calculate fair invt f c = Some (Inl e)"
    if "\<not> iv_healthy invt \<or> iv_equity invt \<le> ZERO \<or> fair \<le> ZERO"
    using that by (simp add: inventory_calculate_def)
next
  assume ok: "iv_healthy invt \<and> ZERO < iv_equity invt \<and> ZERO < fair"
  define n where "n = iv_position_size invt * fair"
  note v = maker_config_valid [OF assms]
  obtain q rate d where d: "dec_div n (mc_soft_inventory c) = Some q" "id_inventory_notional d = n"
    "id_shift_bps d = inventory_shift (clamp q (dec_lit ''-2'') (dec_lit ''2'')) f c"
    "dec_div (id_shift_bps d) (dec_lit ''10000'') = Some rate"
    "id_reservation_price d = fair * (ONE - rate)"
    "(id_allow_bid d, id_allow_ask d) = inventory_sides n c"
    "id_emergency d = (dec_abs n \<ge> mc_emergency_inventory c)"
    "inventory_calculate fair invt f c = Some (Inr d)"
    using inventory_calculate_eq [OF assms] ok unfolding n_def by blast
  have fair: "0 < raw fair" using ok by (simp add: dec_less_iff)
  have pos: "0 < raw (dec_lit ''10000'')" "0 < raw (mc_soft_inventory c)" using v(4) by simp_all
  have sign: "(ZERO \<le> iv_position_size invt \<longrightarrow> id_reservation_price d \<le> fair) \<and>
      (iv_position_size invt \<le> ZERO \<longrightarrow> fair \<le> id_reservation_price d)"
    if "ZERO \<le> mc_inventory_skew_bps c \<and> ZERO \<le> mc_inventory_gamma_bps c \<and>
      ZERO \<le> mf_variance_per_second f \<and> dec_ok fair"
  proof (intro conjI impI)
    have co: "0 \<le> raw (mc_inventory_skew_bps c)" "0 \<le> raw (mc_inventory_gamma_bps c)"
      "0 \<le> raw (mf_variance_per_second f)" "0 \<le> raw (mc_max_inventory_shift_bps c)" "dec_ok fair"
      using that v(13) by (simp_all add: dec_le_iff)
    note shift_sign = inventory_shift_sign [OF co(1,2,3) v(8) co(4)]
    assume "ZERO \<le> iv_position_size invt"
    then have "0 \<le> raw n" using fair unfolding n_def by (intro dec_mul_nonneg) (auto simp: dec_le_iff)
    then have "0 \<le> raw q" using dec_div_nonneg [OF d(1) _ pos(2)] by blast
    then have "0 \<le> raw (id_shift_bps d)" unfolding d(3) by (intro shift_sign clamp_nonneg) simp_all
    then have "0 \<le> raw rate" using dec_div_nonneg [OF d(4) _ pos(1)] by blast
    then show "id_reservation_price d \<le> fair" using reservation_below(1) co(5) fair by (simp add: d(5))
  next
    have co: "0 \<le> raw (mc_inventory_skew_bps c)" "0 \<le> raw (mc_inventory_gamma_bps c)"
      "0 \<le> raw (mf_variance_per_second f)" "0 \<le> raw (mc_max_inventory_shift_bps c)" "dec_ok fair"
      using that v(13) by (simp_all add: dec_le_iff)
    note shift_sign = inventory_shift_sign [OF co(1,2,3) v(8) co(4)]
    assume "iv_position_size invt \<le> ZERO"
    then have "raw n \<le> 0"
      using fair unfolding n_def by (intro dec_mul_nonpos) (simp add: dec_le_iff mult_nonpos_nonneg)
    then have "raw q \<le> 0" using dec_div_nonpos [OF d(1) _ pos(2)] by blast
    then have "raw (id_shift_bps d) \<le> 0" unfolding d(3) by (intro shift_sign clamp_nonpos) simp_all
    then have "raw rate \<le> 0" using dec_div_nonpos [OF d(4) _ pos(1)] by blast
    then show "fair \<le> id_reservation_price d" using reservation_below(2) co(5) fair by (simp add: d(5))
  qed
  have sides: "id_emergency d \<longrightarrow> \<not> id_allow_bid d \<and> \<not> id_allow_ask d"
    "mc_hard_inventory c \<le> dec_abs n \<longrightarrow> (id_allow_bid d \<longrightarrow> n < ZERO) \<and> (id_allow_ask d \<longrightarrow> ZERO < n)"
    "mc_soft_inventory c \<le> dec_abs n \<longrightarrow>
      (ZERO < n \<longrightarrow> \<not> id_allow_bid d) \<and> (n < ZERO \<longrightarrow> \<not> id_allow_ask d)"
    "dec_abs n < mc_soft_inventory c \<longrightarrow> id_allow_bid d \<and> id_allow_ask d"
    using d(6,7) v(5,6) by (auto simp: inventory_sides_def split: if_splits)
  show "\<exists>d. inventory_calculate fair invt f c = Some (Inr d)
        \<and> (let n = iv_position_size invt * fair in
            id_inventory_notional d = n
            \<and> (id_emergency d \<longleftrightarrow> mc_emergency_inventory c \<le> dec_abs n)
            \<and> (id_emergency d \<longrightarrow> \<not> id_allow_bid d \<and> \<not> id_allow_ask d)
            \<and> (mc_hard_inventory c \<le> dec_abs n \<longrightarrow>
                (id_allow_bid d \<longrightarrow> n < ZERO) \<and> (id_allow_ask d \<longrightarrow> ZERO < n))
            \<and> (mc_soft_inventory c \<le> dec_abs n \<longrightarrow>
                (ZERO < n \<longrightarrow> \<not> id_allow_bid d) \<and> (n < ZERO \<longrightarrow> \<not> id_allow_ask d))
            \<and> (dec_abs n < mc_soft_inventory c \<longrightarrow> id_allow_bid d \<and> id_allow_ask d))
        \<and> - mc_max_inventory_shift_bps c \<le> id_shift_bps d \<and> id_shift_bps d \<le> mc_max_inventory_shift_bps c
        \<and> (ZERO \<le> mc_inventory_skew_bps c \<and> ZERO \<le> mc_inventory_gamma_bps c \<and>
            ZERO \<le> mf_variance_per_second f \<and> dec_ok fair \<longrightarrow>
            (ZERO \<le> iv_position_size invt \<longrightarrow> id_reservation_price d \<le> fair) \<and>
            (iv_position_size invt \<le> ZERO \<longrightarrow> fair \<le> id_reservation_price d))"
    unfolding Let_def n_def [symmetric]
    using d(2,7,8) sides sign inventory_shift_bounds [OF v(13)] d(3)
    by (intro exI [of _ d]) (simp del: maker_literals)
qed

definition sample_inventory :: inventory_snapshot where
  "sample_inventory = \<lparr>iv_position_size = Dec 25000000000000000000, iv_equity = Dec (10 ^ 22),
     iv_available_balance = ZERO, iv_margin_used = ZERO, iv_observed_at = 0, iv_healthy = True\<rparr>"

theorem inventory_bands_witness:
  "\<exists>d. inventory_calculate (Dec (10 ^ 20)) sample_inventory sample_features sample_maker_config = Some (Inr d)
     \<and> \<not> id_allow_bid d"
proof -
  have n: "iv_position_size sample_inventory * Dec (10 ^ 20) = Dec (25 * 10 ^ 20)"
    by (simp add: sample_inventory_def dec_eq_iff half_up_def SCALE_I128_def sat_i128_def i128_bounds)
  have c: "mc_soft_inventory sample_maker_config = Dec (10 ^ 21)" by (simp add: sample_maker_config_def)
  have "iv_healthy sample_inventory \<and> ZERO < iv_equity sample_inventory \<and> ZERO < Dec (10 ^ 20)"
    by (simp add: sample_inventory_def dec_less_iff)
  then obtain d where "inventory_calculate (Dec (10 ^ 20)) sample_inventory sample_features sample_maker_config
      = Some (Inr d)"
    "mc_soft_inventory sample_maker_config \<le> dec_abs (iv_position_size sample_inventory * Dec (10 ^ 20)) \<longrightarrow>
      (ZERO < iv_position_size sample_inventory * Dec (10 ^ 20) \<longrightarrow> \<not> id_allow_bid d)"
    using inventory_bands [OF sample_maker_valid, of sample_inventory "Dec (10 ^ 20)" sample_features]
    unfolding Let_def by blast
  then show ?thesis unfolding n c by (auto simp: dec_le_iff dec_less_iff dec_abs_def checked_i128_def in_i128_def i128_bounds)
qed

section \<open>The markout estimator\<close>

inductive markout_reachable :: "markout_estimator \<Rightarrow> bool" where
  markout_start: "markout_estimator_new mn mx d = Inr e \<Longrightarrow> markout_reachable e"
| markout_step: "markout_reachable e \<Longrightarrow> markout_observe s now e = (e', taken) \<Longrightarrow> markout_reachable e'"

definition markout_ok :: "markout_estimator \<Rightarrow> bool" where
  "markout_ok e \<longleftrightarrow> 0 < mk_min_samples e \<and> mk_min_samples e \<le> mk_max_samples e \<and> ZERO \<le> mk_default e \<and>
     (\<forall>k. distinct (map fst (entry_or_empty (mk_samples e) k)) \<and>
       length (entry_or_empty (mk_samples e) k) \<le> mk_max_samples e \<and>
       (\<forall>v \<in> snd ` set (entry_or_empty (mk_samples e) k). ZERO \<le> v))"

lemma entry_or_empty_upd [simp]:
  "entry_or_empty (m(k \<mapsto> xs)) k' = (if k' = k then xs else entry_or_empty m k')"
  by (simp add: entry_or_empty_def)

lemma window_push_ok:
  assumes "distinct (map fst xs)" and "length xs \<le> n" and "0 < n" and "i \<notin> fst ` set xs"
  shows "distinct (map fst ((if length xs \<ge> n then drop 1 xs else xs) @ [(i, v)]))"
    "length ((if length xs \<ge> n then drop 1 xs else xs) @ [(i, v)]) \<le> n"
  using assms by (auto simp: drop_map [symmetric] dest: in_set_dropD)

lemma markout_observe_ok:
  assumes "markout_ok e" and "markout_observe s now e = (e', taken)"
  shows "markout_ok e'"
proof -
  define xs where "xs = entry_or_empty (mk_samples e) (ms_strategy_id s, ms_symbol s)"
  have xs: "distinct (map fst xs)" "length xs \<le> mk_max_samples e" "\<forall>v \<in> snd ` set xs. ZERO \<le> v"
    and pos: "0 < mk_max_samples e"
    using assms(1) by (auto simp: markout_ok_def xs_def)
  have nonneg: "ZERO \<le> max (- ms_signed_markout_bps s) ZERO" by simp
  consider "e' = e" | "e' = e\<lparr>mk_samples := (mk_samples e)((ms_strategy_id s, ms_symbol s) \<mapsto> xs)\<rparr>"
    | "sample_identity_of s \<notin> fst ` set xs"
      "e' = e\<lparr>mk_samples := (mk_samples e)((ms_strategy_id s, ms_symbol s) \<mapsto>
        (if length xs \<ge> mk_max_samples e then drop 1 xs else xs) @
          [(sample_identity_of s, max (- ms_signed_markout_bps s) ZERO)])\<rparr>"
    using assms(2) unfolding markout_observe_def Let_def xs_def [symmetric] dec_max_eq
    by (auto split: if_splits)
  then show ?thesis
  proof cases
    case 1
    with assms(1) show ?thesis by simp
  next
    case 2
    with assms(1) show ?thesis by (simp add: markout_ok_def xs_def)
  next
    case 3
    note push = window_push_ok [OF xs(1,2) pos 3(1), of "max (- ms_signed_markout_bps s) ZERO"]
    show ?thesis
      using assms(1) push xs(3) nonneg unfolding markout_ok_def 3(2)
      by (auto dest: in_set_dropD)
  qed
qed

lemma markout_reachable_ok: "markout_reachable e \<Longrightarrow> markout_ok e"
proof (induction rule: markout_reachable.induct)
  case (markout_start mn mx d e)
  then show ?case
    by (auto simp: markout_estimator_new_def markout_ok_def entry_or_empty_def split: if_splits)
next
  case (markout_step e s now e' taken)
  then show ?case using markout_observe_ok by blast
qed

lemma length_filter_sort: "length (filter P xs) = card {j. j < length xs \<and> P (sort xs ! j)}"
proof -
  have "length (filter P xs) = length (filter P (sort xs))" by (metis length_sort filter_sort)
  then show ?thesis by (simp only: length_filter_conv_card length_sort)
qed

lemma sorted_rank:
  fixes xs :: "'a::linorder list"
  assumes "i < length xs"
  shows "i + 1 \<le> length (filter (\<lambda>x. x \<le> sort xs ! i) xs)"
proof -
  have "{0..i} \<subseteq> {j. j < length xs \<and> sort xs ! j \<le> sort xs ! i}"
    using assms by (auto intro: sorted_nth_mono)
  then have "card {0..i} \<le> card {j. j < length xs \<and> sort xs ! j \<le> sort xs ! i}"
    by (intro card_mono) auto
  then show ?thesis by (simp add: length_filter_sort [of _ xs])
qed

text \<open>The adverse markout is an upper quartile of a bounded window. However many fills are observed,
  the window of a strategy and symbol holds at most the configured number of distinct fills; an immature
  window yields the conservative default, a mature one a non-negative sample that at least three quarters
  of the window do not exceed.\<close>

theorem markout_quartile:
  assumes "markout_reachable e" and "markout_estimate_of sid symb mn d e = Inr est"
  shows "let vs = map snd (entry_or_empty (mk_samples e) (sid, symb)) in
    me_sample_count est = length vs \<and> length vs \<le> mk_max_samples e \<and> ZERO \<le> me_adverse_bps est
    \<and> distinct (map fst (entry_or_empty (mk_samples e) (sid, symb)))
    \<and> (if length vs < (case mn of Some n \<Rightarrow> n | None \<Rightarrow> mk_min_samples e)
       then me_adverse_bps est = (case d of Some x \<Rightarrow> x | None \<Rightarrow> mk_default e)
       else me_adverse_bps est \<in> set vs
         \<and> 3 * length vs \<le> 4 * length (filter (\<lambda>v. v \<le> me_adverse_bps est) vs))"
proof -
  define vs where "vs = map snd (entry_or_empty (mk_samples e) (sid, symb))"
  define required where "required = (case mn of Some n \<Rightarrow> n | None \<Rightarrow> mk_min_samples e)"
  define dflt where "dflt = (case d of Some x \<Rightarrow> x | None \<Rightarrow> mk_default e)"
  define i where "i = min (length vs - 1) (length vs * 3 div 4)"
  have ok: "length vs \<le> mk_max_samples e" "\<forall>v \<in> set vs. ZERO \<le> v"
    "distinct (map fst (entry_or_empty (mk_samples e) (sid, symb)))"
    using markout_reachable_ok [OF assms(1)] by (simp_all add: markout_ok_def vs_def)
  have len: "length (entry_or_empty (mk_samples e) (sid, symb)) = length vs" by (simp add: vs_def)
  have est: "required \<noteq> 0" "ZERO \<le> dflt"
    "est = (if length vs < required
       then \<lparr>me_adverse_bps = dflt, me_quality = ''conservative_default'', me_sample_count = length vs\<rparr>
       else \<lparr>me_adverse_bps = sort vs ! i, me_quality = ''mature'', me_sample_count = length vs\<rparr>)"
    using assms(2) unfolding markout_estimate_of_def Let_def required_def [symmetric] dflt_def [symmetric]
      vs_def [symmetric] len i_def [symmetric]
    by (auto split: if_splits)
  show ?thesis
  proof (cases "length vs < required")
    case True
    then show ?thesis
      unfolding Let_def vs_def [symmetric] required_def [symmetric] dflt_def [symmetric]
      using est ok by simp
  next
    case False
    with est(1) have i: "i < length vs" by (simp add: i_def)
    then have mem: "sort vs ! i \<in> set vs" by (metis length_sort nth_mem set_sort)
    have "3 * length vs \<le> 4 * (i + 1)" using i unfolding i_def min_def by presburger
    then have "3 * length vs \<le> 4 * length (filter (\<lambda>v. v \<le> sort vs ! i) vs)"
      by (rule order_trans) (rule mult_le_mono2 [OF sorted_rank [OF i]])
    with False mem show ?thesis
      unfolding Let_def vs_def [symmetric] required_def [symmetric] dflt_def [symmetric]
      using est(3) ok by simp
  qed
qed

definition sample_estimator :: markout_estimator where
  "sample_estimator =
     \<lparr>mk_min_samples = 1, mk_max_samples = 2, mk_default = ONE, mk_samples = Map.empty\<rparr>"

definition sample_markout :: "string \<Rightarrow> decimal \<Rightarrow> markout_sample" where
  "sample_markout fill bps =
     \<lparr>ms_strategy_id = ''mm'', ms_symbol = ''BTC'', ms_maker = True, ms_horizon_ms = 1, ms_horizon_ts = 1,
      ms_ts = 1, ms_fill_id = fill, ms_calculation_version = ''v1'', ms_signed_markout_bps = bps\<rparr>"

lemma sample_observed: "markout_observe (sample_markout ''f'' (Dec (-7))) 5 sample_estimator =
    (sample_estimator\<lparr>mk_samples := [(''mm'', ''BTC'') \<mapsto> [((''f'', 1, ''v1''), Dec 7)]]\<rparr>, True)"
proof -
  have "- Dec (- 7) = Dec 7" by (simp add: dec_eq_iff sat_i128_def i128_bounds)
  then show ?thesis
    by (simp add: markout_observe_def sample_markout_def sample_estimator_def entry_or_empty_def
        sample_identity_of_def max_def dec_le_iff)
qed

theorem markout_quartile_witness:
  "\<exists>e est. markout_reachable e \<and> markout_estimate_of ''mm'' ''BTC'' None None e = Inr est \<and>
     me_adverse_bps est = Dec 7"
proof -
  define e where "e = fst (markout_observe (sample_markout ''f'' (Dec (-7))) 5 sample_estimator)"
  have "markout_estimator_new 1 2 ONE = Inr sample_estimator"
    by (simp add: markout_estimator_new_def sample_estimator_def dec_less_iff SCALE_I128_def)
  then have r: "markout_reachable e"
    unfolding e_def sample_observed fst_conv by (rule markout_step [OF markout_start sample_observed])
  have m: "mk_samples e = [(''mm'', ''BTC'') \<mapsto> [((''f'', 1, ''v1''), Dec 7)]]" "mk_min_samples e = 1"
    "mk_default e = ONE"
    unfolding e_def sample_observed by (simp_all add: sample_estimator_def)
  obtain est where est: "markout_estimate_of ''mm'' ''BTC'' None None e = Inr est"
    by (simp add: markout_estimate_of_def m Let_def dec_less_iff entry_or_empty_def SCALE_I128_def)
  show ?thesis
    using markout_quartile [OF r est] r est by (auto simp: m entry_or_empty_def)
qed

end
