(* ===== verification/HE_Policy.thy ===== *)
theory HE_Policy
  imports HE_Maker HE_Quotes
begin

text \<open>
  \<open>crates/trading/src/market_maker/policy.rs\<close>: the candidate quotes of the market maker, from the fair value,
  the inventory decision, the market features and the action budget. \<open>decision_at\<close> is the reading of the
  clock. The policy returns \<open>(string + quote set) option\<close>: the steps of the grid and the divisions can
  panic, and \<open>policy_returns\<close> shows that they do not for a validated configuration.
\<close>

section \<open>Sizes and edges\<close>

definition reduce_side :: "side \<Rightarrow> decimal \<Rightarrow> bool" where
  "reduce_side sd n \<longleftrightarrow> (sd = Buy \<and> n < ZERO) \<or> (sd = Sell \<and> n > ZERO)"

definition quote_size :: "side \<Rightarrow> decimal \<Rightarrow> decimal \<Rightarrow> market_features \<Rightarrow> maker_config \<Rightarrow> decimal option" where
  "quote_size sd fair n f c = do {
     let abs_notional = dec_abs n;
     let hard = mc_hard_inventory c;
     two \<leftarrow> from_i128 2;
     headroom \<leftarrow> (if abs_notional \<ge> hard then Some ZERO else dec_div (hard - abs_notional) two);
     inventory_size \<leftarrow> dec_div headroom fair;
     let visible_depth = dec_min (mf_best_bid_size f) (mf_best_ask_size f);
     let depth_size = visible_depth * mc_max_depth_participation c;
     let raw_size = (if reduce_side sd n \<and> abs_notional \<ge> hard
                     then dec_min (mc_quote_size c) depth_size
                     else dec_min (dec_min (mc_quote_size c) inventory_size) depth_size);
     floor_to_step raw_size (mc_lot_size c)
   }"

definition gross_edge :: "side \<Rightarrow> decimal \<Rightarrow> decimal \<Rightarrow> decimal \<Rightarrow> market_features \<Rightarrow> maker_config \<Rightarrow>
    decimal option" where
  "gross_edge sd fair quote_price sz f c =
     (if sz \<le> ZERO then Some ZERO
      else do {
        capture_rate \<leftarrow> (if sd = Buy then dec_div (fair - quote_price) fair else dec_div (quote_price - fair) fair);
        adverse_rate \<leftarrow> dec_div (mf_adverse_markout_bps f) (dec_lit ''10000'');
        funding_rate \<leftarrow> dec_div (dec_abs (mf_funding_rate f) * mc_horizon_seconds c) (dec_lit ''3600'');
        let edge_rate = capture_rate - mc_signed_maker_fee_rate c - adverse_rate - funding_rate;
        Some (dec_max (sz * quote_price * edge_rate * mc_expected_fill_probability c) ZERO)
      })"

section \<open>Decisions\<close>

definition policy_slot :: "string \<Rightarrow> market_features \<Rightarrow> side \<Rightarrow> quote_slot_key" where
  "policy_slot sid f sd = \<lparr>qk_strategy_id = sid, qk_symbol = mf_symbol f, qk_side = sd, qk_level = 0\<rparr>"

definition no_quote :: "quote_slot_key \<Rightarrow> string \<Rightarrow> desired_quote" where
  "no_quote slot reason =
     \<lparr>dq_slot = slot, dq_decision = QD_NoQuote, dq_price = None, dq_size = None, dq_gross_edge = ZERO,
      dq_reason = reason\<rparr>"

definition policy_desired :: "string \<Rightarrow> market_features \<Rightarrow> side \<Rightarrow> decimal \<Rightarrow> decimal \<Rightarrow> decimal \<Rightarrow> bool \<Rightarrow> bool \<Rightarrow>
    string option \<Rightarrow> maker_config \<Rightarrow> desired_quote" where
  "policy_desired sid f sd price sz edge allowed reduce_at_hard global_reason c =
     (let slot = policy_slot sid f sd in
      if \<not> allowed
      then no_quote slot (case global_reason of Some r \<Rightarrow> r | None \<Rightarrow> ''inventory_side_blocked'')
      else if sz < mc_min_size c then no_quote slot ''size_below_minimum''
      else if \<not> reduce_at_hard \<and> edge \<le> mc_min_expected_pnl c
      then no_quote slot ''expected_edge_below_threshold''
      else \<lparr>dq_slot = slot, dq_decision = QD_Quote, dq_price = Some price, dq_size = Some sz,
            dq_gross_edge = edge,
            dq_reason = (if reduce_at_hard then ''hard_limit_reduce_quote'' else ''positive_expected_edge'')\<rparr>)"

definition no_quote_reason :: "market_features \<Rightarrow> action_budget_snapshot \<Rightarrow> inventory_decision \<Rightarrow> string option" where
  "no_quote_reason f budget d =
     (if \<not> mf_healthy f then Some ''market_unhealthy''
      else if \<not> as_healthy budget then Some ''action_budget_stale''
      else if as_mode budget = ABM_CancelOnly \<or> as_mode budget = ABM_Exhausted
      then Some (''budget_'' @ action_budget_mode_as_str (as_mode budget))
      else if id_emergency d then Some ''inventory_emergency''
      else None)"

text \<open>\<open>to_string().parse::<i64>().unwrap_or(10)\<close>, in nanoseconds; \<open>Duration::seconds\<close> panics beyond its range.\<close>

definition quote_lifetime :: "maker_config \<Rightarrow> time_ns option" where
  "quote_lifetime c =
     (let secs = (case parse_int in_i64 (display (mc_max_quote_lifetime_seconds c)) of Some n \<Rightarrow> n | None \<Rightarrow> 10)
      in if \<bar>secs\<bar> > 9223372036854775 then None else Some (secs * 1000000000))"

text \<open>The two prices on the grid, kept strictly outside the opposite best price.\<close>

definition half_spread_bps_of :: "market_features \<Rightarrow> maker_config \<Rightarrow> decimal" where
  "half_spread_bps_of f c =
     dec_max (mc_min_half_spread_bps c)
       (mf_adverse_markout_bps f + mf_latency_buffer_bps f + mc_toxicity_spread_bps c * mf_toxicity f)"

definition quote_prices :: "decimal \<Rightarrow> market_features \<Rightarrow> maker_config \<Rightarrow> (decimal \<times> decimal) option" where
  "quote_prices reservation f c = do {
     half_spread \<leftarrow> dec_div (reservation * half_spread_bps_of f c) (dec_lit ''10000'');
     bid \<leftarrow> floor_to_step (reservation - half_spread) (mc_tick_size c);
     ask \<leftarrow> ceil_to_step (reservation + half_spread) (mc_tick_size c);
     Some (dec_min bid (mf_best_ask f - mc_tick_size c), dec_max ask (mf_best_bid f + mc_tick_size c))
   }"

text \<open>One side: size, permission, edge and the resulting quote.\<close>

definition policy_side :: "string \<Rightarrow> side \<Rightarrow> decimal \<Rightarrow> decimal \<Rightarrow> inventory_decision \<Rightarrow> market_features \<Rightarrow>
    action_budget_snapshot \<Rightarrow> maker_config \<Rightarrow> desired_quote option" where
  "policy_side sid sd fair price d f budget c = do {
     let n = id_inventory_notional d;
     let at_hard = dec_abs n \<ge> mc_hard_inventory c;
     sz \<leftarrow> quote_size sd fair n f c;
     let allow0 = (if sd = Buy then id_allow_bid d else id_allow_ask d);
     let allow = (if as_mode budget = ABM_Critical then allow0 \<and> reduce_side sd n else allow0);
     edge \<leftarrow> gross_edge sd fair price sz f c;
     Some (policy_desired sid f sd price sz edge (allow \<and> no_quote_reason f budget d = None)
             (at_hard \<and> reduce_side sd n) (no_quote_reason f budget d) c)
   }"

definition policy_quote :: "string \<Rightarrow> string \<Rightarrow> int \<Rightarrow> int \<Rightarrow> market_features \<Rightarrow> inventory_snapshot \<Rightarrow>
    action_budget_snapshot \<Rightarrow> maker_config \<Rightarrow> time_ns \<Rightarrow> (string + desired_quote_set) option" where
  "policy_quote sid session revision slot_revision f invt budget c decision_at =
     (case fair_value f c of
        None \<Rightarrow> None
      | Some fair \<Rightarrow>
          res_bind (inventory_calculate fair invt f c) (\<lambda>d. do {
            (bid_price, ask_price) \<leftarrow> quote_prices (id_reservation_price d) f c;
            bid \<leftarrow> policy_side sid Buy fair bid_price d f budget c;
            ask \<leftarrow> policy_side sid Sell fair ask_price d f budget c;
            lifetime \<leftarrow> quote_lifetime c;
            let qset = \<lparr>ds_strategy_id = sid, ds_symbol = mf_symbol f, ds_session_id = session,
              ds_config_version = mc_version c, ds_model_version = mc_model_version c,
              ds_market_version = mf_market_version f, ds_connection_generation = mf_connection_generation f,
              ds_current_slot_revision = slot_revision, ds_revision = revision, ds_fair_price = fair,
              ds_reservation_price = id_reservation_price d, ds_inventory_notional = id_inventory_notional d,
              ds_expected_utility = dq_gross_edge bid + dq_gross_edge ask, ds_budget_mode = as_mode budget,
              ds_bid = bid, ds_ask = ask, ds_created_at = mf_received_at f,
              ds_valid_until = decision_at + lifetime,
              ds_feature_values = [(''toxicity'', mf_toxicity f), (''half_spread_bps'', half_spread_bps_of f c),
                (''inventory_shift_bps'', id_shift_bps d)]\<rparr>;
            Some (case quote_set_validate qset of Inl e \<Rightarrow> Inl e | Inr _ \<Rightarrow> Inr qset)
          }))"

section \<open>The policy returns\<close>

lemma two_dec: "from_i128 2 = Some (Dec (2 * SCALE_I128))"
  by (simp add: from_i128_def checked_i128_def in_i128_def i128_bounds SCALE_I128_def)

lemma dec_div_returns: "0 < raw e \<Longrightarrow> \<exists>q. dec_div d e = Some q"
  by simp

lemma headroom_returns: "\<exists>h. (if n \<ge> hard then Some ZERO else dec_div (hard - n) (Dec (2 * SCALE_I128))) = Some h"
  using dec_div_returns [of "Dec (2 * SCALE_I128)" "hard - n"] by auto

text \<open>The quantities of \<open>quote_size\<close>, named.\<close>

definition raw_quote_size :: "side \<Rightarrow> decimal \<Rightarrow> decimal \<Rightarrow> market_features \<Rightarrow> maker_config \<Rightarrow> decimal" where
  "raw_quote_size sd inventory_size n f c =
     (let depth_size = min (mf_best_bid_size f) (mf_best_ask_size f) * mc_max_depth_participation c
      in if reduce_side sd n \<and> dec_abs n \<ge> mc_hard_inventory c then min (mc_quote_size c) depth_size
         else min (min (mc_quote_size c) inventory_size) depth_size)"

lemma quote_size_eq:
  assumes "0 < raw fair"
  shows "\<exists>h q. (if dec_abs n \<ge> mc_hard_inventory c then Some ZERO
      else dec_div (mc_hard_inventory c - dec_abs n) (Dec (2 * SCALE_I128))) = Some h
    \<and> dec_div h fair = Some q
    \<and> quote_size sd fair n f c = floor_to_step (raw_quote_size sd q n f c) (mc_lot_size c)"
proof -
  obtain h where h: "(if dec_abs n \<ge> mc_hard_inventory c then Some ZERO
      else dec_div (mc_hard_inventory c - dec_abs n) (Dec (2 * SCALE_I128))) = Some h"
    using headroom_returns by blast
  obtain q where q: "dec_div h fair = Some q" using dec_div_returns [of fair h] assms by blast
  have "quote_size sd fair n f c = floor_to_step (raw_quote_size sd q n f c) (mc_lot_size c)"
    unfolding quote_size_def Let_def two_dec Option.bind.simps h q raw_quote_size_def dec_min_eq by simp
  with h q show ?thesis by blast
qed

lemma quote_size_returns:
  assumes "0 < raw fair" and "0 < raw (mc_lot_size c)"
  shows "\<exists>sz. quote_size sd fair n f c = Some sz"
proof -
  obtain q where "quote_size sd fair n f c = floor_to_step (raw_quote_size sd q n f c) (mc_lot_size c)"
    using quote_size_eq [OF assms(1)] by blast
  then show ?thesis using floor_to_step_returns [of "mc_lot_size c"] assms(2) by auto
qed

lemma gross_edge_returns:
  assumes "0 < raw fair"
  shows "\<exists>e. gross_edge sd fair p sz f c = Some e"
proof -
  obtain q1 where q1: "(if sd = Buy then dec_div (fair - p) fair else dec_div (p - fair) fair) = Some q1"
    using dec_div_returns [of fair] assms by fastforce
  obtain q2 where q2: "dec_div (mf_adverse_markout_bps f) (dec_lit ''10000'') = Some q2"
    using dec_div_returns [of "dec_lit ''10000''"] by fastforce
  obtain q3 where q3: "dec_div (dec_abs (mf_funding_rate f) * mc_horizon_seconds c) (dec_lit ''3600'') = Some q3"
    using dec_div_returns [of "dec_lit ''3600''"] by fastforce
  show ?thesis
    unfolding gross_edge_def q1 q2 q3 Option.bind.simps Let_def by simp
qed

lemma policy_side_returns:
  assumes "0 < raw fair" and "0 < raw (mc_lot_size c)"
  shows "\<exists>q. policy_side sid sd fair p d f budget c = Some q"
proof -
  obtain sz where sz: "quote_size sd fair (id_inventory_notional d) f c = Some sz"
    using quote_size_returns [OF assms] by blast
  obtain e where e: "gross_edge sd fair p sz f c = Some e" using gross_edge_returns [OF assms(1)] by blast
  show ?thesis unfolding policy_side_def Let_def sz e Option.bind.simps by simp
qed

lemma ceil_to_step_returns: "raw step \<noteq> 0 \<Longrightarrow> \<exists>r. ceil_to_step d step = Some r"
  by (cases "dec_div d step") (use dec_div_Some_iff [of d step] in \<open>auto simp: ceil_to_step_def\<close>)

lemma quote_prices_returns:
  assumes "0 < raw (mc_tick_size c)"
  shows "\<exists>b a. quote_prices r f c = Some (b, a)"
proof -
  obtain h where h: "dec_div (r * half_spread_bps_of f c) (dec_lit ''10000'') = Some h"
    using dec_div_returns [of "dec_lit ''10000''"] by fastforce
  obtain b where b: "floor_to_step (r - h) (mc_tick_size c) = Some b"
    using floor_to_step_returns assms by (metis less_irrefl)
  obtain a where a: "ceil_to_step (r + h) (mc_tick_size c) = Some a"
    using ceil_to_step_returns assms by (metis less_irrefl)
  show ?thesis unfolding quote_prices_def h b a Option.bind.simps by simp
qed

lemma quote_prices_outside:
  "quote_prices r f c = Some (b, a) \<Longrightarrow> b \<le> mf_best_ask f - mc_tick_size c \<and> mf_best_bid f + mc_tick_size c \<le> a"
  by (auto simp: quote_prices_def split: Option.bind_splits)

section \<open>What a quote of one side has passed\<close>

text \<open>The contract of one side of the candidate.\<close>

definition side_spec :: "side \<Rightarrow> market_features \<Rightarrow> action_budget_snapshot \<Rightarrow> maker_config \<Rightarrow> decimal \<Rightarrow>
    desired_quote \<Rightarrow> bool" where
  "side_spec sd f budget c n q \<longleftrightarrow>
     (dq_decision q = QD_NoQuote \<and> dq_price q = None \<and> dq_size q = None \<and> dq_gross_edge q = ZERO \<or>
      dq_decision q = QD_Quote \<and> mf_healthy f \<and> as_healthy budget \<and>
      as_mode budget \<notin> {ABM_CancelOnly, ABM_Exhausted} \<and>
      (as_mode budget = ABM_Critical \<longrightarrow> reduce_side sd n) \<and>
      dec_abs n < mc_emergency_inventory c \<and>
      (mc_hard_inventory c \<le> dec_abs n \<longrightarrow> reduce_side sd n) \<and>
      (mc_soft_inventory c \<le> dec_abs n \<longrightarrow> (sd = Buy \<longrightarrow> n \<le> ZERO) \<and> (sd = Sell \<longrightarrow> ZERO \<le> n)) \<and>
      (\<exists>price sz. dq_price q = Some price \<and> dq_size q = Some sz \<and> mc_min_size c \<le> sz \<and>
        (sd = Buy \<longrightarrow> price \<le> mf_best_ask f - mc_tick_size c) \<and>
        (sd = Sell \<longrightarrow> mf_best_bid f + mc_tick_size c \<le> price)) \<and>
      (mc_min_expected_pnl c < dq_gross_edge q \<or> mc_hard_inventory c \<le> dec_abs n))"

lemma policy_desired_cases:
  obtains (nothing) reason where
      "policy_desired sid f sd price sz edge allowed red g c = no_quote (policy_slot sid f sd) reason"
    | (something) reason where "allowed" "mc_min_size c \<le> sz" "red \<or> mc_min_expected_pnl c < edge"
      "policy_desired sid f sd price sz edge allowed red g c =
        \<lparr>dq_slot = policy_slot sid f sd, dq_decision = QD_Quote, dq_price = Some price, dq_size = Some sz,
         dq_gross_edge = edge, dq_reason = reason\<rparr>"
proof (cases "\<not> allowed \<or> sz < mc_min_size c \<or> \<not> red \<and> edge \<le> mc_min_expected_pnl c")
  case True
  then have "\<exists>r. policy_desired sid f sd price sz edge allowed red g c = no_quote (policy_slot sid f sd) r"
    by (auto simp: policy_desired_def Let_def)
  then show ?thesis using that(1) by blast
next
  case False
  show ?thesis
    by (rule that(2) [of "if red then ''hard_limit_reduce_quote'' else ''positive_expected_edge''"])
      (use False in \<open>auto simp: policy_desired_def Let_def\<close>)
qed

lemma no_quote_reason_None: "no_quote_reason f budget d = None \<Longrightarrow> mf_healthy f \<and> as_healthy budget \<and>
      as_mode budget \<notin> {ABM_CancelOnly, ABM_Exhausted}"
  by (auto simp: no_quote_reason_def split: if_splits)

lemma policy_side_spec:
  assumes "policy_side sid sd fair price d f budget c = Some q"
    and "(id_allow_bid d, id_allow_ask d) = inventory_sides (id_inventory_notional d) c"
    and "id_emergency d = (dec_abs (id_inventory_notional d) \<ge> mc_emergency_inventory c)"
    and "sd = Buy \<Longrightarrow> price \<le> mf_best_ask f - mc_tick_size c"
    and "sd = Sell \<Longrightarrow> mf_best_bid f + mc_tick_size c \<le> price"
    and "mc_soft_inventory c < mc_hard_inventory c" and "mc_hard_inventory c < mc_emergency_inventory c"
  shows "side_spec sd f budget c (id_inventory_notional d) q \<and> dq_slot q = policy_slot sid f sd"
proof -
  define n where "n = id_inventory_notional d"
  define allow0 where "allow0 = (if sd = Buy then id_allow_bid d else id_allow_ask d)"
  obtain sz edge where q: "q = policy_desired sid f sd price sz edge
      ((if as_mode budget = ABM_Critical then allow0 \<and> reduce_side sd n else allow0) \<and>
        no_quote_reason f budget d = None)
      (dec_abs n \<ge> mc_hard_inventory c \<and> reduce_side sd n) (no_quote_reason f budget d) c"
    using assms(1) unfolding policy_side_def Let_def n_def [symmetric] allow0_def [symmetric]
    by (auto split: Option.bind_splits)
  have sides: "allow0 \<Longrightarrow> dec_abs n < mc_emergency_inventory c \<and>
      (mc_hard_inventory c \<le> dec_abs n \<longrightarrow> reduce_side sd n) \<and>
      (mc_soft_inventory c \<le> dec_abs n \<longrightarrow> (sd = Buy \<longrightarrow> n \<le> ZERO) \<and> (sd = Sell \<longrightarrow> ZERO \<le> n))"
    using assms(2,6,7) unfolding allow0_def n_def
    by (cases sd) (auto simp: inventory_sides_def reduce_side_def split: if_splits)
  show ?thesis
  proof (cases rule: policy_desired_cases [of sid f sd price sz edge
      "(if as_mode budget = ABM_Critical then allow0 \<and> reduce_side sd n else allow0) \<and>
        no_quote_reason f budget d = None"
      "dec_abs n \<ge> mc_hard_inventory c \<and> reduce_side sd n" "no_quote_reason f budget d" c])
    case (nothing reason)
    then show ?thesis by (simp add: q side_spec_def no_quote_def)
  next
    case (something reason)
    have a: "allow0" "as_mode budget = ABM_Critical \<longrightarrow> reduce_side sd n" "no_quote_reason f budget d = None"
      using something(1) by (auto split: if_splits)
    show ?thesis
      unfolding q something(4)
      using a(2) sides [OF a(1)] no_quote_reason_None [OF a(3)] assms(4,5) something(2,3)
      unfolding side_spec_def n_def [symmetric] by auto
  qed
qed

section \<open>Candidates\<close>

text \<open>The parts of a candidate.\<close>

lemma policy_quote_Inr:
  assumes "maker_config_validate c = Some (Inr ())"
    and "policy_quote sid session revision slot_revision f invt budget c decision_at = Some (Inr qs)"
  shows "\<exists>fair d bid_price ask_price. fair_value f c = Some fair \<and> 0 < raw fair
    \<and> inventory_calculate fair invt f c = Some (Inr d)
    \<and> (id_allow_bid d, id_allow_ask d) = inventory_sides (id_inventory_notional d) c
    \<and> id_emergency d = (dec_abs (id_inventory_notional d) \<ge> mc_emergency_inventory c)
    \<and> quote_prices (id_reservation_price d) f c = Some (bid_price, ask_price)
    \<and> policy_side sid Buy fair bid_price d f budget c = Some (ds_bid qs)
    \<and> policy_side sid Sell fair ask_price d f budget c = Some (ds_ask qs)
    \<and> ds_inventory_notional qs = id_inventory_notional d \<and> ds_fair_price qs = fair
    \<and> ds_strategy_id qs = sid \<and> ds_symbol qs = mf_symbol f \<and> quote_set_validate qs = Inr ()"
proof -
  obtain fair where fair: "fair_value f c = Some fair"
    using assms(2) by (auto simp: policy_quote_def split: option.splits)
  obtain d where d: "inventory_calculate fair invt f c = Some (Inr d)"
    using assms(2) by (auto simp: policy_quote_def fair res_bind_Inr)
  have ok: "iv_healthy invt" "ZERO < iv_equity invt" "ZERO < fair"
    using d by (auto simp: inventory_calculate_def not_le split: if_splits)
  have sides: "(id_allow_bid d, id_allow_ask d) = inventory_sides (id_inventory_notional d) c"
    "id_emergency d = (dec_abs (id_inventory_notional d) \<ge> mc_emergency_inventory c)"
    using inventory_calculate_eq [OF assms(1) ok, of f] d by auto
  obtain bp ap where "quote_prices (id_reservation_price d) f c = Some (bp, ap)"
    "policy_side sid Buy fair bp d f budget c = Some (ds_bid qs)"
    "policy_side sid Sell fair ap d f budget c = Some (ds_ask qs)"
    "ds_inventory_notional qs = id_inventory_notional d" "ds_fair_price qs = fair"
    "ds_strategy_id qs = sid" "ds_symbol qs = mf_symbol f" "quote_set_validate qs = Inr ()"
    using assms(2) unfolding policy_quote_def fair option.case d res_bind_simps Let_def
    by (auto split: Option.bind_splits sum.splits)
  then show ?thesis using fair d sides ok(3) unfolding dec_less_iff raw_consts by blast
qed

lemma policy_sides_spec:
  assumes "maker_config_validate c = Some (Inr ())"
    and "policy_quote sid session revision slot_revision f invt budget c decision_at = Some (Inr qs)"
  shows "side_spec Buy f budget c (ds_inventory_notional qs) (ds_bid qs)"
    "side_spec Sell f budget c (ds_inventory_notional qs) (ds_ask qs)" "quote_set_validate qs = Inr ()"
proof -
  note v = maker_config_valid(5,6) [OF assms(1)]
  obtain fair d bid_price ask_price where p:
    "(id_allow_bid d, id_allow_ask d) = inventory_sides (id_inventory_notional d) c"
    "id_emergency d = (dec_abs (id_inventory_notional d) \<ge> mc_emergency_inventory c)"
    "quote_prices (id_reservation_price d) f c = Some (bid_price, ask_price)"
    "policy_side sid Buy fair bid_price d f budget c = Some (ds_bid qs)"
    "policy_side sid Sell fair ask_price d f budget c = Some (ds_ask qs)"
    "ds_inventory_notional qs = id_inventory_notional d" "quote_set_validate qs = Inr ()"
    using policy_quote_Inr [OF assms] by blast
  note out = quote_prices_outside [OF p(3)]
  show "side_spec Buy f budget c (ds_inventory_notional qs) (ds_bid qs)"
    "side_spec Sell f budget c (ds_inventory_notional qs) (ds_ask qs)" "quote_set_validate qs = Inr ()"
    using policy_side_spec [OF p(4) p(1,2) _ _ v] policy_side_spec [OF p(5) p(1,2) _ _ v] out p(6,7)
    by simp_all
qed

text \<open>C24: every quote of the policy has passed its gates. For a validated configuration, each side of a
  candidate either wants nothing, with neither price nor size, or wants a quote and then: market data and
  action budget are healthy and the budget mode allows quoting; in the mode Critical, and from the hard
  inventory limit on, the side reduces the inventory; from the soft limit on it does not increase it; the
  emergency limit is not reached; the price lies at least one tick beyond the opposite best price; the size
  reaches the minimum; and the expected edge exceeds the threshold unless the quote unwinds inventory at
  the hard limit.\<close>

theorem policy_quote_sound:
  assumes "maker_config_validate c = Some (Inr ())"
    and "policy_quote sid session revision slot_revision f invt budget c decision_at = Some (Inr qs)"
  shows "quote_set_validate qs = Inr ()
    \<and> side_spec Buy f budget c (ds_inventory_notional qs) (ds_bid qs)
    \<and> side_spec Sell f budget c (ds_inventory_notional qs) (ds_ask qs)
    \<and> (\<not> mf_healthy f \<or> \<not> as_healthy budget \<or> as_mode budget \<in> {ABM_CancelOnly, ABM_Exhausted} \<longrightarrow>
        dq_decision (ds_bid qs) = QD_NoQuote \<and> dq_decision (ds_ask qs) = QD_NoQuote)"
  using policy_sides_spec [OF assms] by (auto simp: side_spec_def)

lemma from_i128_version: "maker_config_validate c = Some (Inr ()) \<Longrightarrow> 0 < mc_version c"
proof -
  assume v: "maker_config_validate c = Some (Inr ())"
  then obtain d where "from_i128 (mc_version c) = Some d" "ZERO < d"
    by (auto simp: maker_config_validate_def first_bad_None positive_entries_def split: option.splits)
  then show ?thesis by (auto simp: from_i128_def dec_less_iff zero_less_mult_iff SCALE_I128_def)
qed

text \<open>With a validated configuration, healthy inventory and non-negative revisions the policy returns a
  candidate.\<close>

lemma policy_returns:
  assumes "maker_config_validate c = Some (Inr ())" and "iv_healthy invt" and "ZERO < iv_equity invt"
    and "fair_value f c = Some fair" and "ZERO < fair"
    and "0 \<le> revision" and "0 \<le> slot_revision" and "0 \<le> mf_market_version f"
    and "quote_lifetime c = Some life" and "mf_received_at f < decision_at + life"
  shows "\<exists>qs. policy_quote sid session revision slot_revision f invt budget c decision_at = Some (Inr qs)"
proof -
  note v = maker_config_valid [OF assms(1)]
  have fair: "0 < raw fair" using assms(5) by (simp add: dec_less_iff)
  obtain d where d: "inventory_calculate fair invt f c = Some (Inr d)"
    using inventory_calculate_eq [OF assms(1,2,3,5)] by blast
  obtain bp ap where pr: "quote_prices (id_reservation_price d) f c = Some (bp, ap)"
    using quote_prices_returns [OF v(1)] by blast
  obtain bid where bid: "policy_side sid Buy fair bp d f budget c = Some bid"
    using policy_side_returns [OF fair v(2)] by blast
  obtain ask where ask: "policy_side sid Sell fair ap d f budget c = Some ask"
    using policy_side_returns [OF fair v(2)] by blast
  have slots: "dq_slot bid = policy_slot sid f Buy" "dq_slot ask = policy_slot sid f Sell"
    using bid ask
    by (auto simp: policy_side_def Let_def policy_desired_def no_quote_def split: Option.bind_splits if_splits)
  show ?thesis
    unfolding policy_quote_def assms(4,9) option.case d res_bind_simps pr Option.bind.simps bid ask Let_def prod.case
    using assms(6-8,10) from_i128_version [OF assms(1)]
    by (simp add: quote_set_validate_def check_quote_slot_def slots policy_slot_def)
qed

lemma sample_lifetime: "quote_lifetime sample_maker_config = Some 10000000000"
proof -
  have "mc_max_quote_lifetime_seconds sample_maker_config = Dec 10000000000000000000"
    by (simp add: sample_maker_config_def maker_config_default_with_def)
  moreover have "parse_int in_i64 (display (Dec 10000000000000000000)) = Some 10" by code_simp
  ultimately show ?thesis by (simp add: quote_lifetime_def)
qed

text \<open>A lifetime that is not a whole number of seconds is replaced by ten seconds.\<close>

lemma fractional_lifetime_ignored:
  "quote_lifetime (sample_maker_config\<lparr>mc_max_quote_lifetime_seconds := Dec 2500000000000000000\<rparr>) =
     Some (10 * 1000000000)"
proof -
  have "parse_int in_i64 (display (Dec 2500000000000000000)) = None" by code_simp
  then show ?thesis by (simp add: quote_lifetime_def)
qed

definition sample_flat :: inventory_snapshot where
  "sample_flat = \<lparr>iv_position_size = ZERO, iv_equity = ONE, iv_available_balance = ZERO,
     iv_margin_used = ZERO, iv_observed_at = 0, iv_healthy = True\<rparr>"

theorem policy_quote_sound_witness:
  "\<exists>qs. policy_quote ''mm'' ''s'' 1 0 sample_features sample_flat
      \<lparr>as_mode = ABM_CancelOnly, as_address_actions_remaining = 0, as_cancel_headroom = 0,
       as_ip_weight_remaining = 0, as_action_shadow_cost = ZERO, as_observed_at = 0, as_healthy = True\<rparr>
      sample_maker_config 1 = Some (Inr qs) \<and> dq_decision (ds_bid qs) = QD_NoQuote"
proof -
  have flat: "iv_healthy sample_flat" "ZERO < iv_equity sample_flat"
    by (simp_all add: sample_flat_def dec_less_iff)
  have life: "mf_received_at sample_features < 1 + 10000000000" "0 \<le> mf_market_version sample_features"
    by (simp_all add: sample_features_def)
  have fair: "ZERO < Dec 100000000000000000000" by (simp add: dec_less_iff)
  obtain qs where qs: "policy_quote ''mm'' ''s'' 1 0 sample_features sample_flat
      \<lparr>as_mode = ABM_CancelOnly, as_address_actions_remaining = 0, as_cancel_headroom = 0,
       as_ip_weight_remaining = 0, as_action_shadow_cost = ZERO, as_observed_at = 0, as_healthy = True\<rparr>
      sample_maker_config 1 = Some (Inr qs)"
    using policy_returns [OF sample_maker_valid flat sample_fair fair _ _ life(2) sample_lifetime life(1)]
    by fastforce
  then show ?thesis using policy_quote_sound [OF sample_maker_valid qs] by auto
qed

section \<open>Sizes stay in the band\<close>

lemma headroom_bound:
  assumes "dec_ok n" and "dec_ok hard" and "0 \<le> raw n" and "raw n < raw hard"
    and "dec_div (hard - n) (Dec (2 * SCALE_I128)) = Some h"
  shows "0 \<le> raw h" "2 * raw h \<le> raw hard - raw n + 1"
proof -
  have sub: "raw (hard - n) = raw hard - raw n"
    using assms(1-4) in_i128_between [of 0 "raw hard" "raw hard - raw n"] by (simp add: dec_ok_def)
  have h: "raw h = sat_i128 (half_up ((raw hard - raw n) * SCALE_I128) (2 * SCALE_I128))"
    using assms(5) sub by (auto simp: dec_div_pos simp del: raw_sub)
  have nonneg: "0 \<le> half_up ((raw hard - raw n) * SCALE_I128) (2 * SCALE_I128)"
    using assms(4) by (intro half_up_sign) simp_all
  then show "0 \<le> raw h" by (simp add: h)
  have "\<bar>2 * (2 * SCALE_I128) * half_up ((raw hard - raw n) * SCALE_I128) (2 * SCALE_I128)
      - 2 * ((raw hard - raw n) * SCALE_I128)\<bar> \<le> 2 * SCALE_I128"
    by (rule half_up_error) simp
  then have "2 * half_up ((raw hard - raw n) * SCALE_I128) (2 * SCALE_I128) \<le> raw hard - raw n + 1"
    by (simp add: SCALE_I128_def)
  with sat_i128_le [OF nonneg] show "2 * raw h \<le> raw hard - raw n + 1" by (simp add: h)
qed

lemma quotient_bound:
  assumes "0 \<le> raw h" and "0 < raw fair" and "dec_div h fair = Some q"
  shows "0 \<le> raw q" "2 * (raw q * raw fair) \<le> 2 * raw h * SCALE_I128 + raw fair"
proof -
  have q: "raw q = sat_i128 (half_up (raw h * SCALE_I128) (raw fair))"
    using assms by (auto simp: dec_div_pos)
  have nonneg: "0 \<le> half_up (raw h * SCALE_I128) (raw fair)"
    using assms by (intro half_up_sign) simp_all
  then show "0 \<le> raw q" by (simp add: q)
  have "raw q * raw fair \<le> half_up (raw h * SCALE_I128) (raw fair) * raw fair"
    using sat_i128_le [OF nonneg] assms(2) by (intro mult_right_mono) (simp_all add: q)
  moreover have "\<bar>2 * raw fair * half_up (raw h * SCALE_I128) (raw fair) - 2 * (raw h * SCALE_I128)\<bar> \<le> raw fair"
    by (rule half_up_error [OF assms(2)])
  ultimately show "2 * (raw q * raw fair) \<le> 2 * raw h * SCALE_I128 + raw fair"
    by (simp add: ac_simps abs_le_iff)
qed

text \<open>Sizes stay within the book and the inventory band. For a validated configuration whose lot
  divides one and validated features, a quote size is a multiple of the lot, at most the configured quote
  size and at most the smaller size at the top of the book. Below the hard limit a fill of twice the size
  at the fair price takes the inventory to the hard limit at most (up to the rounding of two divisions);
  from the hard limit on, the increasing side has size zero.\<close>

theorem quote_size_in_band:
  assumes "maker_config_validate c = Some (Inr ())" and "features_validate f = Inr ()"
    and "unit_step (mc_lot_size c)" and "0 < raw fair" and "dec_ok n" and "dec_ok (mc_hard_inventory c)"
    and "dec_ok (mc_quote_size c)" and "dec_ok (mf_best_bid_size f)" and "dec_ok (mf_best_ask_size f)"
    and "quote_size sd fair n f c = Some sz"
  shows "0 \<le> raw sz \<and> raw (mc_lot_size c) dvd raw sz \<and> sz \<le> mc_quote_size c
    \<and> sz \<le> mf_best_bid_size f \<and> sz \<le> mf_best_ask_size f
    \<and> (dec_abs n < mc_hard_inventory c \<longrightarrow>
        raw (dec_abs n) * SCALE_I128 + 2 * (raw sz * raw fair) \<le>
          (raw (mc_hard_inventory c) + 1) * SCALE_I128 + raw fair)
    \<and> (mc_hard_inventory c \<le> dec_abs n \<and> \<not> reduce_side sd n \<longrightarrow> raw sz = 0)"
proof -
  note v = maker_config_valid [OF assms(1)] and part = maker_config_participation [OF assms(1)]
  define depth where "depth = min (mf_best_bid_size f) (mf_best_ask_size f)"
  define hard where "hard = mc_hard_inventory c"
  have pos: "0 < raw (mf_best_bid_size f)" "0 < raw (mf_best_ask_size f)"
    using assms(2) by (auto simp: features_validate_def dec_le_iff split: if_splits)
  have depth: "0 < raw depth" "dec_ok depth" using pos assms(8,9) by (simp_all add: depth_def min_def)
  have book: "0 \<le> raw (depth * mc_max_depth_participation c)" "depth * mc_max_depth_participation c \<le> depth"
    using dec_mul_nonneg [of depth] dec_mul_mono [OF _ part(2), of depth] depth part(1) by simp_all
  obtain h q where hq: "(if dec_abs n \<ge> hard then Some ZERO
      else dec_div (hard - dec_abs n) (Dec (2 * SCALE_I128))) = Some h" "dec_div h fair = Some q"
    "floor_to_step (raw_quote_size sd q n f c) (mc_lot_size c) = Some sz"
    using quote_size_eq [OF assms(4), where n = n and c = c and sd = sd and f = f] assms(10) unfolding hard_def by auto
  have h0: "0 \<le> raw h"
  proof (cases "dec_abs n \<ge> hard")
    case True
    then show ?thesis using hq(1) by auto
  next
    case False
    then show ?thesis
      using headroom_bound(1) [of "dec_abs n" hard h] hq(1) assms(6) by (simp add: dec_le_iff hard_def not_le)
  qed
  note q0 = quotient_bound [OF h0 assms(4) hq(2)]
  define r where "r = raw_quote_size sd q n f c"
  define dsz where "dsz = depth * mc_max_depth_participation c"
  have r_eq: "r = (if reduce_side sd n \<and> dec_abs n \<ge> hard then min (mc_quote_size c) dsz
      else min (min (mc_quote_size c) q) dsz)"
    by (simp add: r_def raw_quote_size_def Let_def dsz_def depth_def hard_def)
  have dsz: "0 \<le> raw dsz" "dec_ok dsz" using book(1) by (simp_all add: dsz_def del: raw_mul)
  have r: "0 \<le> raw r" "dec_ok r" "r \<le> mc_quote_size c" "r \<le> dsz"
    "\<not> (reduce_side sd n \<and> dec_abs n \<ge> hard) \<Longrightarrow> r \<le> q"
    using v(7) dsz q0(1) assms(7) dec_div_ok [OF hq(2)] unfolding r_eq
    by (auto simp: min_def dec_le_iff)
  note fl = floor_to_step_unit_le [OF assms(3) r(2,1) hq(3) [folded r_def]]
  have "sz \<le> depth" using fl(2) r(4) book(2) unfolding dsz_def by (meson order_trans)
  then have tops: "sz \<le> mf_best_bid_size f" "sz \<le> mf_best_ask_size f" by (simp_all add: depth_def)
  have band: "raw (dec_abs n) * SCALE_I128 + 2 * (raw sz * raw fair) \<le> (raw hard + 1) * SCALE_I128 + raw fair"
    if "dec_abs n < hard"
  proof -
    have "dec_div (hard - dec_abs n) (Dec (2 * SCALE_I128)) = Some h"
      using hq(1) that by (simp add: not_le [symmetric])
    from headroom_bound(2) [OF _ _ _ _ this] that assms(6)
    have hb: "2 * raw h \<le> raw hard - raw (dec_abs n) + 1" by (simp add: hard_def dec_less_iff)
    have "sz \<le> q" using fl(2) r(5) that by (meson leD order_trans)
    then have "2 * (raw sz * raw fair) \<le> 2 * (raw q * raw fair)"
      using assms(4) by (simp add: dec_le_iff mult_right_mono)
    also have "\<dots> \<le> 2 * raw h * SCALE_I128 + raw fair" by (rule q0(2))
    also have "2 * raw h * SCALE_I128 \<le> (raw hard - raw (dec_abs n) + 1) * SCALE_I128"
      using hb by (intro mult_right_mono) simp_all
    finally show ?thesis by (simp add: algebra_simps)
  qed
  have zero: "raw sz = 0" if "hard \<le> dec_abs n" "\<not> reduce_side sd n"
  proof -
    have "raw q = 0" using hq(1,2) that(1) assms(4) by (auto simp: dec_div_pos)
    then show ?thesis using fl(1,2) r(5) that(2) by (auto simp: dec_le_iff)
  qed
  show ?thesis
    using fl r(3) tops band zero unfolding hard_def by (auto intro: order_trans)
qed

theorem quote_size_in_band_witness:
  "\<exists>sz. quote_size Buy (Dec (10 ^ 20)) ZERO sample_features sample_maker_config = Some sz
    \<and> raw sz * 10 ^ 20 * 2 \<le> (2 * 10 ^ 21 + 1) * 10 ^ 18 + 10 ^ 20"
proof -
  have c: "mc_lot_size sample_maker_config = Dec (10 ^ 15)" "mc_hard_inventory sample_maker_config = Dec (2 * 10 ^ 21)"
    "mc_quote_size sample_maker_config = ONE" "mf_best_bid_size sample_features = ONE"
    "mf_best_ask_size sample_features = ONE"
    by (simp_all add: sample_maker_config_def maker_config_default_with_def sample_features_def)
  have f: "features_validate sample_features = Inr ()"
    by (simp add: features_validate_def sample_features_def dec_le_iff dec_less_iff SCALE_I128_def)
  obtain sz where q: "quote_size Buy (Dec (10 ^ 20)) ZERO sample_features sample_maker_config = Some sz"
    using quote_size_returns [where fair = "Dec (10 ^ 20)" and c = sample_maker_config and sd = Buy
        and n = ZERO and f = sample_features] by (auto simp: c)
  have "raw sz * 10 ^ 20 * 2 \<le> (2 * 10 ^ 21 + 1) * 10 ^ 18 + 10 ^ 20"
    using quote_size_in_band [OF sample_maker_valid f _ _ _ _ _ _ _ q] unit_step_pow10 [of 15]
    by (simp add: c dec_ok_def in_i128_def i128_bounds dec_abs_def checked_i128_def dec_less_iff dec_le_iff SCALE_I128_def)
  then show ?thesis using q by blast
qed

end
