(* ===== verification/HE_Maker_Plan.thy ===== *)
theory HE_Maker_Plan
  imports HE_Policy HE_Coordinator
begin

text \<open>
  The market maker's decision path, policy and coordinator together: what a policy candidate becomes against
  the authoritative slots.
\<close>

lemma side_spec_nothing:
  assumes "side_spec sd f budget c n q"
    and "\<not> mf_healthy f \<or> \<not> as_healthy budget \<or> as_mode budget \<in> {ABM_CancelOnly, ABM_Exhausted}"
  shows "dq_decision q = QD_NoQuote \<and> desired_quote_validate q = Inr ()"
  using assms by (auto simp: side_spec_def desired_quote_validate_def)

text \<open>a blind market maker withdraws. When the market data or the action budget is unhealthy or the
  budget mode forbids quoting, the candidate of the policy, coordinated with any slots that belong to it,
  always yields a plan that places nothing and cancels every settled order of the two slots, expired and
  stale candidates included.\<close>

theorem blind_maker_withdraws:
  assumes "maker_config_validate c = Some (Inr ())"
    and "policy_quote sid session revision slot_revision f invt budget c decision_at = Some (Inr qs)"
    and "\<not> mf_healthy f \<or> \<not> as_healthy budget \<or> as_mode budget \<in> {ABM_CancelOnly, ABM_Exhausted}"
    and "validate_views qs bid ask = Inr ()" and "u64_value (qc_price_hysteresis_ticks qc)"
  shows "\<exists>plan. coordinate qc qs bid ask (mc_tick_size c) now = Some (Inr plan)
    \<and> (\<forall>d \<in> set (qp_diffs plan). \<not> placing d)
    \<and> (\<forall>v own. (v = bid \<or> v = ask) \<and> settled_owner v own \<longrightarrow>
        (\<exists>d \<in> set (qp_diffs plan). qd_action d = QA_Cancel \<and> qd_source d = Some own))"
proof (rule coordinate_no_quote [OF assms(4) _ assms(5)])
  show "0 < raw (mc_tick_size c)" by (rule maker_config_valid(1) [OF assms(1)])
  show "dq_decision q = QD_NoQuote \<and> desired_quote_validate q = Inr ()" if "q = ds_bid qs \<or> q = ds_ask qs" for q
    using side_spec_nothing assms(3) policy_sides_spec(1,2) [OF assms(1,2)] that by blast
qed

definition sample_owned :: "side \<Rightarrow> quote_slot_view" where
  "sample_owned sd = (sample_view sd)\<lparr>sv_owners :=
     [\<lparr>ro_order_id = None, ro_cloid = ''c'', ro_price = ONE, ro_remaining = ONE, ro_status = Acknowledged,
       ro_plan_revision = 0, ro_live_since = 0, ro_exchange_id_known = True\<rparr>]\<rparr>"

definition sample_blind_budget :: action_budget_snapshot where
  "sample_blind_budget =
     \<lparr>as_mode = ABM_CancelOnly, as_address_actions_remaining = 0, as_cancel_headroom = 0,
      as_ip_weight_remaining = 0, as_action_shadow_cost = ZERO, as_observed_at = 0, as_healthy = True\<rparr>"

theorem blind_maker_withdraws_witness:
  "\<exists>qs plan. policy_quote ''mm'' ''s'' 1 0 sample_features sample_flat sample_blind_budget sample_maker_config 1
      = Some (Inr qs)
    \<and> coordinate coordinator_config_default qs (sample_owned Buy) (sample_view Sell)
        (mc_tick_size sample_maker_config) 7 = Some (Inr plan)
    \<and> (\<exists>d \<in> set (qp_diffs plan). qd_action d = QA_Cancel)"
proof -
  have flat: "iv_healthy sample_flat" "ZERO < iv_equity sample_flat"
    by (simp_all add: sample_flat_def dec_less_iff)
  have life: "mf_received_at sample_features < 1 + 10000000000" "0 \<le> mf_market_version sample_features"
    by (simp_all add: sample_features_def)
  have fair: "ZERO < Dec 100000000000000000000" by (simp add: dec_less_iff)
  obtain qs where qs: "policy_quote ''mm'' ''s'' 1 0 sample_features sample_flat sample_blind_budget
      sample_maker_config 1 = Some (Inr qs)"
    using policy_returns [OF sample_maker_valid flat sample_fair fair _ _ life(2) sample_lifetime life(1)]
    by fastforce
  have keys: "ds_strategy_id qs = ''mm''" "ds_symbol qs = ''BTC''"
    using policy_quote_Inr [OF sample_maker_valid qs] by (auto simp: sample_features_def)
  have views: "validate_views qs (sample_owned Buy) (sample_view Sell) = Inr ()"
    by (simp add: validate_views_def check_view_def sample_owned_def sample_view_def current_owner_def keys)
  have blind: "\<not> mf_healthy sample_features \<or> \<not> as_healthy sample_blind_budget \<or>
      as_mode sample_blind_budget \<in> {ABM_CancelOnly, ABM_Exhausted}"
    by (simp add: sample_blind_budget_def)
  have ticks: "u64_value (qc_price_hysteresis_ticks coordinator_config_default)"
    by (simp add: u64_value_def coordinator_config_default_def)
  have own: "\<exists>own. settled_owner (sample_owned Buy) own"
    by (simp add: settled_owner_def sample_owned_def sample_view_def owner_unknown_def owner_inflight_def)
  show ?thesis
    using blind_maker_withdraws [OF sample_maker_valid qs blind views ticks, of 7] qs own by blast
qed

end
