(* ===== verification/HE_Tracker.thy ===== *)
theory HE_Tracker
  imports HE_Models "HOL-Library.AList"
begin

text \<open>
  \<open>crates/trading/src/account/tracker.rs\<close>: positions from fills, fees with the netting of authoritative
  against provisional ones, account state with the running peak, spot balances, funding and the derived
  reads. The hash maps of positions and balances are association lists (the derived sums run over their
  values), the provisional fees a map, the set of applied event ids a set. The lock makes every operation
  atomic; \<open>Utc::now()\<close> is an argument. A fill that panics would be \<open>None\<close>; \<open>update_fill_returns\<close> shows that
  none does. Fill timestamps lie in the range of the
  date type. Logging and the JSON status are left out.
\<close>

section \<open>State\<close>

record fill =
  fi_cloid :: string
  fi_exchange_oid :: string
  fi_symbol :: string
  fi_side :: side
  fi_price :: decimal
  fi_size :: decimal
  fi_fee :: decimal
  fi_is_maker :: bool
  fi_timestamp :: int
  fi_strategy_id :: "string option"
  fi_sub_account :: "string option"
  fi_is_spot :: bool

record tracker =
  tr_positions :: "(string \<times> position) list"
  tr_spot :: "(string \<times> spot_balance) list"
  tr_account :: "account_state option"
  tr_peak :: decimal
  tr_fees :: decimal
  tr_funding :: decimal
  tr_fill_count :: int
  tr_last_update :: "time_ns option"
  tr_last_spot_update :: "time_ns option"
  tr_fill_ids :: "string set"
  tr_provisional :: "string \<Rightarrow> decimal option"

definition tracker_new :: tracker where
  "tracker_new =
     \<lparr>tr_positions = [], tr_spot = [], tr_account = None, tr_peak = ZERO, tr_fees = ZERO, tr_funding = ZERO,
      tr_fill_count = 0, tr_last_update = None, tr_last_spot_update = None, tr_fill_ids = {},
      tr_provisional = Map.empty\<rparr>"

section \<open>Fills\<close>

definition record_fill_accounting :: "fill \<Rightarrow> time_ns \<Rightarrow> tracker \<Rightarrow> tracker" where
  "record_fill_accounting f now t =
     (let fee = dec_abs (fi_fee f) in
      t\<lparr>tr_fees := tr_fees t + fee, tr_fill_count := tr_fill_count t + 1,
        tr_provisional := (tr_provisional t)(fi_cloid f \<mapsto>
          (case tr_provisional t (fi_cloid f) of Some acc \<Rightarrow> acc + fee | None \<Rightarrow> fee)),
        tr_last_update := Some now\<rparr>)"

definition opened_position :: "fill \<Rightarrow> position" where
  "opened_position f =
     \<lparr>ps_symbol = fi_symbol f, ps_size = (if fi_side f = Buy then fi_size f else - fi_size f),
      ps_entry_price = Some (fi_price f), ps_mark_price = Some (fi_price f), ps_unrealized_pnl = None,
      ps_leverage = 0, ps_liquidation_price = None, ps_sub_account = None, ps_strategy_id = None\<rparr>"

text \<open>The volume-weighted entry price after adding to a position.\<close>

definition vwap_entry :: "fill \<Rightarrow> position \<Rightarrow> decimal \<Rightarrow> decimal option" where
  "vwap_entry f pos new_size =
     (let entry = (case ps_entry_price pos of Some e \<Rightarrow> e | None \<Rightarrow> fi_price f);
          old_notional = dec_abs (ps_size pos) * entry;
          new_notional = fi_size f * fi_price f;
          total_size = dec_abs new_size
      in if total_size > ZERO then dec_div (old_notional + new_notional) total_size else Some (fi_price f))"

text \<open>An existing position after a fill: closed (\<open>None\<close>), flipped, increased or reduced.\<close>

definition position_after :: "fill \<Rightarrow> position \<Rightarrow> position option option" where
  "position_after f pos =
     (let is_buy = (fi_side f = Buy); old_size = ps_size pos;
          new_size = (if is_buy then old_size + fi_size f else old_size - fi_size f)
      in if new_size = ZERO then Some None
         else if (old_size > ZERO \<and> new_size < ZERO) \<or> (old_size < ZERO \<and> new_size > ZERO)
         then Some (Some (pos\<lparr>ps_size := new_size, ps_entry_price := Some (fi_price f),
                ps_mark_price := Some (fi_price f)\<rparr>))
         else if (old_size > ZERO \<and> is_buy) \<or> (old_size < ZERO \<and> \<not> is_buy)
         then map_option (\<lambda>e. Some (pos\<lparr>ps_size := new_size, ps_entry_price := Some e,
                ps_mark_price := Some (fi_price f)\<rparr>)) (vwap_entry f pos new_size)
         else Some (Some (pos\<lparr>ps_size := new_size, ps_mark_price := Some (fi_price f)\<rparr>)))"

definition update_fill :: "fill \<Rightarrow> time_ns \<Rightarrow> tracker \<Rightarrow> tracker option" where
  "update_fill f now t =
     (if fi_is_spot f then Some (record_fill_accounting f now t)
      else (case map_of (tr_positions t) (fi_symbol f) of
              None \<Rightarrow> Some (record_fill_accounting f now
                (t\<lparr>tr_positions := AList.update (fi_symbol f) (opened_position f) (tr_positions t)\<rparr>))
            | Some pos \<Rightarrow>
                map_option (\<lambda>r. record_fill_accounting f now (t\<lparr>tr_positions :=
                    (case r of None \<Rightarrow> AList.delete (fi_symbol f) (tr_positions t)
                     | Some p \<Rightarrow> AList.update (fi_symbol f) p (tr_positions t))\<rparr>)) (position_after f pos)))"

text \<open>The validation of an authoritative fill; \<open>Some\<close> the new positions when it passes.\<close>

definition authoritative_positions :: "fill \<Rightarrow> position option \<Rightarrow> (string \<times> position) list \<Rightarrow>
    (string \<times> position) list option" where
  "authoritative_positions f pos ps =
     (if fi_is_spot f then (if pos \<noteq> None then None else Some ps)
      else (case pos of
              None \<Rightarrow> None
            | Some p \<Rightarrow> Some (if position_is_flat p then AList.delete (ps_symbol p) ps
                            else AList.update (ps_symbol p) p ps)))"

definition net_authoritative_fee :: "fill \<Rightarrow> tracker \<Rightarrow> tracker" where
  "net_authoritative_fee f t =
     (let fee = dec_abs (fi_fee f);
          consumed = (case tr_provisional t (fi_cloid f) of Some p \<Rightarrow> dec_min p fee | None \<Rightarrow> ZERO);
          t1 = t\<lparr>tr_fees := tr_fees t + fee - consumed\<rparr>
      in case tr_provisional t (fi_cloid f) of
           Some p \<Rightarrow>
             (let remaining = p - consumed
              in t1\<lparr>tr_provisional := (tr_provisional t)(fi_cloid f :=
                      (if remaining > ZERO then Some remaining else None))\<rparr>)
         | None \<Rightarrow> t1\<lparr>tr_fill_count := tr_fill_count t + 1\<rparr>)"

definition apply_authoritative_fill :: "string \<Rightarrow> fill \<Rightarrow> position option \<Rightarrow> tracker \<Rightarrow> tracker \<times> bool" where
  "apply_authoritative_fill event_id f pos t =
     (if event_id \<in> tr_fill_ids t then (t, False)
      else case authoritative_positions f pos (tr_positions t) of
             None \<Rightarrow> (t, False)
           | Some ps \<Rightarrow>
               ((net_authoritative_fee f (t\<lparr>tr_positions := ps, tr_fill_ids := insert event_id (tr_fill_ids t)\<rparr>))
                 \<lparr>tr_last_update := Some (fi_timestamp f * 1000000)\<rparr>, True))"

section \<open>Exchange state\<close>

definition update_account_state :: "account_state \<Rightarrow> time_ns \<Rightarrow> tracker \<Rightarrow> tracker" where
  "update_account_state st now t =
     (let peak = (if ac_equity st > tr_peak t then ac_equity st else tr_peak t)
      in t\<lparr>tr_peak := peak, tr_account := Some (st\<lparr>ac_peak_equity := peak\<rparr>), tr_last_update := Some now\<rparr>)"

definition update_position_from_exchange :: "string \<Rightarrow> position \<Rightarrow> tracker \<Rightarrow> tracker" where
  "update_position_from_exchange symb p t = t\<lparr>tr_positions := AList.update symb p (tr_positions t)\<rparr>"

definition remove_position :: "string \<Rightarrow> tracker \<Rightarrow> tracker" where
  "remove_position symb t = t\<lparr>tr_positions := AList.delete symb (tr_positions t)\<rparr>"

text \<open>Collecting into the hash map keeps the last balance of a token.\<close>

definition update_spot_balances :: "spot_balance list \<Rightarrow> time_ns \<Rightarrow> tracker \<Rightarrow> tracker" where
  "update_spot_balances bs observed_at t =
     t\<lparr>tr_spot := fold (\<lambda>b. AList.update (sb_token b) b)
           (filter (\<lambda>b. \<not> is_zero (sb_total b) \<or> \<not> is_zero (sb_hold b)) bs) [],
       tr_last_spot_update := Some observed_at,
       tr_last_update := Some (case tr_last_update t of Some prev \<Rightarrow> max prev observed_at | None \<Rightarrow> observed_at)\<rparr>"

definition apply_funding :: "decimal \<Rightarrow> tracker \<Rightarrow> tracker" where
  "apply_funding amount t = t\<lparr>tr_funding := tr_funding t + amount\<rparr>"

section \<open>Reads\<close>

definition get_position :: "string \<Rightarrow> tracker \<Rightarrow> position option" where
  "get_position symb t = map_of (tr_positions t) symb"

definition get_all_positions :: "tracker \<Rightarrow> position list" where
  "get_all_positions t = map snd (tr_positions t)"

definition get_spot_balance :: "string \<Rightarrow> tracker \<Rightarrow> spot_balance option" where
  "get_spot_balance token t = map_of (tr_spot t) token"

definition get_all_spot_balances :: "tracker \<Rightarrow> spot_balance list" where
  "get_all_spot_balances t = map snd (tr_spot t)"

definition current_equity :: "tracker \<Rightarrow> decimal" where
  "current_equity t = (case tr_account t of Some s \<Rightarrow> ac_equity s | None \<Rightarrow> ZERO)"

definition tracker_drawdown :: "tracker \<Rightarrow> f64" where
  "tracker_drawdown t = (case tr_account t of Some s \<Rightarrow> drawdown_pct s | None \<Rightarrow> F64_Fin 0)"

definition get_position_value :: "string \<Rightarrow> tracker \<Rightarrow> decimal" where
  "get_position_value symb t =
     (case get_position symb t of
        Some pos \<Rightarrow> (case ps_mark_price pos of Some mark \<Rightarrow> dec_abs (ps_size pos) * mark | None \<Rightarrow> ZERO)
      | None \<Rightarrow> ZERO)"

definition get_total_position_value :: "tracker \<Rightarrow> decimal" where
  "get_total_position_value t =
     fold (\<lambda>pos total. case ps_mark_price pos of
         Some mark \<Rightarrow> total + dec_abs (ps_size pos) * mark | None \<Rightarrow> total) (get_all_positions t) ZERO"

definition get_leverage :: "tracker \<Rightarrow> f64" where
  "get_leverage t =
     (if current_equity t \<le> ZERO then F64_Fin 0
      else case dec_div (get_total_position_value t) (current_equity t) of
             Some q \<Rightarrow> dec_to_f64 q | None \<Rightarrow> F64_Fin 0)"

section \<open>Facts\<close>

lemma vwap_returns: "\<exists>e. vwap_entry f pos sz = Some e"
  by (auto simp: vwap_entry_def Let_def dec_less_iff dec_div_eq)

lemma position_after_returns: "\<exists>r. position_after f pos = Some r"
  using vwap_returns [of f pos] by (auto simp: position_after_def Let_def)

lemma update_fill_returns: "\<exists>t'. update_fill f now t = Some t'"
  using position_after_returns [of f] by (auto simp: update_fill_def split: option.splits)

text \<open>The signed size that a fill adds, and the size of a symbol (zero when there is no position).\<close>

definition signed_size :: "fill \<Rightarrow> decimal" where
  "signed_size f = (if fi_side f = Buy then fi_size f else - fi_size f)"

definition net_size :: "string \<Rightarrow> tracker \<Rightarrow> decimal" where
  "net_size symb t = (case get_position symb t of Some p \<Rightarrow> ps_size p | None \<Rightarrow> ZERO)"


section \<open>Runs\<close>

datatype tracker_event =
    TE_Fill fill time_ns
  | TE_Auth string fill "position option"
  | TE_Account account_state time_ns
  | TE_Exchange string position
  | TE_Remove string
  | TE_Spot "spot_balance list" time_ns
  | TE_Funding decimal

fun tracker_step :: "tracker_event \<Rightarrow> tracker \<Rightarrow> tracker option" where
  "tracker_step (TE_Fill f now) t = update_fill f now t"
| "tracker_step (TE_Auth i f pos) t = Some (fst (apply_authoritative_fill i f pos t))"
| "tracker_step (TE_Account st now) t = Some (update_account_state st now t)"
| "tracker_step (TE_Exchange symb p) t = Some (update_position_from_exchange symb p t)"
| "tracker_step (TE_Remove symb) t = Some (remove_position symb t)"
| "tracker_step (TE_Spot bs at') t = Some (update_spot_balances bs at' t)"
| "tracker_step (TE_Funding a) t = Some (apply_funding a t)"

fun tracker_run :: "tracker_event list \<Rightarrow> tracker \<Rightarrow> tracker option" where
  "tracker_run [] t = Some t"
| "tracker_run (e # es) t = (case tracker_step e t of None \<Rightarrow> None | Some t' \<Rightarrow> tracker_run es t')"

lemma tracker_step_returns: "\<exists>t'. tracker_step e t = Some t'"
  by (cases e) (auto simp: update_fill_returns)

lemma tracker_run_returns: "\<exists>t'. tracker_run es t = Some t'"
proof (induction es arbitrary: t)
  case (Cons e es) then show ?case using tracker_step_returns [of e t] by auto
qed simp

section \<open>Fees\<close>

text \<open>
  What the authoritative fills that were applied sum to, the provisional amount still outstanding, the fee
  volume that bounds both, the funding received and the peak equity: the reference the tracker is held to.
\<close>

fun authoritative_total :: "tracker_event list \<Rightarrow> tracker \<Rightarrow> int" where
  "authoritative_total [] t = 0"
| "authoritative_total (e # es) t =
     (case e of TE_Auth i f pos \<Rightarrow> if snd (apply_authoritative_fill i f pos t) then \<bar>raw (fi_fee f)\<bar> else 0
      | _ \<Rightarrow> 0) +
     (case tracker_step e t of None \<Rightarrow> 0 | Some t' \<Rightarrow> authoritative_total es t')"

definition map_total :: "(string \<Rightarrow> decimal option) \<Rightarrow> int" where
  "map_total m = (\<Sum>c \<in> dom m. raw (the (m c)))"

definition outstanding :: "tracker \<Rightarrow> int" where
  "outstanding t = map_total (tr_provisional t)"

fun event_fee :: "tracker_event \<Rightarrow> int" where
  "event_fee (TE_Fill f _) = \<bar>raw (fi_fee f)\<bar>"
| "event_fee (TE_Auth _ f _) = \<bar>raw (fi_fee f)\<bar>"
| "event_fee _ = 0"

definition fee_volume :: "tracker_event list \<Rightarrow> int" where
  "fee_volume es = sum_list (map event_fee es)"

fun event_funding :: "tracker_event \<Rightarrow> int" where
  "event_funding (TE_Funding a) = raw a"
| "event_funding _ = 0"

definition funding_total :: "tracker_event list \<Rightarrow> int" where
  "funding_total es = sum_list (map event_funding es)"

definition funding_volume :: "tracker_event list \<Rightarrow> int" where
  "funding_volume es = sum_list (map (\<lambda>e. \<bar>event_funding e\<bar>) es)"

definition equities_of :: "tracker_event list \<Rightarrow> decimal list" where
  "equities_of es = concat (map (\<lambda>e. case e of TE_Account st _ \<Rightarrow> [ac_equity st] | _ \<Rightarrow> []) es)"

definition fees_inv :: "int \<Rightarrow> tracker \<Rightarrow> bool" where
  "fees_inv a t \<longleftrightarrow> finite (dom (tr_provisional t)) \<and> (\<forall>c r. tr_provisional t c = Some r \<longrightarrow> 0 \<le> raw r) \<and>
     0 \<le> a \<and> raw (tr_fees t) = a + outstanding t"

lemma map_total_upd:
  assumes "finite (dom m)"
  shows "map_total (m(c \<mapsto> v)) = map_total m - (case m c of Some r \<Rightarrow> raw r | None \<Rightarrow> 0) + raw v"
proof -
  have "(\<Sum>x \<in> dom m - {c}. raw (the ((m(c \<mapsto> v)) x))) = (\<Sum>x \<in> dom m - {c}. raw (the (m x)))"
    by (rule sum.cong) auto
  then show ?thesis
    using assms by (simp add: map_total_def sum.insert_remove sum_diff1 domIff del: fun_upd_apply)
      (auto split: option.splits)
qed

lemma map_total_del:
  assumes "finite (dom m)"
  shows "map_total (m(c := None)) = map_total m - (case m c of Some r \<Rightarrow> raw r | None \<Rightarrow> 0)"
proof -
  have "(\<Sum>x \<in> dom m - {c}. raw (the ((m(c := None)) x))) = (\<Sum>x \<in> dom m - {c}. raw (the (m x)))"
    by (rule sum.cong) auto
  then show ?thesis
    using assms by (simp add: map_total_def sum_diff1 domIff del: fun_upd_apply) (auto split: option.splits)
qed

lemma outstanding_nonneg: "fees_inv a t \<Longrightarrow> 0 \<le> outstanding t"
  by (auto simp: fees_inv_def outstanding_def map_total_def intro!: sum_nonneg)

lemma outstanding_ge:
  assumes "fees_inv a t" "tr_provisional t c = Some r"
  shows "raw r \<le> outstanding t"
proof -
  have "(\<Sum>x \<in> {c}. raw (the (tr_provisional t x))) \<le> outstanding t"
    unfolding outstanding_def map_total_def using assms by (intro sum_mono2) (auto simp: fees_inv_def)
  then show ?thesis using assms(2) by simp
qed

lemma abs_fee:
  assumes "\<bar>raw d\<bar> \<le> i128_max"
  shows "raw (dec_abs d) = \<bar>raw d\<bar>"
  using assms by (subst raw_abs) (auto simp: dec_ok_def in_i128_def i128_bounds sat_i128_def)

lemma sat_between: "0 \<le> x \<Longrightarrow> x \<le> i128_max \<Longrightarrow> sat_i128 x = x"
  by (simp add: sat_i128_def i128_bounds)

lemma record_fill_fees:
  assumes inv: "fees_inv a t" and fits: "raw (tr_fees t) + \<bar>raw (fi_fee f)\<bar> \<le> i128_max"
  shows "fees_inv a (record_fill_accounting f now t)"
    and "raw (tr_fees (record_fill_accounting f now t)) = raw (tr_fees t) + \<bar>raw (fi_fee f)\<bar>"
proof -
  have nn: "0 \<le> raw (tr_fees t)" using inv outstanding_nonneg [OF inv] by (simp add: fees_inv_def)
  then have fee: "raw (dec_abs (fi_fee f)) = \<bar>raw (fi_fee f)\<bar>" using fits by (intro abs_fee) simp
  have total: "raw (tr_fees t + dec_abs (fi_fee f)) = raw (tr_fees t) + \<bar>raw (fi_fee f)\<bar>"
    using fee nn fits by (simp add: sat_between)
  show "raw (tr_fees (record_fill_accounting f now t)) = raw (tr_fees t) + \<bar>raw (fi_fee f)\<bar>"
    using total by (simp add: record_fill_accounting_def Let_def)
  have part: "raw (r + dec_abs (fi_fee f)) = raw r + \<bar>raw (fi_fee f)\<bar>"
    if "tr_provisional t (fi_cloid f) = Some r" for r
    using outstanding_ge [OF inv that] inv fits fee that by (simp add: fees_inv_def sat_between)
  show "fees_inv a (record_fill_accounting f now t)"
    using inv total part fee
    by (auto simp: fees_inv_def record_fill_accounting_def outstanding_def Let_def map_total_upd
        simp del: raw_add split: option.splits)
qed

lemma net_fee_fees:
  assumes inv: "fees_inv a t" and fits: "raw (tr_fees t) + \<bar>raw (fi_fee f)\<bar> \<le> i128_max"
  shows "fees_inv (a + \<bar>raw (fi_fee f)\<bar>) (net_authoritative_fee f t)"
    and "raw (tr_fees (net_authoritative_fee f t)) \<le> raw (tr_fees t) + \<bar>raw (fi_fee f)\<bar>"
proof -
  let ?fee = "\<bar>raw (fi_fee f)\<bar>" and ?p = "tr_provisional t (fi_cloid f)"
  have nn: "0 \<le> raw (tr_fees t)" using inv outstanding_nonneg [OF inv] by (simp add: fees_inv_def)
  then have fee: "raw (dec_abs (fi_fee f)) = ?fee" using fits by (intro abs_fee) simp
  have total: "raw (tr_fees t + dec_abs (fi_fee f) - c) = raw (tr_fees t) + ?fee - raw c"
    if "0 \<le> raw c" "raw c \<le> ?fee" for c
    using that fee nn fits by (simp add: sat_between)
  have "fees_inv (a + ?fee) (net_authoritative_fee f t) \<and>
      raw (tr_fees (net_authoritative_fee f t)) \<le> raw (tr_fees t) + ?fee"
  proof (cases ?p)
    case None
    have "raw (tr_fees t + dec_abs (fi_fee f) - ZERO) = raw (tr_fees t) + ?fee" using total [of ZERO] by (simp del: raw_add)
    then show ?thesis
      using None inv
      by (simp add: fees_inv_def net_authoritative_fee_def outstanding_def Let_def del: raw_add raw_sub)
  next
    case (Some r)
    have r: "0 \<le> raw r" "raw r \<le> outstanding t" using inv Some outstanding_ge [OF inv Some] by (auto simp: fees_inv_def)
    define c where "c = min r (dec_abs (fi_fee f))"
    have c: "raw c = min (raw r) ?fee" using fee by (auto simp: c_def min_def dec_le_iff)
    then have fees: "raw (tr_fees t + dec_abs (fi_fee f) - c) = raw (tr_fees t) + ?fee - raw c"
      using r by (intro total) auto
    have "raw r \<le> i128_max"
      using r inv fits abs_ge_zero [of "raw (fi_fee f)"] unfolding fees_inv_def by linarith
    then have rest: "raw (r - c) = raw r - raw c" using r c by (auto simp: min_def sat_between)
    have pos: "ZERO < r - c \<longleftrightarrow> raw c < raw r" using rest by (simp add: dec_less_iff)
    have "net_authoritative_fee f t = t\<lparr>tr_fees := tr_fees t + dec_abs (fi_fee f) - c,
        tr_provisional := (tr_provisional t)(fi_cloid f := (if ZERO < r - c then Some (r - c) else None))\<rparr>"
      using Some by (simp add: net_authoritative_fee_def Let_def c_def)
    then show ?thesis
      using inv fees rest pos r c Some
      by (auto simp: fees_inv_def outstanding_def map_total_upd map_total_del simp del: raw_add raw_sub)
  qed
  then show "fees_inv (a + ?fee) (net_authoritative_fee f t)"
    and "raw (tr_fees (net_authoritative_fee f t)) \<le> raw (tr_fees t) + ?fee" by simp_all
qed

text \<open>Every event keeps the fee invariant while the volume fits.\<close>

lemma fees_inv_cong:
  "tr_fees t' = tr_fees t \<Longrightarrow> tr_provisional t' = tr_provisional t \<Longrightarrow> fees_inv a t' = fees_inv a t"
  by (simp add: fees_inv_def outstanding_def)

lemma update_fill_shape:
  "update_fill f now t = Some t' \<Longrightarrow> \<exists>ps. t' = record_fill_accounting f now (t\<lparr>tr_positions := ps\<rparr>)"
  unfolding update_fill_def
  by (auto split: if_splits option.splits intro: exI [of _ "tr_positions t"])

definition authoritative_fee_of :: "tracker_event \<Rightarrow> tracker \<Rightarrow> int" where
  "authoritative_fee_of e t = (case e of TE_Auth i f pos \<Rightarrow>
     if snd (apply_authoritative_fill i f pos t) then \<bar>raw (fi_fee f)\<bar> else 0 | _ \<Rightarrow> 0)"

lemma fill_step_fees:
  assumes inv: "fees_inv a t" and fits: "raw (tr_fees t) + \<bar>raw (fi_fee f)\<bar> \<le> i128_max"
    and step: "update_fill f now t = Some t'"
  shows "fees_inv a t' \<and> raw (tr_fees t') \<le> raw (tr_fees t) + \<bar>raw (fi_fee f)\<bar>"
proof -
  obtain ps where t': "t' = record_fill_accounting f now (t\<lparr>tr_positions := ps\<rparr>)"
    using update_fill_shape [OF step] by (rule exE)
  have "fees_inv a (t\<lparr>tr_positions := ps\<rparr>)" using inv fees_inv_cong [of "t\<lparr>tr_positions := ps\<rparr>" t] by simp
  then show ?thesis using fits record_fill_fees [of a "t\<lparr>tr_positions := ps\<rparr>" f now] by (simp add: t')
qed

lemma authoritative_step_fees:
  assumes inv: "fees_inv a t" and fits: "raw (tr_fees t) + \<bar>raw (fi_fee f)\<bar> \<le> i128_max"
    and step: "apply_authoritative_fill i f pos t = (t', True)"
  shows "fees_inv (a + \<bar>raw (fi_fee f)\<bar>) t' \<and> raw (tr_fees t') \<le> raw (tr_fees t) + \<bar>raw (fi_fee f)\<bar>"
proof -
  obtain ps where t': "t' = (net_authoritative_fee f (t\<lparr>tr_positions := ps,
      tr_fill_ids := insert i (tr_fill_ids t)\<rparr>))\<lparr>tr_last_update := Some (fi_timestamp f * 1000000)\<rparr>"
    using step by (auto simp: apply_authoritative_fill_def split: if_splits option.splits)
  define s where "s = t\<lparr>tr_positions := ps, tr_fill_ids := insert i (tr_fill_ids t)\<rparr>"
  have s: "fees_inv a s" "tr_fees s = tr_fees t"
    using inv fees_inv_cong [of s t] by (simp_all add: s_def)
  have "fees_inv b t' = fees_inv b (net_authoritative_fee f s)" for b
    by (rule fees_inv_cong) (simp_all add: t' s_def)
  then show ?thesis using net_fee_fees [OF s(1), of f] fits by (simp add: t' s_def)
qed

lemma authoritative_refused: "\<not> snd (apply_authoritative_fill i f pos t) \<Longrightarrow> fst (apply_authoritative_fill i f pos t) = t"
  by (auto simp: apply_authoritative_fill_def split: option.splits)

lemma step_fees:
  assumes inv: "fees_inv a t" and fits: "raw (tr_fees t) + event_fee e \<le> i128_max"
    and step: "tracker_step e t = Some t'"
  shows "fees_inv (a + authoritative_fee_of e t) t' \<and> raw (tr_fees t') \<le> raw (tr_fees t) + event_fee e"
proof (cases e)
  case (TE_Fill f now)
  then show ?thesis
    using fill_step_fees [OF inv, of f now t'] fits step by (simp add: authoritative_fee_of_def)
next
  case (TE_Auth i f pos)
  show ?thesis
  proof (cases "snd (apply_authoritative_fill i f pos t)")
    case True
    then have "apply_authoritative_fill i f pos t = (t', True)"
      using step TE_Auth by (simp add: prod_eq_iff)
    then show ?thesis
      using authoritative_step_fees [OF inv] fits True TE_Auth by (simp add: authoritative_fee_of_def)
  next
    case False
    then show ?thesis using step TE_Auth inv by (simp add: authoritative_fee_of_def authoritative_refused)
  qed
qed (use step inv in \<open>auto simp: authoritative_fee_of_def update_account_state_def Let_def
  update_position_from_exchange_def remove_position_def update_spot_balances_def apply_funding_def
  fees_inv_def outstanding_def simp del: fun_upd_apply\<close>)

lemma event_fee_nonneg: "0 \<le> event_fee e"
  by (cases e) simp_all

lemma run_fees:
  assumes "fees_inv a t" "raw (tr_fees t) + fee_volume es \<le> i128_max" "tracker_run es t = Some t'"
  shows "fees_inv (a + authoritative_total es t) t'"
  using assms
proof (induction es arbitrary: a t)
  case (Cons e es)
  from Cons.prems(3) obtain t1 where t1: "tracker_step e t = Some t1" "tracker_run es t1 = Some t'"
    by (auto split: option.splits)
  have "0 \<le> fee_volume es" unfolding fee_volume_def by (rule sum_list_nonneg) (auto simp: event_fee_nonneg)
  then have "raw (tr_fees t) + event_fee e \<le> i128_max" using Cons.prems(2) by (simp add: fee_volume_def)
  then have s: "fees_inv (a + authoritative_fee_of e t) t1" "raw (tr_fees t1) \<le> raw (tr_fees t) + event_fee e"
    using step_fees [OF Cons.prems(1) _ t1(1)] by auto
  have "fees_inv (a + authoritative_fee_of e t + authoritative_total es t1) t'"
    using Cons.prems(2) s t1(2) by (intro Cons.IH) (auto simp: fee_volume_def)
  then show ?case using t1(1) by (simp add: authoritative_fee_of_def add.assoc)
qed simp


section \<open>Funding and peak equity\<close>

lemma sat_abs: "\<bar>x\<bar> \<le> i128_max \<Longrightarrow> sat_i128 x = x"
  by (rule sat_i128_id) (auto simp: in_i128_def i128_bounds abs_le_iff)

lemma fill_frame:
  assumes "update_fill f now t = Some t'"
  shows "tr_funding t' = tr_funding t \<and> tr_peak t' = tr_peak t \<and> tr_account t' = tr_account t
    \<and> tr_spot t' = tr_spot t \<and> tr_fill_ids t' = tr_fill_ids t"
proof -
  obtain ps where "t' = record_fill_accounting f now (t\<lparr>tr_positions := ps\<rparr>)"
    using update_fill_shape [OF assms] by (rule exE)
  then show ?thesis by (simp add: record_fill_accounting_def Let_def)
qed

lemma net_fee_frame:
  "tr_funding (net_authoritative_fee f t) = tr_funding t \<and> tr_peak (net_authoritative_fee f t) = tr_peak t
    \<and> tr_account (net_authoritative_fee f t) = tr_account t
    \<and> tr_positions (net_authoritative_fee f t) = tr_positions t
    \<and> tr_fill_ids (net_authoritative_fee f t) = tr_fill_ids t"
  by (simp add: net_authoritative_fee_def Let_def split: option.splits)

lemma authoritative_frame:
  "tr_funding (fst (apply_authoritative_fill i f pos t)) = tr_funding t
    \<and> tr_peak (fst (apply_authoritative_fill i f pos t)) = tr_peak t
    \<and> tr_account (fst (apply_authoritative_fill i f pos t)) = tr_account t"
  by (simp add: apply_authoritative_fill_def net_fee_frame split: option.splits)

lemma step_funding:
  assumes "tracker_step e t = Some t'" "\<bar>raw (tr_funding t)\<bar> + \<bar>event_funding e\<bar> \<le> i128_max"
  shows "raw (tr_funding t') = raw (tr_funding t) + event_funding e"
proof (cases e)
  case (TE_Fill f now) then show ?thesis using assms fill_frame [of f now t t'] by simp
next
  case (TE_Auth i f pos) then show ?thesis using assms authoritative_frame [of i f pos t] by auto
qed (use assms in \<open>auto simp: update_account_state_def Let_def update_position_from_exchange_def
  remove_position_def update_spot_balances_def apply_funding_def sat_abs\<close>)

lemma run_funding:
  assumes "tracker_run es t = Some t'" "\<bar>raw (tr_funding t)\<bar> + funding_volume es \<le> i128_max"
  shows "raw (tr_funding t') = raw (tr_funding t) + funding_total es"
  using assms
proof (induction es arbitrary: t)
  case (Cons e es)
  from Cons.prems(1) obtain t1 where t1: "tracker_step e t = Some t1" "tracker_run es t1 = Some t'"
    by (auto split: option.splits)
  have "0 \<le> funding_volume es" unfolding funding_volume_def by (rule sum_list_nonneg) auto
  then have s: "raw (tr_funding t1) = raw (tr_funding t) + event_funding e"
    using Cons.prems(2) by (intro step_funding [OF t1(1)]) (simp add: funding_volume_def)
  have "raw (tr_funding t') = raw (tr_funding t1) + funding_total es"
    using Cons.prems(2) s by (intro Cons.IH [OF t1(2)]) (simp add: funding_volume_def)
  then show ?case using s by (simp add: funding_total_def)
qed (simp add: funding_total_def)

definition peak_ok :: "tracker \<Rightarrow> bool" where
  "peak_ok t \<longleftrightarrow> (\<forall>s. tr_account t = Some s \<longrightarrow> ac_peak_equity s = tr_peak t \<and> ac_equity s \<le> tr_peak t)"

definition equity_of :: "tracker_event \<Rightarrow> decimal list" where
  "equity_of e = (case e of TE_Account st _ \<Rightarrow> [ac_equity st] | _ \<Rightarrow> [])"

lemma step_account:
  assumes "tracker_step e t = Some t'" "equity_of e = []"
  shows "tr_account t' = tr_account t \<and> tr_peak t' = tr_peak t"
proof (cases e)
  case (TE_Fill f now) then show ?thesis using assms fill_frame [of f now t t'] by simp
next
  case (TE_Auth i f pos) then show ?thesis using assms authoritative_frame [of i f pos t] by auto
qed (use assms in \<open>auto simp: equity_of_def update_position_from_exchange_def remove_position_def
  update_spot_balances_def apply_funding_def\<close>)

lemma step_peak:
  assumes "tracker_step e t = Some t'" "peak_ok t"
  shows "peak_ok t' \<and> tr_peak t' = fold max (equity_of e) (tr_peak t)"
proof (cases "equity_of e")
  case Nil then show ?thesis using step_account [OF assms(1)] assms(2) by (simp add: peak_ok_def)
next
  case (Cons q qs)
  then obtain st now where "e = TE_Account st now" by (auto simp: equity_of_def split: tracker_event.splits)
  then show ?thesis
    using assms by (auto simp: peak_ok_def equity_of_def update_account_state_def Let_def max_def)
qed

lemma run_peak:
  "tracker_run es t = Some t' \<Longrightarrow> peak_ok t \<Longrightarrow> peak_ok t' \<and> tr_peak t' = fold max (equities_of es) (tr_peak t)"
proof (induction es arbitrary: t)
  case (Cons e es)
  from Cons.prems(1) obtain t1 where t1: "tracker_step e t = Some t1" "tracker_run es t1 = Some t'"
    by (auto split: option.splits)
  have eq: "equities_of (e # es) = equity_of e @ equities_of es"
    by (simp add: equities_of_def equity_of_def)
  show ?case using Cons.IH [OF t1(2)] step_peak [OF t1(1) Cons.prems(2)] by (simp add: eq)
qed (simp add: equities_of_def)

section \<open>Net positions\<close>

text \<open>
  The size of a symbol as the events tell it: fills add their signed size, the exchange states (a
  projection, a reconciled position, a removal) replace it.
\<close>

definition net_event :: "string \<Rightarrow> tracker_event \<Rightarrow> tracker \<Rightarrow> int \<Rightarrow> int" where
  "net_event symb e t n =
     (case e of
        TE_Fill f _ \<Rightarrow> (if \<not> fi_is_spot f \<and> fi_symbol f = symb then n + raw (signed_size f) else n)
      | TE_Auth i f pos \<Rightarrow> (if snd (apply_authoritative_fill i f pos t) then
            (case pos of Some p \<Rightarrow> if ps_symbol p = symb then raw (ps_size p) else n | None \<Rightarrow> n) else n)
      | TE_Exchange s p \<Rightarrow> (if s = symb then raw (ps_size p) else n)
      | TE_Remove s \<Rightarrow> (if s = symb then 0 else n)
      | _ \<Rightarrow> n)"

fun net_reference :: "string \<Rightarrow> tracker_event list \<Rightarrow> tracker \<Rightarrow> int \<Rightarrow> int" where
  "net_reference symb [] t n = n"
| "net_reference symb (e # es) t n =
     (case tracker_step e t of None \<Rightarrow> n | Some t' \<Rightarrow> net_reference symb es t' (net_event symb e t n))"

fun event_size :: "tracker_event \<Rightarrow> int" where
  "event_size (TE_Fill f _) = \<bar>raw (fi_size f)\<bar>"
| "event_size (TE_Auth _ _ (Some p)) = \<bar>raw (ps_size p)\<bar>"
| "event_size (TE_Exchange _ p) = \<bar>raw (ps_size p)\<bar>"
| "event_size _ = 0"

definition size_volume :: "tracker_event list \<Rightarrow> int" where
  "size_volume es = sum_list (map event_size es)"

lemma raw_signed_size:
  "\<bar>raw (fi_size f)\<bar> \<le> i128_max \<Longrightarrow>
    raw (signed_size f) = (if fi_side f = Buy then raw (fi_size f) else - raw (fi_size f))"
  by (simp add: signed_size_def sat_abs)


lemma net_size_cong: "tr_positions t' = tr_positions t \<Longrightarrow> net_size symb t' = net_size symb t"
  by (simp add: net_size_def get_position_def)

lemma net_size_update:
  "tr_positions t' = AList.update s p (tr_positions t) \<Longrightarrow>
    net_size symb t' = (if s = symb then ps_size p else net_size symb t)"
  by (simp add: net_size_def get_position_def update_conv')

lemma net_size_delete:
  "tr_positions t' = AList.delete s (tr_positions t) \<Longrightarrow>
    net_size symb t' = (if s = symb then ZERO else net_size symb t)"
  by (simp add: net_size_def get_position_def delete_conv')

text \<open>What a fill leaves of an existing position.\<close>

lemma position_after_size:
  assumes "position_after f pos = Some r" "\<bar>raw (ps_size pos)\<bar> + \<bar>raw (fi_size f)\<bar> \<le> i128_max"
  shows "raw (case r of Some p \<Rightarrow> ps_size p | None \<Rightarrow> ZERO) = raw (ps_size pos) + raw (signed_size f)"
proof -
  have "raw (if fi_side f = Buy then ps_size pos + fi_size f else ps_size pos - fi_size f) =
      raw (ps_size pos) + raw (signed_size f)"
    using assms(2) by (auto simp: raw_signed_size sat_abs)
  then show ?thesis
    using assms(1) unfolding position_after_def Let_def
    by (auto simp del: raw_add raw_sub split: if_splits)
qed

lemma record_fill_positions: "tr_positions (record_fill_accounting f now t) = tr_positions t"
  by (simp add: record_fill_accounting_def Let_def)

lemma fill_positions:
  assumes "update_fill f now t = Some t'"
  shows "tr_positions t' =
     (if fi_is_spot f then tr_positions t
      else case map_of (tr_positions t) (fi_symbol f) of
        None \<Rightarrow> AList.update (fi_symbol f) (opened_position f) (tr_positions t)
      | Some pos \<Rightarrow> (case position_after f pos of
            Some (Some p) \<Rightarrow> AList.update (fi_symbol f) p (tr_positions t)
          | _ \<Rightarrow> AList.delete (fi_symbol f) (tr_positions t)))"
proof (cases "fi_is_spot f")
  case False
  show ?thesis
  proof (cases "map_of (tr_positions t) (fi_symbol f)")
    case (Some pos)
    obtain r where "position_after f pos = Some r" using position_after_returns by blast
    then show ?thesis
      using assms False Some by (cases r) (auto simp: update_fill_def record_fill_positions)
  qed (use assms False in \<open>auto simp: update_fill_def record_fill_positions\<close>)
qed (use assms in \<open>auto simp: update_fill_def record_fill_positions\<close>)

lemma fill_net:
  assumes step: "update_fill f now t = Some t'"
    and fits: "\<bar>raw (net_size (fi_symbol f) t)\<bar> + \<bar>raw (fi_size f)\<bar> \<le> i128_max"
  shows "raw (net_size symb t') =
    raw (net_size symb t) + (if \<not> fi_is_spot f \<and> fi_symbol f = symb then raw (signed_size f) else 0)"
proof (cases "fi_is_spot f")
  case True
  then show ?thesis using fill_positions [OF step] net_size_cong [of t' t symb] by simp
next
  case False
  show ?thesis
  proof (cases "map_of (tr_positions t) (fi_symbol f)")
    case None
    then have "raw (net_size (fi_symbol f) t) = 0" by (simp add: net_size_def get_position_def)
    then show ?thesis
      using None False fill_positions [OF step] net_size_update [of t' "fi_symbol f" "opened_position f" t symb]
      by (auto simp: opened_position_def signed_size_def)
  next
    case (Some pos)
    obtain r where r: "position_after f pos = Some r" using position_after_returns by blast
    have n: "net_size (fi_symbol f) t = ps_size pos" using Some by (simp add: net_size_def get_position_def)
    note sz = position_after_size [OF r] 
    show ?thesis
    proof (cases r)
      case None
      then have "tr_positions t' = AList.delete (fi_symbol f) (tr_positions t)"
        using fill_positions [OF step] Some False r by simp
      then show ?thesis using net_size_delete [of t' "fi_symbol f" t symb] sz None fits n False by auto
    next
      case (Some p)
      then have "tr_positions t' = AList.update (fi_symbol f) p (tr_positions t)"
        using fill_positions [OF step] \<open>map_of _ _ = Some pos\<close> False r by simp
      then show ?thesis using net_size_update [of t' "fi_symbol f" p t symb] sz Some fits n False by auto
    qed
  qed
qed

lemma authoritative_positions_applied:
  assumes "snd (apply_authoritative_fill i f pos t)"
  shows "tr_positions (fst (apply_authoritative_fill i f pos t)) =
    (case pos of None \<Rightarrow> tr_positions t
     | Some p \<Rightarrow> if position_is_flat p then AList.delete (ps_symbol p) (tr_positions t)
                else AList.update (ps_symbol p) p (tr_positions t))"
  using assms by (auto simp: apply_authoritative_fill_def authoritative_positions_def net_fee_frame
      split: if_splits option.splits)

lemma step_net:
  assumes step: "tracker_step e t = Some t'"
    and fits: "\<forall>s. \<bar>raw (net_size s t)\<bar> + event_size e \<le> i128_max"
  shows "raw (net_size symb t') = net_event symb e t (raw (net_size symb t))"
proof (cases e)
  case (TE_Fill f now)
  then show ?thesis using step fits fill_net [of f now t t' symb] by (auto simp: net_event_def)
next
  case (TE_Auth i f pos)
  then have t': "t' = fst (apply_authoritative_fill i f pos t)" using step by simp
  show ?thesis
  proof (cases "snd (apply_authoritative_fill i f pos t)")
    case True
    note ps = authoritative_positions_applied [OF True, folded t']
    show ?thesis
    proof (cases pos)
      case None
      then show ?thesis using ps TE_Auth True net_size_cong [of t' t symb] by (simp add: net_event_def)
    next
      case (Some p)
      then show ?thesis
        using ps TE_Auth True net_size_delete [of t' "ps_symbol p" t symb]
          net_size_update [of t' "ps_symbol p" p t symb]
        by (auto simp: net_event_def position_is_flat_def is_zero_def split: if_splits)
    qed
  next
    case False
    then show ?thesis using TE_Auth t' by (simp add: net_event_def authoritative_refused)
  qed
next
  case (TE_Account st now)
  then have "tr_positions t' = tr_positions t" using step by (auto simp: update_account_state_def Let_def)
  then show ?thesis using TE_Account net_size_cong [of t' t symb] by (simp add: net_event_def)
next
  case (TE_Exchange s p)
  then have "tr_positions t' = AList.update s p (tr_positions t)"
    using step by (auto simp: update_position_from_exchange_def)
  then show ?thesis using TE_Exchange net_size_update [of t' s p t symb] by (simp add: net_event_def)
next
  case (TE_Remove s)
  then have "tr_positions t' = AList.delete s (tr_positions t)" using step by (auto simp: remove_position_def)
  then show ?thesis using TE_Remove net_size_delete [of t' s t symb] by (simp add: net_event_def)
next
  case (TE_Spot bs at')
  then have "tr_positions t' = tr_positions t" using step by (auto simp: update_spot_balances_def)
  then show ?thesis using TE_Spot net_size_cong [of t' t symb] by (simp add: net_event_def)
next
  case (TE_Funding d)
  then have "tr_positions t' = tr_positions t" using step by (auto simp: apply_funding_def)
  then show ?thesis using TE_Funding net_size_cong [of t' t symb] by (simp add: net_event_def)
qed

lemma net_event_bound:
  assumes "\<bar>n\<bar> \<le> b" "0 \<le> b" "event_size e \<le> i128_max"
  shows "\<bar>net_event symb e t n\<bar> \<le> b + event_size e"
  using assms
  by (cases e; cases "case e of TE_Auth _ _ pos \<Rightarrow> pos | _ \<Rightarrow> None")
    (auto simp: net_event_def raw_signed_size)

lemma event_size_nonneg: "0 \<le> event_size e"
  by (cases e rule: event_size.cases) simp_all

lemma run_net:
  assumes "tracker_run es t = Some t'" "\<forall>s. \<bar>raw (net_size s t)\<bar> \<le> b" "0 \<le> b"
    "b + size_volume es \<le> i128_max"
  shows "raw (net_size symb t') = net_reference symb es t (raw (net_size symb t))"
  using assms
proof (induction es arbitrary: t b)
  case (Cons e es)
  from Cons.prems(1) obtain t1 where t1: "tracker_step e t = Some t1" "tracker_run es t1 = Some t'"
    by (auto split: option.splits)
  have vol: "size_volume (e # es) = event_size e + size_volume es" "0 \<le> size_volume es"
    by (auto simp: size_volume_def event_size_nonneg intro!: sum_list_nonneg)
  have "\<bar>raw (net_size s t)\<bar> + event_size e \<le> i128_max" for s
    using Cons.prems(2)[rule_format, of s] Cons.prems(4) vol by linarith
  then have n1: "raw (net_size s t1) = net_event s e t (raw (net_size s t))" for s
    using step_net [OF t1(1)] by blast
  have "event_size e \<le> i128_max" using Cons.prems(3,4) vol by linarith
  then have "\<forall>s. \<bar>raw (net_size s t1)\<bar> \<le> b + event_size e"
    using net_event_bound Cons.prems(2,3) by (simp add: n1)
  then have "raw (net_size symb t') = net_reference symb es t1 (raw (net_size symb t1))"
    using Cons.prems(3,4) vol event_size_nonneg [of e] by (intro Cons.IH [OF t1(2), of "b + event_size e"]) auto
  then show ?case using t1(1) by (simp add: n1)
qed simp


section \<open>Entry prices\<close>

text \<open>
  The volume-weighted mean is computed with three roundings: two products, each within half a unit, and a
  quotient within half a unit.
\<close>

lemma weighted_mean_error:
  fixes a b u v :: int
  assumes "0 < s" "0 < n" and q: "q = half_up ((half_up (a * u) s + half_up (b * v) s) * s) n"
  shows "\<bar>2 * n * q - 2 * (a * u + b * v)\<bar> \<le> 2 * s + n"
proof -
  have "\<bar>2 * s * half_up (a * u) s - 2 * (a * u)\<bar> \<le> s" "\<bar>2 * s * half_up (b * v) s - 2 * (b * v)\<bar> \<le> s"
    using half_up_error [OF assms(1)] by blast+
  moreover have "\<bar>2 * n * q - 2 * ((half_up (a * u) s + half_up (b * v) s) * s)\<bar> \<le> n"
    unfolding q by (rule half_up_error [OF assms(2)])
  ultimately show ?thesis by (simp add: algebra_simps)
qed

lemma half_up_le: "0 < s \<Longrightarrow> p \<le> k * s \<Longrightarrow> half_up p s \<le> k"
  using half_up_mono [of s p "k * s"] by simp

lemma vwap_entry_value:
  assumes a: "\<bar>raw (ps_size pos)\<bar> \<le> i128_max" and b: "0 < raw (fi_size f)"
    and e: "ps_entry_price pos = Some e" "0 \<le> raw e" "raw e \<le> i128_max - SCALE_I128"
    and p: "0 \<le> raw (fi_price f)" "raw (fi_price f) \<le> i128_max - SCALE_I128"
    and n: "raw (dec_abs sz) = \<bar>raw (ps_size pos)\<bar> + raw (fi_size f)"
    and fits: "\<bar>raw (ps_size pos)\<bar> * raw e + raw (fi_size f) * raw (fi_price f) \<le> (i128_max - 1) * SCALE_I128"
  shows "\<exists>q. vwap_entry f pos sz = Some q \<and>
    \<bar>2 * raw (dec_abs sz) * raw q - 2 * (\<bar>raw (ps_size pos)\<bar> * raw e + raw (fi_size f) * raw (fi_price f))\<bar>
      \<le> 2 * SCALE_I128 + raw (dec_abs sz)"
proof -
  define A B N where "A = \<bar>raw (ps_size pos)\<bar>" and "B = raw (fi_size f)" and "N = raw (dec_abs sz)"
  define u v where "u = raw e" and "v = raw (fi_price f)"
  define x where "x = half_up (A * u) SCALE_I128 + half_up (B * v) SCALE_I128"
  have nn: "0 \<le> A" "0 < B" "0 \<le> u" "0 \<le> v" "N = A + B" "1 \<le> N"
    using b e p n by (auto simp: A_def B_def N_def u_def v_def)
  have parts: "0 \<le> half_up (A * u) SCALE_I128" "0 \<le> half_up (B * v) SCALE_I128"
    using nn by (auto intro!: half_up_sign)
  have "\<bar>2 * SCALE_I128 * half_up (A * u) SCALE_I128 - 2 * (A * u)\<bar> \<le> SCALE_I128"
    "\<bar>2 * SCALE_I128 * half_up (B * v) SCALE_I128 - 2 * (B * v)\<bar> \<le> SCALE_I128"
    using half_up_error by simp_all
  then have xS: "x * SCALE_I128 \<le> A * u + B * v + SCALE_I128" by (simp add: x_def algebra_simps)
  have "A * u + B * v + SCALE_I128 \<le> i128_max * SCALE_I128"
    using fits by (simp add: A_def B_def u_def v_def algebra_simps)
  then have x: "x \<le> i128_max" using xS by (meson SCALE_I128_pos(1) mult_le_cancel_right_pos order_trans)
  have "A * u + B * v \<le> A * (i128_max - SCALE_I128) + B * (i128_max - SCALE_I128)"
    using nn e p by (intro add_mono mult_left_mono) (auto simp: u_def v_def)
  also have "\<dots> = N * (i128_max - SCALE_I128)" using nn by (simp add: algebra_simps)
  finally have "A * u + B * v + SCALE_I128 \<le> N * (i128_max - SCALE_I128) + N * SCALE_I128"
    using nn by (simp add: add_mono)
  then have "x * SCALE_I128 \<le> i128_max * N" using xS by (simp add: algebra_simps)
  then have q: "half_up (x * SCALE_I128) N \<le> i128_max" "0 \<le> half_up (x * SCALE_I128) N"
    using nn parts by (auto intro!: half_up_le half_up_sign simp: x_def)
  have "raw (dec_abs (ps_size pos) * e + fi_size f * fi_price f) = x"
    using nn parts x abs_fee [OF a] by (simp add: sat_between x_def A_def B_def u_def v_def)
  then have "vwap_entry f pos sz = Some (Dec (half_up (x * SCALE_I128) N))"
    using nn e q by (simp add: vwap_entry_def Let_def dec_less_iff dec_div_pos N_def sat_between del: raw_add)
  then show ?thesis
    using weighted_mean_error [of SCALE_I128 N "half_up (x * SCALE_I128) N" A u B v] nn
    by (simp add: x_def A_def B_def N_def u_def v_def)
qed

text \<open>The branches of a fill on an existing position, over the exact sizes.\<close>

definition resized :: "fill \<Rightarrow> position \<Rightarrow> decimal" where
  "resized f pos = (if fi_side f = Buy then ps_size pos + fi_size f else ps_size pos - fi_size f)"

definition grows :: "fill \<Rightarrow> int \<Rightarrow> bool" where
  "grows f old \<longleftrightarrow> old > 0 \<and> fi_side f = Buy \<or> old < 0 \<and> fi_side f \<noteq> Buy"

lemma raw_resized:
  assumes "0 < raw (fi_size f)" "\<bar>raw (ps_size pos)\<bar> + raw (fi_size f) \<le> i128_max"
  shows "raw (resized f pos) = raw (ps_size pos) + raw (signed_size f)"
    and "raw (signed_size f) = (if fi_side f = Buy then raw (fi_size f) else - raw (fi_size f))"
proof -
  show signed: "raw (signed_size f) = (if fi_side f = Buy then raw (fi_size f) else - raw (fi_size f))"
    using assms by (intro raw_signed_size) simp
  show "raw (resized f pos) = raw (ps_size pos) + raw (signed_size f)"
    using assms signed by (auto simp: resized_def sat_abs)
qed

lemma position_after_code:
  assumes "raw (resized f pos) = n" "raw (ps_size pos) = old"
  shows "position_after f pos =
      (if n = 0 then Some None
       else if old > 0 \<and> n < 0 \<or> old < 0 \<and> n > 0
       then Some (Some (pos\<lparr>ps_size := resized f pos, ps_entry_price := Some (fi_price f),
              ps_mark_price := Some (fi_price f)\<rparr>))
       else if grows f old
       then map_option (\<lambda>e. Some (pos\<lparr>ps_size := resized f pos, ps_entry_price := Some e,
              ps_mark_price := Some (fi_price f)\<rparr>)) (vwap_entry f pos (resized f pos))
       else Some (Some (pos\<lparr>ps_size := resized f pos, ps_mark_price := Some (fi_price f)\<rparr>)))"
proof -
  have "ps_size pos > ZERO \<longleftrightarrow> old > 0" "ps_size pos < ZERO \<longleftrightarrow> old < 0"
    "resized f pos = ZERO \<longleftrightarrow> n = 0" "resized f pos > ZERO \<longleftrightarrow> n > 0" "resized f pos < ZERO \<longleftrightarrow> n < 0"
    using assms by (auto simp: dec_less_iff dec_eq_iff)
  then show ?thesis
    unfolding position_after_def Let_def resized_def [symmetric] grows_def by simp
qed

section \<open>Properties\<close>

text \<open>C25: the ledgers of the tracker. From a new tracker, for every sequence of local fills, committed
  exchange fills, account states, exchange positions, spot balances and funding payments whose fee and
  funding volumes fit the decimal range, the run ends, total fees are exactly the authoritative fees that
  were applied plus the provisional fees still outstanding (none of them negative), total funding is the sum
  of the payments, and the peak is the largest equity seen, which the stored account state carries and its
  equity never exceeds.
\<close>

theorem tracker_ledgers:
  assumes "fee_volume es \<le> i128_max" and "funding_volume es \<le> i128_max"
  shows "\<exists>t. tracker_run es tracker_new = Some t
    \<and> raw (tr_fees t) = authoritative_total es tracker_new + outstanding t
    \<and> (\<forall>c r. tr_provisional t c = Some r \<longrightarrow> 0 \<le> raw r)
    \<and> raw (tr_funding t) = funding_total es
    \<and> tr_peak t = fold max (equities_of es) ZERO
    \<and> (\<forall>s. tr_account t = Some s \<longrightarrow> ac_peak_equity s = tr_peak t \<and> ac_equity s \<le> tr_peak t)"
proof -
  obtain t where t: "tracker_run es tracker_new = Some t" using tracker_run_returns by blast
  have "fees_inv 0 tracker_new" by (simp add: fees_inv_def outstanding_def map_total_def tracker_new_def)
  from run_fees [OF this _ t] assms(1) have fees: "fees_inv (authoritative_total es tracker_new) t"
    by (simp add: tracker_new_def)
  have "raw (tr_funding t) = funding_total es"
    using run_funding [OF t] assms(2) by (simp add: tracker_new_def)
  moreover have "peak_ok tracker_new" by (simp add: peak_ok_def tracker_new_def)
  with run_peak [OF t] have "peak_ok t \<and> tr_peak t = fold max (equities_of es) ZERO"
    by (simp add: tracker_new_def)
  ultimately show ?thesis using t fees unfolding fees_inv_def peak_ok_def by blast
qed

text \<open>C26: the positions of the tracker are the ones of the reference account. For every sequence of events
  whose sizes fit the decimal range, the net size of every symbol is what the events say of it: the last
  exchange statement plus the signed sizes of the perpetual fills since. An authoritative fill whose event
  id was applied before, or that is malformed, changes nothing at all.
\<close>

theorem tracker_net_position:
  assumes "size_volume es \<le> i128_max" and "tracker_run es tracker_new = Some t"
  shows "raw (net_size symb t) = net_reference symb es tracker_new 0
    \<and> (i \<in> tr_fill_ids t \<or> (fi_is_spot f \<longleftrightarrow> pos \<noteq> None) \<longrightarrow> apply_authoritative_fill i f pos t = (t, False))
    \<and> (i \<in> tr_fill_ids (fst (apply_authoritative_fill i f pos t)) \<longleftrightarrow>
        i \<in> tr_fill_ids t \<or> snd (apply_authoritative_fill i f pos t))"
proof -
  have zero: "net_size s tracker_new = ZERO" for s by (simp add: net_size_def get_position_def tracker_new_def)
  have "raw (net_size symb t) = net_reference symb es tracker_new 0"
    using run_net [OF assms(2), of 0 symb] assms(1) by (simp add: zero)
  then show ?thesis
    by (auto simp: apply_authoritative_fill_def authoritative_positions_def net_fee_frame split: option.splits)
qed



text \<open>What a fill does to an existing position. With a positive fill size and values in range, the fill
  closes the position exactly when the signed sizes cancel; otherwise it has the sum as its size and the
  fill price as its mark price. A flip takes the fill price as entry, a reduction keeps the old entry, and
  an increase moves the entry to the volume-weighted mean, off by at most the three half-unit roundings.
\<close>

theorem fill_entry_price:
  assumes "position_after f pos = Some r"
    and "ps_entry_price pos = Some e" and "0 \<le> raw e" and "raw e \<le> i128_max - SCALE_I128"
    and "0 \<le> raw (fi_price f)" and "raw (fi_price f) \<le> i128_max - SCALE_I128"
    and "ps_size pos \<noteq> ZERO" and "0 < raw (fi_size f)"
    and "\<bar>raw (ps_size pos)\<bar> + raw (fi_size f) \<le> i128_max"
    and "\<bar>raw (ps_size pos)\<bar> * raw e + raw (fi_size f) * raw (fi_price f) \<le> (i128_max - 1) * SCALE_I128"
    and "old = raw (ps_size pos)" and "n = old + raw (signed_size f)"
  shows "(r = None \<longleftrightarrow> n = 0)
    \<and> (\<forall>p. r = Some p \<longrightarrow> raw (ps_size p) = n \<and> ps_symbol p = ps_symbol pos \<and> ps_mark_price p = Some (fi_price f)
        \<and> (sgn n \<noteq> sgn old \<longrightarrow> ps_entry_price p = Some (fi_price f))
        \<and> (sgn n = sgn old \<and> \<bar>n\<bar> < \<bar>old\<bar> \<longrightarrow> ps_entry_price p = Some e)
        \<and> (sgn n = sgn old \<and> \<bar>old\<bar> < \<bar>n\<bar> \<longrightarrow> (\<exists>q. ps_entry_price p = Some q
            \<and> \<bar>2 * \<bar>n\<bar> * raw q - 2 * (\<bar>old\<bar> * raw e + raw (fi_size f) * raw (fi_price f))\<bar>
                \<le> 2 * SCALE_I128 + \<bar>n\<bar>)))"
proof -
  note sz = raw_resized [OF assms(8,9), folded assms(11), folded assms(12)]
  note code = position_after_code [OF sz(1) assms(11) [symmetric]]
  have old: "old \<noteq> 0" using assms(7) by (auto simp: assms(11) dec_eq_iff)
  have mean: "\<exists>q. vwap_entry f pos (resized f pos) = Some q
      \<and> \<bar>2 * \<bar>n\<bar> * raw q - 2 * (\<bar>old\<bar> * raw e + raw (fi_size f) * raw (fi_price f))\<bar> \<le> 2 * SCALE_I128 + \<bar>n\<bar>"
    if "grows f old"
  proof -
    have an: "\<bar>n\<bar> = \<bar>old\<bar> + raw (fi_size f)" using that assms(8) sz by (auto simp: assms(12) grows_def)
    then have "raw (dec_abs (resized f pos)) = \<bar>n\<bar>" using assms(9) by (simp add: sz(1) assms(11) abs_fee)
    then show ?thesis
      using vwap_entry_value [OF _ assms(8,2,3,4,5,6), of "resized f pos"] assms(8,9,10) an by (simp add: assms(11))
  qed
  consider (closed) "n = 0" | (flip) "n \<noteq> 0" "old > 0 \<and> n < 0 \<or> old < 0 \<and> n > 0"
    | (grow) "n \<noteq> 0" "\<not> (old > 0 \<and> n < 0 \<or> old < 0 \<and> n > 0)" "grows f old"
    | (shrink) "n \<noteq> 0" "\<not> (old > 0 \<and> n < 0 \<or> old < 0 \<and> n > 0)" "\<not> grows f old"
    by blast
  then show ?thesis
  proof cases
    case closed then show ?thesis using assms(1) code by auto
  next
    case flip then show ?thesis using assms(1) code sz by (auto simp: sgn_if)
  next
    case grow
    then obtain q where "vwap_entry f pos (resized f pos) = Some q" and
      "\<bar>2 * \<bar>n\<bar> * raw q - 2 * (\<bar>old\<bar> * raw e + raw (fi_size f) * raw (fi_price f))\<bar> \<le> 2 * SCALE_I128 + \<bar>n\<bar>"
      using mean by blast
    moreover have "\<bar>old\<bar> < \<bar>n\<bar>" "sgn n = sgn old"
      using grow assms(8) sz by (auto simp: assms(12) sgn_if grows_def)
    ultimately show ?thesis using assms(1) code grow sz by auto
  next
    case shrink
    then have "\<bar>n\<bar> < \<bar>old\<bar>" "sgn n = sgn old"
      using old assms(8) sz by (auto simp: assms(12) sgn_if grows_def split: if_splits)
    then show ?thesis using assms(1,2) code shrink sz by auto
  qed
qed

section \<open>Examples\<close>

definition sample_fill :: "side \<Rightarrow> int \<Rightarrow> int \<Rightarrow> int \<Rightarrow> fill" where
  "sample_fill sd price size' fee =
     \<lparr>fi_cloid = ''c1'', fi_exchange_oid = ''1'', fi_symbol = ''BTC'', fi_side = sd,
      fi_price = Dec (price * SCALE_I128), fi_size = Dec (size' * SCALE_I128), fi_fee = Dec (fee * SCALE_I128),
      fi_is_maker = True, fi_timestamp = 0, fi_strategy_id = None, fi_sub_account = None, fi_is_spot = False\<rparr>"

definition sample_tracker_events :: "tracker_event list" where
  "sample_tracker_events =
     [TE_Fill (sample_fill Buy 100 2 2) 1, TE_Funding (Dec 7),
      TE_Auth ''e1'' (sample_fill Buy 100 2 3) (Some (opened_position (sample_fill Buy 100 2 3))),
      TE_Fill (sample_fill Buy 110 2 1) 2]"

lemma sample_authoritative: "authoritative_total sample_tracker_events tracker_new = 3 * SCALE_I128"
  by code_simp

theorem tracker_ledgers_witness:
  "\<exists>t. tracker_run sample_tracker_events tracker_new = Some t
    \<and> raw (tr_fees t) = 3 * SCALE_I128 + outstanding t \<and> raw (tr_funding t) = 7"
proof -
  have "fee_volume sample_tracker_events \<le> i128_max" "funding_volume sample_tracker_events \<le> i128_max"
    "funding_total sample_tracker_events = 7"
    by (simp_all add: fee_volume_def funding_volume_def funding_total_def sample_tracker_events_def
        sample_fill_def SCALE_I128_def i128_bounds)
  then show ?thesis using tracker_ledgers [of sample_tracker_events] sample_authoritative by auto
qed


theorem tracker_net_position_witness:
  "\<exists>t. tracker_run sample_tracker_events tracker_new = Some t \<and> raw (net_size ''BTC'' t) = 4 * SCALE_I128
    \<and> apply_authoritative_fill ''e1'' (sample_fill Buy 100 2 3) None t = (t, False)"
proof -
  obtain t where t: "tracker_run sample_tracker_events tracker_new = Some t" using tracker_run_returns by blast
  have "size_volume sample_tracker_events \<le> i128_max"
    by (simp add: size_volume_def sample_tracker_events_def sample_fill_def opened_position_def
        SCALE_I128_def i128_bounds)
  moreover have "net_reference ''BTC'' sample_tracker_events tracker_new 0 = 4 * SCALE_I128" by code_simp
  ultimately show ?thesis
    using t tracker_net_position [of sample_tracker_events t "''BTC''" "''e1''" "sample_fill Buy 100 2 3" None]
    by (auto simp: sample_fill_def)
qed

text \<open>A purchase of 2 at 110 on top of 2 at 100 leaves 4 with an entry price of 105.\<close>

definition sample_pos :: position where
  "sample_pos = opened_position (sample_fill Buy 100 2 2)"

theorem fill_entry_price_witness:
  "\<exists>p q. position_after (sample_fill Buy 110 2 1) sample_pos = Some (Some p)
    \<and> raw (ps_size p) = 4 * SCALE_I128 \<and> ps_entry_price p = Some q
    \<and> \<bar>2 * (4 * SCALE_I128) * raw q - 2 * (420 * SCALE_I128 * SCALE_I128)\<bar> \<le> 6 * SCALE_I128"
proof -
  let ?f = "sample_fill Buy 110 2 1"
  obtain r where r: "position_after ?f sample_pos = Some r" using position_after_returns by blast
  have facts: "ps_entry_price sample_pos = Some (Dec (100 * SCALE_I128))" "fi_price ?f = Dec (110 * SCALE_I128)"
    "fi_size ?f = Dec (2 * SCALE_I128)" "ps_size sample_pos = Dec (2 * SCALE_I128)"
    "raw (signed_size ?f) = 2 * SCALE_I128"
    by (simp_all add: sample_pos_def opened_position_def sample_fill_def signed_size_def)
  show ?thesis
    using fill_entry_price [OF r facts(1), of "2 * SCALE_I128" "4 * SCALE_I128"] r facts
    by (cases r) (auto simp: SCALE_I128_def i128_bounds dec_eq_iff)
qed

text \<open>
  A provisional fee above the authoritative one is never taken back: the total stays at the estimate while
  the authoritative fees sum to less.
\<close>

lemma provisional_estimate_stays:
  "tr_fees (fst (apply_authoritative_fill ''e1'' (sample_fill Buy 100 2 2)
      (Some (opened_position (sample_fill Buy 100 2 2)))
      (record_fill_accounting (sample_fill Buy 100 2 3) 0 tracker_new))) = Dec (3 * SCALE_I128)"
  by code_simp

end
