(* ===== verification/HE_Json.thy ===== *)
theory HE_Json
  imports HE_Models
begin

text \<open>
  The two vocabularies the exchange-facing components share. \<open>serde_json::Value\<close> with the accessors the
  code calls (\<open>get\<close>, indexing, \<open>as_str\<close>, \<open>as_array\<close>, \<open>is_object\<close>, and \<open>pointer\<close> through objects), as
  that crate documents them; the text of a value (\<open>to_string\<close>) stays a parameter. And operations on a
  state that can fail or panic: \<open>run s\<close> is \<open>None\<close> for a panic, otherwise the new state with the \<open>Result\<close>;
  an error keeps the changes made before it, as the early return of \<open>?\<close> does.
\<close>

section \<open>JSON values\<close>

datatype json =
    JNull
  | JBool bool
  | JNum string
  | JStr string
  | JArr "json list"
  | JObj "(string \<times> json) list"

fun json_get :: "string \<Rightarrow> json \<Rightarrow> json option" where
  "json_get k (JObj kvs) = map_of kvs k"
| "json_get k _ = None"

fun json_as_str :: "json \<Rightarrow> string option" where
  "json_as_str (JStr s) = Some s"
| "json_as_str _ = None"

fun json_as_array :: "json \<Rightarrow> json list option" where
  "json_as_array (JArr xs) = Some xs"
| "json_as_array _ = None"

fun json_is_object :: "json \<Rightarrow> bool" where
  "json_is_object (JObj _) = True"
| "json_is_object _ = False"

definition json_str_field :: "string \<Rightarrow> json \<Rightarrow> string option" where
  "json_str_field k j = Option.bind (json_get k j) json_as_str"

fun json_path :: "string list \<Rightarrow> json \<Rightarrow> json option" where
  "json_path [] j = Some j"
| "json_path (k # ks) j = Option.bind (json_get k j) (json_path ks)"

section \<open>Operations on a state\<close>

type_synonym ('s, 'e, 'a) st_op = "'s \<Rightarrow> ('s \<times> ('e + 'a)) option"

definition st_return :: "'a \<Rightarrow> ('s, 'e, 'a) st_op" where
  "st_return x s = Some (s, Inr x)"

definition st_fail :: "'e \<Rightarrow> ('s, 'e, 'a) st_op" where
  "st_fail e s = Some (s, Inl e)"

definition st_bind :: "('s, 'e, 'a) st_op \<Rightarrow> ('a \<Rightarrow> ('s, 'e, 'b) st_op) \<Rightarrow> ('s, 'e, 'b) st_op" where
  "st_bind m f s = (case m s of
       None \<Rightarrow> None
     | Some (s', Inl e) \<Rightarrow> Some (s', Inl e)
     | Some (s', Inr x) \<Rightarrow> f x s')"

definition st_modify :: "('s \<Rightarrow> 's) \<Rightarrow> ('s, 'e, unit) st_op" where
  "st_modify f s = Some (f s, Inr ())"

definition st_lift :: "'e + 'a \<Rightarrow> ('s, 'e, 'a) st_op" where
  "st_lift r s = Some (s, r)"

definition st_lift_panic :: "('e + 'a) option \<Rightarrow> ('s, 'e, 'a) st_op" where
  "st_lift_panic r s = map_option (Pair s) r"

text \<open>Read the state, then go on from it.\<close>

definition st_at :: "('s \<Rightarrow> ('s, 'e, 'a) st_op) \<Rightarrow> ('s, 'e, 'a) st_op" where
  "st_at g s = g s s"

lemma st_simps [simp]:
  "st_at g s = g s s"
  "st_return x s = Some (s, Inr x)" "st_fail e s = Some (s, Inl e)" "st_modify f s = Some (f s, Inr ())"
  "st_lift r s = Some (s, r)" "st_lift_panic None s = None" "st_lift_panic (Some r) s = Some (s, r)"
  by (simp_all add: st_return_def st_fail_def st_modify_def st_lift_def st_lift_panic_def st_at_def)

lemma st_bind_Some:
  "st_bind m f s = Some (s', r) \<longleftrightarrow>
    (\<exists>e. m s = Some (s', Inl e) \<and> r = Inl e) \<or> (\<exists>s1 x. m s = Some (s1, Inr x) \<and> f x s1 = Some (s', r))"
  by (auto simp: st_bind_def split: option.splits sum.splits)

lemma st_bindE:
  assumes "st_bind m f s = Some (s', r)"
  obtains (stop) e where "m s = Some (s', Inl e)" "r = Inl e"
    | (go) s1 x where "m s = Some (s1, Inr x)" "f x s1 = Some (s', r)"
  using assms by (auto simp: st_bind_Some)

lemma st_bind_simps [simp]:
  "m s = None \<Longrightarrow> st_bind m f s = None"
  "m s = Some (s', Inl e) \<Longrightarrow> st_bind m f s = Some (s', Inl e)"
  "m s = Some (s', Inr x) \<Longrightarrow> st_bind m f s = f x s'"
  by (simp_all add: st_bind_def)

text \<open>
  A relation that every step of an operation respects holds between its first and its last state: the rule
  behind the frame and ordering lemmas of the engine.
\<close>

definition st_keeps :: "('s \<Rightarrow> 's \<Rightarrow> bool) \<Rightarrow> ('s, 'e, 'a) st_op \<Rightarrow> bool" where
  "st_keeps R m \<longleftrightarrow> (\<forall>s s' r. m s = Some (s', r) \<longrightarrow> R s s')"

lemma st_keepsD: "st_keeps R m \<Longrightarrow> m s = Some (s', r) \<Longrightarrow> R s s'"
  by (auto simp: st_keeps_def)

lemma st_keeps_at_pair: "(\<And>a b. st_keeps R (f a b)) \<Longrightarrow> st_keeps R (st_at (\<lambda>(a, b). f a b))"
  by (auto simp: st_keeps_def)

locale step_order =
  fixes R :: "'s \<Rightarrow> 's \<Rightarrow> bool"
  assumes refl: "R s s" and trans: "R s t \<Longrightarrow> R t u \<Longrightarrow> R s u"
begin

lemma keeps_bind:
  assumes "st_keeps R m" and "\<And>x. st_keeps R (f x)"
  shows "st_keeps R (st_bind m f)"
  unfolding st_keeps_def
proof (intro allI impI)
  fix s s' r
  assume "st_bind m f s = Some (s', r)"
  then consider e where "m s = Some (s', Inl e)" | s1 x where "m s = Some (s1, Inr x)" "f x s1 = Some (s', r)"
    by (auto simp: st_bind_Some)
  then show "R s s'"
  proof cases
    case 1 then show ?thesis using assms(1) by (rule st_keepsD [rotated])
  next
    case 2 then show ?thesis using st_keepsD [OF assms(1)] st_keepsD [OF assms(2)] trans by blast
  qed
qed

lemma keeps_pure:
  "st_keeps R (st_return x)" "st_keeps R (st_fail e)" "st_keeps R (st_lift r)" "st_keeps R (st_lift_panic p)"
  using refl by (auto simp: st_keeps_def st_lift_panic_def)

lemma keeps_modify: "(\<And>s. R s (g s)) \<Longrightarrow> st_keeps R (st_modify g)"
  by (simp add: st_keeps_def)

lemma keeps_at: "(\<And>s. st_keeps R (f s)) \<Longrightarrow> st_keeps R (st_at f)"
  by (auto simp: st_keeps_def)

lemma keeps_if: "st_keeps R m \<Longrightarrow> st_keeps R n \<Longrightarrow> st_keeps R (if b then m else n)"
  by simp

lemma keeps_option: "st_keeps R m \<Longrightarrow> (\<And>x. st_keeps R (f x)) \<Longrightarrow> st_keeps R (case x of None \<Rightarrow> m | Some y \<Rightarrow> f y)"
  by (cases x) simp_all

lemmas keeps = keeps_bind keeps_pure keeps_modify keeps_at keeps_if keeps_option

end

end
