(* ===== verification/HE_Engine.thy ===== *)
theory HE_Engine
  imports HE_Json HE_Orders HE_Normalizer HE_Ids HE_Safety HE_Rate_Limiter HE_Risk HE_Action_Budget
    "HOL-Library.AList" "HOL-Library.Sublist"
begin

text \<open>
  \<open>crates/trading/src/execution/engine.rs\<close>, first part: the state of the execution engine, its helpers,
  the wire orders, and the job that the serial nonce worker runs for a placement. The gates (kill switch,
  safety controller, risk checker, rate limiter, action budget) are the models of their components. The
  durable store is a trait: a record of operations on a state of its own, an argument of the
  configuration. What the exchange, the market data provider and the clock answer at each call is an
  input. Effects (network actions, committed rows, events) are appended to a trace.
\<close>

section \<open>Configuration\<close>

record 's store_ops =
  so_placement :: "order \<Rightarrow> risk_check_result \<Rightarrow> string \<Rightarrow> bool \<Rightarrow> decimal option \<Rightarrow> 's \<Rightarrow>
    's \<times> (hypeedge_error + risk_check_result)"
  so_transition :: "order \<Rightarrow> string \<Rightarrow> string option \<Rightarrow> string option \<Rightarrow> 's \<Rightarrow> 's \<times> (hypeedge_error + unit)"
  so_cancel_requested :: "order \<Rightarrow> string \<Rightarrow> 's \<Rightarrow> 's \<times> (hypeedge_error + unit)"
  so_reconciled :: "order \<Rightarrow> 's \<Rightarrow> 's \<times> (hypeedge_error + unit)"
  so_load_open :: "'s \<Rightarrow> hypeedge_error + order list"
  so_get :: "string \<Rightarrow> 's \<Rightarrow> hypeedge_error + order option"

record mid_price =
  mp_symbol :: string
  mp_price :: decimal
  mp_timestamp :: int

record 's engine_config =
  ec_store :: "'s store_ops"
  ec_account_address :: string
  ec_deferred :: bool
  ec_stale_seconds :: f64
  ec_durable_kill :: bool
  ec_provider :: bool
  ec_normalizer :: "(string \<Rightarrow> instrument_spec option) option"
  ec_asset_index :: "(string \<Rightarrow> int option) option"
  ec_sha256 :: "string \<Rightarrow> string"
  ec_json_text :: "json \<Rightarrow> string"

section \<open>State\<close>

text \<open>The gates are shared with other tasks; \<open>en_orders\<close> and the trace belong to the engine.\<close>

record gates =
  gt_kill :: kill_switch
  gt_safety :: "safety_state option"
  gt_checker :: "risk_checker option"
  gt_limiter :: "rate_limiter option"
  gt_budget :: "budget option"

datatype order_event =
  EV_Submitted | EV_Acknowledged | EV_Filled | EV_PartialFill | EV_Cancelled | EV_Rejected | EV_Expired

record order_wire =
  ow_asset :: int
  ow_is_buy :: bool
  ow_price :: string
  ow_size :: string
  ow_reduce_only :: bool
  ow_tif :: string
  ow_cloid :: "string option"

record cancel_wire =
  cw_asset :: int
  cw_cloid :: string

datatype engine_effect =
    EE_Publish order_event order
  | EE_Kill ks_effect
  | EE_DurableKill string
  | EE_Placement order risk_check_result bool
  | EE_Transition order string "string option"
  | EE_Order order_wire int
  | EE_Cancel "cancel_wire list" int
  | EE_Leverage int bool nat int
  | EE_AfterSend string

record 's engine =
  en_gates :: gates
  en_orders :: "(string \<times> order) list"
  en_store :: "'s option"
  en_trace :: "engine_effect list"

type_synonym ('s, 'a) eng = "('s engine, hypeedge_error, 'a) st_op"

definition engine_new :: "gates \<Rightarrow> 's option \<Rightarrow> 's engine" where
  "engine_new g st = \<lparr>en_gates = g, en_orders = [], en_store = st, en_trace = []\<rparr>"

definition emit :: "engine_effect list \<Rightarrow> 's engine \<Rightarrow> 's engine" where
  "emit es s = s\<lparr>en_trace := en_trace s @ es\<rparr>"

definition publish :: "order_event \<Rightarrow> order \<Rightarrow> 's engine \<Rightarrow> 's engine" where
  "publish ev o' s = emit [EE_Publish ev o'] s"

definition order_store :: "order \<Rightarrow> 's engine \<Rightarrow> 's engine" where
  "order_store o' s = s\<lparr>en_orders := AList.update (od_cloid o') o' (en_orders s)\<rparr>"

definition order_load :: "string \<Rightarrow> 's engine \<Rightarrow> order option" where
  "order_load cloid s = map_of (en_orders s) cloid"

section \<open>Persistence\<close>

definition durable_get :: "'s engine_config \<Rightarrow> string \<Rightarrow> 's engine \<Rightarrow> hypeedge_error + order option" where
  "durable_get cfg cloid s =
     (case en_store s of Some st \<Rightarrow> so_get (ec_store cfg) cloid st | None \<Rightarrow> Inr None)"

definition persist_placement :: "'s engine_config \<Rightarrow> order \<Rightarrow> risk_check_result \<Rightarrow> string \<Rightarrow> bool \<Rightarrow>
    decimal option \<Rightarrow> ('s, risk_check_result option) eng" where
  "persist_placement cfg o' risk command_id dispatch reference s =
     (case en_store s of
        None \<Rightarrow> Some (s, Inr None)
      | Some st \<Rightarrow>
          (case so_placement (ec_store cfg) o' risk command_id dispatch reference st of
             (st', Inl e) \<Rightarrow> Some (s\<lparr>en_store := Some st'\<rparr>, Inl e)
           | (st', Inr r) \<Rightarrow> Some (emit [EE_Placement o' r dispatch] (s\<lparr>en_store := Some st'\<rparr>), Inr (Some r))))"

definition persist_transition :: "'s engine_config \<Rightarrow> order \<Rightarrow> string \<Rightarrow> string option \<Rightarrow> string option \<Rightarrow>
    ('s, unit) eng" where
  "persist_transition cfg o' event_type command_id command_status s =
     (case en_store s of
        None \<Rightarrow> Some (s, Inr ())
      | Some st \<Rightarrow>
          (case so_transition (ec_store cfg) o' event_type command_id command_status st of
             (st', Inl e) \<Rightarrow> Some (s\<lparr>en_store := Some st'\<rparr>, Inl e)
           | (st', Inr _) \<Rightarrow> Some (emit [EE_Transition o' event_type command_status] (s\<lparr>en_store := Some st'\<rparr>), Inr ())))"

definition credit_fill :: "decimal \<Rightarrow> time_ns \<Rightarrow> 's engine \<Rightarrow> 's engine" where
  "credit_fill volume now s =
     s\<lparr>en_gates := (en_gates s)\<lparr>gt_budget := map_option (record_fill volume now) (gt_budget (en_gates s))\<rparr>\<rparr>"

section \<open>Risk escalation and the placement gates\<close>

definition risk_fail :: "string \<Rightarrow> risk_check_result" where
  "risk_fail reason = \<lparr>rc_passed = False, rc_reason = Some reason, rc_checked_limits = []\<rparr>"

definition risk_pass :: risk_check_result where
  "risk_pass = \<lparr>rc_passed = True, rc_reason = None, rc_checked_limits = []\<rparr>"

definition escalate_risk_rejection :: "bool \<Rightarrow> string \<Rightarrow> gates \<Rightarrow> gates \<times> engine_effect list" where
  "escalate_risk_rejection durable_kill reason g =
     (if prefix ''risk_check_timeout'' reason
      then (g\<lparr>gt_safety := map_option (enter_cancel_only reason) (gt_safety g)\<rparr>, [])
      else if \<not> (prefix ''risk_check_error'' reason \<or> prefix ''drawdown_exceeded'' reason) then (g, [])
      else if durable_kill then (g, [EE_DurableKill reason])
      else let (k, es) = ks_trigger reason (gt_kill g) in (g\<lparr>gt_kill := k\<rparr>, map EE_Kill es))"

definition handle_risk_rejection :: "'s engine_config \<Rightarrow> string \<Rightarrow> 's engine \<Rightarrow> 's engine" where
  "handle_risk_rejection cfg reason s =
     (let (g, es) = escalate_risk_rejection (ec_durable_kill cfg) reason (en_gates s)
      in emit es (s\<lparr>en_gates := g\<rparr>))"

definition run_gates :: "order_intent \<Rightarrow> gates \<Rightarrow> hypeedge_error + unit" where
  "run_gates intent g =
     (case ks_check (gt_kill g) of
        Inl e \<Rightarrow> Inl e
      | Inr _ \<Rightarrow> (case gt_safety g of Some sf \<Rightarrow> check_placement sf intent | None \<Rightarrow> Inr ()))"

definition credits_low :: "time_ns \<Rightarrow> gates \<Rightarrow> bool" where
  "credits_low now g = (case gt_limiter g of Some rl \<Rightarrow> \<not> check_action_credits now rl | None \<Rightarrow> False)"

section \<open>Intents and orders\<close>

definition show_bool :: "bool \<Rightarrow> string" where
  "show_bool b = (if b then ''true'' else ''false'')"

definition intent_key :: "order_intent \<Rightarrow> string" where
  "intent_key i =
     oi_symbol i @ ''|'' @ side_as_str (oi_side i) @ ''|'' @ to_exact_string (oi_size i) @ ''|'' @
     (case oi_price i of Some p \<Rightarrow> to_exact_string p | None \<Rightarrow> []) @ ''|'' @
     order_type_as_str (oi_order_type i) @ ''|'' @ time_in_force_as_str (oi_tif i) @ ''|'' @
     show_bool (oi_reduce_only i) @ ''|'' @ show_bool (oi_risk_reducing i) @ ''|'' @
     show_nat (int (oi_max_slippage_bps i)) @ ''|'' @ show_bool (oi_is_spot i)"

definition matches_intent :: "order \<Rightarrow> order_intent \<Rightarrow> bool" where
  "matches_intent o' i \<longleftrightarrow>
     od_symbol o' = oi_symbol i \<and> od_side o' = oi_side i \<and> od_size o' = oi_size i \<and> od_price o' = oi_price i
     \<and> od_order_type o' = oi_order_type i \<and> od_tif o' = oi_tif i \<and> od_strategy_id o' = oi_strategy_id i
     \<and> od_sub_account o' = oi_sub_account i \<and> od_reduce_only o' = oi_reduce_only i
     \<and> od_is_spot o' = oi_is_spot i \<and> od_risk_reducing o' = oi_risk_reducing i
     \<and> od_max_slippage_bps o' = oi_max_slippage_bps i"

definition intent_from_order :: "order \<Rightarrow> order_intent" where
  "intent_from_order o' =
     \<lparr>oi_symbol = od_symbol o', oi_side = od_side o', oi_size = od_size o', oi_price = od_price o',
      oi_order_type = od_order_type o', oi_tif = od_tif o', oi_strategy_id = od_strategy_id o',
      oi_sub_account = od_sub_account o', oi_reduce_only = od_reduce_only o', oi_cloid = Some (od_cloid o'),
      oi_client_id = None, oi_is_spot = od_is_spot o', oi_risk_reducing = od_risk_reducing o',
      oi_max_slippage_bps = od_max_slippage_bps o'\<rparr>"

text \<open>The fields that \<open>rejected_order\<close> and the pending order of a submission copy from the intent.\<close>

definition order_of_intent :: "time_ns \<Rightarrow> string \<Rightarrow> order_intent \<Rightarrow> order" where
  "order_of_intent now cloid i =
     (order_new now [] [] Buy ZERO None OT_Limit Gtc)
       \<lparr>od_cloid := cloid, od_symbol := oi_symbol i, od_side := oi_side i, od_size := oi_size i,
        od_price := oi_price i, od_order_type := oi_order_type i, od_tif := oi_tif i, od_status := Pending,
        od_strategy_id := oi_strategy_id i, od_sub_account := oi_sub_account i,
        od_reduce_only := oi_reduce_only i, od_is_spot := oi_is_spot i,
        od_risk_reducing := oi_risk_reducing i, od_max_slippage_bps := oi_max_slippage_bps i\<rparr>"

definition rejected_order :: "'s engine_config \<Rightarrow> time_ns \<Rightarrow> order_intent \<Rightarrow> string \<Rightarrow> 's engine \<Rightarrow>
    's engine \<times> order" where
  "rejected_order cfg now i reason s =
     (let cloid = (case oi_cloid i of Some c \<Rightarrow> c
                   | None \<Rightarrow> cloid_deterministic (ec_sha256 cfg) (oi_strategy_id i) (intent_key i));
          o' = (order_of_intent now cloid i)\<lparr>od_status := Rejected, od_error_message := Some reason\<rparr>
      in (publish EV_Rejected o' s, o'))"

section \<open>Wire orders\<close>

fun tif_wire :: "time_in_force \<Rightarrow> string" where
  "tif_wire Gtc = ''Gtc''"
| "tif_wire Ioc = ''Ioc''"
| "tif_wire Alo = ''Alo''"
| "tif_wire Gtx = ''Gtx''"

definition resolve_asset_index :: "'s engine_config \<Rightarrow> string \<Rightarrow> string \<Rightarrow> hypeedge_error + int" where
  "resolve_asset_index cfg symb cloid =
     (case ec_asset_index cfg of
        None \<Rightarrow> Inl (Execution ''no asset index provider'')
      | Some index \<Rightarrow> (case index symb of
            Some a \<Rightarrow> Inr a
          | None \<Rightarrow> Inl (OrderRejected (''unknown symbol '' @ symb) (Some cloid) (Some ''instrument_meta_unavailable''))))"

text \<open>The aggressive price of a market order: the reference moved by the slippage.\<close>

definition aggressive_price :: "order_intent \<Rightarrow> decimal \<Rightarrow> decimal option" where
  "aggressive_price i reference = do {
     bps \<leftarrow> from_i128 (int (oi_max_slippage_bps i));
     scale \<leftarrow> from_i128 10000;
     slippage \<leftarrow> dec_div bps scale;
     Some (if oi_side i = Buy then reference * (ONE + slippage) else reference * (ONE - slippage))
   }"

definition wire_price :: "order_intent \<Rightarrow> string \<Rightarrow> decimal option \<Rightarrow> (hypeedge_error + string \<times> string) option" where
  "wire_price i cloid reference =
     (case oi_order_type i of
        OT_Limit \<Rightarrow> (case oi_price i of
            Some p \<Rightarrow> Some (Inr (to_exact_string p, tif_wire (oi_tif i)))
          | None \<Rightarrow> Some (Inl (OrderRejected ''limit order requires a price'' (Some cloid) (Some ''price_required''))))
      | OT_Market \<Rightarrow> (case reference of
            None \<Rightarrow> Some (Inl (OrderRejected ''market order requires a reference price'' (Some cloid)
                       (Some ''market_price_not_available'')))
          | Some r \<Rightarrow> map_option (\<lambda>a. Inr (to_exact_string a, ''Ioc'')) (aggressive_price i r))
      | _ \<Rightarrow> Some (Inl (OrderRejected ''stop orders are not supported by the execution engine'' (Some cloid)
               (Some ''unsupported_order_type''))))"

definition build_order_wire :: "'s engine_config \<Rightarrow> order_intent \<Rightarrow> string \<Rightarrow> decimal option \<Rightarrow>
    (hypeedge_error + order_wire) option" where
  "build_order_wire cfg i cloid reference =
     res_bind (Some (resolve_asset_index cfg (oi_symbol i) cloid)) (\<lambda>asset.
     res_bind (wire_price i cloid reference) (\<lambda>(px, tif).
     Some (Inr \<lparr>ow_asset = asset, ow_is_buy = (oi_side i = Buy), ow_price = px,
       ow_size = to_exact_string (oi_size i), ow_reduce_only = oi_reduce_only i, ow_tif = tif,
       ow_cloid = Some (to_hl_cloid (ec_sha256 cfg) cloid)\<rparr>)))"

end
