(* ===== verification/HE_Store.thy ===== *)
theory HE_Store
  imports HE_Engine "HOL-Library.List_Lexorder" "HOL-Library.Char_ord"
begin

text \<open>
  \<open>crates/storage/src/durable_order_store.rs\<close>, \<open>rows.rs\<close>, \<open>adapters.rs\<close>: the durable ledger. A table is the
  list of its rows in the order of their insertion, a column has the type it is read with; text columns keep
  their text. The statements are transcribed with the constraints that \<open>migrations/0001_create_all.sql\<close>
  declares. A NUMERIC(38,18) column holds a decimal of at most 38 digits exactly, and a larger value is an
  error of the statement. The state also holds what the database and the process see of the world: the clock
  of each, and whether the connection is up, down, or loses the answer of the next commit.
\<close>

section \<open>Rows\<close>

record order_row =
  orr_order_id :: string
  orr_command_id :: "string option"
  orr_cloid :: string
  orr_symbol :: string
  orr_side :: string
  orr_order_type :: string
  orr_tif :: string
  orr_size :: decimal
  orr_price :: "decimal option"
  orr_status :: string
  orr_strategy_id :: "string option"
  orr_sub_account :: "string option"
  orr_reduce_only :: bool
  orr_is_spot :: bool
  orr_risk_reducing :: bool
  orr_max_slippage_bps :: int
  orr_filled_size :: decimal
  orr_avg_fill_price :: "decimal option"
  orr_revision :: int
  orr_error_message :: "string option"
  orr_exchange_oid :: "string option"
  orr_submitted_at :: "time_ns option"
  orr_acknowledged_at :: "time_ns option"
  orr_filled_at :: "time_ns option"
  orr_created_at :: time_ns

record risk_event_row =
  rer_command_id :: string
  rer_order_id :: string
  rer_passed :: bool
  rer_reason :: "string option"
  rer_checked_limits :: "string list"
  rer_reservation_included :: bool
  rer_reference_price :: "decimal option"

record command_row =
  cmr_command_id :: string
  cmr_order_id :: string
  cmr_command_type :: string
  cmr_actor_type :: string
  cmr_actor_id :: string
  cmr_idempotency_key :: string
  cmr_priority :: int
  cmr_status :: string
  cmr_payload :: json
  cmr_attempt_count :: int
  cmr_available_at :: time_ns
  cmr_locked_at :: "time_ns option"
  cmr_locked_by :: "string option"
  cmr_completed_at :: "time_ns option"
  cmr_last_error_code :: "string option"
  cmr_last_error_message :: "string option"
  cmr_created_at :: time_ns

record reservation_row =
  rsv_reservation_id :: string
  rsv_command_id :: string
  rsv_order_id :: string
  rsv_sub_account :: "string option"
  rsv_strategy_id :: "string option"
  rsv_symbol :: string
  rsv_side :: string
  rsv_reduce_only :: bool
  rsv_size :: decimal
  rsv_notional :: decimal
  rsv_status :: string
  rsv_expires_at :: time_ns
  rsv_released_at :: "time_ns option"

record order_event_row =
  oer_order_id :: string
  oer_cloid :: string
  oer_revision :: int
  oer_event_type :: string
  oer_status :: string
  oer_error_message :: "string option"
  oer_payload :: json

record outbox_row =
  obr_sequence :: int
  obr_event_id :: string
  obr_event_type :: string
  obr_aggregate_type :: string
  obr_aggregate_id :: string
  obr_aggregate_revision :: int
  obr_correlation_id :: "string option"
  obr_payload :: json
  obr_published_at :: "time_ns option"
  obr_claimed_at :: "time_ns option"
  obr_claimed_by :: "string option"
  obr_publish_attempts :: int
  obr_last_publish_error :: "string option"

record position_row =
  por_sub_account :: "string option"
  por_symbol :: string
  por_size :: decimal
  por_mark_price :: "decimal option"

record account_row =
  acr_sub_account :: "string option"
  acr_equity :: decimal
  acr_exchange_updated_at :: time_ns

section \<open>The database\<close>

datatype db_link = DB_Up | DB_Down string | DB_CommitLost string

record pg =
  pg_clock :: time_ns
  pg_now :: time_ns
  pg_link :: db_link
  pg_uuids :: nat
  pg_sequence :: int
  pg_orders :: "order_row list"
  pg_risk_events :: "risk_event_row list"
  pg_commands :: "command_row list"
  pg_reservations :: "reservation_row list"
  pg_order_events :: "order_event_row list"
  pg_outbox :: "outbox_row list"
  pg_positions :: "position_row list"
  pg_accounts :: "account_row list"

type_synonym 'a pgm = "(pg, hypeedge_error, 'a) st_op"

text \<open>A transaction commits, or returns without a commit; an error rolls back.\<close>

datatype 'a tx_end = TX_Commit 'a | TX_Drop 'a

definition pg_tx :: "'a tx_end pgm \<Rightarrow> 'a pgm" where
  "pg_tx body s =
     (case pg_link s of
        DB_Down m \<Rightarrow> Some (s, Inl (Postgres m))
      | link \<Rightarrow>
          (case body s of
             None \<Rightarrow> None
           | Some (_, Inl e) \<Rightarrow> Some (s, Inl e)
           | Some (_, Inr (TX_Drop x)) \<Rightarrow> Some (s, Inr x)
           | Some (s', Inr (TX_Commit x)) \<Rightarrow>
               Some (s', case link of DB_CommitLost m \<Rightarrow> Inl (Postgres m) | _ \<Rightarrow> Inr x)))"

definition pg_read :: "(pg \<Rightarrow> hypeedge_error + 'a) \<Rightarrow> pg \<Rightarrow> hypeedge_error + 'a" where
  "pg_read q s = (case pg_link s of DB_Down m \<Rightarrow> Inl (Postgres m) | _ \<Rightarrow> q s)"

definition violation :: "string \<Rightarrow> 'a pgm" where
  "violation constraint = st_fail (Postgres (''violates constraint '' @ constraint))"

definition require :: "bool \<Rightarrow> string \<Rightarrow> unit pgm" where
  "require b constraint = (if b then st_return () else violation constraint)"

definition draw_uuid :: "(nat \<Rightarrow> string) \<Rightarrow> string pgm" where
  "draw_uuid uuid s = Some (s\<lparr>pg_uuids := Suc (pg_uuids s)\<rparr>, Inr (uuid (pg_uuids s)))"

lemma pred_option_code [code]: "pred_option P x = (case x of None \<Rightarrow> True | Some a \<Rightarrow> P a)"
  by (cases x) simp_all

definition numeric_ok :: "decimal \<Rightarrow> bool" where
  "numeric_ok d \<longleftrightarrow> \<bar>raw d\<bar> < 10 ^ 38"

definition order_row_ok :: "order_row \<Rightarrow> bool" where
  "order_row_ok r \<longleftrightarrow>
     orr_size r > ZERO \<and> ZERO \<le> orr_filled_size r \<and> orr_filled_size r \<le> orr_size r
     \<and> pred_option (\<lambda>p. p > ZERO) (orr_price r)
     \<and> is_hl_cloid (orr_cloid r) \<and> to_lowercase (orr_cloid r) = orr_cloid r
     \<and> 1 \<le> orr_max_slippage_bps r \<and> orr_max_slippage_bps r \<le> 500
     \<and> \<not> (orr_is_spot r \<and> orr_reduce_only r)
     \<and> numeric_ok (orr_size r) \<and> numeric_ok (orr_filled_size r)
     \<and> pred_option numeric_ok (orr_price r) \<and> pred_option numeric_ok (orr_avg_fill_price r)"

definition COMMAND_STATUSES :: "string list" where
  "COMMAND_STATUSES = [''pending'', ''processing'', ''succeeded'', ''failed'', ''unknown'', ''cancelled'']"

section \<open>Orders and their rows\<close>

text \<open>The columns that the insertion of a placement leaves out are null; \<open>created_at\<close> is the clock of the database.\<close>

definition order_row_of :: "string \<Rightarrow> string option \<Rightarrow> int \<Rightarrow> time_ns \<Rightarrow> order \<Rightarrow> order_row" where
  "order_row_of order_id command_id revision now o' =
     \<lparr>orr_order_id = order_id, orr_command_id = command_id, orr_cloid = od_cloid o', orr_symbol = od_symbol o',
      orr_side = side_as_str (od_side o'), orr_order_type = order_type_as_str (od_order_type o'),
      orr_tif = time_in_force_as_str (od_tif o'), orr_size = od_size o', orr_price = od_price o',
      orr_status = order_status_as_str (od_status o'), orr_strategy_id = od_strategy_id o',
      orr_sub_account = od_sub_account o', orr_reduce_only = od_reduce_only o', orr_is_spot = od_is_spot o',
      orr_risk_reducing = od_risk_reducing o', orr_max_slippage_bps = int (od_max_slippage_bps o'),
      orr_filled_size = od_filled_size o', orr_avg_fill_price = None, orr_revision = revision,
      orr_error_message = od_error_message o', orr_exchange_oid = None, orr_submitted_at = od_submitted_at o',
      orr_acknowledged_at = None, orr_filled_at = None, orr_created_at = now\<rparr>"

definition row_status :: "order_row \<Rightarrow> order_status" where
  "row_status r = (case order_status_from_str (orr_status r) of Some st \<Rightarrow> st | None \<Rightarrow> Pending)"

definition to_domain :: "order_row \<Rightarrow> order" where
  "to_domain r =
     \<lparr>od_cloid = orr_cloid r, od_symbol = orr_symbol r,
      od_side = (case side_from_str (orr_side r) of Some x \<Rightarrow> x | None \<Rightarrow> Buy), od_size = orr_size r,
      od_price = orr_price r,
      od_order_type = (case order_type_from_str (orr_order_type r) of Some x \<Rightarrow> x | None \<Rightarrow> OT_Limit),
      od_tif = (case time_in_force_from_str (orr_tif r) of Some x \<Rightarrow> x | None \<Rightarrow> Gtc),
      od_status = row_status r, od_strategy_id = orr_strategy_id r, od_sub_account = orr_sub_account r,
      od_reduce_only = orr_reduce_only r, od_is_spot = orr_is_spot r, od_risk_reducing = orr_risk_reducing r,
      od_max_slippage_bps = nat (orr_max_slippage_bps r mod 65536), od_exchange_oid = orr_exchange_oid r,
      od_filled_size = orr_filled_size r, od_avg_fill_price = orr_avg_fill_price r,
      od_submitted_at = orr_submitted_at r, od_acknowledged_at = orr_acknowledged_at r,
      od_filled_at = orr_filled_at r, od_error_message = orr_error_message r, od_created_at = orr_created_at r\<rparr>"

definition json_opt :: "('a \<Rightarrow> json) \<Rightarrow> 'a option \<Rightarrow> json" where
  "json_opt f x = (case x of None \<Rightarrow> JNull | Some y \<Rightarrow> f y)"

definition order_payload :: "order \<Rightarrow> json" where
  "order_payload o' = JObj
     [(''cloid'', JStr (od_cloid o')), (''exchange_oid'', json_opt JStr (od_exchange_oid o')),
      (''symbol'', JStr (od_symbol o')), (''side'', JStr (side_as_str (od_side o'))),
      (''size'', JStr (display (od_size o'))), (''price'', json_opt (JStr \<circ> display) (od_price o')),
      (''order_type'', JStr (order_type_as_str (od_order_type o'))),
      (''time_in_force'', JStr (time_in_force_as_str (od_tif o'))),
      (''status'', JStr (order_status_as_str (od_status o'))), (''strategy_id'', json_opt JStr (od_strategy_id o')),
      (''sub_account'', json_opt JStr (od_sub_account o')), (''reduce_only'', JBool (od_reduce_only o')),
      (''is_spot'', JBool (od_is_spot o')), (''risk_reducing'', JBool (od_risk_reducing o')),
      (''max_slippage_bps'', JNum (show_nat (int (od_max_slippage_bps o')))),
      (''filled_size'', JStr (display (od_filled_size o'))),
      (''avg_fill_price'', json_opt (JStr \<circ> display) (od_avg_fill_price o')),
      (''error_message'', json_opt JStr (od_error_message o'))]"

text \<open>The row whose cloid is given; \<open>cloid\<close> is unique.\<close>

definition order_by_cloid :: "string \<Rightarrow> pg \<Rightarrow> order_row option" where
  "order_by_cloid cloid s = find (\<lambda>r. orr_cloid r = cloid) (pg_orders s)"

definition fetch_order :: "string \<Rightarrow> order_row pgm" where
  "fetch_order cloid s =
     Some (s, case order_by_cloid cloid s of
       Some r \<Rightarrow> Inr r
     | None \<Rightarrow> Inl (Postgres ''no rows returned by a query that expected to return at least one row''))"

definition insert_order :: "order_row \<Rightarrow> unit pgm" where
  "insert_order r =
     st_bind (require (order_row_ok r) ''ck_orders'') (\<lambda>_.
     st_bind (st_at (\<lambda>s. require (\<forall>x\<in>set (pg_orders s). orr_cloid x \<noteq> orr_cloid r \<and> orr_order_id x \<noteq> orr_order_id r)
       ''orders_key'')) (\<lambda>_.
     st_modify (pg_orders_update (\<lambda>rs. rs @ [r]))))"

definition update_orders :: "string \<Rightarrow> (order_row \<Rightarrow> order_row) \<Rightarrow> unit pgm" where
  "update_orders cloid f =
     st_bind (st_at (\<lambda>s. require (\<forall>r\<in>set (pg_orders s). orr_cloid r = cloid \<longrightarrow> order_row_ok (f r)) ''ck_orders'')) (\<lambda>_.
     st_modify (pg_orders_update (map (\<lambda>r. if orr_cloid r = cloid then f r else r))))"

text \<open>\<open>order_events\<close> and \<open>outbox_events\<close>.\<close>

definition append_event_rows :: "(nat \<Rightarrow> string) \<Rightarrow> order \<Rightarrow> string \<Rightarrow> int \<Rightarrow> string \<Rightarrow> json \<Rightarrow> unit pgm" where
  "append_event_rows uuid o' order_id revision event_type payload =
     st_bind (draw_uuid uuid) (\<lambda>_.
     st_bind (st_at (\<lambda>s. require (0 \<le> revision \<and>
       (\<forall>e\<in>set (pg_order_events s). \<not> (oer_order_id e = order_id \<and> oer_revision e = revision))) ''uq_order_events'')) (\<lambda>_.
     st_bind (st_modify (pg_order_events_update (\<lambda>es. es @
       [\<lparr>oer_order_id = order_id, oer_cloid = od_cloid o', oer_revision = revision, oer_event_type = event_type,
         oer_status = order_status_as_str (od_status o'), oer_error_message = od_error_message o', oer_payload = payload\<rparr>]))) (\<lambda>_.
     st_bind (draw_uuid uuid) (\<lambda>event_id.
     st_modify (\<lambda>s. s\<lparr>pg_sequence := pg_sequence s + 1,
       pg_outbox := pg_outbox s @
         [\<lparr>obr_sequence = pg_sequence s + 1, obr_event_id = event_id, obr_event_type = ''order.'' @ event_type,
           obr_aggregate_type = ''order'', obr_aggregate_id = order_id, obr_aggregate_revision = revision,
           obr_correlation_id = Some (od_cloid o'), obr_payload = payload, obr_published_at = None,
           obr_claimed_at = None, obr_claimed_by = None, obr_publish_attempts = 0, obr_last_publish_error = None\<rparr>]\<rparr>)))))"

end
