(* ===== verification/HE_Store_Ops.thy ===== *)
theory HE_Store_Ops
  imports HE_Store
begin

text \<open>
  \<open>durable_order_store.rs\<close>, second part: the risk admission that a placement passes inside its transaction,
  and the operations of the store. They make up the record of operations that the engine is given, and the
  order rows are the order map it recovers from.
\<close>

record pg_store =
  pgs_limits :: "risk_limits option"
  pgs_stale_seconds :: f64
  pgs_ttl_seconds :: int
  pgs_uuid :: "nat \<Rightarrow> string"

section \<open>The admission inside the transaction\<close>

definition scope_fail :: "string \<Rightarrow> string list \<Rightarrow> risk_check_result" where
  "scope_fail reason checked = \<lparr>rc_passed = False, rc_reason = Some reason, rc_checked_limits = checked\<rparr>"

definition scope_pass :: "string list \<Rightarrow> risk_check_result" where
  "scope_pass checked = \<lparr>rc_passed = True, rc_reason = None, rc_checked_limits = checked\<rparr>"

text \<open>Reading a null mark price into a value that cannot be null is an error of the driver.\<close>

definition mark_of :: "order \<Rightarrow> pg \<Rightarrow> hypeedge_error + decimal option" where
  "mark_of o' s =
     (case find (\<lambda>p. por_symbol p = od_symbol o' \<and> por_sub_account p = od_sub_account o') (pg_positions s) of
        None \<Rightarrow> Inr None
      | Some p \<Rightarrow> (case por_mark_price p of
            Some m \<Rightarrow> Inr (Some m) | None \<Rightarrow> Inl (Postgres ''unexpected null; try decoding as an `Option`'')))"

definition store_reference_price :: "order \<Rightarrow> decimal option \<Rightarrow> pg \<Rightarrow> hypeedge_error + decimal" where
  "store_reference_price o' supplied s =
     (if supplied \<noteq> None \<and> the supplied > ZERO then Inr (the supplied)
      else case mark_of o' s of
             Inl e \<Rightarrow> Inl e
           | Inr mark \<Rightarrow> Inr (
               if od_price o' \<noteq> None \<and> the (od_price o') > ZERO
               then (let limit = the (od_price o') in
                     case mark of
                       Some m \<Rightarrow> if od_side o' = Sell then max limit m else min limit m
                     | None \<Rightarrow> limit)
               else (case mark of Some m \<Rightarrow> m | None \<Rightarrow> ZERO)))"

text \<open>Reservations of orders that are over, past their deadline, in the scope of the account.\<close>

definition expire_reservations :: "string option \<Rightarrow> pg \<Rightarrow> pg" where
  "expire_reservations sub s = s\<lparr>pg_reservations := map (\<lambda>r.
     if rsv_status r = ''active'' \<and> rsv_expires_at r \<le> pg_now s \<and> rsv_sub_account r = sub
        \<and> (\<exists>q\<in>set (pg_orders s). orr_order_id q = rsv_order_id r
             \<and> orr_status q \<in> set [''filled'', ''cancelled'', ''rejected'', ''expired''])
     then r\<lparr>rsv_status := ''expired'', rsv_released_at := Some (pg_now s)\<rparr> else r) (pg_reservations s)\<rparr>"

definition sum_reserved :: "string \<Rightarrow> bool \<Rightarrow> reservation_row list \<Rightarrow> decimal" where
  "sum_reserved symb buy rs =
     fold (\<lambda>r acc. if rsv_symbol r = symb \<and> (rsv_side r = ''buy'') = buy then acc + rsv_size r else acc) rs ZERO"

text \<open>What is reserved to be bought or sold, with the order that asks.\<close>

definition reserved_with :: "order \<Rightarrow> string \<Rightarrow> bool \<Rightarrow> reservation_row list \<Rightarrow> decimal" where
  "reserved_with o' symb buy opening =
     (let base = sum_reserved symb buy opening in
      if symb = od_symbol o' \<and> \<not> od_reduce_only o' \<and> (od_side o' = Buy) = buy then base + od_size o' else base)"

definition position_size_of :: "string \<Rightarrow> position_row list \<Rightarrow> decimal" where
  "position_size_of symb ps = (case find (\<lambda>p. por_symbol p = symb) ps of Some p \<Rightarrow> por_size p | None \<Rightarrow> ZERO)"

definition worst_symbol_size :: "order \<Rightarrow> position_row list \<Rightarrow> reservation_row list \<Rightarrow> decimal" where
  "worst_symbol_size o' ps opening =
     (let held = position_size_of (od_symbol o') ps;
          buys = reserved_with o' (od_symbol o') True opening; sells = reserved_with o' (od_symbol o') False opening
      in max (max (dec_abs held) (dec_abs (held + buys))) (dec_abs (held - sells)))"

definition worst_size :: "order \<Rightarrow> position_row list \<Rightarrow> reservation_row list \<Rightarrow> string \<Rightarrow> decimal" where
  "worst_size o' ps opening symb =
     (let held = position_size_of symb ps
      in max (dec_abs (held + reserved_with o' symb True opening)) (dec_abs (held - reserved_with o' symb False opening)))"

text \<open>The prices a symbol may have to be valued at; the division is by a positive size.\<close>

definition reserved_price :: "reservation_row \<Rightarrow> decimal list" where
  "reserved_price r = (case dec_div (rsv_notional r) (rsv_size r) of Some q \<Rightarrow> [q] | None \<Rightarrow> [])"

definition price_candidates :: "order \<Rightarrow> position_row list \<Rightarrow> reservation_row list \<Rightarrow> decimal \<Rightarrow> string \<Rightarrow> decimal list" where
  "price_candidates o' ps opening reference symb =
     (case find (\<lambda>p. por_symbol p = symb) ps of
        Some p \<Rightarrow> [case por_mark_price p of Some m \<Rightarrow> m | None \<Rightarrow> ZERO] | None \<Rightarrow> [])
     @ concat (map reserved_price (filter (\<lambda>r. rsv_symbol r = symb \<and> rsv_size r > ZERO) opening))
     @ (if symb = od_symbol o' then [reference] else [])"

definition exposure_price :: "order \<Rightarrow> position_row list \<Rightarrow> reservation_row list \<Rightarrow> decimal \<Rightarrow> string \<Rightarrow> decimal" where
  "exposure_price o' ps opening reference symb =
     (case price_candidates o' ps opening reference symb of [] \<Rightarrow> ZERO | p # qs \<Rightarrow> fold max qs p)"

definition exposure_symbols :: "order \<Rightarrow> position_row list \<Rightarrow> reservation_row list \<Rightarrow> string list" where
  "exposure_symbols o' ps opening =
     sort (remdups (map por_symbol ps @ map rsv_symbol opening @ [od_symbol o']))"

fun sum_exposures :: "order \<Rightarrow> position_row list \<Rightarrow> reservation_row list \<Rightarrow> decimal \<Rightarrow> string list \<Rightarrow> decimal \<Rightarrow>
    decimal option" where
  "sum_exposures o' ps opening reference [] acc = Some acc"
| "sum_exposures o' ps opening reference (symb # symbs) acc =
     (let sz = worst_size o' ps opening symb; px = exposure_price o' ps opening reference symb in
      if is_positive sz \<and> px \<le> ZERO then None
      else sum_exposures o' ps opening reference symbs (acc + sz * px))"

definition bad_reduction :: "order \<Rightarrow> decimal \<Rightarrow> bool" where
  "bad_reduction o' held =
     (let after = held + (if od_side o' = Buy then od_size o' else - od_size o');
          reduces = \<not> is_zero held \<and> dec_abs after < dec_abs held;
          no_flip = is_zero after \<or> is_positive after = is_positive held
      in \<not> reduces \<or> \<not> no_flip)"

definition check_exposure :: "risk_limits \<Rightarrow> order \<Rightarrow> decimal \<Rightarrow> position_row list \<Rightarrow> reservation_row list \<Rightarrow>
    decimal \<Rightarrow> string list \<Rightarrow> risk_check_result" where
  "check_exposure lims o' equity ps reservations reference checked =
     (let opening = filter (\<lambda>r. \<not> rsv_reduce_only r) reservations in
      if od_reduce_only o' \<and> bad_reduction o' (position_size_of (od_symbol o') ps)
      then scope_fail ''invalid_reduce_only_order'' checked
      else if equity \<le> ZERO then scope_fail ''non_positive_equity'' checked
      else if \<not> od_reduce_only o' \<and> worst_symbol_size o' ps opening * reference > equity * position_fraction lims
      then scope_fail ''position_limit_exceeded_with_reservations'' checked
      else case sum_exposures o' ps opening reference (exposure_symbols o' ps opening) ZERO of
             None \<Rightarrow> scope_fail ''market_price_not_available'' checked
           | Some notional \<Rightarrow>
               if \<not> od_reduce_only o' \<and> (case (dec_div notional equity, from_i128 (int (rl_max_leverage lims))) of
                    (Some q, Some m) \<Rightarrow> q > m | _ \<Rightarrow> True)
               then scope_fail ''leverage_exceeded_with_reservations'' checked
               else scope_pass (checked @ [''max_position'', ''max_leverage'']))"

text \<open>The rows of the account are locked until the transaction ends: concurrent placements of one account
  run one after the other.\<close>

definition check_and_lock_risk_scope :: "pg_store \<Rightarrow> risk_limits \<Rightarrow> order \<Rightarrow> decimal option \<Rightarrow> risk_check_result pgm" where
  "check_and_lock_risk_scope ps lims o' supplied = (\<lambda>s.
     (let sub = od_sub_account o'; checked1 = [''postgres_account_scope_locked''];
          checked = checked1 @ [''active_reservations_included''] in
      case find (\<lambda>a. acr_sub_account a = sub) (pg_accounts s) of
        None \<Rightarrow> Some (s, Inr (scope_fail ''account_state_not_available'' checked1))
      | Some a \<Rightarrow>
          if f64_lt (pgs_stale_seconds ps) (f64_of_int (num_seconds (pg_clock s - acr_exchange_updated_at a)))
          then Some (s, Inr (scope_fail ''account_state_stale'' checked1))
          else
            let s1 = expire_reservations sub s;
                positions = filter (\<lambda>p. por_sub_account p = sub) (pg_positions s1);
                reservations = filter (\<lambda>r. rsv_status r = ''active'' \<and> rsv_sub_account r = sub) (pg_reservations s1)
            in case store_reference_price o' supplied s1 of
                 Inl e \<Rightarrow> Some (s1, Inl e)
               | Inr reference \<Rightarrow> Some (s1, Inr (
                   if reference \<le> ZERO then scope_fail ''market_price_not_available'' checked
                   else if od_is_spot o' then scope_pass (checked @ [''spot_balance_rechecked_at_dispatch''])
                   else check_exposure lims o' (acr_equity a) positions reservations reference checked))))"

section \<open>Placements\<close>

definition insert_command :: "command_row \<Rightarrow> unit pgm" where
  "insert_command c =
     st_bind (st_at (\<lambda>s. require (cmr_status c \<in> set COMMAND_STATUSES
       \<and> (\<forall>x\<in>set (pg_commands s). cmr_command_id x \<noteq> cmr_command_id c
            \<and> (cmr_actor_id x, cmr_idempotency_key x) \<noteq> (cmr_actor_id c, cmr_idempotency_key c))) ''execution_commands'')) (\<lambda>_.
     st_modify (pg_commands_update (\<lambda>cs. cs @ [c])))"

definition place_command :: "string \<Rightarrow> string \<Rightarrow> order \<Rightarrow> bool \<Rightarrow> string option \<Rightarrow> pg \<Rightarrow> command_row" where
  "place_command command_id order_id o' dispatch reason s =
     \<lparr>cmr_command_id = command_id, cmr_order_id = order_id, cmr_command_type = ''place_order'',
      cmr_actor_type = (if od_strategy_id o' \<noteq> None then ''strategy'' else ''system''),
      cmr_actor_id = (case od_strategy_id o' of Some x \<Rightarrow> x | None \<Rightarrow> ''execution_engine''),
      cmr_idempotency_key = od_cloid o', cmr_priority = 100,
      cmr_status = (if dispatch then ''pending'' else ''failed''), cmr_payload = order_payload o',
      cmr_attempt_count = 0, cmr_available_at = pg_now s, cmr_locked_at = None, cmr_locked_by = None,
      cmr_completed_at = (if dispatch then None else Some (pg_clock s)),
      cmr_last_error_code = (if dispatch then None else reason),
      cmr_last_error_message = (if dispatch then None else reason), cmr_created_at = pg_now s\<rparr>"

definition reserve :: "pg_store \<Rightarrow> string \<Rightarrow> string \<Rightarrow> order \<Rightarrow> decimal option \<Rightarrow> unit pgm" where
  "reserve ps command_id order_id o' supplied =
     st_bind (st_at (\<lambda>s. st_lift (store_reference_price o' supplied s))) (\<lambda>price.
     st_bind (draw_uuid (pgs_uuid ps)) (\<lambda>reservation_id.
     let notional = od_size o' * price in
     st_bind (require (ZERO \<le> notional \<and> numeric_ok notional \<and> ZERO \<le> od_size o' \<and> numeric_ok (od_size o'))
       ''ck_risk_reservations'') (\<lambda>_.
     st_modify (\<lambda>s. s\<lparr>pg_reservations := pg_reservations s @
       [\<lparr>rsv_reservation_id = reservation_id, rsv_command_id = command_id, rsv_order_id = order_id,
         rsv_sub_account = od_sub_account o', rsv_strategy_id = od_strategy_id o', rsv_symbol = od_symbol o',
         rsv_side = side_as_str (od_side o'), rsv_reduce_only = (od_reduce_only o' \<or> od_risk_reducing o'),
         rsv_size = od_size o', rsv_notional = notional, rsv_status = ''active'',
         rsv_expires_at = pg_clock s + pgs_ttl_seconds ps * 1000000000, rsv_released_at = None\<rparr>]\<rparr>))))"

text \<open>A cloid that is already placed keeps its row; the answer depends only on whether that was rejected.\<close>

definition duplicate_placement :: "order_row \<Rightarrow> risk_check_result" where
  "duplicate_placement r =
     (if row_status r = Rejected
      then scope_fail (case orr_error_message r of Some m \<Rightarrow> m | None \<Rightarrow> ''duplicate_rejected_placement'') [''duplicate_cloid'']
      else scope_pass [''duplicate_cloid_idempotent''])"

text \<open>The rows of a new placement, once the verdict is known.\<close>

definition write_placement :: "pg_store \<Rightarrow> string \<Rightarrow> string \<Rightarrow> order \<Rightarrow> risk_check_result \<Rightarrow> bool \<Rightarrow> decimal option \<Rightarrow>
    unit pgm" where
  "write_placement ps order_id command_id o' risk dispatch supplied =
     st_bind (st_at (\<lambda>s. insert_order (order_row_of order_id (Some command_id) 1 (pg_now s) o'))) (\<lambda>_.
     st_bind (draw_uuid (pgs_uuid ps)) (\<lambda>_.
     st_bind (st_modify (pg_risk_events_update (\<lambda>es. es @
       [\<lparr>rer_command_id = command_id, rer_order_id = order_id, rer_passed = rc_passed risk,
         rer_reason = rc_reason risk, rer_checked_limits = rc_checked_limits risk,
         rer_reservation_included = dispatch, rer_reference_price = supplied\<rparr>]))) (\<lambda>_.
     st_bind (st_at (\<lambda>s. insert_command (place_command command_id order_id o' dispatch (rc_reason risk) s))) (\<lambda>_.
     st_bind (if dispatch then reserve ps command_id order_id o' supplied else st_return ()) (\<lambda>_.
     append_event_rows (pgs_uuid ps) o' order_id 1 (if dispatch then ''submitted'' else ''rejected'') (order_payload o'))))))"

definition placement_body :: "pg_store \<Rightarrow> order \<Rightarrow> risk_check_result \<Rightarrow> string \<Rightarrow> bool \<Rightarrow> decimal option \<Rightarrow>
    risk_check_result tx_end pgm" where
  "placement_body ps o' risk command_id dispatch supplied =
     st_bind (draw_uuid (pgs_uuid ps)) (\<lambda>order_id.
     st_at (\<lambda>s. case order_by_cloid (od_cloid o') s of
       Some r \<Rightarrow> st_return (TX_Drop (duplicate_placement r))
     | None \<Rightarrow>
         st_bind (case pgs_limits ps of
             Some lims \<Rightarrow> if dispatch \<and> rc_passed risk then check_and_lock_risk_scope ps lims o' supplied else st_return risk
           | None \<Rightarrow> st_return risk) (\<lambda>effective.
         let refused = dispatch \<and> rc_passed risk \<and> pgs_limits ps \<noteq> None \<and> \<not> rc_passed effective;
             o2 = (if refused then o'\<lparr>od_status := Rejected, od_error_message := rc_reason effective\<rparr> else o')
         in st_bind (write_placement ps order_id command_id o2 effective (dispatch \<and> \<not> refused) supplied)
              (\<lambda>_. st_return (TX_Commit effective)))))"

definition pg_persist_placement :: "pg_store \<Rightarrow> order \<Rightarrow> risk_check_result \<Rightarrow> string \<Rightarrow> bool \<Rightarrow> decimal option \<Rightarrow>
    risk_check_result pgm" where
  "pg_persist_placement ps o' risk command_id dispatch supplied =
     pg_tx (placement_body ps o' risk command_id dispatch supplied)"

section \<open>Transitions\<close>

text \<open>A terminal row keeps its status, a partial fill is not lowered, and fills never shrink.\<close>

definition merge_transport_transition :: "order_row \<Rightarrow> order \<Rightarrow> hypeedge_error + order" where
  "merge_transport_transition r o' =
     (let m = to_domain r in
      if od_exchange_oid o' \<noteq> None \<and> od_exchange_oid m \<noteq> None \<and> od_exchange_oid m \<noteq> od_exchange_oid o'
      then Inl (StrategyLifecycle ''exchange order oid changed for an existing cloid'')
      else
        let preserve = is_terminal (od_status m) \<or>
              (od_status m = PartialFill \<and> od_status o' \<in> set [Pending, Submitted, SubmitUnknown, Acknowledged])
        in Inr (m\<lparr>
          od_exchange_oid := (if od_exchange_oid o' \<noteq> None then od_exchange_oid o' else od_exchange_oid m),
          od_status := (if preserve then od_status m else od_status o'),
          od_error_message := od_error_message o',
          od_submitted_at := (if od_submitted_at m = None then od_submitted_at o' else od_submitted_at m),
          od_acknowledged_at := (if od_acknowledged_at m = None then od_acknowledged_at o' else od_acknowledged_at m),
          od_filled_size := (if od_filled_size o' > od_filled_size m then od_filled_size o' else od_filled_size m),
          od_avg_fill_price := (if od_avg_fill_price o' \<noteq> None then od_avg_fill_price o' else od_avg_fill_price m),
          od_filled_at := (if od_filled_at o' \<noteq> None then od_filled_at o' else od_filled_at m)\<rparr>))"

text \<open>The columns that an update of an order writes.\<close>

definition project_order :: "order \<Rightarrow> int \<Rightarrow> order_row \<Rightarrow> order_row" where
  "project_order m revision r = r\<lparr>
     orr_exchange_oid := od_exchange_oid m, orr_status := order_status_as_str (od_status m),
     orr_filled_size := od_filled_size m, orr_avg_fill_price := od_avg_fill_price m,
     orr_error_message := od_error_message m, orr_submitted_at := od_submitted_at m,
     orr_acknowledged_at := od_acknowledged_at m, orr_filled_at := od_filled_at m, orr_revision := revision\<rparr>"

definition complete_command :: "string \<Rightarrow> string \<Rightarrow> string option \<Rightarrow> unit pgm" where
  "complete_command command_id status message =
     st_bind (st_at (\<lambda>s. require (status \<in> set COMMAND_STATUSES \<or> (\<forall>c\<in>set (pg_commands s). cmr_command_id c \<noteq> command_id))
       ''ck_execution_commands_status'')) (\<lambda>_.
     st_modify (\<lambda>s. s\<lparr>pg_commands := map (\<lambda>c. if cmr_command_id c = command_id
       then c\<lparr>cmr_status := status,
              cmr_completed_at := (if status \<in> set [''succeeded'', ''failed'', ''cancelled''] then Some (pg_clock s) else None),
              cmr_locked_at := None, cmr_locked_by := None, cmr_last_error_message := message\<rparr>
       else c) (pg_commands s)\<rparr>))"

definition reservation_outcome :: "order_status \<Rightarrow> string option" where
  "reservation_outcome st =
     (if st = Filled then Some ''consumed''
      else if st \<in> {Rejected, Cancelled, Expired} then Some ''released'' else None)"

definition settle_reservation :: "string \<Rightarrow> order_status \<Rightarrow> unit pgm" where
  "settle_reservation order_id st = st_modify (\<lambda>s.
     case (find (\<lambda>r. rsv_order_id r = order_id) (pg_reservations s), reservation_outcome st) of
       (Some v, Some outcome) \<Rightarrow>
         if rsv_status v = ''active''
         then s\<lparr>pg_reservations := map (\<lambda>r. if rsv_reservation_id r = rsv_reservation_id v
                then r\<lparr>rsv_status := outcome, rsv_released_at := Some (pg_now s)\<rparr> else r) (pg_reservations s)\<rparr>
         else s
     | _ \<Rightarrow> s)"

definition pg_persist_transition :: "pg_store \<Rightarrow> order \<Rightarrow> string \<Rightarrow> string option \<Rightarrow> string option \<Rightarrow> unit pgm" where
  "pg_persist_transition ps o' event_type command_id command_status =
     pg_tx (st_bind (fetch_order (od_cloid o')) (\<lambda>r.
       st_bind (st_lift (merge_transport_transition r o')) (\<lambda>m.
       let revision = orr_revision r + 1 in
       st_bind (update_orders (od_cloid o') (project_order m revision)) (\<lambda>_.
       st_bind (if command_id \<noteq> None \<and> command_status \<noteq> None
                then complete_command (the command_id) (the command_status) (od_error_message m) else st_return ()) (\<lambda>_.
       st_bind (settle_reservation (orr_order_id r) (od_status m)) (\<lambda>_.
       st_bind (append_event_rows (pgs_uuid ps) m (orr_order_id r) revision event_type (order_payload m)) (\<lambda>_.
       st_return (TX_Commit ()))))))))"

section \<open>Cancel requests, reads and reconciliation\<close>

definition cancel_command :: "string \<Rightarrow> string \<Rightarrow> order \<Rightarrow> pg \<Rightarrow> command_row" where
  "cancel_command command_id order_id o' s =
     \<lparr>cmr_command_id = command_id, cmr_order_id = order_id, cmr_command_type = ''cancel_order'',
      cmr_actor_type = ''system'', cmr_actor_id = ''execution_engine'',
      cmr_idempotency_key = ''cancel:'' @ od_cloid o', cmr_priority = 100, cmr_status = ''pending'',
      cmr_payload = JObj [(''cloid'', JStr (od_cloid o')), (''symbol'', JStr (od_symbol o'))],
      cmr_attempt_count = 0, cmr_available_at = pg_now s, cmr_locked_at = None, cmr_locked_by = None,
      cmr_completed_at = None, cmr_last_error_code = None, cmr_last_error_message = None, cmr_created_at = pg_now s\<rparr>"

text \<open>\<open>ON CONFLICT (actor_id, idempotency_key) DO NOTHING\<close>; any other conflict is an error.\<close>

definition insert_command_once :: "command_row \<Rightarrow> unit pgm" where
  "insert_command_once c = st_at (\<lambda>s.
     if \<exists>x\<in>set (pg_commands s). cmr_actor_id x = cmr_actor_id c \<and> cmr_idempotency_key x = cmr_idempotency_key c
     then st_return () else insert_command c)"

definition pg_persist_cancel_requested :: "pg_store \<Rightarrow> order \<Rightarrow> string \<Rightarrow> unit pgm" where
  "pg_persist_cancel_requested ps o' command_id =
     pg_tx (st_bind (fetch_order (od_cloid o')) (\<lambda>r.
       let revision = orr_revision r + 1 in
       st_bind (update_orders (od_cloid o') (orr_revision_update (\<lambda>_. revision))) (\<lambda>_.
       st_bind (st_at (\<lambda>s. insert_command_once (cancel_command command_id (orr_order_id r) o' s))) (\<lambda>_.
       st_bind (append_event_rows (pgs_uuid ps) o' (orr_order_id r) revision ''cancel_requested'' (order_payload o')) (\<lambda>_.
       st_return (TX_Commit ()))))))"

definition pg_load_open_orders :: "pg \<Rightarrow> hypeedge_error + order list" where
  "pg_load_open_orders = pg_read (\<lambda>s. Inr (map to_domain (sort_key orr_created_at
     (filter (\<lambda>r. orr_status r \<notin> set [''filled'', ''cancelled'', ''rejected'', ''expired'']) (pg_orders s)))))"

definition pg_get_order :: "string \<Rightarrow> pg \<Rightarrow> hypeedge_error + order option" where
  "pg_get_order cloid = pg_read (\<lambda>s. Inr (map_option to_domain (order_by_cloid cloid s)))"

definition merge_reconciled :: "time_ns \<Rightarrow> order_row \<Rightarrow> order \<Rightarrow> order" where
  "merge_reconciled now r o' =
     (let m = to_domain r in m\<lparr>
        od_exchange_oid := (if od_exchange_oid o' \<noteq> None then od_exchange_oid o' else od_exchange_oid m),
        od_status := od_status o',
        od_filled_size := (if od_filled_size o' > od_filled_size m then od_filled_size o' else od_filled_size m),
        od_avg_fill_price := (if od_avg_fill_price o' \<noteq> None then od_avg_fill_price o' else od_avg_fill_price m),
        od_error_message := (if od_error_message o' \<noteq> None then od_error_message o' else od_error_message m),
        od_submitted_at := (if od_submitted_at m = None then od_submitted_at o' else od_submitted_at m),
        od_acknowledged_at := (if od_acknowledged_at o' \<noteq> None then od_acknowledged_at o'
          else if od_acknowledged_at m \<noteq> None then od_acknowledged_at m else Some now),
        od_filled_at := (if od_filled_at o' \<noteq> None then od_filled_at o' else od_filled_at m)\<rparr>)"

text \<open>The row of an order first seen on the exchange.\<close>

definition imported_row :: "string \<Rightarrow> order \<Rightarrow> pg \<Rightarrow> order_row" where
  "imported_row order_id o' s = (order_row_of order_id None 1 (pg_now s) o')\<lparr>
     orr_exchange_oid := od_exchange_oid o', orr_acknowledged_at := od_acknowledged_at o',
     orr_filled_at := od_filled_at o',
     orr_submitted_at := (if od_submitted_at o' \<noteq> None then od_submitted_at o' else Some (pg_clock s))\<rparr>"

text \<open>Every active reservation of the order, unlike in a transition.\<close>

definition release_reservations :: "string \<Rightarrow> order_status \<Rightarrow> unit pgm" where
  "release_reservations order_id st = st_modify (\<lambda>s. s\<lparr>pg_reservations := map (\<lambda>r.
     if rsv_order_id r = order_id \<and> rsv_status r = ''active''
     then r\<lparr>rsv_status := (if st = Filled then ''consumed'' else ''released''), rsv_released_at := Some (pg_now s)\<rparr>
     else r) (pg_reservations s)\<rparr>)"

definition reconcile_row :: "pg_store \<Rightarrow> order \<Rightarrow> (string \<times> int \<times> order) pgm" where
  "reconcile_row ps o' = st_at (\<lambda>s.
     case order_by_cloid (od_cloid o') s of
       None \<Rightarrow>
         st_bind (draw_uuid (pgs_uuid ps)) (\<lambda>order_id.
         st_bind (st_at (\<lambda>s'. insert_order (imported_row order_id o' s'))) (\<lambda>_. st_return (order_id, 1, o')))
     | Some r \<Rightarrow>
         let m = merge_reconciled (pg_clock s) r o'; revision = orr_revision r + 1 in
         st_bind (update_orders (od_cloid m) (project_order m revision)) (\<lambda>_. st_return (orr_order_id r, revision, m)))"

definition pg_persist_reconciled_order :: "pg_store \<Rightarrow> order \<Rightarrow> unit pgm" where
  "pg_persist_reconciled_order ps o' =
     pg_tx (st_bind (reconcile_row ps o') (\<lambda>(order_id, revision, m).
       st_bind (append_event_rows (pgs_uuid ps) m order_id revision ''reconciled_import'' (order_payload m)) (\<lambda>_.
       st_bind (if order_is_terminal m then release_reservations order_id (od_status m) else st_return ()) (\<lambda>_.
       st_return (TX_Commit ())))))"

section \<open>The store the engine is given\<close>

text \<open>No operation panics (\<open>pg_ops_return\<close> of \<open>HE_Store_Log\<close>); the adapter hands the clone of the order to the store.\<close>

definition total_op :: "'a pgm \<Rightarrow> pg \<Rightarrow> pg \<times> (hypeedge_error + 'a)" where
  "total_op m s = (case m s of Some r \<Rightarrow> r | None \<Rightarrow> (s, Inl (Postgres ''panic'')))"

definition pg_store_ops :: "pg_store \<Rightarrow> pg store_ops" where
  "pg_store_ops ps =
     \<lparr>so_placement = (\<lambda>o' risk cid dispatch ref. total_op (pg_persist_placement ps o' risk cid dispatch ref)),
      so_transition = (\<lambda>o' ev cid st. total_op (pg_persist_transition ps o' ev cid st)),
      so_cancel_requested = (\<lambda>o' cid. total_op (pg_persist_cancel_requested ps o' cid)),
      so_reconciled = (\<lambda>o'. total_op (pg_persist_reconciled_order ps o')),
      so_load_open = pg_load_open_orders,
      so_get = pg_get_order\<rparr>"

end
