(* ===== verification/HE_Engine_Response.thy ===== *)
theory HE_Engine_Response
  imports HE_Engine
begin

text \<open>
  \<open>engine.rs\<close>, second part: what the engine makes of exchange answers. The handlers run on the engine
  together with the order they are given (\<open>&mut Order\<close>): changes made to it before an early return stay.
  \<open>now\<close> is the clock, read once per handler.
\<close>

section \<open>The order at hand\<close>

type_synonym ('s, 'a) order_op = "('s engine \<times> order, hypeedge_error, 'a) st_op"

definition on_engine :: "('s, 'a) eng \<Rightarrow> ('s, 'a) order_op" where
  "on_engine m = (\<lambda>(s, o'). map_option (\<lambda>(s', r). ((s', o'), r)) (m s))"

definition set_order :: "(order \<Rightarrow> order) \<Rightarrow> ('s, unit) order_op" where
  "set_order f = st_modify (\<lambda>(s, o'). (s, f o'))"

definition to_status :: "order_status \<Rightarrow> ('s, unit) order_op" where
  "to_status st = (\<lambda>(s, o'). case transition o' st of
       Inl e \<Rightarrow> Some ((s, o'), Inl e) | Inr o'' \<Rightarrow> Some ((s, o''), Inr ()))"

definition persist_order :: "'s engine_config \<Rightarrow> string \<Rightarrow> string option \<Rightarrow> string \<Rightarrow> ('s, unit) order_op" where
  "persist_order cfg event_type command_id status =
     st_at (\<lambda>(s, o'). on_engine (persist_transition cfg o' event_type command_id (Some status)))"

definition publish_order :: "order_event \<Rightarrow> ('s, unit) order_op" where
  "publish_order ev = st_modify (\<lambda>(s, o'). (publish ev o' s, o'))"

text \<open>The common shape of a branch: transition, stamp the order, persist, publish.\<close>

definition settle :: "'s engine_config \<Rightarrow> string option \<Rightarrow> order_status \<Rightarrow> (order \<Rightarrow> order) \<Rightarrow> string \<Rightarrow> string \<Rightarrow>
    order_event option \<Rightarrow> ('s, unit) order_op" where
  "settle cfg command_id st stamp event_type command_status ev =
     st_bind (to_status st) (\<lambda>_.
     st_bind (set_order stamp) (\<lambda>_.
     st_bind (persist_order cfg event_type command_id command_status) (\<lambda>_.
     case ev of Some e \<Rightarrow> publish_order e | None \<Rightarrow> st_return ())))"

section \<open>Reading an answer\<close>

definition lenient_field :: "string \<Rightarrow> json \<Rightarrow> decimal option" where
  "lenient_field k j =
     (case json_str_field k j of
        Some s \<Rightarrow> (case from_str_lenient s of Inr d \<Rightarrow> Some d | Inl _ \<Rightarrow> None)
      | None \<Rightarrow> None)"

definition fill_size_of :: "json \<Rightarrow> order \<Rightarrow> decimal" where
  "fill_size_of fill o' = (case lenient_field ''totalSz'' fill of Some d \<Rightarrow> d | None \<Rightarrow> od_size o')"

definition fill_price_of :: "json \<Rightarrow> decimal" where
  "fill_price_of fill = (case lenient_field ''avgPx'' fill of Some d \<Rightarrow> d | None \<Rightarrow> ZERO)"

definition ends_with :: "string \<Rightarrow> string \<Rightarrow> bool" where
  "ends_with s suf \<longleftrightarrow> suffix suf s"

definition terminal_exchange_status :: "string \<Rightarrow> order_status option" where
  "terminal_exchange_status rw =
     (let v = filter (\<lambda>ch. ch \<noteq> CHR ''_'') (to_lowercase (str_trim rw))
      in if v = ''filled'' then Some Filled
         else if v = ''margincanceled'' \<or> v = ''rejected'' \<or> ends_with v ''rejected'' then Some Rejected
         else if v \<in> set [''canceled'', ''cancelled'', ''ioccancel'', ''scheduledcancel'']
           \<or> ends_with v ''canceled'' \<or> ends_with v ''cancelled'' then Some Cancelled
         else if v = ''expired'' then Some Expired
         else None)"

definition status_data_of :: "json \<Rightarrow> json" where
  "status_data_of response = (case json_get ''order'' response of Some j \<Rightarrow> j | None \<Rightarrow> JNull)"

definition exchange_status_of :: "json \<Rightarrow> string" where
  "exchange_status_of response =
     (case json_str_field ''status'' (status_data_of response) of Some s \<Rightarrow> s | None \<Rightarrow> [])"

definition order_payload_of :: "json \<Rightarrow> json" where
  "order_payload_of status_data =
     (case json_get ''order'' status_data of
        Some v \<Rightarrow> if json_is_object v then v else status_data
      | None \<Rightarrow> status_data)"

text \<open>The fill fields of a status lookup: the size never goes down, a price must be positive.\<close>

definition apply_lookup_fill :: "time_ns \<Rightarrow> json \<Rightarrow> order \<Rightarrow> order" where
  "apply_lookup_fill now payload o' =
     (let o1 = (case lenient_field ''totalSz'' payload of
                  Some tot \<Rightarrow> o'\<lparr>od_filled_size := dec_max tot (od_filled_size o')\<rparr> | None \<Rightarrow> o');
          o2 = (case lenient_field ''avgPx'' payload of
                  Some px \<Rightarrow> if px > ZERO then o1\<lparr>od_avg_fill_price := Some px\<rparr> else o1 | None \<Rightarrow> o1)
      in o2\<lparr>od_filled_at := Some now\<rparr>)"

definition credit_order_fill :: "time_ns \<Rightarrow> ('s, unit) order_op" where
  "credit_order_fill now = st_modify (\<lambda>(s, o').
     (credit_fill (od_filled_size o' * (case od_avg_fill_price o' of Some p \<Rightarrow> p | None \<Rightarrow> ZERO)) now s, o'))"

section \<open>Submission answers\<close>

definition acknowledge :: "'s engine_config \<Rightarrow> time_ns \<Rightarrow> string option \<Rightarrow> ('s, unit) order_op" where
  "acknowledge cfg now cid =
     settle cfg cid Acknowledged (od_acknowledged_at_update (\<lambda>_. Some now)) ''acknowledged'' ''succeeded''
       (Some EV_Acknowledged)"

definition merge_resting_fill :: "time_ns \<Rightarrow> json \<Rightarrow> order \<Rightarrow> order" where
  "merge_resting_fill now fill o' =
     o'\<lparr>od_filled_size := fill_size_of fill o', od_avg_fill_price := Some (fill_price_of fill),
        od_filled_at := Some now\<rparr>"

definition handle_resting :: "'s engine_config \<Rightarrow> time_ns \<Rightarrow> string option \<Rightarrow> json \<Rightarrow> json \<Rightarrow> ('s, unit) order_op" where
  "handle_resting cfg now cid entry resting =
     st_bind (set_order (od_exchange_oid_update (\<lambda>_. map_option (ec_json_text cfg) (json_get ''oid'' resting)))) (\<lambda>_.
     case json_get ''filled'' entry of
       Some fill \<Rightarrow>
         st_bind (set_order (merge_resting_fill now fill)) (\<lambda>_.
         st_bind (credit_order_fill now) (\<lambda>_.
         st_at (\<lambda>(s, o'). if od_filled_size o' \<ge> od_size o'
            then settle cfg cid Filled id ''filled'' ''succeeded'' (Some EV_Filled)
            else settle cfg cid PartialFill id ''partial_fill'' ''succeeded'' (Some EV_PartialFill))))
     | None \<Rightarrow> acknowledge cfg now cid)"

definition handle_immediate_fill :: "'s engine_config \<Rightarrow> time_ns \<Rightarrow> string option \<Rightarrow> json \<Rightarrow> ('s, unit) order_op" where
  "handle_immediate_fill cfg now cid fill =
     st_at (\<lambda>(s, o'). let sz = fill_size_of fill o'; px = fill_price_of fill in
     st_bind (to_status Filled) (\<lambda>_.
     st_bind (set_order (\<lambda>o1. o1\<lparr>od_filled_at := Some now,
        od_exchange_oid := map_option (ec_json_text cfg) (json_get ''oid'' fill),
        od_filled_size := sz, od_avg_fill_price := Some px\<rparr>)) (\<lambda>_.
     st_bind (credit_order_fill now) (\<lambda>_.
     st_bind (persist_order cfg ''filled'' cid ''succeeded'') (\<lambda>_.
     publish_order EV_Filled)))))"

definition reject_with :: "'s engine_config \<Rightarrow> string option \<Rightarrow> string \<Rightarrow> ('s, unit) order_op" where
  "reject_with cfg cid msg =
     settle cfg cid Rejected (od_error_message_update (\<lambda>_. Some msg)) ''rejected'' ''failed'' (Some EV_Rejected)"

definition handle_ok_entry :: "'s engine_config \<Rightarrow> time_ns \<Rightarrow> string option \<Rightarrow> json \<Rightarrow> ('s, unit) order_op" where
  "handle_ok_entry cfg now cid entry =
     (case json_get ''resting'' entry of
        Some resting \<Rightarrow> handle_resting cfg now cid entry resting
      | None \<Rightarrow> (case json_get ''filled'' entry of
          Some fill \<Rightarrow> handle_immediate_fill cfg now cid fill
        | None \<Rightarrow> (case json_get ''error'' entry of
            Some err \<Rightarrow> reject_with cfg cid (case json_as_str err of Some m \<Rightarrow> m | None \<Rightarrow> ''unknown_error'')
          | None \<Rightarrow> st_return ())))"

definition handle_status_lookup :: "'s engine_config \<Rightarrow> time_ns \<Rightarrow> string option \<Rightarrow> json \<Rightarrow> ('s, unit) order_op" where
  "handle_status_lookup cfg now cid response =
     (case terminal_exchange_status (exchange_status_of response) of
        Some Filled \<Rightarrow>
          st_bind (to_status Filled) (\<lambda>_.
          st_bind (set_order (apply_lookup_fill now (order_payload_of (status_data_of response)))) (\<lambda>_.
          st_bind (credit_order_fill now) (\<lambda>_.
          st_bind (persist_order cfg ''filled'' cid ''succeeded'') (\<lambda>_.
          publish_order EV_Filled))))
      | Some Cancelled \<Rightarrow> settle cfg cid Cancelled id ''cancelled'' ''succeeded'' (Some EV_Cancelled)
      | Some Rejected \<Rightarrow> settle cfg cid Rejected id ''rejected'' ''failed'' (Some EV_Rejected)
      | Some Expired \<Rightarrow> settle cfg cid Expired id ''expired'' ''failed'' (Some EV_Expired)
      | _ \<Rightarrow> acknowledge cfg now cid)"

definition handle_submit_response :: "'s engine_config \<Rightarrow> time_ns \<Rightarrow> string option \<Rightarrow> json \<Rightarrow> ('s, unit) order_op" where
  "handle_submit_response cfg now cid response =
     (let st = json_str_field ''status'' response in
      if st = Some ''ok'' then
        (case Option.bind (json_path [''response'', ''data'', ''statuses''] response) json_as_array of
           Some (entry # _) \<Rightarrow> handle_ok_entry cfg now cid entry
         | _ \<Rightarrow> acknowledge cfg now cid)
      else if st = Some ''err'' then
        reject_with cfg cid (case json_get ''response'' response of
          Some r \<Rightarrow> ec_json_text cfg r | None \<Rightarrow> ''unknown_error'')
      else if st = Some ''order'' then handle_status_lookup cfg now cid response
      else if json_is_object response then
        settle cfg cid SubmitUnknown (od_error_message_update (\<lambda>_. Some ''unknown_exchange_response''))
          ''submit_unknown'' ''unknown'' None
      else acknowledge cfg now cid)"

section \<open>Cancellation answers\<close>

definition mark_cancelled :: "'s engine_config \<Rightarrow> string option \<Rightarrow> ('s, bool) order_op" where
  "mark_cancelled cfg cid =
     st_bind (settle cfg cid Cancelled (od_error_message_update (\<lambda>_. None)) ''cancelled'' ''succeeded''
       (Some EV_Cancelled)) (\<lambda>_. st_return True)"

text \<open>Both errors are ignored: an illegal transition leaves the status, a failed write is dropped.\<close>

definition ignore_error :: "('st, 'e, unit) st_op \<Rightarrow> ('st, 'f, unit) st_op" where
  "ignore_error m s = map_option (\<lambda>(s', _). (s', Inr ())) (m s)"

definition mark_cancel_unknown :: "'s engine_config \<Rightarrow> string \<Rightarrow> string option \<Rightarrow> ('s, unit) order_op" where
  "mark_cancel_unknown cfg reason cid =
     st_bind (st_at (\<lambda>(s, o'). if od_status o' \<noteq> CancelUnknown then ignore_error (to_status CancelUnknown)
                        else st_return ())) (\<lambda>_.
     st_bind (set_order (od_error_message_update (\<lambda>_. Some reason))) (\<lambda>_.
     ignore_error (persist_order cfg ''cancel_unknown'' cid ''unknown'')))"

definition cancel_unresolved :: "'s engine_config \<Rightarrow> string \<Rightarrow> string option \<Rightarrow> ('s, bool) order_op" where
  "cancel_unresolved cfg reason cid = st_bind (mark_cancel_unknown cfg reason cid) (\<lambda>_. st_return False)"

text \<open>The exchange refused the cancel: the order keeps its status.\<close>

definition cancel_refused :: "'s engine_config \<Rightarrow> string \<Rightarrow> string option \<Rightarrow> ('s, bool) order_op" where
  "cancel_refused cfg msg cid =
     st_bind (set_order (od_error_message_update (\<lambda>_. Some msg))) (\<lambda>_.
     st_bind (persist_order cfg ''cancel_failed'' cid ''failed'') (\<lambda>_. st_return False))"

definition handle_cancel_lookup :: "'s engine_config \<Rightarrow> time_ns \<Rightarrow> string option \<Rightarrow> json \<Rightarrow> ('s, bool) order_op" where
  "handle_cancel_lookup cfg now cid response =
     (case terminal_exchange_status (exchange_status_of response) of
        Some Cancelled \<Rightarrow> mark_cancelled cfg cid
      | Some Filled \<Rightarrow>
          st_bind (to_status Filled) (\<lambda>_.
          st_bind (set_order (apply_lookup_fill now (order_payload_of (status_data_of response)))) (\<lambda>_.
          st_bind (credit_order_fill now) (\<lambda>_.
          st_bind (set_order (od_error_message_update (\<lambda>_. Some ''cancel_not_applied_order_filled''))) (\<lambda>_.
          st_bind (persist_order cfg ''filled'' cid ''failed'') (\<lambda>_. st_return False)))))
      | Some _ \<Rightarrow>
          st_bind (settle cfg cid Rejected
            (od_error_message_update (\<lambda>_. Some ''cancel_not_applied_order_rejected'')) ''rejected'' ''failed'' None)
          (\<lambda>_. st_return False)
      | None \<Rightarrow> cancel_unresolved cfg (''cancel_status_'' @ exchange_status_of response) cid)"

definition handle_cancel_ok :: "'s engine_config \<Rightarrow> string option \<Rightarrow> json \<Rightarrow> ('s, bool) order_op" where
  "handle_cancel_ok cfg cid response =
     (case Option.bind (json_path [''response'', ''data'', ''statuses''] response) json_as_array of
        Some (entry # _) \<Rightarrow>
          (case json_as_str entry of
             Some t \<Rightarrow> if to_lowercase t = ''success'' then mark_cancelled cfg cid
                      else cancel_unresolved cfg ''unknown_cancel_response'' cid
           | None \<Rightarrow> (case json_get ''error'' entry of
                 Some err \<Rightarrow> cancel_refused cfg (ec_json_text cfg err) cid
               | None \<Rightarrow> cancel_unresolved cfg ''unknown_cancel_response'' cid))
      | _ \<Rightarrow> cancel_unresolved cfg ''unknown_cancel_response'' cid)"

definition handle_cancel_response :: "'s engine_config \<Rightarrow> time_ns \<Rightarrow> string option \<Rightarrow> json \<Rightarrow> ('s, bool) order_op" where
  "handle_cancel_response cfg now cid response =
     (if \<not> json_is_object response then cancel_unresolved cfg ''invalid_cancel_response'' cid
      else let st = (case json_str_field ''status'' response of Some t \<Rightarrow> t | None \<Rightarrow> []) in
        if st = ''order'' then handle_cancel_lookup cfg now cid response
        else if st = ''ok'' then handle_cancel_ok cfg cid response
        else if st = ''err'' then
          cancel_refused cfg (case json_get ''response'' response of
            Some r \<Rightarrow> ec_json_text cfg r | None \<Rightarrow> ''cancel_rejected'') cid
        else cancel_unresolved cfg ''unknown_cancel_response'' cid)"

end
