(* ===== verification/HE_Engine_Submit.thy ===== *)
theory HE_Engine_Submit
  imports HE_Engine_Response
begin

text \<open>
  \<open>engine.rs\<close>, third part: the submission path. Admission (validity, normalization, canonical cloid,
  idempotency, gates, reference price, risk, credits, durable placement), the job inside the serial nonce
  worker, and the classification of its answer. Between admission and the worker other tasks may change
  the gates: \<open>wi_others\<close> says how. \<open>worker_fate\<close> tells whether the job ran before the caller looked
  at its outcome, whether the caller's timeout fired first, or whether the queue was closed.
\<close>

section \<open>Freshness\<close>

text \<open>The milliseconds that \<open>from_timestamp_millis\<close> accepts, and the age in seconds.\<close>

definition chrono_millis :: "int \<Rightarrow> bool" where
  "chrono_millis ms \<longleftrightarrow> - 8334601228800000 \<le> ms \<and> ms \<le> 8210266876799999"

definition age_seconds :: "time_ns \<Rightarrow> int \<Rightarrow> f64" where
  "age_seconds now ms = f64_div (f64_of_int ((now - ms * 1000000) sdiv 1000000)) (f64_of_int 1000)"

definition snapshot_stale :: "'s engine_config \<Rightarrow> time_ns \<Rightarrow> mid_price \<Rightarrow> bool" where
  "snapshot_stale cfg now snap \<longleftrightarrow>
     chrono_millis (mp_timestamp snap) \<and> f64_lt (ec_stale_seconds cfg) (age_seconds now (mp_timestamp snap))"

definition snapshot_fresh :: "'s engine_config \<Rightarrow> time_ns \<Rightarrow> mid_price \<Rightarrow> bool" where
  "snapshot_fresh cfg now snap \<longleftrightarrow>
     \<not> chrono_millis (mp_timestamp snap) \<or> f64_le (age_seconds now (mp_timestamp snap)) (ec_stale_seconds cfg)"

section \<open>The worker\<close>

record worker_inputs =
  wi_others :: "gates \<Rightarrow> gates"
  wi_now :: time_ns
  wi_nonce :: int
  wi_snapshot :: "hypeedge_error + mid_price option"
  wi_clock :: "nat \<Rightarrow> time_ns \<times> time_ns"
  wi_cut :: "nat option"
  wi_view :: account_view
  wi_deadline :: bool
  wi_exchange :: "string + json"

text \<open>The attempts that fit before the bounded wait cuts \<open>acquire\<close> off.\<close>

fun acquire_bounded :: "nat \<Rightarrow> (nat \<Rightarrow> time_ns \<times> time_ns) \<Rightarrow> nat \<Rightarrow> nat \<Rightarrow> rate_limiter \<Rightarrow> rate_limiter \<times> bool" where
  "acquire_bounded weight clock i 0 rt = (rt, False)"
| "acquire_bounded weight clock i (Suc n) rt =
     (case acquire_attempt weight (fst (clock i)) (snd (clock i)) rt of
        (rt', None) \<Rightarrow> (rt', True)
      | (rt', Some _) \<Rightarrow> acquire_bounded weight clock (Suc i) n rt')"

definition acquire_exchange_weight :: "nat \<Rightarrow> (nat \<Rightarrow> time_ns \<times> time_ns) \<Rightarrow> nat option \<Rightarrow> rate_limiter option \<Rightarrow>
    rate_limiter option \<times> (string + unit)" where
  "acquire_exchange_weight batch clock bound limiter =
     (case limiter of
        None \<Rightarrow> (None, Inr ())
      | Some rl \<Rightarrow>
          (case bound of
             None \<Rightarrow> (case acquire ''exchange'' batch 0 clock rl of
                 (rl', Inr _) \<Rightarrow> (Some rl', Inr ())
               | (rl', Inl e) \<Rightarrow> (Some rl', Inl (''ip_rate_limit:'' @ e)))
           | Some n \<Rightarrow> (case acquire_bounded (calculate_weight ''exchange'' batch 0) clock 0 n rl of
                 (rl', True) \<Rightarrow> (Some rl', Inr ())
               | (rl', False) \<Rightarrow> (Some rl', Inl ''ip_rate_limit:acquire_timeout_2000ms''))))"

text \<open>A market order is repriced from a fresh snapshot; without a provider the admitted reference stays.\<close>

definition refresh_market_reference :: "'s engine_config \<Rightarrow> time_ns \<Rightarrow> (hypeedge_error + mid_price option) \<Rightarrow>
    decimal option \<Rightarrow> string + decimal option" where
  "refresh_market_reference cfg now snapshot reference =
     (if \<not> ec_provider cfg
      then (if reference = None then Inl ''market_price_not_available'' else Inr reference)
      else case snapshot of
             Inr (Some snap) \<Rightarrow>
               if snapshot_fresh cfg now snap then Inr (Some (mp_price snap)) else Inl ''market_price_stale''
           | Inr None \<Rightarrow> Inl ''market_price_not_available''
           | Inl e \<Rightarrow> Inl (''market_price_error:'' @ error_display e))"

definition placement_request :: "bool \<Rightarrow> order_intent \<Rightarrow> permission_request" where
  "placement_request emergency i =
     \<lparr>pr_action = (if emergency then BA_Close else BA_Place), pr_strategy_id = oi_strategy_id i,
      pr_symbol = map_option (\<lambda>_. oi_symbol i) (oi_strategy_id i), pr_child_actions = 1, pr_ip_weight = 1,
      pr_risk_reducing = oi_reduce_only i \<or> oi_risk_reducing i, pr_emergency = emergency\<rparr>"

definition placement_debit :: "bool \<Rightarrow> string \<Rightarrow> time_ns \<Rightarrow> order_intent \<Rightarrow> attempt_debit" where
  "placement_debit emergency cloid now i =
     \<lparr>ad_attempt_id = cloid, ad_child_actions = [if emergency then BA_Close else BA_Place], ad_ip_weight = 1,
      ad_occurred_at = now, ad_strategy_id = oi_strategy_id i,
      ad_symbol = map_option (\<lambda>_. oi_symbol i) (oi_strategy_id i)\<rparr>"

text \<open>An abort of the preflight is told from a transport failure by its constructor (the code prefixes the
  text with a sentinel).\<close>

datatype worker_error = WE_Abort string | WE_Transport string

type_synonym ('s, 'a) worker = "('s engine, worker_error, 'a) st_op"

definition w_gates :: "order_intent \<Rightarrow> ('s, unit) worker" where
  "w_gates i = (\<lambda>s. Some (s, case run_gates i (en_gates s) of
     Inl e \<Rightarrow> Inl (WE_Abort (error_display e)) | Inr _ \<Rightarrow> Inr ()))"

definition w_credits :: "time_ns \<Rightarrow> ('s, unit) worker" where
  "w_credits now = (\<lambda>s. Some (s, if credits_low now (en_gates s)
     then Inl (WE_Abort ''action_credits_below_threshold'') else Inr ()))"

definition w_reprice :: "'s engine_config \<Rightarrow> worker_inputs \<Rightarrow> order_intent \<Rightarrow> string \<Rightarrow> order_wire \<Rightarrow>
    decimal option \<Rightarrow> ('s, order_wire \<times> decimal option) worker" where
  "w_reprice cfg w i cloid wire reference =
     (if oi_order_type i \<noteq> OT_Market then st_return (wire, reference)
      else case refresh_market_reference cfg (wi_now w) (wi_snapshot w) reference of
             Inl e \<Rightarrow> st_fail (WE_Abort e)
           | Inr ref \<Rightarrow> st_lift_panic (map_option (\<lambda>r. case r of
                 Inl e \<Rightarrow> Inl (WE_Abort (error_display e)) | Inr wire' \<Rightarrow> Inr (wire', ref))
               (build_order_wire cfg i cloid ref)))"

definition w_weight :: "nat \<Rightarrow> worker_inputs \<Rightarrow> ('s, unit) worker" where
  "w_weight batch w = (\<lambda>s. (case acquire_exchange_weight batch (wi_clock w) (wi_cut w) (gt_limiter (en_gates s)) of
     (rl, r) \<Rightarrow> Some (s\<lparr>en_gates := (en_gates s)\<lparr>gt_limiter := rl\<rparr>\<rparr>,
       case r of Inl e \<Rightarrow> Inl (WE_Abort e) | Inr _ \<Rightarrow> Inr ())))"

definition w_risk :: "'s engine_config \<Rightarrow> worker_inputs \<Rightarrow> order_intent \<Rightarrow> decimal option \<Rightarrow> ('s, unit) worker" where
  "w_risk cfg w i reference = (\<lambda>s.
     (case gt_checker (en_gates s) of
        None \<Rightarrow> Some (s, Inr ())
      | Some rk \<Rightarrow>
          (case risk_check rk (wi_view w) (wi_now w) (wi_deadline w) i reference of
             None \<Rightarrow> None
           | Some (rk', result) \<Rightarrow>
               let s1 = s\<lparr>en_gates := (en_gates s)\<lparr>gt_checker := Some rk'\<rparr>\<rparr> in
               if rc_passed result then Some (s1, Inr ())
               else let reason = (case rc_reason result of Some r \<Rightarrow> r | None \<Rightarrow> ''risk_check_rejected'')
                    in Some (handle_risk_rejection cfg reason s1, Inl (WE_Abort reason)))))"

text \<open>An error of \<open>permission\<close> lets the placement pass, as \<open>if let Ok(permission)\<close> does.\<close>

definition w_budget :: "worker_inputs \<Rightarrow> bool \<Rightarrow> order_intent \<Rightarrow> ('s, unit) worker" where
  "w_budget w emergency i = (\<lambda>s.
     (case gt_budget (en_gates s) of
        None \<Rightarrow> Some (s, Inr ())
      | Some b \<Rightarrow>
          (case permission (wi_now w) (wi_now w) (placement_request emergency i) b of
             None \<Rightarrow> None
           | Some (Inl _) \<Rightarrow> Some (s, Inr ())
           | Some (Inr p) \<Rightarrow> Some (s, if bp_allowed p then Inr ()
                                     else Inl (WE_Abort (''action_budget:'' @ bp_reason p))))))"

text \<open>The signed send; the ledger is debited whatever the exchange answers.\<close>

definition w_send :: "worker_inputs \<Rightarrow> bool \<Rightarrow> order_intent \<Rightarrow> string \<Rightarrow> order_wire \<Rightarrow> ('s, json) worker" where
  "w_send w emergency i cloid wire = (\<lambda>s.
     (let s1 = emit [EE_Order wire (wi_nonce w)] s;
          debit = (\<lambda>b. case debit_network_attempt (placement_debit emergency cloid (wi_now w) i) b of
                     Inr (_, b') \<Rightarrow> b' | Inl _ \<Rightarrow> b);
          g = en_gates s1
      in Some (s1\<lparr>en_gates := g\<lparr>gt_budget := map_option debit (gt_budget g)\<rparr>\<rparr>,
           case wi_exchange w of Inl e \<Rightarrow> Inl (WE_Transport e) | Inr j \<Rightarrow> Inr j)))"

definition worker_place :: "'s engine_config \<Rightarrow> worker_inputs \<Rightarrow> bool \<Rightarrow> order_intent \<Rightarrow> string \<Rightarrow> order_wire \<Rightarrow>
    decimal option \<Rightarrow> ('s, json) worker" where
  "worker_place cfg w emergency i cloid wire reference =
     st_bind (w_gates i) (\<lambda>_.
     st_bind (w_credits (wi_now w)) (\<lambda>_.
     st_bind (w_reprice cfg w i cloid wire reference) (\<lambda>(wire', ref).
     st_bind (w_weight 1 w) (\<lambda>_.
     st_bind (w_risk cfg w i ref) (\<lambda>_.
     st_bind (w_budget w emergency i) (\<lambda>_.
     w_send w emergency i cloid wire'))))))"

section \<open>The outcome of a submission\<close>

datatype submit_outcome =
    SO_Response json
  | SO_SafetyAborted hypeedge_error
  | SO_Timeout
  | SO_Rejected string

datatype worker_fate =
    WF_Answered worker_inputs
  | WF_TimedOut "worker_inputs option"
  | WF_QueueFailed

text \<open>The bounded status query: its own timeout is an error too.\<close>

definition resolve_by_query :: "string + json option \<Rightarrow> submit_outcome" where
  "resolve_by_query q = (case q of Inr (Some j) \<Rightarrow> SO_Response j | _ \<Rightarrow> SO_Timeout)"

definition run_worker :: "'s engine_config \<Rightarrow> bool \<Rightarrow> order_intent \<Rightarrow> string \<Rightarrow> order_wire \<Rightarrow> decimal option \<Rightarrow>
    worker_inputs \<Rightarrow> 's engine \<Rightarrow> ('s engine \<times> (worker_error + json)) option" where
  "run_worker cfg emergency i cloid wire reference w s =
     worker_place cfg w emergency i cloid wire reference (s\<lparr>en_gates := wi_others w (en_gates s)\<rparr>)"

definition submit_to_exchange :: "'s engine_config \<Rightarrow> worker_fate \<Rightarrow> (string + json option) \<Rightarrow> bool \<Rightarrow>
    order_intent \<Rightarrow> string \<Rightarrow> decimal option \<Rightarrow> 's engine \<Rightarrow> ('s engine \<times> submit_outcome) option" where
  "submit_to_exchange cfg fate query emergency i cloid reference s =
     (case build_order_wire cfg i cloid reference of
        None \<Rightarrow> None
      | Some (Inl e) \<Rightarrow> Some (s, SO_Rejected (error_display e))
      | Some (Inr wire) \<Rightarrow>
          (case fate of
             WF_QueueFailed \<Rightarrow> Some (s, resolve_by_query query)
           | WF_TimedOut None \<Rightarrow> Some (s, resolve_by_query query)
           | WF_TimedOut (Some w) \<Rightarrow>
               map_option (\<lambda>(s', _). (s', resolve_by_query query)) (run_worker cfg emergency i cloid wire reference w s)
           | WF_Answered w \<Rightarrow>
               map_option (\<lambda>(s', r). (s', case r of
                   Inr j \<Rightarrow> SO_Response j
                 | Inl (WE_Abort m) \<Rightarrow> SO_SafetyAborted (Execution m)
                 | Inl (WE_Transport _) \<Rightarrow> resolve_by_query query))
                 (run_worker cfg emergency i cloid wire reference w s)))"

definition apply_outcome :: "'s engine_config \<Rightarrow> time_ns \<Rightarrow> string option \<Rightarrow> submit_outcome \<Rightarrow> ('s, unit) order_op" where
  "apply_outcome cfg now cid outcome =
     (case outcome of
        SO_Response j \<Rightarrow> handle_submit_response cfg now cid j
      | SO_SafetyAborted e \<Rightarrow>
          settle cfg cid Cancelled (od_error_message_update (\<lambda>_. Some (error_display e)))
            ''dispatch_aborted'' ''cancelled'' (Some EV_Cancelled)
      | SO_Timeout \<Rightarrow>
          settle cfg cid SubmitUnknown (od_error_message_update (\<lambda>_. Some ''exchange_action_outcome_unknown''))
            ''submit_unknown'' ''unknown'' None
      | SO_Rejected m \<Rightarrow> reject_with cfg cid m)"

section \<open>Admission\<close>

record admission_inputs =
  ai_now :: time_ns
  ai_best :: "hypeedge_error + (decimal \<times> decimal) option"
  ai_snapshot :: "hypeedge_error + mid_price option"
  ai_view :: account_view
  ai_deadline :: bool
  ai_command_id :: string

definition spot_gates :: "order_intent \<Rightarrow> hypeedge_error + unit" where
  "spot_gates i =
     (if oi_is_spot i \<and> oi_reduce_only i
      then Inl (OrderRejected ''Spot orders cannot use reduce_only'' (oi_cloid i) (Some ''spot_reduce_only_invalid''))
      else if oi_risk_reducing i \<and> \<not> (oi_reduce_only i \<or> (oi_is_spot i \<and> oi_side i = Sell))
      then Inl (OrderRejected ''risk_reducing is valid only for perp reduce-only or spot sell orders'' (oi_cloid i)
             (Some ''invalid_risk_reducing_intent''))
      else Inr ())"

definition normalize_intent :: "'s engine_config \<Rightarrow> (hypeedge_error + (decimal \<times> decimal) option) \<Rightarrow>
    order_intent \<Rightarrow> (hypeedge_error + order_intent) option" where
  "normalize_intent cfg best i =
     (case ec_normalizer cfg of
        None \<Rightarrow> Some (Inr i)
      | Some get \<Rightarrow>
          if \<not> ec_provider cfg then normalize get i None None
          else (case best of
                  Inl e \<Rightarrow> Some (Inl e)
                | Inr None \<Rightarrow> normalize get i None None
                | Inr (Some (b, a)) \<Rightarrow> normalize get i (Some b) (Some a)))"

definition canonical_intent :: "'s engine_config \<Rightarrow> order_intent \<Rightarrow> order_intent" where
  "canonical_intent cfg i =
     (let rw = (case oi_cloid i of Some c \<Rightarrow> c
                | None \<Rightarrow> cloid_deterministic (ec_sha256 cfg) (oi_strategy_id i) (intent_key i))
      in i\<lparr>oi_sub_account := (case oi_sub_account i of Some a \<Rightarrow> Some a
             | None \<Rightarrow> if ec_account_address cfg = [] then None else Some (to_lowercase (ec_account_address cfg))),
           oi_cloid := Some (to_hl_cloid (ec_sha256 cfg) rw)\<rparr>)"

definition find_existing :: "'s engine_config \<Rightarrow> string \<Rightarrow> 's engine \<Rightarrow> hypeedge_error + order option" where
  "find_existing cfg cloid s =
     (case order_load cloid s of
        Some o' \<Rightarrow>
          if en_store s \<noteq> None \<and> od_status o' = Submitted
          then (case durable_get cfg cloid s of
                  Inl e \<Rightarrow> Inl e
                | Inr None \<Rightarrow> Inl (Execution (''durable placement missing for '' @ cloid @ ''; refusing ghost replay''))
                | Inr (Some _) \<Rightarrow> Inr (Some o'))
          else Inr (Some o')
      | None \<Rightarrow> durable_get cfg cloid s)"

datatype admitted = AD_Done order | AD_Dispatch order order_intent "decimal option"

text \<open>Refusal after deduplication: publish the rejected order, persist it without dispatch, return it.\<close>

definition refuse :: "'s engine_config \<Rightarrow> admission_inputs \<Rightarrow> order_intent \<Rightarrow> string \<Rightarrow> risk_check_result \<Rightarrow>
    decimal option \<Rightarrow> ('s, admitted) eng" where
  "refuse cfg a i reason risk reference = (\<lambda>s.
     (case rejected_order cfg (ai_now a) i reason s of
        (s1, o') \<Rightarrow> st_bind (persist_placement cfg o' risk (ai_command_id a) False reference)
                      (\<lambda>_. st_return (AD_Done o')) s1))"

definition reference_price_of :: "'s engine_config \<Rightarrow> time_ns \<Rightarrow> mid_price option \<Rightarrow> order_intent \<Rightarrow> decimal option" where
  "reference_price_of cfg now snap i =
     (case snap of
        Some m \<Rightarrow> if \<not> snapshot_stale cfg now m then Some (mp_price m)
                  else if ec_provider cfg then None else oi_price i
      | None \<Rightarrow> if ec_provider cfg then None else oi_price i)"

definition price_gap_reason :: "mid_price option \<Rightarrow> string" where
  "price_gap_reason snap = (if snap = None then ''market_price_not_available'' else ''market_price_stale'')"

definition admit_risk :: "'s engine_config \<Rightarrow> admission_inputs \<Rightarrow> order_intent \<Rightarrow> decimal option \<Rightarrow>
    's engine \<Rightarrow> ('s engine \<times> risk_check_result) option" where
  "admit_risk cfg a i reference s =
     (case gt_checker (en_gates s) of
        None \<Rightarrow> Some (s, risk_pass)
      | Some rk \<Rightarrow> map_option (\<lambda>(rk', result). (s\<lparr>en_gates := (en_gates s)\<lparr>gt_checker := Some rk'\<rparr>\<rparr>, result))
          (risk_check rk (ai_view a) (ai_now a) (ai_deadline a) i reference))"

text \<open>Expose an order after its durable placement: the verdict of the store can still reject it.\<close>

definition expose :: "bool \<Rightarrow> order_intent \<Rightarrow> decimal option \<Rightarrow> order \<Rightarrow> risk_check_result option \<Rightarrow> ('s, admitted) eng" where
  "expose deferred i reference o' durable_risk =
     st_bind (st_modify (order_store o')) (\<lambda>_.
     case durable_risk of
       Some r \<Rightarrow>
         if \<not> rc_passed r then
           (let o2 = o'\<lparr>od_status := Rejected, od_error_message := rc_reason r\<rparr> in
            st_bind (st_modify (publish EV_Rejected o2 \<circ> order_store o2)) (\<lambda>_. st_return (AD_Done o2)))
         else st_bind (st_modify (publish EV_Submitted o')) (\<lambda>_.
              st_return (if deferred then AD_Done o' else AD_Dispatch o' i reference))
     | None \<Rightarrow> st_bind (st_modify (publish EV_Submitted o')) (\<lambda>_.
              st_return (if deferred then AD_Done o' else AD_Dispatch o' i reference)))"

text \<open>The durable placement comes before the order is exposed in memory.\<close>

definition place :: "'s engine_config \<Rightarrow> admission_inputs \<Rightarrow> bool \<Rightarrow> order_intent \<Rightarrow> string \<Rightarrow> risk_check_result \<Rightarrow>
    decimal option \<Rightarrow> ('s, admitted) eng" where
  "place cfg a deferred i cloid risk reference =
     st_bind (st_lift (transition (order_of_intent (ai_now a) cloid i) Submitted)) (\<lambda>o1.
     let o2 = o1\<lparr>od_submitted_at := Some (ai_now a)\<rparr> in
     st_bind (persist_placement cfg o2 risk (ai_command_id a) True reference) (expose deferred i reference o2))"

definition admit_checked :: "'s engine_config \<Rightarrow> admission_inputs \<Rightarrow> bool \<Rightarrow> order_intent \<Rightarrow> string \<Rightarrow>
    decimal option \<Rightarrow> ('s, admitted) eng" where
  "admit_checked cfg a deferred i cloid reference = (\<lambda>s.
     (case admit_risk cfg a i reference s of
        None \<Rightarrow> None
      | Some (s1, risk) \<Rightarrow>
          if \<not> rc_passed risk then
            (let reason = (case rc_reason risk of Some r \<Rightarrow> r | None \<Rightarrow> ''risk_check_rejected'')
             in refuse cfg a i reason risk reference (handle_risk_rejection cfg reason s1))
          else if credits_low (ai_now a) (en_gates s1) then
            refuse cfg a i ''action_credits_below_threshold'' (risk_fail ''action_credits_below_threshold'')
              reference s1
          else place cfg a deferred i cloid risk reference s1))"

definition admit_priced :: "'s engine_config \<Rightarrow> admission_inputs \<Rightarrow> bool \<Rightarrow> order_intent \<Rightarrow> string \<Rightarrow> ('s, admitted) eng" where
  "admit_priced cfg a deferred i cloid =
     st_bind (st_lift (if ec_provider cfg then ai_snapshot a else Inr None)) (\<lambda>snap.
     let reference = reference_price_of cfg (ai_now a) snap i in
     if (ec_provider cfg \<or> oi_order_type i = OT_Market) \<and> reference = None
     then refuse cfg a i (price_gap_reason snap) (risk_fail (price_gap_reason snap)) reference
     else admit_checked cfg a deferred i cloid reference)"

definition admit_gated :: "'s engine_config \<Rightarrow> admission_inputs \<Rightarrow> bool \<Rightarrow> order_intent \<Rightarrow> string \<Rightarrow> ('s, admitted) eng" where
  "admit_gated cfg a deferred i cloid = (\<lambda>s.
     (case run_gates i (en_gates s) of
        Inl e \<Rightarrow> if \<not> deferred \<or> en_store s = None then Some (s, Inl e)
                 else refuse cfg a i (error_code e) (risk_fail (error_code e)) None s
      | Inr _ \<Rightarrow> admit_priced cfg a deferred i cloid s))"

definition admit :: "'s engine_config \<Rightarrow> admission_inputs \<Rightarrow> bool option \<Rightarrow> order_intent \<Rightarrow> ('s, admitted) eng" where
  "admit cfg a deferred i0 =
     st_bind (st_lift (spot_gates i0)) (\<lambda>_.
     st_bind (st_lift_panic (normalize_intent cfg (ai_best a) i0)) (\<lambda>i1.
     let i = canonical_intent cfg i1; cloid = the (oi_cloid i); later = ec_deferred cfg \<or> deferred = Some True in
     st_bind (\<lambda>s. Some (s, find_existing cfg cloid s)) (\<lambda>existing.
     case existing of
       Some o' \<Rightarrow>
         if matches_intent o' i then st_return (AD_Done o')
         else st_fail (OrderRejected (''Cloid '' @ cloid @ '' is already bound to a different order'') (Some cloid)
                (Some ''cloid_payload_conflict''))
     | None \<Rightarrow> admit_gated cfg a later i cloid)))"

section \<open>Submission\<close>

record submit_inputs =
  si_admission :: admission_inputs
  si_fate :: worker_fate
  si_query :: "string + json option"
  si_now :: time_ns

definition dispatch :: "'s engine_config \<Rightarrow> submit_inputs \<Rightarrow> bool \<Rightarrow> order \<Rightarrow> order_intent \<Rightarrow> decimal option \<Rightarrow>
    ('s, order) eng" where
  "dispatch cfg x emergency o' i reference = (\<lambda>s.
     (case submit_to_exchange cfg (si_fate x) (si_query x) emergency i (od_cloid o') reference s of
        None \<Rightarrow> None
      | Some (s1, outcome) \<Rightarrow>
          (case apply_outcome cfg (si_now x) (Some (ai_command_id (si_admission x))) outcome (s1, o') of
             None \<Rightarrow> None
           | Some ((s2, o2), Inl e) \<Rightarrow> Some (s2, Inl e)
           | Some ((s2, o2), Inr _) \<Rightarrow> Some (order_store o2 s2, Inr o2))))"

definition submit_order_inner :: "'s engine_config \<Rightarrow> submit_inputs \<Rightarrow> order_intent \<Rightarrow> bool option \<Rightarrow> bool \<Rightarrow>
    ('s, order) eng" where
  "submit_order_inner cfg x i deferred emergency =
     st_bind (admit cfg (si_admission x) deferred i) (\<lambda>r.
     case r of
       AD_Done o' \<Rightarrow> st_return o'
     | AD_Dispatch o' i' reference \<Rightarrow> dispatch cfg x emergency o' i' reference)"

definition submit_order :: "'s engine_config \<Rightarrow> submit_inputs \<Rightarrow> order_intent \<Rightarrow> bool option \<Rightarrow> ('s, order) eng" where
  "submit_order cfg x i deferred = submit_order_inner cfg x i deferred False"

definition submit_emergency_close :: "'s engine_config \<Rightarrow> submit_inputs \<Rightarrow> order_intent \<Rightarrow> ('s, order) eng" where
  "submit_emergency_close cfg x i = submit_order_inner cfg x i None True"

end
