(* ===== verification/HE_Engine_Commands.thy ===== *)
theory HE_Engine_Commands
  imports HE_Engine_Submit
begin

text \<open>
  \<open>engine.rs\<close>, fourth part: the commands of the durable worker, cancellation (one order, all orders),
  leverage, recovery and the reads. A durable command works on the order row of the store; the copy in
  memory is the row as it was read.
\<close>

record durable_command =
  dc_command_id :: string
  dc_command_type :: string
  dc_payload :: json
  dc_attempt_count :: nat
  dc_requires_resolution :: bool

record durable_inputs =
  di_now :: time_ns
  di_resolution :: "string + json option"
  di_snapshot :: "hypeedge_error + mid_price option"
  di_view :: account_view
  di_deadline :: bool
  di_fate :: worker_fate
  di_query :: "string + json option"
  di_hook :: bool

text \<open>A handler on a local copy of the order.\<close>

definition with_order :: "order \<Rightarrow> ('s, 'a) order_op \<Rightarrow> ('s, order \<times> 'a) eng" where
  "with_order o' m = (\<lambda>s. map_option (\<lambda>((s', o''), r). (s', map_sum id (Pair o'') r)) (m (s, o')))"

section \<open>Durable placement commands\<close>

definition durable_order :: "'s engine_config \<Rightarrow> string \<Rightarrow> string \<Rightarrow> (string \<Rightarrow> string) \<Rightarrow> durable_command \<Rightarrow>
    ('s, order) eng" where
  "durable_order cfg no_cloid no_store not_found cmd = (\<lambda>s.
     (case json_str_field ''cloid'' (dc_payload cmd) of
        None \<Rightarrow> Some (s, Inl (Execution no_cloid))
      | Some cloid \<Rightarrow>
          if en_store s = None then Some (s, Inl (Execution no_store))
          else case durable_get cfg cloid s of
                 Inl e \<Rightarrow> Some (s, Inl e)
               | Inr None \<Rightarrow> Some (s, Inl (Execution (not_found cloid)))
               | Inr (Some o') \<Rightarrow> Some (order_store o' s, Inr o')))"

definition resolve_replay_reference :: "'s engine_config \<Rightarrow> durable_inputs \<Rightarrow> order \<Rightarrow> hypeedge_error + decimal option" where
  "resolve_replay_reference cfg d o' =
     (if \<not> ec_provider cfg then Inr (od_price o')
      else case di_snapshot d of
             Inl e \<Rightarrow> Inl e
           | Inr None \<Rightarrow> Inr None
           | Inr (Some snap) \<Rightarrow> Inr (if snapshot_fresh cfg (di_now d) snap then Some (mp_price snap) else None))"

definition abort_dispatch :: "'s engine_config \<Rightarrow> durable_command \<Rightarrow> string \<Rightarrow> ('s, bool) order_op" where
  "abort_dispatch cfg cmd msg =
     st_bind (settle cfg (Some (dc_command_id cmd)) Cancelled (od_error_message_update (\<lambda>_. Some msg))
       ''dispatch_aborted'' ''cancelled'' (Some EV_Cancelled)) (\<lambda>_. st_return True)"

definition is_resolved :: "('s, bool) order_op" where
  "is_resolved = (\<lambda>(s, o'). Some ((s, o'), Inr (od_status o' \<noteq> SubmitUnknown)))"

text \<open>A command found in an unknown state is resolved by a status query, never sent again.\<close>

definition resolve_command :: "'s engine_config \<Rightarrow> durable_inputs \<Rightarrow> durable_command \<Rightarrow> ('s, bool) order_op" where
  "resolve_command cfg d cmd =
     st_bind (st_lift (map_sum Execution id (di_resolution d))) (\<lambda>answer.
     case answer of
       None \<Rightarrow>
         st_bind (st_at (\<lambda>(s, o'). if od_status o' \<noteq> SubmitUnknown then to_status SubmitUnknown
                            else st_return ())) (\<lambda>_.
         st_bind (set_order (od_error_message_update
           (\<lambda>_. Some ''exchange_order_not_found_after_ambiguous_submission''))) (\<lambda>_.
         st_bind (persist_order cfg ''submit_unknown'' (Some (dc_command_id cmd)) ''unknown'') (\<lambda>_.
         st_return False)))
     | Some response \<Rightarrow>
         st_bind (handle_submit_response cfg (di_now d) (Some (dc_command_id cmd)) response) (\<lambda>_. is_resolved))"

definition durable_risk :: "'s engine_config \<Rightarrow> durable_inputs \<Rightarrow> order_intent \<Rightarrow> decimal option \<Rightarrow>
    's engine \<Rightarrow> ('s engine \<times> risk_check_result) option" where
  "durable_risk cfg d i reference s =
     (case gt_checker (en_gates s) of
        None \<Rightarrow> Some (s, risk_pass)
      | Some rk \<Rightarrow> map_option (\<lambda>(rk', result). (s\<lparr>en_gates := (en_gates s)\<lparr>gt_checker := Some rk'\<rparr>\<rparr>, result))
          (risk_check rk (di_view d) (di_now d) (di_deadline d) i reference))"

definition send_command :: "'s engine_config \<Rightarrow> durable_inputs \<Rightarrow> durable_command \<Rightarrow> order_intent \<Rightarrow>
    decimal option \<Rightarrow> ('s, bool) order_op" where
  "send_command cfg d cmd i reference = (\<lambda>(s, o').
     (case submit_to_exchange cfg (di_fate d) (di_query d) False i (od_cloid o') reference s of
        None \<Rightarrow> None
      | Some (s1, outcome) \<Rightarrow>
          let s2 = (case outcome of SO_Response _ \<Rightarrow> if di_hook d then emit [EE_AfterSend (dc_command_id cmd)] s1 else s1
                    | _ \<Rightarrow> s1)
          in st_bind (apply_outcome cfg (di_now d) (Some (dc_command_id cmd)) outcome)
               (\<lambda>_. case outcome of SO_Response _ \<Rightarrow> is_resolved | SO_Timeout \<Rightarrow> st_return False | _ \<Rightarrow> st_return True)
               (s2, o')))"

definition recheck_command :: "'s engine_config \<Rightarrow> durable_inputs \<Rightarrow> durable_command \<Rightarrow> order_intent \<Rightarrow>
    decimal option \<Rightarrow> ('s, bool) order_op" where
  "recheck_command cfg d cmd i reference = (\<lambda>(s, o').
     (case durable_risk cfg d i reference s of
        None \<Rightarrow> None
      | Some (s1, risk) \<Rightarrow>
          if \<not> rc_passed risk then
            abort_dispatch cfg cmd (case rc_reason risk of Some r \<Rightarrow> r | None \<Rightarrow> ''risk_check_rejected'') (s1, o')
          else if credits_low (di_now d) (en_gates s1) then
            abort_dispatch cfg cmd ''action_credits_below_threshold'' (s1, o')
          else send_command cfg d cmd i reference (s1, o')))"

definition dispatch_command :: "'s engine_config \<Rightarrow> durable_inputs \<Rightarrow> durable_command \<Rightarrow> ('s, bool) order_op" where
  "dispatch_command cfg d cmd = (\<lambda>(s, o').
     (let i = intent_from_order o' in
      case run_gates i (en_gates s) of
        Inl e \<Rightarrow> abort_dispatch cfg cmd (error_display e) (s, o')
      | Inr _ \<Rightarrow>
          (case resolve_replay_reference cfg d o' of
             Inl e \<Rightarrow> Some ((s, o'), Inl e)
           | Inr reference \<Rightarrow>
               if ec_provider cfg \<and> reference = None then
                 abort_dispatch cfg cmd (if od_price o' \<noteq> None then ''market_price_stale''
                   else ''market_price_not_available'') (s, o')
               else recheck_command cfg d cmd i reference (s, o'))))"

definition execute_durable_command :: "'s engine_config \<Rightarrow> durable_inputs \<Rightarrow> durable_command \<Rightarrow> ('s, bool) eng" where
  "execute_durable_command cfg d cmd =
     st_bind (durable_order cfg ''durable command missing cloid'' ''durable command requires durable store''
       (\<lambda>_. ''durable order not found for command '' @ dc_command_id cmd) cmd) (\<lambda>o'.
     if order_is_terminal o' then st_return True
     else st_bind (with_order o' (if dc_requires_resolution cmd then resolve_command cfg d cmd
                                  else dispatch_command cfg d cmd)) (\<lambda>(_, b). st_return b))"

section \<open>Cancellation\<close>

datatype cancel_submit = CS_Response json | CS_Timeout | CS_Failed string

definition worker_text :: "worker_error \<Rightarrow> string" where
  "worker_text e = (case e of WE_Abort m \<Rightarrow> m | WE_Transport m \<Rightarrow> m)"

definition worker_cancel :: "worker_inputs \<Rightarrow> cancel_wire list \<Rightarrow> ('s, json) worker" where
  "worker_cancel w wires =
     st_bind (w_weight (length wires) w) (\<lambda>_.
     st_bind (st_modify (emit [EE_Cancel wires (wi_nonce w)])) (\<lambda>_.
     st_lift (map_sum WE_Transport id (wi_exchange w))))"

definition cancel_outcome :: "worker_fate \<Rightarrow> cancel_wire list \<Rightarrow> 's engine \<Rightarrow> ('s engine \<times> cancel_submit) option" where
  "cancel_outcome fate wires s =
     (let run = (\<lambda>w. worker_cancel w wires (s\<lparr>en_gates := wi_others w (en_gates s)\<rparr>)) in
      case fate of
        WF_QueueFailed \<Rightarrow> Some (s, CS_Failed ''nonce queue closed'')
      | WF_TimedOut None \<Rightarrow> Some (s, CS_Timeout)
      | WF_TimedOut (Some w) \<Rightarrow> map_option (\<lambda>(s', _). (s', CS_Timeout)) (run w)
      | WF_Answered w \<Rightarrow> map_option (\<lambda>(s', r). (s', case r of
            Inr j \<Rightarrow> CS_Response j | Inl e \<Rightarrow> CS_Failed (worker_text e))) (run w))"

definition submit_cancel_by_cloid :: "'s engine_config \<Rightarrow> worker_fate \<Rightarrow> order \<Rightarrow> ('s, cancel_submit) eng" where
  "submit_cancel_by_cloid cfg fate o' =
     st_bind (st_lift (resolve_asset_index cfg (od_symbol o') (od_cloid o'))) (\<lambda>asset.
     (\<lambda>s. map_option (\<lambda>(s', r). (s', Inr r))
       (cancel_outcome fate [\<lparr>cw_asset = asset, cw_cloid = to_hl_cloid (ec_sha256 cfg) (od_cloid o')\<rparr>] s)))"

definition execute_durable_cancel_command :: "'s engine_config \<Rightarrow> durable_inputs \<Rightarrow> durable_command \<Rightarrow> ('s, bool) eng" where
  "execute_durable_cancel_command cfg d cmd =
     (let cid = Some (dc_command_id cmd) in
     st_bind (durable_order cfg ''cancel command missing cloid'' ''cancel command requires durable store''
       (\<lambda>cloid. ''durable cancel order not found for '' @ cloid) cmd) (\<lambda>o'.
     if order_is_terminal o' then
       st_bind (persist_transition cfg o' ''cancel_recovered_terminal'' cid
         (Some (if od_status o' = Cancelled then ''succeeded'' else ''failed''))) (\<lambda>_. st_return True)
     else
       let send = st_bind (submit_cancel_by_cloid cfg (di_fate d) o') (\<lambda>r.
             st_bind (with_order o' (case r of
               CS_Response j \<Rightarrow> handle_cancel_response cfg (di_now d) cid j
             | CS_Failed m \<Rightarrow> cancel_unresolved cfg m cid
             | CS_Timeout \<Rightarrow> cancel_unresolved cfg ''cancel_timeout'' cid)) (\<lambda>(_, b). st_return b))
       in if \<not> dc_requires_resolution cmd then send
          else st_bind (st_lift (map_sum Execution id (di_resolution d))) (\<lambda>answer.
            case answer of
              None \<Rightarrow> st_bind (with_order o' (cancel_unresolved cfg ''cancel_recovery_status_unknown'' cid))
                        (\<lambda>_. st_return False)
            | Some response \<Rightarrow>
                if exchange_status_of response \<in> set [''open'', ''resting'', ''triggered''] then send
                else st_bind (with_order o' (handle_cancel_response cfg (di_now d) cid response))
                       (\<lambda>(o'', _). st_return (od_status o'' \<noteq> CancelUnknown)))))"

record cancel_inputs =
  ci_now :: time_ns
  ci_command_id :: string
  ci_fate :: worker_fate
  ci_query :: "string + json option"

definition persist_cancel_requested :: "'s engine_config \<Rightarrow> order \<Rightarrow> string \<Rightarrow> ('s, unit) eng" where
  "persist_cancel_requested cfg o' command_id = (\<lambda>s.
     (case en_store s of
        None \<Rightarrow> Some (s, Inr ())
      | Some st \<Rightarrow> (case so_cancel_requested (ec_store cfg) o' command_id st of
            (st', r) \<Rightarrow> Some (s\<lparr>en_store := Some st'\<rparr>, r))))"

definition cancel_order :: "'s engine_config \<Rightarrow> cancel_inputs \<Rightarrow> string \<Rightarrow> ('s, bool) eng" where
  "cancel_order cfg x cloid = (\<lambda>s.
     (case order_load cloid s of
        None \<Rightarrow> Some (s, Inr False)
      | Some o' \<Rightarrow>
          if order_is_terminal o' then Some (s, Inr False)
          else let cid = Some (ci_command_id x) in
            st_bind (persist_cancel_requested cfg o' (ci_command_id x)) (\<lambda>_.
            st_bind (submit_cancel_by_cloid cfg (ci_fate x) o') (\<lambda>r.
            st_bind (with_order o' (case r of
              CS_Response j \<Rightarrow> handle_cancel_response cfg (ci_now x) cid j
            | CS_Failed m \<Rightarrow> cancel_unresolved cfg m cid
            | CS_Timeout \<Rightarrow> (case ci_query x of
                  Inr (Some j) \<Rightarrow> handle_cancel_response cfg (ci_now x) cid j
                | _ \<Rightarrow> cancel_unresolved cfg ''cancel_timeout'' cid))) (\<lambda>(o'', accepted).
            st_bind (st_modify (order_store o'')) (\<lambda>_. st_return accepted)))) s))"

section \<open>Cancelling all orders\<close>

definition CANCEL_ALL_BATCH_LIMIT :: nat where "CANCEL_ALL_BATCH_LIMIT = 100"

fun chunks :: "nat \<Rightarrow> 'a list \<Rightarrow> 'a list list" where
  "chunks n [] = []"
| "chunks n (x # xs) = (x # take (n - 1) xs) # chunks n (drop (n - 1) xs)"

definition open_orders :: "string option \<Rightarrow> 's engine \<Rightarrow> order list" where
  "open_orders symb s =
     filter (\<lambda>o'. \<not> order_is_terminal o' \<and> (case symb of None \<Rightarrow> True | Some x \<Rightarrow> od_symbol o' = x))
       (map snd (en_orders s))"

definition cancel_wires :: "'s engine_config \<Rightarrow> order list \<Rightarrow> cancel_wire list" where
  "cancel_wires cfg os = concat (map (\<lambda>o'.
     (case resolve_asset_index cfg (od_symbol o') (od_cloid o') of
        Inr a \<Rightarrow> [\<lparr>cw_asset = a, cw_cloid = to_hl_cloid (ec_sha256 cfg) (od_cloid o')\<rparr>]
      | Inl _ \<Rightarrow> [])) os)"

definition target_answer :: "json list \<Rightarrow> nat \<Rightarrow> json" where
  "target_answer statuses n =
     JObj [(''status'', JStr ''ok''), (''response'', JObj [(''data'', JObj [(''statuses'',
       JArr [if n < length statuses then statuses ! n else JNull])])])]"

text \<open>The handler of one target; its order is stored whatever the handler returns.\<close>

definition cancel_target :: "('s, bool) order_op \<Rightarrow> order \<Rightarrow> 's engine \<Rightarrow> ('s engine \<times> nat) option" where
  "cancel_target m o' s = map_option (\<lambda>((s', o''), r). (order_store o'' s', if r = Inr True then 1 else 0)) (m (s, o'))"

fun cancel_targets :: "(nat \<Rightarrow> ('s, bool) order_op) \<Rightarrow> nat \<Rightarrow> order list \<Rightarrow> 's engine \<Rightarrow> ('s engine \<times> nat) option" where
  "cancel_targets h n [] s = Some (s, 0)"
| "cancel_targets h n (o' # os) s =
     (case cancel_target (h n) o' s of
        None \<Rightarrow> None
      | Some (s1, k) \<Rightarrow> map_option (\<lambda>(s2, m). (s2, k + m)) (cancel_targets h (Suc n) os s1))"

text \<open>The answer of a batch is read by the position in the chunk.\<close>

definition cancel_chunk :: "'s engine_config \<Rightarrow> time_ns \<Rightarrow> worker_fate \<Rightarrow> order list \<Rightarrow> 's engine \<Rightarrow>
    ('s engine \<times> nat) option" where
  "cancel_chunk cfg now fate chunk s =
     (if cancel_wires cfg chunk = [] then Some (s, 0)
      else case cancel_outcome fate (cancel_wires cfg chunk) s of
             None \<Rightarrow> None
           | Some (s1, CS_Response value) \<Rightarrow>
               (let statuses = (case Option.bind (json_path [''response'', ''data'', ''statuses''] value) json_as_array of
                      Some xs \<Rightarrow> xs | None \<Rightarrow> [])
                in cancel_targets (\<lambda>n. handle_cancel_response cfg now None (target_answer statuses n)) 0 chunk s1)
           | Some (s1, CS_Failed _) \<Rightarrow>
               cancel_targets (\<lambda>_. cancel_unresolved cfg ''cancel_all_transport_failed'' None) 0 chunk s1
           | Some (s1, CS_Timeout) \<Rightarrow>
               cancel_targets (\<lambda>_. cancel_unresolved cfg ''cancel_all_timeout'' None) 0 chunk s1)"

fun cancel_chunks :: "'s engine_config \<Rightarrow> time_ns \<Rightarrow> (nat \<Rightarrow> worker_fate) \<Rightarrow> nat \<Rightarrow> order list list \<Rightarrow> 's engine \<Rightarrow>
    ('s engine \<times> nat) option" where
  "cancel_chunks cfg now fates k [] s = Some (s, 0)"
| "cancel_chunks cfg now fates k (c # cs) s =
     (case cancel_chunk cfg now (fates k) c s of
        None \<Rightarrow> None
      | Some (s1, n) \<Rightarrow> map_option (\<lambda>(s2, m). (s2, n + m)) (cancel_chunks cfg now fates (Suc k) cs s1))"

definition cancel_all_orders :: "'s engine_config \<Rightarrow> time_ns \<Rightarrow> (nat \<Rightarrow> worker_fate) \<Rightarrow> string option \<Rightarrow> 's engine \<Rightarrow>
    ('s engine \<times> nat) option" where
  "cancel_all_orders cfg now fates symb s =
     cancel_chunks cfg now fates 0 (chunks CANCEL_ALL_BATCH_LIMIT (open_orders symb s)) s"

section \<open>Leverage, recovery and reads\<close>

definition worker_leverage :: "worker_inputs \<Rightarrow> int \<Rightarrow> bool \<Rightarrow> nat \<Rightarrow> ('s, json) worker" where
  "worker_leverage w asset is_cross leverage =
     st_bind (\<lambda>s. Some (s, case ks_check (gt_kill (en_gates s)) of
        Inl e \<Rightarrow> Inl (WE_Abort (error_display e)) | Inr _ \<Rightarrow> Inr ())) (\<lambda>_.
     st_bind (w_weight 1 w) (\<lambda>_.
     st_bind (st_modify (emit [EE_Leverage asset is_cross leverage (wi_nonce w)])) (\<lambda>_.
     st_lift (map_sum WE_Transport id (wi_exchange w)))))"

definition update_leverage :: "'s engine_config \<Rightarrow> worker_fate \<Rightarrow> string \<Rightarrow> nat \<Rightarrow> bool \<Rightarrow> ('s, json) eng" where
  "update_leverage cfg fate symb leverage is_cross =
     (if leverage = 0 then st_fail (Execution ''leverage must be positive'')
      else st_bind (st_lift (resolve_asset_index cfg symb [])) (\<lambda>asset s.
        let run = (\<lambda>w. worker_leverage w asset is_cross leverage (s\<lparr>en_gates := wi_others w (en_gates s)\<rparr>));
            timed_out = Inl (Execution ''update_leverage timed out after 3000ms'')
        in case fate of
             WF_QueueFailed \<Rightarrow> Some (s, Inl (Execution ''nonce queue closed''))
           | WF_TimedOut None \<Rightarrow> Some (s, timed_out)
           | WF_TimedOut (Some w) \<Rightarrow> map_option (\<lambda>(s', _). (s', timed_out)) (run w)
           | WF_Answered w \<Rightarrow> map_option (\<lambda>(s', r). (s', map_sum (Execution \<circ> worker_text) id r)) (run w)))"

definition recover_open_orders :: "'s engine_config \<Rightarrow> ('s, nat) eng" where
  "recover_open_orders cfg = (\<lambda>s.
     (case en_store s of
        None \<Rightarrow> Some (s, Inr 0)
      | Some st \<Rightarrow> (case so_load_open (ec_store cfg) st of
            Inl e \<Rightarrow> Some (s, Inl e)
          | Inr os \<Rightarrow> Some (fold order_store os s, Inr (length os)))))"

definition import_exchange_order :: "order \<Rightarrow> 's engine \<Rightarrow> 's engine" where
  "import_exchange_order o' s = order_store o' s"

definition import_exchange_order_authoritative :: "'s engine_config \<Rightarrow> order \<Rightarrow> ('s, unit) eng" where
  "import_exchange_order_authoritative cfg o' = (\<lambda>s.
     (case en_store s of
        None \<Rightarrow> Some (order_store o' s, Inr ())
      | Some st \<Rightarrow> (case so_reconciled (ec_store cfg) o' st of
            (st', Inl e) \<Rightarrow> Some (s\<lparr>en_store := Some st'\<rparr>, Inl e)
          | (st', Inr _) \<Rightarrow> Some (order_store o' (s\<lparr>en_store := Some st'\<rparr>), Inr ()))))"

definition refresh_order_from_durable :: "'s engine_config \<Rightarrow> string \<Rightarrow> ('s, order option) eng" where
  "refresh_order_from_durable cfg cloid = (\<lambda>s.
     (if en_store s = None then Some (s, Inr (order_load cloid s))
      else case durable_get cfg cloid s of
             Inl e \<Rightarrow> Some (s, Inl e)
           | Inr None \<Rightarrow> Some (s, Inr None)
           | Inr (Some o') \<Rightarrow> Some (order_store o' s, Inr (Some o'))))"

definition open_order_count :: "'s engine \<Rightarrow> nat" where
  "open_order_count s = length (filter (\<lambda>o'. \<not> order_is_terminal o') (map snd (en_orders s)))"

end
