(* ===== verification/HE_Queue.thy ===== *)
theory HE_Queue
  imports HE_Store_Ops HE_Engine_Commands
begin

text \<open>
  The lease queue of commands (\<open>crates/storage/src/command_queue.rs\<close>), the transactional outbox
  (\<open>outbox.rs\<close>) and the worker that executes commands
  (\<open>crates/trading/src/execution/durable_worker.rs\<close>). A statement sees no row that another transaction has
  locked, since transactions run one after the other here.
\<close>

section \<open>The command queue\<close>

record command_queue =
  cq_lease_seconds :: int
  cq_recheck_seconds :: int

definition command_queue_default :: command_queue where
  "command_queue_default = \<lparr>cq_lease_seconds = 15, cq_recheck_seconds = 5\<rparr>"

definition queue_type :: "command_row \<Rightarrow> bool" where
  "queue_type c \<longleftrightarrow> cmr_command_type c \<in> set [''place_order'', ''cancel_order'']"

definition expire_leases :: "time_ns \<Rightarrow> pg \<Rightarrow> pg" where
  "expire_leases cutoff s = s\<lparr>pg_commands := map (\<lambda>c.
     if queue_type c \<and> cmr_status c = ''processing'' \<and> (case cmr_locked_at c of Some t0 \<Rightarrow> t0 < cutoff | None \<Rightarrow> False)
     then c\<lparr>cmr_status := ''unknown'', cmr_locked_at := None, cmr_locked_by := None, cmr_available_at := pg_now s,
            cmr_last_error_code := Some ''processing_lease_expired'',
            cmr_last_error_message := Some ''Worker lease expired; exchange outcome must be queried by cloid''\<rparr>
     else c) (pg_commands s)\<rparr>"

text \<open>By priority, then by age.\<close>

definition next_command :: "pg \<Rightarrow> command_row option" where
  "next_command s =
     (case sort_key cmr_priority (sort_key cmr_created_at (filter (\<lambda>c.
         queue_type c \<and> cmr_status c \<in> set [''pending'', ''unknown''] \<and> cmr_available_at c \<le> pg_now s) (pg_commands s)))
      of [] \<Rightarrow> None | c # _ \<Rightarrow> Some c)"

definition lock_command :: "string \<Rightarrow> int \<Rightarrow> string \<Rightarrow> unit pgm" where
  "lock_command command_id attempts worker_id =
     st_bind (require (0 \<le> attempts) ''ck_execution_commands_attempt_count'') (\<lambda>_.
     st_modify (\<lambda>s. s\<lparr>pg_commands := map (\<lambda>c. if cmr_command_id c = command_id
       then c\<lparr>cmr_status := ''processing'', cmr_locked_at := Some (pg_now s), cmr_locked_by := Some worker_id,
              cmr_attempt_count := attempts\<rparr>
       else c) (pg_commands s)\<rparr>))"

definition queue_claim :: "command_queue \<Rightarrow> string \<Rightarrow> durable_command option pgm" where
  "queue_claim q worker_id =
     pg_tx (st_bind (st_modify (\<lambda>s. expire_leases (pg_clock s - cq_lease_seconds q * 1000000000) s)) (\<lambda>_.
       st_at (\<lambda>s. case next_command s of
         None \<Rightarrow> st_return (TX_Commit None)
       | Some c \<Rightarrow>
           let attempts = wrap_i32 (cmr_attempt_count c + 1)
           in st_bind (lock_command (cmr_command_id c) attempts worker_id) (\<lambda>_.
              st_return (TX_Commit (Some
                \<lparr>dc_command_id = cmr_command_id c, dc_command_type = cmr_command_type c, dc_payload = cmr_payload c,
                 dc_attempt_count = nat attempts, dc_requires_resolution = (cmr_status c = ''unknown'')\<rparr>))))))"

definition queue_defer_unknown :: "command_queue \<Rightarrow> string \<Rightarrow> string \<Rightarrow> unit pgm" where
  "queue_defer_unknown q command_id reason =
     pg_tx (st_bind (st_modify (\<lambda>s. s\<lparr>pg_commands := map (\<lambda>c. if cmr_command_id c = command_id
       then c\<lparr>cmr_status := ''unknown'', cmr_locked_at := None, cmr_locked_by := None, cmr_completed_at := None,
              cmr_available_at := pg_clock s + cq_recheck_seconds q * 1000000000,
              cmr_last_error_code := Some ''exchange_outcome_unknown'', cmr_last_error_message := Some reason\<rparr>
       else c) (pg_commands s)\<rparr>)) (\<lambda>_. st_return (TX_Commit ())))"

section \<open>The outbox\<close>

record durable_event =
  dev_sequence :: int
  dev_event_id :: string
  dev_event_type :: string
  dev_aggregate_type :: string
  dev_aggregate_id :: string
  dev_aggregate_revision :: int
  dev_correlation_id :: "string option"
  dev_payload :: json

definition to_durable :: "outbox_row \<Rightarrow> durable_event" where
  "to_durable r =
     \<lparr>dev_sequence = obr_sequence r, dev_event_id = obr_event_id r, dev_event_type = obr_event_type r,
      dev_aggregate_type = obr_aggregate_type r, dev_aggregate_id = obr_aggregate_id r,
      dev_aggregate_revision = obr_aggregate_revision r, dev_correlation_id = obr_correlation_id r,
      dev_payload = obr_payload r\<rparr>"

definition outbox_claimable :: "time_ns \<Rightarrow> outbox_row \<Rightarrow> bool" where
  "outbox_claimable cutoff r \<longleftrightarrow>
     obr_published_at r = None \<and> (case obr_claimed_at r of None \<Rightarrow> True | Some t0 \<Rightarrow> t0 < cutoff)"

definition outbox_batch :: "time_ns \<Rightarrow> nat \<Rightarrow> pg \<Rightarrow> outbox_row list" where
  "outbox_batch cutoff limit s =
     take limit (sort_key obr_sequence (filter (outbox_claimable cutoff) (pg_outbox s)))"

definition outbox_claim_batch :: "int \<Rightarrow> string \<Rightarrow> nat \<Rightarrow> durable_event list pgm" where
  "outbox_claim_batch lease_seconds worker_id limit =
     pg_tx (st_at (\<lambda>s.
       let rows = outbox_batch (pg_clock s - lease_seconds * 1000000000) limit s;
           claimed = map obr_sequence rows
       in st_bind (st_modify (\<lambda>s. s\<lparr>pg_outbox := map (\<lambda>r. if obr_sequence r \<in> set claimed
            then r\<lparr>obr_claimed_at := Some (pg_now s), obr_claimed_by := Some worker_id,
                   obr_publish_attempts := obr_publish_attempts r + 1, obr_last_publish_error := None\<rparr>
            else r) (pg_outbox s)\<rparr>)) (\<lambda>_. st_return (TX_Commit (map to_durable rows)))))"

text \<open>The rows that the updates of one event by its claimant touch.\<close>

definition claimed_event :: "durable_event \<Rightarrow> string \<Rightarrow> outbox_row \<Rightarrow> bool" where
  "claimed_event e worker_id r \<longleftrightarrow>
     obr_sequence r = dev_sequence e \<and> obr_event_id r = dev_event_id e \<and> obr_published_at r = None
     \<and> obr_claimed_by r = Some worker_id"

definition outbox_mark_published :: "durable_event \<Rightarrow> string \<Rightarrow> bool pgm" where
  "outbox_mark_published e worker_id =
     pg_tx (st_at (\<lambda>s. st_bind (st_modify (\<lambda>s. s\<lparr>pg_outbox := map (\<lambda>r. if claimed_event e worker_id r
         then r\<lparr>obr_published_at := Some (pg_now s), obr_claimed_at := None, obr_claimed_by := None,
                obr_last_publish_error := None\<rparr>
         else r) (pg_outbox s)\<rparr>))
       (\<lambda>_. st_return (TX_Commit (length (filter (claimed_event e worker_id) (pg_outbox s)) = 1)))))"

text \<open>The slice of the error text panics when byte 2000 is inside a character; \<open>boundary\<close> says whether it is.\<close>

definition outbox_release_claim :: "(string \<Rightarrow> bool) \<Rightarrow> durable_event \<Rightarrow> string \<Rightarrow> string \<Rightarrow> unit pgm" where
  "outbox_release_claim boundary e worker_id err =
     (if length err > 2000 \<and> \<not> boundary err then (\<lambda>s. None)
      else pg_tx (st_bind (st_modify (\<lambda>s. s\<lparr>pg_outbox := map (\<lambda>r. if claimed_event e worker_id r
         then r\<lparr>obr_claimed_at := None, obr_claimed_by := None, obr_last_publish_error := Some (take 2000 err)\<rparr>
         else r) (pg_outbox s)\<rparr>)) (\<lambda>_. st_return (TX_Commit ()))))"

definition outbox_read_after :: "int \<Rightarrow> int \<Rightarrow> nat \<Rightarrow> pg \<Rightarrow> hypeedge_error + durable_event list" where
  "outbox_read_after after_sequence up_to limit = pg_read (\<lambda>s. Inr (map to_durable (take limit
     (sort_key obr_sequence (filter (\<lambda>r. after_sequence < obr_sequence r \<and> obr_sequence r \<le> up_to) (pg_outbox s))))))"

definition outbox_replay_bounds :: "pg \<Rightarrow> hypeedge_error + int option \<times> int option" where
  "outbox_replay_bounds = pg_read (\<lambda>s. Inr (case map obr_sequence (pg_outbox s) of
     [] \<Rightarrow> (None, None) | n # ns \<Rightarrow> (Some (fold min ns n), Some (fold max ns n))))"

definition outbox_append_control :: "string \<Rightarrow> string \<Rightarrow> json \<Rightarrow> unit pgm" where
  "outbox_append_control event_id event_type payload =
     pg_tx (st_at (\<lambda>s. if \<exists>r\<in>set (pg_outbox s). obr_event_id r = event_id then st_return (TX_Commit ())
       else st_bind (st_modify (\<lambda>s. s\<lparr>pg_sequence := pg_sequence s + 1, pg_outbox := pg_outbox s @
         [\<lparr>obr_sequence = pg_sequence s + 1, obr_event_id = event_id, obr_event_type = event_type,
           obr_aggregate_type = ''control'', obr_aggregate_id = ''control'', obr_aggregate_revision = 0,
           obr_correlation_id = None, obr_payload = payload, obr_published_at = None, obr_claimed_at = None,
           obr_claimed_by = None, obr_publish_attempts = 0, obr_last_publish_error = None\<rparr>]\<rparr>))
       (\<lambda>_. st_return (TX_Commit ()))))"

section \<open>The worker\<close>

text \<open>The queue works on the database of the engine's store.\<close>

definition on_store :: "'a pgm \<Rightarrow> (pg, 'a) eng" where
  "on_store m s =
     (case en_store s of
        None \<Rightarrow> None
      | Some db \<Rightarrow> map_option (\<lambda>(db', r). (s\<lparr>en_store := Some db'\<rparr>, r)) (m db))"

definition execute_command :: "pg engine_config \<Rightarrow> durable_inputs \<Rightarrow> durable_command \<Rightarrow> (pg, bool) eng" where
  "execute_command cfg d cmd =
     (if dc_command_type cmd = ''cancel_order'' then execute_durable_cancel_command cfg d cmd
      else execute_durable_command cfg d cmd)"

text \<open>One turn: claim, execute, and defer what was not resolved. An error leaves the command to its lease.\<close>

definition run_once :: "command_queue \<Rightarrow> pg engine_config \<Rightarrow> (durable_command \<Rightarrow> durable_inputs) \<Rightarrow> string \<Rightarrow>
    (pg, bool) eng" where
  "run_once q cfg inputs worker_id =
     st_bind (on_store (queue_claim q worker_id)) (\<lambda>claimed.
     case claimed of
       None \<Rightarrow> st_return False
     | Some cmd \<Rightarrow>
         st_bind (execute_command cfg (inputs cmd) cmd) (\<lambda>finished.
         st_bind (if finished then st_return ()
                  else on_store (queue_defer_unknown q (dc_command_id cmd) ''cloid lookup did not prove a terminal outcome''))
           (\<lambda>_. st_return True)))"

definition BACKOFF_BASE_MS :: nat where "BACKOFF_BASE_MS = 100"
definition BACKOFF_MAX_MS :: nat where "BACKOFF_MAX_MS = 30000"

text \<open>The delay before the next turn and the backoff it starts with, after a turn that began with \<open>backoff\<close>.\<close>

definition worker_delay :: "nat \<Rightarrow> nat \<Rightarrow> 'e + bool \<Rightarrow> nat \<times> nat" where
  "worker_delay poll backoff r =
     (case r of
        Inr True \<Rightarrow> (0, BACKOFF_BASE_MS)
      | Inr False \<Rightarrow> (poll, BACKOFF_BASE_MS)
      | Inl _ \<Rightarrow> (backoff, min (backoff * 2) BACKOFF_MAX_MS))"

text \<open>The loop until the worker is stopped, which it notices before a turn; the delays are collected.\<close>

fun worker_run :: "(nat \<Rightarrow> ('s, 'e, bool) st_op) \<Rightarrow> nat \<Rightarrow> nat \<Rightarrow> nat \<Rightarrow> nat \<Rightarrow> 's \<Rightarrow> ('s \<times> nat list) option" where
  "worker_run turn poll 0 k backoff s = Some (s, [])"
| "worker_run turn poll (Suc turns) k backoff s =
     (case turn k s of
        None \<Rightarrow> None
      | Some (s', r) \<Rightarrow>
          let (delay, backoff') = worker_delay poll backoff r
          in map_option (\<lambda>(s'', ds). (s'', delay # ds)) (worker_run turn poll turns (Suc k) backoff' s'))"

end
