(* ===== verification/HE_Engine_Safety.thy ===== *)
theory HE_Engine_Safety
  imports HE_Engine_Commands
begin

text \<open>
  Lemmas on the submission path of the engine: what its operations append to the trace, when the worker
  sends, what the admission leaves behind, and how answers move an order.
\<close>

section \<open>Sends in a trace\<close>

fun is_send :: "engine_effect \<Rightarrow> bool" where
  "is_send (EE_Order _ _) = True"
| "is_send _ = False"

definition sends_nothing :: "'s engine \<Rightarrow> 's engine \<Rightarrow> bool" where
  "sends_nothing s s' \<longleftrightarrow> (\<exists>new. en_trace s' = en_trace s @ new \<and> \<not> list_ex is_send new)"

interpretation quiet: step_order sends_nothing
proof
  show "sends_nothing s s" for s :: "'s engine" by (simp add: sends_nothing_def)
  show "sends_nothing s u" if "sends_nothing s t" "sends_nothing t u" for s t u :: "'s engine"
    using that by (auto simp: sends_nothing_def)
qed

lemma sends_nothing_emit [simp]: "sends_nothing s (emit es s) \<longleftrightarrow> \<not> list_ex is_send es"
  by (auto simp: sends_nothing_def emit_def)

lemma sends_nothing_same: "en_trace s' = en_trace s \<Longrightarrow> sends_nothing s s'"
  by (simp add: sends_nothing_def)

lemma emit_frame [simp]: "en_gates (emit es s) = en_gates s" "en_orders (emit es s) = en_orders s"
  "en_store (emit es s) = en_store s" "en_trace (emit es s) = en_trace s @ es"
  by (simp_all add: emit_def)

lemma escalate_no_send: "\<not> list_ex is_send (snd (escalate_risk_rejection dk reason g))"
  by (auto simp: escalate_risk_rejection_def list_ex_iff split: prod.splits)

lemma handle_risk_rejection_quiet: "sends_nothing s (handle_risk_rejection cfg reason s)"
  using escalate_no_send [of "ec_durable_kill cfg" reason "en_gates s"]
  by (auto simp: handle_risk_rejection_def sends_nothing_def split: prod.splits)

section \<open>The worker\<close>

lemma w_gates_cases:
  "w_gates i s = Some (s', r) \<Longrightarrow>
    s' = s \<and> (r = Inr () \<and> run_gates i (en_gates s) = Inr () \<or> (\<exists>m. r = Inl (WE_Abort m)))"
  by (auto simp: w_gates_def split: sum.splits)

lemma w_credits_cases:
  "w_credits now s = Some (s', r) \<Longrightarrow>
    s' = s \<and> (r = Inr () \<and> \<not> credits_low now (en_gates s) \<or> (\<exists>m. r = Inl (WE_Abort m)))"
  by (auto simp: w_credits_def split: if_splits)

definition repriced :: "'s engine_config \<Rightarrow> worker_inputs \<Rightarrow> order_intent \<Rightarrow> string \<Rightarrow> order_wire \<Rightarrow> decimal option \<Rightarrow>
    order_wire \<Rightarrow> decimal option \<Rightarrow> bool" where
  "repriced cfg w i cloid wire reference wire' ref \<longleftrightarrow>
     (if oi_order_type i \<noteq> OT_Market then wire' = wire \<and> ref = reference
      else build_order_wire cfg i cloid ref = Some (Inr wire')
        \<and> (if ec_provider cfg
           then \<exists>snap. wi_snapshot w = Inr (Some snap) \<and> snapshot_fresh cfg (wi_now w) snap \<and> ref = Some (mp_price snap)
           else ref = reference \<and> reference \<noteq> None))"

lemma refresh_Inr:
  "refresh_market_reference cfg now snapshot reference = Inr ref \<Longrightarrow>
    (if ec_provider cfg
     then \<exists>snap. snapshot = Inr (Some snap) \<and> snapshot_fresh cfg now snap \<and> ref = Some (mp_price snap)
     else ref = reference \<and> reference \<noteq> None)"
  by (auto simp: refresh_market_reference_def split: if_splits sum.splits option.splits)

lemma w_reprice_cases:
  assumes "w_reprice cfg w i cloid wire reference s = Some (s', r)"
  shows "s' = s \<and> ((\<exists>wire' ref. r = Inr (wire', ref) \<and> repriced cfg w i cloid wire reference wire' ref)
    \<or> (\<exists>m. r = Inl (WE_Abort m)))"
proof (cases "oi_order_type i = OT_Market")
  case False
  then show ?thesis using assms by (auto simp: w_reprice_def repriced_def)
next
  case True
  show ?thesis
  proof (cases "refresh_market_reference cfg (wi_now w) (wi_snapshot w) reference")
    case (Inl e)
    then show ?thesis using assms True by (auto simp: w_reprice_def)
  next
    case (Inr ref)
    obtain b where b: "build_order_wire cfg i cloid ref = Some b"
      using assms True Inr by (cases "build_order_wire cfg i cloid ref") (auto simp: w_reprice_def)
    show ?thesis
    proof (cases b)
      case (Inl e)
      then show ?thesis using assms True \<open>refresh_market_reference _ _ _ _ = Inr ref\<close> b by (simp add: w_reprice_def) blast
    next
      case wire: (Inr wire')
      then have "s' = s" "r = Inr (wire', ref)" using assms True Inr b by (simp_all add: w_reprice_def)
      then show ?thesis using True b wire refresh_Inr [OF Inr] by (simp add: repriced_def)
    qed
  qed
qed

lemma w_weight_cases:
  assumes "w_weight batch w s = Some (s', r)"
  shows "en_trace s' = en_trace s \<and> (\<exists>rl. en_gates s' = (en_gates s)\<lparr>gt_limiter := rl\<rparr>)
    \<and> (r = Inr () \<and> snd (acquire_exchange_weight batch (wi_clock w) (wi_cut w) (gt_limiter (en_gates s))) = Inr ()
       \<or> (\<exists>m. r = Inl (WE_Abort m)))"
  using assms by (auto simp: w_weight_def split: prod.splits sum.splits)

definition risk_admits :: "worker_inputs \<Rightarrow> order_intent \<Rightarrow> decimal option \<Rightarrow> gates \<Rightarrow> bool" where
  "risk_admits w i ref g \<longleftrightarrow> (\<forall>rk. gt_checker g = Some rk \<longrightarrow>
     (\<exists>rk' result. risk_check rk (wi_view w) (wi_now w) (wi_deadline w) i ref = Some (rk', result) \<and> rc_passed result))"

lemma w_risk_cases:
  assumes "w_risk cfg w i ref s = Some (s', r)"
  shows "(r = Inr () \<and> risk_admits w i ref (en_gates s) \<and> en_trace s' = en_trace s
      \<and> (\<exists>rk. en_gates s' = (en_gates s)\<lparr>gt_checker := rk\<rparr>))
    \<or> ((\<exists>m. r = Inl (WE_Abort m)) \<and> sends_nothing s s')"
proof (cases "gt_checker (en_gates s)")
  case None
  moreover have "\<exists>rk. en_gates s = (en_gates s)\<lparr>gt_checker := rk\<rparr>"
    by (rule exI [of _ "gt_checker (en_gates s)"]) simp
  ultimately show ?thesis using assms by (auto simp: w_risk_def risk_admits_def)
next
  case (Some rk)
  then obtain rk' result where rk: "risk_check rk (wi_view w) (wi_now w) (wi_deadline w) i ref = Some (rk', result)"
    using assms by (auto simp: w_risk_def split: option.splits)
  define s1 where "s1 = s\<lparr>en_gates := (en_gates s)\<lparr>gt_checker := Some rk'\<rparr>\<rparr>"
  have "sends_nothing s s1" by (simp add: s1_def sends_nothing_same)
  then have q: "sends_nothing s (handle_risk_rejection cfg reason s1)" for reason
    using handle_risk_rejection_quiet quiet.trans by blast
  show ?thesis
    using assms Some rk q by (auto simp: w_risk_def Let_def s1_def risk_admits_def split: if_splits)
qed

definition budget_admits :: "worker_inputs \<Rightarrow> bool \<Rightarrow> order_intent \<Rightarrow> gates \<Rightarrow> bool" where
  "budget_admits w em i g \<longleftrightarrow> (\<forall>b. gt_budget g = Some b \<longrightarrow>
     (\<exists>res. permission (wi_now w) (wi_now w) (placement_request em i) b = Some res \<and>
        (\<forall>p. res = Inr p \<longrightarrow> bp_allowed p)))"

lemma w_budget_cases:
  "w_budget w em i s = Some (s', r) \<Longrightarrow>
    s' = s \<and> (r = Inr () \<and> budget_admits w em i (en_gates s) \<or> (\<exists>m. r = Inl (WE_Abort m)))"
  by (auto simp: w_budget_def budget_admits_def split: option.splits sum.splits if_splits)

lemma w_send_trace:
  "w_send w em i cloid wire s = Some (s', r) \<Longrightarrow>
    en_trace s' = en_trace s @ [EE_Order wire (wi_nonce w)] \<and> en_orders s' = en_orders s
    \<and> r = map_sum WE_Transport id (wi_exchange w)"
  by (auto simp: w_send_def Let_def split: sum.splits)


text \<open>A run of the worker either aborts without a send, or sends once past every gate.\<close>

definition all_gates_pass :: "'s engine_config \<Rightarrow> worker_inputs \<Rightarrow> bool \<Rightarrow> order_intent \<Rightarrow> string \<Rightarrow> order_wire \<Rightarrow>
    decimal option \<Rightarrow> gates \<Rightarrow> order_wire \<Rightarrow> bool" where
  "all_gates_pass cfg w em i cloid wire reference g wire' \<longleftrightarrow>
     run_gates i g = Inr () \<and> \<not> credits_low (wi_now w) g
     \<and> snd (acquire_exchange_weight 1 (wi_clock w) (wi_cut w) (gt_limiter g)) = Inr ()
     \<and> budget_admits w em i g
     \<and> (\<exists>ref. repriced cfg w i cloid wire reference wire' ref \<and> risk_admits w i ref g)"

lemma worker_tail_cases:
  assumes "st_bind (w_weight 1 w) (\<lambda>_. st_bind (w_risk cfg w i ref) (\<lambda>_.
      st_bind (w_budget w em i) (\<lambda>_. w_send w em i cloid wire))) s = Some (s', r)"
  shows "(\<exists>m. r = Inl (WE_Abort m)) \<and> sends_nothing s s'
    \<or> en_trace s' = en_trace s @ [EE_Order wire (wi_nonce w)] \<and> r = map_sum WE_Transport id (wi_exchange w)
      \<and> snd (acquire_exchange_weight 1 (wi_clock w) (wi_cut w) (gt_limiter (en_gates s))) = Inr ()
      \<and> risk_admits w i ref (en_gates s) \<and> budget_admits w em i (en_gates s)"
proof -
  let ?stop = "(\<exists>m. r = Inl (WE_Abort m)) \<and> sends_nothing s s'"
  from assms show ?thesis
  proof (cases rule: st_bindE)
    case stop then show ?thesis using w_weight_cases [OF stop(1)] sends_nothing_same by blast
  next
    case weighed: (go s1 x)
    from w_weight_cases [OF weighed(1)] obtain rl where s1: "en_trace s1 = en_trace s"
      "en_gates s1 = (en_gates s)\<lparr>gt_limiter := rl\<rparr>"
      "snd (acquire_exchange_weight 1 (wi_clock w) (wi_cut w) (gt_limiter (en_gates s))) = Inr ()" by auto
    from weighed(2) show ?thesis
    proof (cases rule: st_bindE)
      case stop
      then show ?thesis using w_risk_cases [OF stop(1)] quiet.trans [OF sends_nothing_same [OF s1(1)]] by blast
    next
      case checked: (go s2 y)
      from w_risk_cases [OF checked(1)] obtain rk where s2: "en_trace s2 = en_trace s1"
        "en_gates s2 = (en_gates s1)\<lparr>gt_checker := rk\<rparr>" "risk_admits w i ref (en_gates s1)" by auto
      from checked(2) show ?thesis
      proof (cases rule: st_bindE)
        case stop
        then show ?thesis using w_budget_cases [OF stop(1)] s1(1) s2(1) sends_nothing_same [of s' s] by auto
      next
        case sent: (go s3 z)
        then have "s3 = s2" "budget_admits w em i (en_gates s2)" using w_budget_cases [OF sent(1)] by auto
        then show ?thesis
          using s1 s2 w_send_trace [OF sent(2)] by (simp add: risk_admits_def budget_admits_def)
      qed
    qed
  qed
qed

lemma worker_place_cases:
  assumes "worker_place cfg w em i cloid wire reference s = Some (s', r)"
  shows "(\<exists>m. r = Inl (WE_Abort m)) \<and> sends_nothing s s'
    \<or> (\<exists>wire'. en_trace s' = en_trace s @ [EE_Order wire' (wi_nonce w)] \<and> r = map_sum WE_Transport id (wi_exchange w)
        \<and> all_gates_pass cfg w em i cloid wire reference (en_gates s) wire')"
proof -
  let ?stop = "(\<exists>m. r = Inl (WE_Abort m)) \<and> sends_nothing s s'"
  note run = assms[unfolded worker_place_def]
  consider (stop) ?stop | (gated) "run_gates i (en_gates s) = Inr ()" "\<not> credits_low (wi_now w) (en_gates s)"
      "st_bind (w_reprice cfg w i cloid wire reference) (\<lambda>(wire', ref).
         st_bind (w_weight 1 w) (\<lambda>_. st_bind (w_risk cfg w i ref) (\<lambda>_.
         st_bind (w_budget w em i) (\<lambda>_. w_send w em i cloid wire')))) s = Some (s', r)"
    using run quiet.refl [of s] unfolding st_bind_Some [of "w_gates i"] st_bind_Some [of "w_credits (wi_now w)"]
    by (blast dest: w_gates_cases w_credits_cases)
  then show ?thesis
  proof cases
    case stop then show ?thesis by blast
  next
    case gated
    from gated(3) show ?thesis
    proof (cases rule: st_bindE)
      case stop then show ?thesis using w_reprice_cases [OF stop(1)] quiet.refl by blast
    next
      case priced: (go s1 x)
      obtain wire' ref where x: "x = (wire', ref)" by (rule prod.exhaust)
      from w_reprice_cases [OF priced(1)]
      have "s1 = s" "repriced cfg w i cloid wire reference wire' ref" by (auto simp: x)
      then show ?thesis
        using worker_tail_cases [OF priced(2)[unfolded x prod.case]] gated(1,2)
        unfolding all_gates_pass_def by blast
    qed
  qed
qed


section \<open>The trace of a submission\<close>

lemma order_store_frame [simp]: "en_gates (order_store o' s) = en_gates s" "en_store (order_store o' s) = en_store s"
  "en_trace (order_store o' s) = en_trace s"
  by (simp_all add: order_store_def)

lemma publish_frame [simp]: "en_gates (publish ev o' s) = en_gates s" "en_store (publish ev o' s) = en_store s"
  "en_orders (publish ev o' s) = en_orders s" "en_trace (publish ev o' s) = en_trace s @ [EE_Publish ev o']"
  by (simp_all add: publish_def)

lemma credit_fill_frame [simp]: "en_trace (credit_fill v now s) = en_trace s" "en_store (credit_fill v now s) = en_store s"
  "en_orders (credit_fill v now s) = en_orders s"
  by (simp_all add: credit_fill_def)

lemma persist_transition_quiet: "st_keeps sends_nothing (persist_transition cfg o' ev cid st)"
  by (auto simp: st_keeps_def persist_transition_def sends_nothing_def split: option.splits prod.splits sum.splits)

lemma persist_placement_quiet: "st_keeps sends_nothing (persist_placement cfg o' risk cid d ref)"
  by (auto simp: st_keeps_def persist_placement_def sends_nothing_def split: option.splits prod.splits sum.splits)

section \<open>Handlers of an answer\<close>

text \<open>
  What every handler of an answer respects, on engine and order together: a relation that its five kinds of
  step respect. A handler never changes what was ordered, moves the status by legal transitions, and writes no
  command back to pending.
\<close>

definition keeps_identity :: "(order \<Rightarrow> order) \<Rightarrow> bool" where
  "keeps_identity f \<longleftrightarrow> (\<forall>z. od_status (f z) = od_status z \<and> intent_from_order (f z) = intent_from_order z
     \<and> od_cloid (f z) = od_cloid z)"

lemma stamps_keep_identity:
  "keeps_identity id" "keeps_identity (od_acknowledged_at_update f1)" "keeps_identity (od_error_message_update f2)"
  "keeps_identity (od_exchange_oid_update f3)" "keeps_identity (merge_resting_fill now fill)"
  "keeps_identity (apply_lookup_fill now payload)"
  "keeps_identity (\<lambda>o1. o1\<lparr>od_filled_at := a, od_exchange_oid := b, od_filled_size := c', od_avg_fill_price := d\<rparr>)"
  by (auto simp: keeps_identity_def intent_from_order_def merge_resting_fill_def apply_lookup_fill_def Let_def
      split: option.splits)

lemma ignore_error_keeps: "st_keeps R m \<Longrightarrow> st_keeps R (ignore_error m)"
  by (auto simp: st_keeps_def ignore_error_def)

locale order_handlers = step_order R for R :: "'s engine \<times> order \<Rightarrow> 's engine \<times> order \<Rightarrow> bool" +
  fixes cfg :: "'s engine_config"
  assumes stamp: "keeps_identity f \<Longrightarrow> st_keeps R (set_order f)"
    and status: "st_keeps R (to_status st)"
    and persist: "cs \<noteq> ''pending'' \<Longrightarrow> st_keeps R (persist_order cfg ev cid cs)"
    and publishes: "st_keeps R (publish_order e)"
    and credits: "st_keeps R (credit_order_fill now)"
begin

lemmas steps = st_keeps_at_pair keeps status publishes credits stamp stamps_keep_identity ignore_error_keeps

lemma settles: "keeps_identity f \<Longrightarrow> cs \<noteq> ''pending'' \<Longrightarrow> st_keeps R (settle cfg cid st f ev cs e)"
  unfolding settle_def by (intro steps persist)

lemma submit_response: "st_keeps R (handle_submit_response cfg now cid response)"
proof -
  have resting: "st_keeps R (handle_resting cfg now cid entry j)" for entry j
    unfolding handle_resting_def acknowledge_def by (intro steps settles persist) simp_all
  have fill: "st_keeps R (handle_immediate_fill cfg now cid j)" for j
    unfolding handle_immediate_fill_def Let_def by (intro steps persist) simp_all
  have lookup: "st_keeps R (handle_status_lookup cfg now cid response)"
    unfolding handle_status_lookup_def acknowledge_def
    by (auto split: option.splits order_status.splits intro!: steps settles persist)
  have entry: "st_keeps R (handle_ok_entry cfg now cid entry)" for entry
    unfolding handle_ok_entry_def reject_with_def by (intro steps settles resting fill) simp_all
  show ?thesis
    unfolding handle_submit_response_def Let_def acknowledge_def reject_with_def
    by (auto split: option.splits list.splits intro!: settles stamps_keep_identity entry lookup)
qed

lemma outcome: "st_keeps R (apply_outcome cfg now cid oc)"
  by (cases oc) (simp_all add: apply_outcome_def submit_response settles reject_with_def stamps_keep_identity)

lemma unresolved: "st_keeps R (cancel_unresolved cfg reason cid)"
  unfolding cancel_unresolved_def mark_cancel_unknown_def by (intro steps persist) simp_all

lemma cancel_response: "st_keeps R (handle_cancel_response cfg now cid response)"
proof -
  have mark: "st_keeps R (mark_cancelled cfg cid)"
    unfolding mark_cancelled_def by (intro steps settles) simp_all
  have refused: "st_keeps R (cancel_refused cfg m cid)" for m
    unfolding cancel_refused_def by (intro steps persist) simp_all
  have lookup: "st_keeps R (handle_cancel_lookup cfg now cid response)"
    unfolding handle_cancel_lookup_def
    by (auto split: option.splits order_status.splits intro!: steps settles persist mark unresolved)
  have ok: "st_keeps R (handle_cancel_ok cfg cid response)"
    unfolding handle_cancel_ok_def
    by (auto split: option.splits list.splits intro!: mark refused unresolved)
  show ?thesis
    unfolding handle_cancel_response_def Let_def by (auto intro!: lookup ok refused unresolved)
qed

lemma resolved: "st_keeps R is_resolved"
  by (auto simp: st_keeps_def is_resolved_def refl)

lemma resolve: "st_keeps R (resolve_command cfg d cmd)"
  unfolding resolve_command_def by (intro steps persist submit_response resolved) simp_all

lemma abort: "st_keeps R (abort_dispatch cfg cmd msg)"
  unfolding abort_dispatch_def by (intro steps settles) simp_all

lemma after_send:
  "st_keeps R (st_bind (apply_outcome cfg now cid oc)
     (\<lambda>_. case oc of SO_Response _ \<Rightarrow> is_resolved | SO_Timeout \<Rightarrow> st_return False | _ \<Rightarrow> st_return True))"
  by (intro keeps_bind outcome; cases oc; simp add: keeps_pure resolved)

end

text \<open>Handlers never send.\<close>

definition quiet_pair :: "'s engine \<times> order \<Rightarrow> 's engine \<times> order \<Rightarrow> bool" where
  "quiet_pair x y \<longleftrightarrow> sends_nothing (fst x) (fst y)"

lemma on_engine_quiet: "st_keeps sends_nothing m \<Longrightarrow> st_keeps quiet_pair (on_engine m)"
  by (auto simp: st_keeps_def on_engine_def quiet_pair_def split: prod.splits)

interpretation quiet_order: order_handlers quiet_pair cfg for cfg
proof
  show "quiet_pair x x" "quiet_pair x y \<Longrightarrow> quiet_pair y z \<Longrightarrow> quiet_pair x z" for x y z :: "'s engine \<times> order"
    by (auto simp: quiet_pair_def intro: quiet.refl quiet.trans)
  show "st_keeps quiet_pair (persist_order cfg ev cid cs)" for ev cid cs
    unfolding persist_order_def by (intro st_keeps_at_pair on_engine_quiet persist_transition_quiet)
qed (auto simp: st_keeps_def set_order_def to_status_def publish_order_def credit_order_fill_def quiet_pair_def
    sends_nothing_def split: prod.splits sum.splits)

text \<open>The two ways the exchange can have confirmed an outcome.\<close>

definition confirmed :: "worker_fate \<Rightarrow> (string + json option) \<Rightarrow> json \<Rightarrow> bool" where
  "confirmed fate query j \<longleftrightarrow> (\<exists>w. fate = WF_Answered w \<and> wi_exchange w = Inr j) \<or> query = Inr (Some j)"

definition ran :: "worker_fate \<Rightarrow> worker_inputs \<Rightarrow> bool" where
  "ran fate w \<longleftrightarrow> fate = WF_Answered w \<or> fate = WF_TimedOut (Some w)"

lemma resolve_by_query_cases:
  "(\<exists>j. resolve_by_query q = SO_Response j \<and> q = Inr (Some j)) \<or> resolve_by_query q = SO_Timeout \<and> (\<forall>j. q \<noteq> Inr (Some j))"
  by (auto simp: resolve_by_query_def split: sum.splits option.splits)

lemma resolve_by_query_confirmed:
  "resolve_by_query q = SO_Response j \<Longrightarrow> confirmed fate q j" "resolve_by_query q \<noteq> SO_SafetyAborted e"
  "resolve_by_query q \<noteq> SO_Rejected m"
  using resolve_by_query_cases [of q] by (auto simp: confirmed_def)

definition sent_once :: "'s engine_config \<Rightarrow> worker_fate \<Rightarrow> bool \<Rightarrow> order_intent \<Rightarrow> string \<Rightarrow> decimal option \<Rightarrow>
    's engine \<Rightarrow> 's engine \<Rightarrow> bool" where
  "sent_once cfg fate em i cloid reference s s' \<longleftrightarrow>
     (\<exists>w wire wire'. ran fate w \<and> build_order_wire cfg i cloid reference = Some (Inr wire)
        \<and> en_trace s' = en_trace s @ [EE_Order wire' (wi_nonce w)]
        \<and> all_gates_pass cfg w em i cloid wire reference (wi_others w (en_gates s)) wire')"

lemma run_worker_cases:
  assumes "run_worker cfg em i cloid wire reference w s = Some (s', r)"
    and "ran fate w" "build_order_wire cfg i cloid reference = Some (Inr wire)"
  shows "(\<exists>m. r = Inl (WE_Abort m)) \<and> sends_nothing s s'
    \<or> r = map_sum WE_Transport id (wi_exchange w) \<and> sent_once cfg fate em i cloid reference s s'"
proof -
  let ?s = "s\<lparr>en_gates := wi_others w (en_gates s)\<rparr>"
  have "sends_nothing s s'" if "sends_nothing ?s s'"
    using that sends_nothing_same [of ?s s] by (simp add: sends_nothing_def)
  then show ?thesis
    using worker_place_cases [OF assms(1)[unfolded run_worker_def]] assms(2,3)
    unfolding sent_once_def by auto
qed

lemma submit_to_exchange_cases:
  assumes "submit_to_exchange cfg fate query em i cloid reference s = Some (s', outcome)"
  shows "(\<forall>j. outcome = SO_Response j \<longrightarrow> confirmed fate query j)
    \<and> (sends_nothing s s' \<or> sent_once cfg fate em i cloid reference s s'
         \<and> (outcome = SO_Timeout \<or> (\<exists>j. outcome = SO_Response j)))"
proof (cases "build_order_wire cfg i cloid reference")
  case None then show ?thesis using assms by (simp add: submit_to_exchange_def)
next
  case (Some b)
  show ?thesis
  proof (cases b)
    case (Inl e) then show ?thesis using assms Some quiet.refl by (auto simp: submit_to_exchange_def)
  next
    case wire: (Inr wire)
    note code = assms[unfolded submit_to_exchange_def Some wire option.case sum.case]
    note q = resolve_by_query_confirmed [of query] resolve_by_query_cases [of query]
    consider (none) "fate = WF_QueueFailed \<or> fate = WF_TimedOut None" | (late) w where "fate = WF_TimedOut (Some w)"
      | (answered) w where "fate = WF_Answered w" by (metis option.exhaust worker_fate.exhaust)
    then show ?thesis
    proof cases
      case none then show ?thesis using code q quiet.refl [of s] by auto
    next
      case (late w)
      then obtain r where "run_worker cfg em i cloid wire reference w s = Some (s', r)" "outcome = resolve_by_query query"
        using code by auto
      then show ?thesis using run_worker_cases [of cfg em i cloid wire reference w s s' r fate] late q Some wire
        by (auto simp: ran_def)
    next
      case (answered w)
      then obtain r where r: "run_worker cfg em i cloid wire reference w s = Some (s', r)"
        "outcome = (case r of Inr j \<Rightarrow> SO_Response j | Inl (WE_Abort m) \<Rightarrow> SO_SafetyAborted (Execution m)
            | Inl (WE_Transport _) \<Rightarrow> resolve_by_query query)"
        using code by auto
      have "(\<exists>m. r = Inl (WE_Abort m)) \<and> sends_nothing s s'
          \<or> r = map_sum WE_Transport id (wi_exchange w) \<and> sent_once cfg fate em i cloid reference s s'"
        using run_worker_cases [OF r(1), of fate] answered Some wire by (simp add: ran_def)
      then show ?thesis
      proof
        assume "(\<exists>m. r = Inl (WE_Abort m)) \<and> sends_nothing s s'"
        then show ?thesis using r(2) by auto
      next
        assume a: "r = map_sum WE_Transport id (wi_exchange w) \<and> sent_once cfg fate em i cloid reference s s'"
        then show ?thesis
          using r(2) q answered by (cases "wi_exchange w") (auto simp: confirmed_def)
      qed
    qed
  qed
qed


section \<open>Admission\<close>

lemma refuse_done:
  "refuse cfg a i reason risk ref s = Some (s', Inr x) \<Longrightarrow> \<exists>o'. x = AD_Done o'"
  by (auto simp: refuse_def st_bind_Some split: prod.splits)

lemma admit_risk_quiet: "admit_risk cfg a i ref s = Some (s', x) \<Longrightarrow> sends_nothing s s' \<and> en_trace s' = en_trace s
    \<and> en_orders s' = en_orders s \<and> en_store s' = en_store s"
  by (auto simp: admit_risk_def sends_nothing_def split: option.splits)

text \<open>
  What the admission respects: a relation that allows changes of gates and orders, effects that are not sends,
  and durable placements.
\<close>

locale engine_steps = step_order R for R :: "'s engine \<Rightarrow> 's engine \<Rightarrow> bool" +
  fixes cfg :: "'s engine_config"
  assumes frame: "en_trace s' = en_trace s \<Longrightarrow> en_store s' = en_store s \<Longrightarrow> R s s'"
    and emits: "\<not> list_ex is_send es \<Longrightarrow> R s (emit es s)"
    and placement: "st_keeps R (persist_placement cfg o' risk cid d ref)"
begin

lemma publishing: "R s (publish ev o' s)"
  unfolding publish_def by (rule emits) simp

lemma storing: "R s (order_store o' s)"
  by (rule frame) simp_all

lemma rejection: "R s (handle_risk_rejection cfg reason s)"
proof -
  obtain g es where e: "escalate_risk_rejection (ec_durable_kill cfg) reason (en_gates s) = (g, es)" by (rule prod.exhaust)
  have "\<not> list_ex is_send es" using escalate_no_send [of "ec_durable_kill cfg" reason "en_gates s"] e by simp
  then have "R (s\<lparr>en_gates := g\<rparr>) (handle_risk_rejection cfg reason s)" using emits e by (simp add: handle_risk_rejection_def)
  moreover have "R s (s\<lparr>en_gates := g\<rparr>)" by (rule frame) simp_all
  ultimately show ?thesis using trans by blast
qed

lemma refuses: "st_keeps R (refuse cfg a i reason risk ref)"
  unfolding st_keeps_def
proof (intro allI impI)
  fix s s' r
  assume run: "refuse cfg a i reason risk ref s = Some (s', r)"
  obtain s1 o' where r: "rejected_order cfg (ai_now a) i reason s = (s1, o')" by (rule prod.exhaust)
  have "st_keeps R (st_bind (persist_placement cfg o' risk (ai_command_id a) False ref)
      (\<lambda>_. st_return (AD_Done o')))"
    by (intro keeps placement)
  then have "R s1 s'" using run r by (auto simp: refuse_def dest: st_keepsD)
  moreover have "R s s1" using publishing r by (auto simp: rejected_order_def Let_def)
  ultimately show "R s s'" using trans by blast
qed

lemma exposes: "st_keeps R (expose d i ref o' dr)"
proof -
  have both: "R s ((publish ev z \<circ> order_store z) s)" for s ev z
    using trans [OF storing publishing] by simp
  show ?thesis
    unfolding expose_def Let_def by (intro keeps storing publishing both)
qed

lemma places: "st_keeps R (place cfg a d i cloid risk ref)"
  unfolding place_def Let_def by (intro keeps placement exposes)

lemma checks: "admit_risk cfg a i ref s = Some (s', x) \<Longrightarrow> R s s'"
  using admit_risk_quiet by (blast intro: frame)

lemma admits_checked: "st_keeps R (admit_checked cfg a d i cloid ref)"
  unfolding st_keeps_def
proof (intro allI impI)
  fix s s' r
  assume run: "admit_checked cfg a d i cloid ref s = Some (s', r)"
  then obtain s1 risk where r: "admit_risk cfg a i ref s = Some (s1, risk)"
    by (auto simp: admit_checked_def split: option.splits)
  define reason where "reason = (case rc_reason risk of Some r \<Rightarrow> r | None \<Rightarrow> ''risk_check_rejected'')"
  have "R s1 s'"
  proof (cases "rc_passed risk")
    case False
    then have "refuse cfg a i reason risk ref (handle_risk_rejection cfg reason s1) = Some (s', r)"
      using run r by (simp add: admit_checked_def reason_def Let_def)
    then show ?thesis using st_keepsD [OF refuses] rejection trans by blast
  next
    case True
    then show ?thesis
      using run r st_keepsD [OF refuses] st_keepsD [OF places]
      by (simp add: admit_checked_def split: if_splits)
  qed
  then show "R s s'" using checks [OF r] trans by blast
qed

lemma admits: "st_keeps R (admit cfg a d i)"
proof -
  have priced: "st_keeps R (admit_priced cfg a d' i' cloid)" for d' i' cloid
    unfolding admit_priced_def Let_def by (intro keeps refuses admits_checked)
  have gated: "st_keeps R (admit_gated cfg a d' i' cloid)" for d' i' cloid
    using st_keepsD [OF priced] st_keepsD [OF refuses] refl
    by (auto simp: st_keeps_def admit_gated_def split: sum.splits if_splits)
  have look: "st_keeps R (\<lambda>s. Some (s, find_existing cfg cloid s))" for cloid
    by (auto simp: st_keeps_def intro: refl)
  show ?thesis unfolding admit_def Let_def by (intro keeps gated look)
qed

end

interpretation quiet_engine: engine_steps sends_nothing cfg for cfg
  by unfold_locales (auto simp: sends_nothing_same persist_placement_quiet)

text \<open>What a dispatch of the admission rests on.\<close>

lemma place_dispatch:
  assumes "place cfg a d i cloid risk ref s = Some (s', Inr (AD_Dispatch o' i' ref'))"
  shows "\<not> d \<and> i' = i \<and> ref' = ref \<and> od_cloid o' = cloid \<and> od_status o' = Submitted \<and> order_load cloid s' = Some o'
    \<and> (if en_store s = None then en_trace s' = en_trace s @ [EE_Publish EV_Submitted o']
       else \<exists>rr. rc_passed rr \<and> en_trace s' = en_trace s @ [EE_Placement o' rr True, EE_Publish EV_Submitted o'])"
proof -
  define o1 where "o1 = (order_of_intent (ai_now a) cloid i)\<lparr>od_status := Submitted, od_submitted_at := Some (ai_now a)\<rparr>"
  have t: "transition (order_of_intent (ai_now a) cloid i) Submitted =
      Inr ((order_of_intent (ai_now a) cloid i)\<lparr>od_status := Submitted\<rparr>)"
    by (simp add: transition_def order_of_intent_def order_new_def)
  obtain s1 dr where p: "persist_placement cfg o1 risk (ai_command_id a) True ref s = Some (s1, Inr dr)"
    and rest: "expose d i ref o1 dr s1 = Some (s', Inr (AD_Dispatch o' i' ref'))"
    using assms unfolding place_def t by (auto simp: st_bind_Some Let_def o1_def)
  have s1: "if en_store s = None then dr = None \<and> s1 = s
      else (\<exists>rr. dr = Some rr \<and> en_trace s1 = en_trace s @ [EE_Placement o1 rr True])"
    using p by (auto simp: persist_placement_def split: option.splits prod.splits sum.splits)
  have o1: "od_cloid o1 = cloid" "od_status o1 = Submitted"
    by (simp_all add: o1_def order_of_intent_def)
  have "o' = o1 \<and> i' = i \<and> ref' = ref \<and> \<not> d \<and> s' = publish EV_Submitted o1 (order_store o1 s1)
      \<and> (\<forall>rr. dr = Some rr \<longrightarrow> rc_passed rr)"
    using rest by (cases dr) (auto simp: expose_def st_bind_Some Let_def split: if_splits)
  then show ?thesis
    using s1 o1 by (auto simp: order_load_def order_store_def publish_def emit_def update_conv' split: if_splits)
qed

lemma st_lift_Some: "st_lift r s = Some (s', x) \<longleftrightarrow> s' = s \<and> x = r"
  by auto

lemma admit_dispatch:
  assumes "admit cfg a deferred i0 s = Some (s', Inr (AD_Dispatch o' i ref))"
  shows "find_existing cfg (od_cloid o') s = Inr None \<and> oi_cloid i = Some (od_cloid o')
    \<and> \<not> ec_deferred cfg \<and> deferred \<noteq> Some True
    \<and> (\<exists>rw. od_cloid o' = to_hl_cloid (ec_sha256 cfg) rw) \<and> run_gates i (en_gates s) = Inr ()
    \<and> od_status o' = Submitted \<and> order_load (od_cloid o') s' = Some o'
    \<and> (if en_store s = None then en_trace s' = en_trace s @ [EE_Publish EV_Submitted o']
       else \<exists>rr. rc_passed rr \<and> en_trace s' = en_trace s @ [EE_Placement o' rr True, EE_Publish EV_Submitted o'])"
proof -
  obtain i1 where n: "normalize_intent cfg (ai_best a) i0 = Some (Inr i1)"
    and go: "st_bind (\<lambda>s. Some (s, find_existing cfg (the (oi_cloid (canonical_intent cfg i1))) s)) (\<lambda>existing.
       case existing of
         Some o' \<Rightarrow> if matches_intent o' (canonical_intent cfg i1) then st_return (AD_Done o') else st_fail (OrderRejected
           (''Cloid '' @ the (oi_cloid (canonical_intent cfg i1)) @ '' is already bound to a different order'')
           (Some (the (oi_cloid (canonical_intent cfg i1)))) (Some ''cloid_payload_conflict''))
       | None \<Rightarrow> admit_gated cfg a (ec_deferred cfg \<or> deferred = Some True) (canonical_intent cfg i1)
           (the (oi_cloid (canonical_intent cfg i1)))) s = Some (s', Inr (AD_Dispatch o' i ref))"
    using assms unfolding admit_def Let_def
    by (auto simp: st_bind_Some st_lift_Some st_lift_panic_def)
  define ci cloid where "ci = canonical_intent cfg i1" and "cloid = the (oi_cloid ci)"
  have c: "oi_cloid ci = Some cloid" "\<exists>rw. cloid = to_hl_cloid (ec_sha256 cfg) rw"
    by (auto simp: ci_def cloid_def canonical_intent_def Let_def)
  obtain ex where "find_existing cfg cloid s = Inr ex"
    using go unfolding ci_def [symmetric] cloid_def [symmetric] by (auto simp: st_bind_Some)
  then have none: "find_existing cfg cloid s = Inr None"
    and gated: "admit_gated cfg a (ec_deferred cfg \<or> deferred = Some True) ci cloid s = Some (s', Inr (AD_Dispatch o' i ref))"
    using go unfolding ci_def [symmetric] cloid_def [symmetric]
    by (cases ex; auto simp: st_bind_Some split: if_splits)+
  have gates: "run_gates ci (en_gates s) = Inr ()"
    and priced: "admit_priced cfg a (ec_deferred cfg \<or> deferred = Some True) ci cloid s = Some (s', Inr (AD_Dispatch o' i ref))"
    using gated by (auto simp: admit_gated_def split: sum.splits if_splits dest: refuse_done)
  obtain rf where "admit_checked cfg a (ec_deferred cfg \<or> deferred = Some True) ci cloid rf s = Some (s', Inr (AD_Dispatch o' i ref))"
    using priced by (auto simp: admit_priced_def st_bind_Some st_lift_Some Let_def split: if_splits dest: refuse_done)
  then obtain s1 risk where "admit_risk cfg a ci rf s = Some (s1, risk)"
    "place cfg a (ec_deferred cfg \<or> deferred = Some True) ci cloid risk rf s1 = Some (s', Inr (AD_Dispatch o' i ref))"
    by (auto simp: admit_checked_def Let_def split: option.splits if_splits dest: refuse_done)
  note placed = place_dispatch [OF this(2)] and checked = admit_risk_quiet [OF this(1)]
  then show ?thesis
    using c none gates by (simp cong: if_cong)
qed


section \<open>The whole submission\<close>

lemma dispatchE:
  assumes "dispatch cfg x em o' i ref s = Some (s', r)"
  obtains s1 outcome s2 o2 r2 where
    "submit_to_exchange cfg (si_fate x) (si_query x) em i (od_cloid o') ref s = Some (s1, outcome)"
    "apply_outcome cfg (si_now x) (Some (ai_command_id (si_admission x))) outcome (s1, o') = Some ((s2, o2), r2)"
    "en_trace s' = en_trace s2" "r = map_sum id (\<lambda>_. o2) r2" "r2 = Inr () \<longrightarrow> s' = order_store o2 s2"
proof -
  from assms obtain s1 outcome where 1:
    "submit_to_exchange cfg (si_fate x) (si_query x) em i (od_cloid o') ref s = Some (s1, outcome)"
    by (auto simp: dispatch_def split: option.splits)
  then obtain s2 o2 r2 where
    2: "apply_outcome cfg (si_now x) (Some (ai_command_id (si_admission x))) outcome (s1, o') = Some ((s2, o2), r2)"
    using assms by (auto simp: dispatch_def split: option.splits)
  show thesis
    using assms 1 2 by (intro that [OF 1 2]) (auto simp: dispatch_def split: sum.splits)
qed

lemma submitE:
  assumes "submit_order_inner cfg x i deferred em s = Some (s', r)"
  obtains (local) "sends_nothing s s'" "\<forall>o'. r = Inr o' \<longrightarrow> admit cfg (si_admission x) deferred i s = Some (s', Inr (AD_Done o'))"
  | (dispatched) s1 o' i' ref where "admit cfg (si_admission x) deferred i s = Some (s1, Inr (AD_Dispatch o' i' ref))"
      "dispatch cfg x em o' i' ref s1 = Some (s', r)"
  using assms unfolding submit_order_inner_def
proof (cases rule: st_bindE)
  case (stop e)
  then show thesis using st_keepsD [OF quiet_engine.admits stop(1)] by (intro local) auto
next
  case (go s1 y)
  then show thesis
  proof (cases y)
    case (AD_Done o1)
    then show thesis using go st_keepsD [OF quiet_engine.admits go(1)] by (intro local) auto
  next
    case (AD_Dispatch o1 i1 ref)
    then show thesis using go by (intro dispatched) auto
  qed
qed

lemma build_order_wire_cloid:
  "build_order_wire cfg i cloid ref = Some (Inr wr) \<Longrightarrow> ow_cloid wr = Some (to_hl_cloid (ec_sha256 cfg) cloid)"
  by (auto simp: build_order_wire_def res_bind_def split: option.splits sum.splits prod.splits)

lemma sent_once_wire:
  assumes "sent_once cfg fate em i cloid ref s s'"
  shows "\<exists>wr n. en_trace s' = en_trace s @ [EE_Order wr n] \<and> ow_cloid wr = Some (to_hl_cloid (ec_sha256 cfg) cloid)"
proof -
  obtain w wire wire' where w: "build_order_wire cfg i cloid ref = Some (Inr wire)"
    "en_trace s' = en_trace s @ [EE_Order wire' (wi_nonce w)]"
    "all_gates_pass cfg w em i cloid wire ref (wi_others w (en_gates s)) wire'"
    using assms by (auto simp: sent_once_def)
  then have "ow_cloid wire' = Some (to_hl_cloid (ec_sha256 cfg) cloid)"
    by (auto simp: all_gates_pass_def repriced_def build_order_wire_cloid split: if_splits)
  then show ?thesis using w(2) by blast
qed

lemma unique_split:
  assumes "xs @ x # ys = us @ u # vs" "P u" "\<forall>z \<in> set xs \<union> set ys. \<not> P z"
  shows "us = xs \<and> u = x"
  using assms
proof (induction xs arbitrary: us)
  case Nil
  then show ?case by (cases us) auto
next
  case (Cons a xs)
  then show ?case by (cases us) auto
qed


section \<open>Outcomes nobody confirmed\<close>

lemma settle_status:
  assumes "settle cfg cid st f ev cs e (s, o') = Some ((s', o''), Inr x)" and "\<And>z. od_status (f z) = od_status z"
  shows "od_status o'' = st"
  using assms
  by (auto simp: settle_def st_bind_Some to_status_def set_order_def persist_order_def on_engine_def
      publish_order_def transition_def Let_def split: sum.splits option.splits if_splits prod.splits)


section \<open>Orders only advance\<close>

definition advances :: "'s engine \<times> order \<Rightarrow> 's engine \<times> order \<Rightarrow> bool" where
  "advances x y \<longleftrightarrow> can_transition\<^sup>*\<^sup>* (od_status (snd x)) (od_status (snd y))
     \<and> intent_from_order (snd y) = intent_from_order (snd x)"

interpretation moves: order_handlers advances cfg for cfg
proof
  show "advances x x" "advances x y \<Longrightarrow> advances y z \<Longrightarrow> advances x z" for x y z :: "'s engine \<times> order"
    by (auto simp: advances_def)
  show "st_keeps advances (persist_order cfg ev cid cs)" for ev cid cs
    unfolding persist_order_def
    by (intro st_keeps_at_pair) (auto simp: st_keeps_def on_engine_def advances_def)
qed (auto simp: st_keeps_def set_order_def to_status_def publish_order_def credit_order_fill_def advances_def
    keeps_identity_def transition_def Let_def intent_from_order_def split: prod.splits sum.splits if_splits)

lemma send_command_moves: "st_keeps advances (send_command cfg d cmd i ref)"
  unfolding st_keeps_def
proof (intro allI impI)
  fix x y :: "'a engine \<times> order" and r
  assume run: "send_command cfg d cmd i ref x = Some (y, r)"
  obtain s o' where x: "x = (s, o')" by (rule prod.exhaust)
  obtain s1 outcome where o1: "submit_to_exchange cfg (di_fate d) (di_query d) False i (od_cloid o') ref s = Some (s1, outcome)"
    using run x by (auto simp: send_command_def split: option.splits)
  note after = moves.after_send [of cfg "di_now d" "Some (dc_command_id cmd)" outcome]
  have "advances (s2, o') y" if
    "st_bind (apply_outcome cfg (di_now d) (Some (dc_command_id cmd)) outcome)
       (\<lambda>_. case outcome of SO_Response _ \<Rightarrow> is_resolved | SO_Timeout \<Rightarrow> st_return False | _ \<Rightarrow> st_return True)
       (s2, o') = Some (y, r)" for s2
    using that by (rule st_keepsD [OF after])
  then have "\<exists>s2. advances (s2, o') y"
    using run x o1 by (auto simp: send_command_def Let_def split: submit_outcome.splits)
  then show "advances x y" by (auto simp: x advances_def)
qed

lemma dispatch_command_moves: "st_keeps advances (dispatch_command cfg d cmd)"
proof -
  have recheck: "st_keeps advances (recheck_command cfg d cmd i ref)" for i ref
    unfolding st_keeps_def
  proof (intro allI impI)
    fix x y :: "'a engine \<times> order" and r
    assume run: "recheck_command cfg d cmd i ref x = Some (y, r)"
    obtain s o' where x: "x = (s, o')" by (rule prod.exhaust)
    obtain s1 risk where "durable_risk cfg d i ref s = Some (s1, risk)"
      using run x by (auto simp: recheck_command_def split: option.splits)
    then have "advances (s1, o') y"
      using run x st_keepsD [OF moves.abort] st_keepsD [OF send_command_moves]
      by (simp add: recheck_command_def split: if_splits) blast+
    then show "advances x y" by (simp add: x advances_def)
  qed
  show ?thesis
    using st_keepsD [OF recheck] st_keepsD [OF moves.abort]
    by (auto simp: st_keeps_def dispatch_command_def Let_def moves.refl split: sum.splits if_splits)
qed

end
