(* ===== verification/HE_Ledger.thy ===== *)
theory HE_Ledger
  imports HE_Queue HE_Engine_Safety
begin

text \<open>
  What the transactions of the durable store and of the command queue do to its orders and commands, and that
  the steps of the engine which send nothing respect it. The ledger decides which command may still be sent:
  a command is armed only while it is pending, and nothing arms a command of an order that is already known.
\<close>

section \<open>What transactions do to orders and commands\<close>

definition is_place :: "command_row \<Rightarrow> bool" where
  "is_place c \<longleftrightarrow> cmr_command_type c = ''place_order''"

definition cmr_cloid :: "command_row \<Rightarrow> string option" where
  "cmr_cloid c = json_str_field ''cloid'' (cmr_payload c)"

definition order_cloids :: "pg \<Rightarrow> string set" where
  "order_cloids db = set (map orr_cloid (pg_orders db))"

definition place_cloids :: "pg \<Rightarrow> string option list" where
  "place_cloids db = map cmr_cloid (filter is_place (pg_commands db))"

definition ledger_ok :: "pg \<Rightarrow> bool" where
  "ledger_ok db \<longleftrightarrow>
     distinct (map orr_cloid (pg_orders db)) \<and> list_all order_row_ok (pg_orders db)
     \<and> distinct (map cmr_command_id (pg_commands db))
     \<and> distinct (place_cloids db) \<and> set (place_cloids db) \<subseteq> Some ` order_cloids db"

text \<open>A command that is ready for a first attempt.\<close>

definition armed :: "pg \<Rightarrow> command_row \<Rightarrow> bool" where
  "armed db c \<longleftrightarrow> c \<in> set (pg_commands db) \<and> is_place c \<and> cmr_status c = ''pending''"

text \<open>Ids, types and payloads stay, orders stay, and no command of a known order becomes armed.\<close>

definition ledger_step :: "pg \<Rightarrow> pg \<Rightarrow> bool" where
  "ledger_step db db' \<longleftrightarrow>
     order_cloids db \<subseteq> order_cloids db'
     \<and> (\<forall>c\<in>set (pg_commands db). is_place c \<longrightarrow> (\<exists>c'\<in>set (pg_commands db'). cmr_command_id c' = cmr_command_id c
          \<and> cmr_command_type c' = cmr_command_type c \<and> cmr_payload c' = cmr_payload c))
     \<and> (\<forall>c'. armed db' c' \<longrightarrow> (\<exists>c. armed db c \<and> cmr_command_id c = cmr_command_id c' \<and> cmr_payload c = cmr_payload c')
          \<or> cmr_cloid c' \<notin> Some ` order_cloids db)"

definition ledger_move :: "pg \<Rightarrow> pg \<Rightarrow> bool" where
  "ledger_move db db' \<longleftrightarrow> (ledger_ok db \<longrightarrow> ledger_ok db' \<and> ledger_step db db')"

lemma ledger_step_refl: "ledger_step db db"
  by (auto simp: ledger_step_def)

lemma ledger_step_trans:
  assumes "ledger_step a b" "ledger_step b c"
  shows "ledger_step a c"
  unfolding ledger_step_def
proof (intro conjI ballI allI impI)
  show "order_cloids a \<subseteq> order_cloids c" using assms by (auto simp: ledger_step_def)
next
  fix x assume x: "x \<in> set (pg_commands a)" "is_place x"
  then obtain y where "y \<in> set (pg_commands b)" "cmr_command_id y = cmr_command_id x"
    "cmr_command_type y = cmr_command_type x" "cmr_payload y = cmr_payload x"
    using assms(1) unfolding ledger_step_def by blast
  moreover from this x have "is_place y" by (simp add: is_place_def)
  ultimately show "\<exists>c'\<in>set (pg_commands c). cmr_command_id c' = cmr_command_id x
      \<and> cmr_command_type c' = cmr_command_type x \<and> cmr_payload c' = cmr_payload x"
    using assms unfolding ledger_step_def by metis
next
  fix z assume "armed c z"
  then consider y where "armed b y" "cmr_command_id y = cmr_command_id z" "cmr_payload y = cmr_payload z"
    | "cmr_cloid z \<notin> Some ` order_cloids b" using assms(2) unfolding ledger_step_def by blast
  then show "(\<exists>x. armed a x \<and> cmr_command_id x = cmr_command_id z \<and> cmr_payload x = cmr_payload z)
      \<or> cmr_cloid z \<notin> Some ` order_cloids a"
  proof cases
    case 1
    then have "cmr_cloid y = cmr_cloid z" by (simp add: cmr_cloid_def)
    then show ?thesis using 1 assms(1) unfolding ledger_step_def by metis
  next
    case 2 then show ?thesis using assms(1) by (auto simp: ledger_step_def)
  qed
qed

interpretation ledger: step_order ledger_move
proof
  show "ledger_move a a" for a by (simp add: ledger_move_def ledger_step_refl)
  show "ledger_move a c" if "ledger_move a b" "ledger_move b c" for a b c
    using that ledger_step_trans unfolding ledger_move_def by blast
qed

text \<open>Steps that touch neither orders nor commands.\<close>

definition same_ledger :: "pg \<Rightarrow> pg \<Rightarrow> bool" where
  "same_ledger a b \<longleftrightarrow> pg_orders b = pg_orders a \<and> pg_commands b = pg_commands a"

interpretation same: step_order same_ledger
  by unfold_locales (auto simp: same_ledger_def)

lemma same_ledger_move: "same_ledger a b \<Longrightarrow> ledger_move a b"
  by (auto simp: same_ledger_def ledger_move_def ledger_ok_def ledger_step_def order_cloids_def place_cloids_def armed_def)

lemma same_keeps_move: "st_keeps same_ledger m \<Longrightarrow> st_keeps ledger_move m"
  by (auto simp: st_keeps_def same_ledger_move)

lemma small_steps_same:
  "st_keeps same_ledger (require b t)" "st_keeps same_ledger (draw_uuid u)" "st_keeps same_ledger (fetch_order cloid)"
  "st_keeps same_ledger (settle_reservation oid st)" "st_keeps same_ledger (release_reservations oid st)"
  by (auto simp: st_keeps_def same_ledger_def require_def violation_def draw_uuid_def fetch_order_def
      settle_reservation_def release_reservations_def split: if_splits option.splits)

lemma append_event_rows_same: "st_keeps same_ledger (append_event_rows u o' oid rev' ev payload)"
  unfolding append_event_rows_def
  by (intro same.keeps small_steps_same) (auto simp: same_ledger_def)

lemma reserve_same: "st_keeps same_ledger (reserve ps cid oid o' supplied)"
  unfolding reserve_def Let_def by (intro same.keeps small_steps_same) (auto simp: same_ledger_def)

lemma check_scope_same: "st_keeps same_ledger (check_and_lock_risk_scope ps lims o' supplied)"
  by (auto simp: st_keeps_def same_ledger_def check_and_lock_risk_scope_def expire_reservations_def Let_def
      split: option.splits sum.splits if_splits)

text \<open>Changing commands in place, never to pending.\<close>

definition command_update_ok :: "(command_row \<Rightarrow> command_row) \<Rightarrow> bool" where
  "command_update_ok f \<longleftrightarrow> (\<forall>c. cmr_command_id (f c) = cmr_command_id c \<and> cmr_command_type (f c) = cmr_command_type c
     \<and> cmr_payload (f c) = cmr_payload c \<and> (cmr_status (f c) = ''pending'' \<longrightarrow> cmr_status c = ''pending''))"

lemma map_commands_move:
  assumes "command_update_ok f"
  shows "ledger_move db (db\<lparr>pg_commands := map f (pg_commands db)\<rparr>)"
proof -
  have f: "cmr_command_id (f c) = cmr_command_id c" "is_place (f c) = is_place c" "cmr_cloid (f c) = cmr_cloid c"
    "cmr_payload (f c) = cmr_payload c" "cmr_command_type (f c) = cmr_command_type c"
    "cmr_status (f c) = ''pending'' \<Longrightarrow> cmr_status c = ''pending''" for c
    using assms by (simp_all add: command_update_ok_def is_place_def cmr_cloid_def)
  have "map cmr_cloid (filter is_place (map f cs)) = map cmr_cloid (filter is_place cs)" for cs
    by (induction cs) (simp_all add: f)
  then have ok: "ledger_ok (db\<lparr>pg_commands := map f (pg_commands db)\<rparr>) = ledger_ok db"
    by (simp add: ledger_ok_def place_cloids_def order_cloids_def o_def f)
  have "ledger_step db (db\<lparr>pg_commands := map f (pg_commands db)\<rparr>)"
    by (auto simp: ledger_step_def order_cloids_def armed_def f)
  with ok show ?thesis by (simp add: ledger_move_def)
qed

lemma map_orders_move:
  assumes "\<And>r. orr_cloid (f r) = orr_cloid r" "\<forall>r\<in>set (pg_orders db). order_row_ok (f r) \<or> f r = r"
  shows "ledger_move db (db\<lparr>pg_orders := map f (pg_orders db)\<rparr>)"
proof -
  have "map orr_cloid (map f rs) = map orr_cloid rs" for rs by (simp add: assms(1))
  then show ?thesis
    using assms(2) by (auto simp: ledger_move_def ledger_ok_def ledger_step_def order_cloids_def place_cloids_def
      armed_def list_all_iff simp del: map_map)
qed

lemma complete_command_move: "st \<noteq> ''pending'' \<Longrightarrow> st_keeps ledger_move (complete_command cid st m)"
  unfolding complete_command_def
  by (intro ledger.keeps_bind ledger.keeps_at same_keeps_move small_steps_same ledger.keeps_modify map_commands_move)
    (simp add: command_update_ok_def)

lemma update_orders_move:
  assumes "\<And>r. orr_cloid (f r) = orr_cloid r"
  shows "st_keeps ledger_move (update_orders cloid f)"
proof -
  have "ledger_move db db'" if "update_orders cloid f db = Some (db', r)" for db db' r
  proof -
    from that have "db' = db \<or> (\<forall>r\<in>set (pg_orders db). orr_cloid r = cloid \<longrightarrow> order_row_ok (f r))
        \<and> db' = db\<lparr>pg_orders := map (\<lambda>r. if orr_cloid r = cloid then f r else r) (pg_orders db)\<rparr>"
      by (auto simp: update_orders_def st_bind_Some require_def violation_def split: if_splits)
    then show ?thesis
      using map_orders_move [of "\<lambda>r. if orr_cloid r = cloid then f r else r" db] assms ledger.refl by auto
  qed
  then show ?thesis by (auto simp: st_keeps_def)
qed

lemma pg_tx_keeps: "(\<And>a. R a a) \<Longrightarrow> st_keeps R m \<Longrightarrow> st_keeps R (pg_tx m)"
  by (auto simp: st_keeps_def pg_tx_def split: db_link.splits option.splits sum.splits tx_end.splits)

text \<open>A transition completes commands, but never with the status pending.\<close>

lemma persist_transition_move:
  assumes "st \<noteq> Some ''pending''"
  shows "st_keeps ledger_move (pg_persist_transition ps o' ev cid st)"
proof -
  have completes: "st_keeps ledger_move (if cid \<noteq> None \<and> st \<noteq> None then complete_command (the cid) (the st) m else st_return ())" for m
    using assms by (cases st) (auto intro: complete_command_move ledger.keeps)
  then show ?thesis
    unfolding pg_persist_transition_def Let_def
    by (intro pg_tx_keeps ledger.refl ledger.keeps_bind ledger.keeps_pure update_orders_move completes same_keeps_move
        small_steps_same append_event_rows_same) (auto simp: project_order_def)
qed

lemma add_command_move:
  assumes "\<not> is_place c" "\<forall>x\<in>set (pg_commands db). cmr_command_id x \<noteq> cmr_command_id c"
  shows "ledger_move db (db\<lparr>pg_commands := pg_commands db @ [c]\<rparr>)"
proof -
  let ?db = "db\<lparr>pg_commands := pg_commands db @ [c]\<rparr>"
  have "place_cloids ?db = place_cloids db" "order_cloids ?db = order_cloids db"
    using assms(1) by (simp_all add: place_cloids_def order_cloids_def)
  then have "ledger_ok db \<Longrightarrow> ledger_ok ?db" using assms(2) by (auto simp: ledger_ok_def)
  moreover have "armed ?db x = armed db x" for x using assms(1) by (auto simp: armed_def)
  then have "ledger_step db ?db" by (auto simp: ledger_step_def order_cloids_def)
  ultimately show ?thesis by (simp add: ledger_move_def)
qed

lemma insert_command_Some:
  assumes "insert_command c db = Some (db', r)"
  shows "db' = db \<and> (\<exists>e. r = Inl e) \<or> r = Inr () \<and> (\<forall>x\<in>set (pg_commands db). cmr_command_id x \<noteq> cmr_command_id c)
    \<and> db' = db\<lparr>pg_commands := pg_commands db @ [c]\<rparr>"
  using assms by (auto simp: insert_command_def st_bind_Some require_def violation_def split: if_splits)

lemma fresh_cancel_command_move: "\<not> is_place c \<Longrightarrow> st_keeps ledger_move (insert_command c)"
  unfolding st_keeps_def using add_command_move ledger.refl insert_command_Some by metis

lemma cancel_requested_move: "st_keeps ledger_move (pg_persist_cancel_requested ps o' cid)"
  unfolding pg_persist_cancel_requested_def Let_def insert_command_once_def
  by (intro pg_tx_keeps ledger.keeps ledger.refl update_orders_move same_keeps_move small_steps_same
      append_event_rows_same fresh_cancel_command_move) (simp_all add: cancel_command_def is_place_def)

lemma insert_order_Some:
  assumes "insert_order r db = Some (db', x)"
  shows "db' = db \<and> (\<exists>e. x = Inl e) \<or> x = Inr () \<and> order_row_ok r \<and> orr_cloid r \<notin> order_cloids db
    \<and> db' = db\<lparr>pg_orders := pg_orders db @ [r]\<rparr>"
  using assms by (auto simp: insert_order_def st_bind_Some require_def violation_def order_cloids_def split: if_splits)

lemma add_order_move:
  "order_row_ok r \<Longrightarrow> orr_cloid r \<notin> order_cloids db \<Longrightarrow> ledger_move db (db\<lparr>pg_orders := pg_orders db @ [r]\<rparr>)"
  by (auto simp: ledger_move_def ledger_ok_def ledger_step_def order_cloids_def place_cloids_def armed_def)

lemma insert_order_move: "st_keeps ledger_move (insert_order r)"
  unfolding st_keeps_def using add_order_move ledger.refl insert_order_Some by metis

lemma reconcile_move: "st_keeps ledger_move (pg_persist_reconciled_order ps o')"
proof -
  have "st_keeps ledger_move (reconcile_row ps o')"
    unfolding reconcile_row_def Let_def
    by (intro ledger.keeps update_orders_move insert_order_move same_keeps_move small_steps_same)
      (simp add: project_order_def)
  moreover have tail: "st_keeps same_ledger (st_bind (append_event_rows (pgs_uuid ps) m oid rv ev payload) (\<lambda>_.
      st_bind (if order_is_terminal m then release_reservations oid (od_status m) else st_return ()) (\<lambda>_.
      st_return (TX_Commit ()))))" for m oid rv ev payload
    by (intro same.keeps small_steps_same append_event_rows_same)
  ultimately show ?thesis
    unfolding pg_persist_reconciled_order_def
    by (intro pg_tx_keeps ledger.refl ledger.keeps_bind) (auto simp only: intro: same_keeps_move [OF tail] split: prod.splits)
qed

text \<open>A new placement adds an order with its command, for a cloid the ledger did not know.\<close>

definition adds_placement :: "string \<Rightarrow> pg \<Rightarrow> pg \<Rightarrow> bool" where
  "adds_placement cloid db db' \<longleftrightarrow> (\<exists>r c.
     pg_orders db' = pg_orders db @ [r] \<and> pg_commands db' = pg_commands db @ [c]
     \<and> order_row_ok r \<and> orr_cloid r = cloid \<and> cloid \<notin> order_cloids db
     \<and> (\<forall>x\<in>set (pg_commands db). cmr_command_id x \<noteq> cmr_command_id c) \<and> is_place c \<and> cmr_cloid c = Some cloid)"

lemma adds_placement_move:
  assumes "adds_placement cloid db db'"
  shows "ledger_move db db'"
proof -
  obtain r c where db': "pg_orders db' = pg_orders db @ [r]" "pg_commands db' = pg_commands db @ [c]"
    and r: "order_row_ok r" "orr_cloid r = cloid" "cloid \<notin> order_cloids db"
    and c: "\<forall>x\<in>set (pg_commands db). cmr_command_id x \<noteq> cmr_command_id c" "is_place c" "cmr_cloid c = Some cloid"
    using assms by (auto simp: adds_placement_def)
  have places: "place_cloids db' = place_cloids db @ [Some cloid]" using c by (simp add: place_cloids_def db')
  have cloids: "order_cloids db' = insert cloid (order_cloids db)" using r by (simp add: order_cloids_def db')
  have "ledger_ok db'" if ok: "ledger_ok db"
  proof -
    have "Some cloid \<notin> set (place_cloids db)" using ok r by (auto simp: ledger_ok_def)
    then show ?thesis
      using ok r c by (auto simp: ledger_ok_def places cloids db') (auto simp: order_cloids_def)
  qed
  moreover have "ledger_step db db'"
    using r c by (auto simp: ledger_step_def cloids armed_def db')
  ultimately show ?thesis by (simp add: ledger_move_def)
qed

lemma st_bind_InrE:
  assumes "st_bind m f s = Some (s', Inr x)"
  obtains s1 y where "m s = Some (s1, Inr y)" "f y s1 = Some (s', Inr x)"
  using assms by (auto simp: st_bind_Some)

lemma write_placement_adds:
  assumes "write_placement ps oid cid o' risk d reference db = Some (db', Inr x)"
  shows "adds_placement (od_cloid o') db db'"
  using assms unfolding write_placement_def
proof (elim st_bind_InrE, goal_cases)
  case (1 db1 u1 db2 u2 db3 u3 db4 u4 db5 u5)
  define c where "c = place_command cid oid o' d (rc_reason risk) db3"
  have c: "is_place c" "cmr_cloid c = Some (od_cloid o')"
    by (simp_all add: c_def is_place_def cmr_cloid_def place_command_def order_payload_def json_str_field_def)
  have order: "order_row_ok (order_row_of oid (Some cid) 1 (pg_now db) o')" "od_cloid o' \<notin> order_cloids db"
    "db1 = db\<lparr>pg_orders := pg_orders db @ [order_row_of oid (Some cid) 1 (pg_now db) o']\<rparr>"
    using insert_order_Some [of "order_row_of oid (Some cid) 1 (pg_now db) o'" db db1 "Inr u1"] 1(1)
    by (simp_all add: order_row_of_def)
  have same: "same_ledger db1 db2" "same_ledger db2 db3" "same_ledger db4 db5" "same_ledger db5 db'"
    using 1 st_keepsD [OF small_steps_same(2)] st_keepsD [OF reserve_same] st_keepsD [OF append_event_rows_same]
    by (auto simp: same.refl same_ledger_def split: if_splits)
  have "db4 = db3\<lparr>pg_commands := pg_commands db3 @ [c]\<rparr> \<and> (\<forall>x\<in>set (pg_commands db3). cmr_command_id x \<noteq> cmr_command_id c)"
    using insert_command_Some [of c db3 db4 "Inr u4"] 1(4) by (simp add: c_def)
  then show ?case
    using order c same by (auto simp: adds_placement_def same_ledger_def order_row_of_def)
qed

lemma same_then_adds: "same_ledger a b \<Longrightarrow> adds_placement cloid b c \<Longrightarrow> adds_placement cloid a c"
  by (auto simp: same_ledger_def adds_placement_def order_cloids_def)

lemma placement_body_adds:
  assumes "placement_body ps o' risk cid d reference db = Some (db', Inr (TX_Commit e))"
  shows "adds_placement (od_cloid o') db db'"
  using assms unfolding placement_body_def
proof (elim st_bind_InrE, goal_cases)
  case (1 db1 oid)
  have db1: "same_ledger db db1" using 1(1) st_keepsD [OF small_steps_same(2)] by blast
  define check where "check = (case pgs_limits ps of
      Some lims \<Rightarrow> if d \<and> rc_passed risk then check_and_lock_risk_scope ps lims o' reference else st_return risk
    | None \<Rightarrow> st_return risk)"
  have "st_keeps same_ledger check"
    unfolding check_def by (auto split: option.splits intro!: same.keeps check_scope_same)
  moreover obtain db2 eff where c: "check db1 = Some (db2, Inr eff)"
    and w: "(let refused = d \<and> rc_passed risk \<and> pgs_limits ps \<noteq> None \<and> \<not> rc_passed eff;
           o2 = (if refused then o'\<lparr>od_status := Rejected, od_error_message := rc_reason eff\<rparr> else o')
       in st_bind (write_placement ps oid cid o2 eff (d \<and> \<not> refused) reference)
            (\<lambda>_. st_return (TX_Commit eff))) db2 = Some (db', Inr (TX_Commit e))"
    using 1(2) unfolding st_simps check_def [symmetric] by (auto split: option.splits elim: st_bind_InrE)
  moreover obtain o2 dd where "od_cloid o2 = od_cloid o'" "write_placement ps oid cid o2 eff dd reference db2 = Some (db', Inr ())"
  proof -
    define o2 where "o2 = (if d \<and> rc_passed risk \<and> pgs_limits ps \<noteq> None \<and> \<not> rc_passed eff
      then o'\<lparr>od_status := Rejected, od_error_message := rc_reason eff\<rparr> else o')"
    have "od_cloid o2 = od_cloid o'" by (simp add: o2_def)
    then show ?thesis using w that unfolding Let_def o2_def [symmetric] by (elim st_bind_InrE) auto
  qed
  ultimately have "same_ledger db1 db2" "adds_placement (od_cloid o') db2 db'"
    using write_placement_adds st_keepsD by metis+
  with db1 show ?case using same.trans same_then_adds by metis
qed

lemma persist_placement_move: "st_keeps ledger_move (pg_persist_placement ps o' risk cid d reference)"
proof -
  have "ledger_move db db'" if "pg_persist_placement ps o' risk cid d reference db = Some (db', r)" for db db' r
  proof -
    have "db' = db \<or> (\<exists>e. placement_body ps o' risk cid d reference db = Some (db', Inr (TX_Commit e)))"
      using that by (auto simp: pg_persist_placement_def pg_tx_def split: db_link.splits option.splits sum.splits tx_end.splits)
    then show ?thesis using ledger.refl placement_body_adds adds_placement_move by blast
  qed
  then show ?thesis by (auto simp: st_keeps_def)
qed

section \<open>The queue\<close>

lemma claim_move: "st_keeps ledger_move (queue_claim q w)"
proof -
  have expire: "ledger_move db (expire_leases cutoff db)" for cutoff db
    unfolding expire_leases_def by (rule map_commands_move) (simp add: command_update_ok_def)
  have lock: "st_keeps ledger_move (lock_command cid n w)" for cid n
    unfolding lock_command_def
    by (intro ledger.keeps same_keeps_move small_steps_same map_commands_move) (simp add: command_update_ok_def)
  show ?thesis
    unfolding queue_claim_def Let_def by (intro pg_tx_keeps ledger.keeps ledger.refl expire lock)
qed

lemma defer_move: "st_keeps ledger_move (queue_defer_unknown q cid reason)"
  unfolding queue_defer_unknown_def
  by (intro pg_tx_keeps ledger.keeps ledger.refl map_commands_move) (simp add: command_update_ok_def)

text \<open>A command claimed for a first attempt was armed, and is not any more.\<close>

lemma expire_leases_armed: "armed (expire_leases cutoff db) c \<longleftrightarrow> armed db c"
  by (auto simp: armed_def expire_leases_def is_place_def image_iff)

lemma next_command_in:
  assumes "next_command db = Some c"
  shows "c \<in> set (pg_commands db) \<and> queue_type c \<and> cmr_status c \<in> {''pending'', ''unknown''}"
proof -
  define ready where "ready = filter (\<lambda>c. queue_type c \<and> cmr_status c \<in> set [''pending'', ''unknown'']
    \<and> cmr_available_at c \<le> pg_now db) (pg_commands db)"
  obtain cs where cs: "sort_key cmr_priority (sort_key cmr_created_at ready) = c # cs"
    using assms unfolding next_command_def ready_def [symmetric] by (auto split: list.splits)
  have "set ready = set (c # cs)" unfolding cs [symmetric] by simp
  then have "c \<in> set ready" by simp
  then show ?thesis by (auto simp: ready_def)
qed

lemma pg_tx_Inr:
  "pg_tx body s = Some (s', Inr x) \<Longrightarrow> body s = Some (s', Inr (TX_Commit x)) \<or> (\<exists>s2. body s = Some (s2, Inr (TX_Drop x)))"
  by (auto simp: pg_tx_def split: db_link.splits option.splits sum.splits tx_end.splits)

lemma queue_claim_Some:
  assumes "queue_claim q w db = Some (db', Inr (Some cmd))"
  shows "\<exists>c db1. db1 = expire_leases (pg_clock db - cq_lease_seconds q * 1000000000) db \<and> next_command db1 = Some c
    \<and> lock_command (cmr_command_id c) (wrap_i32 (cmr_attempt_count c + 1)) w db1 = Some (db', Inr ())
    \<and> cmd = \<lparr>dc_command_id = cmr_command_id c, dc_command_type = cmr_command_type c, dc_payload = cmr_payload c,
         dc_attempt_count = nat (wrap_i32 (cmr_attempt_count c + 1)), dc_requires_resolution = (cmr_status c = ''unknown'')\<rparr>"
proof -
  define db1 where "db1 = expire_leases (pg_clock db - cq_lease_seconds q * 1000000000) db"
  show ?thesis
    using pg_tx_Inr [OF assms[unfolded queue_claim_def]] unfolding st_bind_simps(3) [OF st_simps(4)] st_simps db1_def [symmetric]
    by (cases "next_command db1") (auto simp: Let_def elim!: st_bind_InrE)
qed

lemma lock_command_Some:
  assumes "lock_command cid n w db = Some (db', Inr ())"
  shows "pg_commands db' = map (\<lambda>x. if cmr_command_id x = cid
       then x\<lparr>cmr_status := ''processing'', cmr_locked_at := Some (pg_now db), cmr_locked_by := Some w,
              cmr_attempt_count := n\<rparr> else x) (pg_commands db)"
  using assms unfolding lock_command_def
  by (elim st_bind_InrE) (simp add: require_def violation_def split: if_splits; clarsimp)

lemma claim_first_attempt:
  assumes "queue_claim q w db = Some (db', Inr (Some cmd))" "\<not> dc_requires_resolution cmd"
    "dc_command_type cmd \<noteq> ''cancel_order''" "ledger_ok db"
  shows "\<exists>c. armed db c \<and> dc_command_id cmd = cmr_command_id c \<and> dc_payload cmd = cmr_payload c
    \<and> (\<forall>x. armed db' x \<longrightarrow> cmr_command_id x \<noteq> dc_command_id cmd)"
proof -
  obtain db1 c where db1: "db1 = expire_leases (pg_clock db - cq_lease_seconds q * 1000000000) db"
    and n: "next_command db1 = Some c"
    and l: "lock_command (cmr_command_id c) (wrap_i32 (cmr_attempt_count c + 1)) w db1 = Some (db', Inr ())"
    and cmd: "cmd = \<lparr>dc_command_id = cmr_command_id c, dc_command_type = cmr_command_type c, dc_payload = cmr_payload c,
         dc_attempt_count = nat (wrap_i32 (cmr_attempt_count c + 1)), dc_requires_resolution = (cmr_status c = ''unknown'')\<rparr>"
    using queue_claim_Some [OF assms(1)] by (elim exE conjE) (rule that; assumption)
  have c: "next_command db1 = Some c" "dc_command_id cmd = cmr_command_id c" "dc_payload cmd = cmr_payload c"
    "dc_command_type cmd = cmr_command_type c" "cmr_status c \<noteq> ''unknown''"
    using n cmd assms(2) by simp_all
  have db': "pg_commands db' = map (\<lambda>x. if cmr_command_id x = cmr_command_id c
       then x\<lparr>cmr_status := ''processing'', cmr_locked_at := Some (pg_now db1), cmr_locked_by := Some w,
              cmr_attempt_count := wrap_i32 (cmr_attempt_count c + 1)\<rparr> else x) (pg_commands db1)"
    using lock_command_Some [OF l] by simp
  have "armed db1 c" using next_command_in [OF c(1)] c(4,5) assms(3) by (auto simp: armed_def is_place_def queue_type_def)
  then have "armed db c" by (simp add: db1 expire_leases_armed)
  moreover have "cmr_command_id x \<noteq> cmr_command_id c" if "armed db' x" for x
    using that by (auto simp: armed_def db' split: if_splits)
  ultimately show ?thesis unfolding c(2,3) by blast
qed

section \<open>The engine on the ledger\<close>

definition on_pg :: "pg_store \<Rightarrow> pg engine_config \<Rightarrow> pg engine_config" where
  "on_pg ps cfg = cfg\<lparr>ec_store := pg_store_ops ps, ec_deferred := True\<rparr>"

text \<open>Steps that send nothing and move the ledger.\<close>

definition silent :: "pg engine \<Rightarrow> pg engine \<Rightarrow> bool" where
  "silent s s' \<longleftrightarrow> sends_nothing s s'
     \<and> (case (en_store s, en_store s') of (Some a, Some b) \<Rightarrow> ledger_move a b | (None, None) \<Rightarrow> True | _ \<Rightarrow> False)"

lemma total_op_keeps: "(\<And>a. R a a) \<Longrightarrow> st_keeps R m \<Longrightarrow> total_op m s = (s', r) \<Longrightarrow> R s s'"
  by (auto simp: total_op_def st_keeps_def split: option.splits)

lemma silent_frame: "en_trace s' = en_trace s \<Longrightarrow> en_store s' = en_store s \<Longrightarrow> silent s s'"
  by (simp add: silent_def sends_nothing_same ledger.refl split: option.splits)

interpretation silent: engine_steps silent "on_pg ps cfg" for ps cfg
proof
  show "silent s s" for s by (rule silent_frame) simp_all
  show "silent s t \<Longrightarrow> silent t u \<Longrightarrow> silent s u" for s t u
    using quiet.trans [of s t u] ledger.trans by (auto simp: silent_def split: option.splits)
  show "en_trace s' = en_trace s \<Longrightarrow> en_store s' = en_store s \<Longrightarrow> silent s s'" for s' s by (rule silent_frame)
  show "silent s (emit es s)" if "\<not> list_ex is_send es" for es s
    using that by (simp add: silent_def ledger.refl split: option.splits)
  show "st_keeps silent (persist_placement (on_pg ps cfg) o' risk cid d ref)" for o' risk cid d ref
    using st_keepsD [OF persist_placement_quiet [of "on_pg ps cfg" o' risk cid d ref]]
      total_op_keeps [OF ledger.refl persist_placement_move]
    by (fastforce simp: st_keeps_def silent_def persist_placement_def on_pg_def pg_store_ops_def ledger.refl
      split: option.splits prod.splits sum.splits)
qed

definition silent_pair :: "pg engine \<times> order \<Rightarrow> pg engine \<times> order \<Rightarrow> bool" where
  "silent_pair x y \<longleftrightarrow> silent (fst x) (fst y)"

lemma persist_transition_silent: "st \<noteq> Some ''pending'' \<Longrightarrow> st_keeps silent (persist_transition (on_pg ps cfg) o' ev cid st)"
  using st_keepsD [OF persist_transition_quiet [of "on_pg ps cfg" o' ev cid st]]
    total_op_keeps [OF ledger.refl persist_transition_move]
  by (fastforce simp: st_keeps_def silent_def persist_transition_def on_pg_def pg_store_ops_def ledger.refl
    split: option.splits prod.splits sum.splits)

lemma on_engine_silent: "st_keeps silent m \<Longrightarrow> st_keeps silent_pair (on_engine m)"
  by (auto simp: st_keeps_def on_engine_def silent_pair_def split: prod.splits)

interpretation silent_order: order_handlers silent_pair "on_pg ps cfg" for ps cfg
proof
  show "silent_pair x x" "silent_pair x y \<Longrightarrow> silent_pair y z \<Longrightarrow> silent_pair x z" for x y z
    by (auto simp: silent_pair_def intro: silent.refl silent.trans)
  show "st_keeps silent_pair (persist_order (on_pg ps cfg) ev cid cs)" if "cs \<noteq> ''pending''" for ev cid cs
    using that unfolding persist_order_def by (intro st_keeps_at_pair on_engine_silent persist_transition_silent) simp
  show "st_keeps silent_pair (publish_order e)" for e
    using silent.publishing by (auto simp: st_keeps_def publish_order_def silent_pair_def)
  show "st_keeps silent_pair (credit_order_fill now)" for now
    by (auto simp: st_keeps_def credit_order_fill_def silent_pair_def intro!: silent_frame)
qed (auto simp: st_keeps_def set_order_def to_status_def silent_pair_def silent.refl split: prod.splits sum.splits)

end
