(* ===== verification/HE_Workers.thy ===== *)
theory HE_Workers
  imports HE_Ledger
begin

text \<open>
  The engine, its durable ledger and the workers together (\<open>durable_worker.rs\<close> and its wiring in
  \<open>crates/app/src/runtime.rs\<close>, where the engine defers every placement to the workers): submissions write
  commands, workers claim and execute them, leases expire, processes crash between any two of these and in
  the middle of an execution.
\<close>

section \<open>Executing a command\<close>

text \<open>The job of the nonce worker does not touch the store.\<close>

definition store_kept :: "'s engine \<Rightarrow> 's engine \<Rightarrow> bool" where
  "store_kept s s' \<longleftrightarrow> en_store s' = en_store s"

interpretation store_kept: step_order store_kept
  by unfold_locales (simp_all add: store_kept_def)

lemma rejection_store [simp]: "en_store (handle_risk_rejection cfg reason s) = en_store s"
  by (simp add: handle_risk_rejection_def split: prod.splits)

lemma worker_place_store: "st_keeps store_kept (worker_place cfg w em i cloid wire ref)"
proof -
  have gates: "st_keeps store_kept (w_gates i)" and credits: "st_keeps store_kept (w_credits now)" for now
    by (auto simp: st_keeps_def w_gates_def w_credits_def store_kept_def)
  have reprice: "st_keeps store_kept (w_reprice cfg w i cloid wire ref)"
    using w_reprice_cases store_kept.refl by (fastforce simp: st_keeps_def)
  have weight: "st_keeps store_kept (w_weight 1 w)"
    by (auto simp: st_keeps_def w_weight_def store_kept_def split: prod.splits)
  have risk: "st_keeps store_kept (w_risk cfg w i r)" for r
    by (auto simp: st_keeps_def w_risk_def store_kept_def Let_def split: option.splits if_splits)
  have budget: "st_keeps store_kept (w_budget w em i)"
    using w_budget_cases store_kept.refl by (fastforce simp: st_keeps_def)
  have send: "st_keeps store_kept (w_send w em i cloid wr)" for wr
    by (auto simp: st_keeps_def w_send_def store_kept_def Let_def split: sum.splits)
  have rest: "st_keeps store_kept (st_bind (w_weight 1 w) (\<lambda>_. st_bind (w_risk cfg w i r) (\<lambda>_.
      st_bind (w_budget w em i) (\<lambda>_. w_send w em i cloid wr))))" for r wr
    by (intro store_kept.keeps weight risk budget send)
  show ?thesis
    unfolding worker_place_def
    by (intro store_kept.keeps_bind gates credits reprice) (split prod.split, intro allI impI, rule rest)
qed

lemma run_worker_store: "run_worker cfg em i cloid wire ref w s = Some (s', r) \<Longrightarrow> en_store s' = en_store s"
  using st_keepsD [OF worker_place_store] by (fastforce simp: run_worker_def store_kept_def)

lemma submit_to_exchange_store:
  "submit_to_exchange cfg fate query em i cloid ref s = Some (s', oc) \<Longrightarrow> en_store s' = en_store s"
  unfolding submit_to_exchange_def
  by (cases "build_order_wire cfg i cloid ref"; simp; cases "the (build_order_wire cfg i cloid ref)")
    (auto split: option.splits worker_fate.splits dest!: run_worker_store)

text \<open>One order of the given cloid on the wire, and otherwise only silent steps.\<close>

definition sends_one :: "string \<Rightarrow> pg engine \<Rightarrow> pg engine \<Rightarrow> bool" where
  "sends_one k s s' \<longleftrightarrow> (\<exists>s1 s2 wr n. silent s s1 \<and> en_store s2 = en_store s1 \<and> en_trace s2 = en_trace s1 @ [EE_Order wr n]
     \<and> ow_cloid wr = Some k \<and> silent s2 s')"

lemma silent_sends_one: "silent s t \<Longrightarrow> sends_one k t u \<Longrightarrow> sends_one k s u"
  using silent.trans unfolding sends_one_def by blast

lemma sends_one_silent: "sends_one k s t \<Longrightarrow> silent t u \<Longrightarrow> sends_one k s u"
  using silent.trans unfolding sends_one_def by blast

definition wire_cloid :: "pg engine_config \<Rightarrow> order \<Rightarrow> string" where
  "wire_cloid cfg o' = to_hl_cloid (ec_sha256 cfg) (od_cloid o')"

lemma send_command_cases:
  assumes "send_command (on_pg ps cfg) d cmd i ref (s, o') = Some ((s', o''), r)"
  shows "silent s s' \<or> sends_one (wire_cloid cfg o') s s'"
proof -
  obtain s1 oc where x: "submit_to_exchange (on_pg ps cfg) (di_fate d) (di_query d) False i (od_cloid o') ref s = Some (s1, oc)"
    using assms by (auto simp: send_command_def split: option.splits)
  define s2 where "s2 = (case oc of SO_Response _ \<Rightarrow> if di_hook d then emit [EE_AfterSend (dc_command_id cmd)] s1 else s1 | _ \<Rightarrow> s1)"
  have "silent s1 s2" by (auto simp: s2_def silent.refl split: submit_outcome.splits intro!: silent.emits)
  moreover have "silent_pair (s2, o') (s', o'')"
    using assms x st_keepsD [OF silent_order.after_send]
    by (auto simp: send_command_def s2_def Let_def)
  ultimately have rest: "silent s1 s'" using silent.trans by (auto simp: silent_pair_def)
  note store = submit_to_exchange_store [OF x]
  from submit_to_exchange_cases [OF x] sent_once_wire [of "on_pg ps cfg" "di_fate d" False i "od_cloid o'" ref s s1]
  consider "sends_nothing s s1"
    | wr n where "en_trace s1 = en_trace s @ [EE_Order wr n]" "ow_cloid wr = Some (wire_cloid cfg o')"
    by (auto simp: wire_cloid_def on_pg_def)
  then show ?thesis
  proof cases
    case 1
    then have "silent s s1" using store by (simp add: silent_def ledger.refl split: option.splits)
    then show ?thesis using rest silent.trans by blast
  next
    case 2
    then show ?thesis unfolding sends_one_def using store rest silent.refl by metis
  qed
qed

lemma dispatch_command_cases:
  assumes "dispatch_command (on_pg ps cfg) d cmd (s, o') = Some ((s', o''), r)"
  shows "silent s s' \<or> sends_one (wire_cloid cfg o') s s'"
proof -
  have abort: "silent s1 s'" if "abort_dispatch (on_pg ps cfg) cmd m (s1, o') = Some ((s', o''), r)" for s1 m
    using st_keepsD [OF silent_order.abort that] by (simp add: silent_pair_def)
  have recheck: "silent s s' \<or> sends_one (wire_cloid cfg o') s s'"
    if run: "recheck_command (on_pg ps cfg) d cmd i ref (s, o') = Some ((s', o''), r)" for i ref
  proof -
    obtain s1 risk where risk: "durable_risk (on_pg ps cfg) d i ref s = Some (s1, risk)"
      using run by (auto simp: recheck_command_def split: option.splits)
    then have s1: "silent s s1" by (auto simp: durable_risk_def intro!: silent_frame split: option.splits)
    have "silent s1 s' \<or> sends_one (wire_cloid cfg o') s1 s'"
      using run risk abort send_command_cases [of ps cfg d cmd i ref s1 o' s' o'' r]
      by (auto simp: recheck_command_def split: if_splits)
    then show ?thesis using s1 silent.trans silent_sends_one by blast
  qed
  show ?thesis
    using assms recheck abort silent.refl
    by (auto simp: dispatch_command_def Let_def split: sum.splits if_splits)
qed

lemma durable_order_silent: "st_keeps silent (durable_order cfg m1 m2 m3 cmd)"
  by (auto simp: st_keeps_def durable_order_def silent.refl intro!: silent_frame split: option.splits sum.splits if_splits)

lemma durable_order_found:
  assumes "durable_order (on_pg ps cfg) m1 m2 m3 cmd s = Some (s', Inr o')"
  shows "json_str_field ''cloid'' (dc_payload cmd) = Some (od_cloid o')
    \<and> (\<exists>db. en_store s = Some db \<and> order_by_cloid (od_cloid o') db \<noteq> None)"
proof -
  obtain cloid db where c: "json_str_field ''cloid'' (dc_payload cmd) = Some cloid" "en_store s = Some db"
    "pg_get_order cloid db = Inr (Some o')"
    using assms by (auto simp: durable_order_def durable_get_def on_pg_def pg_store_ops_def
      split: option.splits sum.splits if_splits)
  then obtain row where "order_by_cloid cloid db = Some row" "o' = to_domain row"
    by (auto simp: pg_get_order_def pg_read_def split: db_link.splits)
  moreover from this have "orr_cloid row = cloid" by (auto simp: order_by_cloid_def find_Some_iff)
  ultimately show ?thesis using c by (auto simp: to_domain_def)
qed

lemma with_orderD: "with_order o' m s = Some (s', r) \<Longrightarrow> \<exists>o'' r'. m (s, o') = Some ((s', o''), r')"
  by (cases "m (s, o')") (auto simp: with_order_def split: prod.splits)

lemma with_order_silent:
  assumes "st_keeps silent_pair m"
  shows "st_keeps silent (with_order o' m)"
proof -
  have "silent s s'" if run: "with_order o' m s = Some (s', r)" for s s' r
  proof -
    obtain o'' r' where "m (s, o') = Some ((s', o''), r')" using with_orderD [OF run] by blast
    then show ?thesis using st_keepsD [OF assms] by (fastforce simp: silent_pair_def)
  qed
  then show ?thesis by (auto simp: st_keeps_def)
qed

text \<open>Cancels and leverage changes are not orders.\<close>

lemma cancel_outcome_silent: "cancel_outcome fate wires s = Some (s', oc) \<Longrightarrow> silent s s'"
proof -
  have "silent s t" if "worker_cancel w wires (s\<lparr>en_gates := wi_others w (en_gates s)\<rparr>) = Some (t, r)" for w t r
  proof -
    have weight: "st_keeps silent (w_weight n w)" for n
      by (auto simp: st_keeps_def w_weight_def intro!: silent_frame split: prod.splits)
    have "st_keeps silent (worker_cancel w wires)"
      unfolding worker_cancel_def by (intro silent.keeps weight silent.emits) simp
    then have "silent (s\<lparr>en_gates := wi_others w (en_gates s)\<rparr>) t" using that by (rule st_keepsD)
    moreover have "silent s (s\<lparr>en_gates := wi_others w (en_gates s)\<rparr>)" by (rule silent_frame) simp_all
    ultimately show ?thesis using silent.trans by blast
  qed
  then show "cancel_outcome fate wires s = Some (s', oc) \<Longrightarrow> silent s s'"
    using silent.refl by (auto simp: cancel_outcome_def Let_def split: worker_fate.splits option.splits)
qed

lemma submit_cancel_silent: "st_keeps silent (submit_cancel_by_cloid cfg fate o')"
  unfolding submit_cancel_by_cloid_def
  by (intro silent.keeps) (auto simp: st_keeps_def dest: cancel_outcome_silent)

lemma execute_cancel_silent: "st_keeps silent (execute_durable_cancel_command (on_pg ps cfg) d cmd)"
proof -
  have handler: "st_keeps silent_pair (case r of
      CS_Response j \<Rightarrow> handle_cancel_response (on_pg ps cfg) now cid j
    | CS_Failed m \<Rightarrow> cancel_unresolved (on_pg ps cfg) m cid
    | CS_Timeout \<Rightarrow> cancel_unresolved (on_pg ps cfg) t cid)" for r now cid t
    by (cases r) (simp_all add: silent_order.cancel_response silent_order.unresolved)
  have pair: "st_keeps silent (case x of (o'', b) \<Rightarrow> st_return (g o'' b))" for x :: "order \<times> bool" and g :: "order \<Rightarrow> bool \<Rightarrow> bool"
    by (cases x) (simp add: silent.keeps)
  show ?thesis
    unfolding execute_durable_cancel_command_def Let_def
    by (intro silent.keeps durable_order_silent persist_transition_silent with_order_silent handler
        submit_cancel_silent silent_order.unresolved silent_order.cancel_response pair) simp_all
qed

lemma execute_place_cases:
  assumes "execute_durable_command (on_pg ps cfg) d cmd s = Some (s', r)"
  shows "silent s s' \<or> (\<not> dc_requires_resolution cmd \<and> (\<exists>k db. json_str_field ''cloid'' (dc_payload cmd) = Some k
    \<and> en_store s = Some db \<and> order_by_cloid k db \<noteq> None \<and> sends_one (to_hl_cloid (ec_sha256 cfg) k) s s'))"
proof -
  from assms[unfolded execute_durable_command_def] show ?thesis
  proof (cases rule: st_bindE)
    case stop then show ?thesis using st_keepsD [OF durable_order_silent] by blast
  next
    case (go s1 o')
    have s1: "silent s s1" using go(1) st_keepsD [OF durable_order_silent] by blast
    note found = durable_order_found [OF go(1)]
    show ?thesis
    proof (cases "order_is_terminal o'")
      case True then show ?thesis using go(2) s1 by simp
    next
      case False
      define m where "m = (if dc_requires_resolution cmd then resolve_command (on_pg ps cfg) d cmd
        else dispatch_command (on_pg ps cfg) d cmd)"
      obtain o'' r' where m: "m (s1, o') = Some ((s', o''), r')"
        using go(2) False unfolding m_def [symmetric]
        by (auto simp: st_bind_Some dest: with_orderD)
      have "silent s1 s' \<or> (\<not> dc_requires_resolution cmd \<and> sends_one (wire_cloid cfg o') s1 s')"
      proof (cases "dc_requires_resolution cmd")
        case True
        then show ?thesis using m st_keepsD [OF silent_order.resolve] by (fastforce simp: m_def silent_pair_def)
      next
        case False
        then show ?thesis using m dispatch_command_cases by (simp add: m_def)
      qed
      then show ?thesis using s1 found silent.trans silent_sends_one unfolding wire_cloid_def by blast
    qed
  qed
qed

section \<open>Submissions and cancellations\<close>

lemma submit_deferred_silent: "st_keeps silent (submit_order_inner (on_pg ps cfg) x i deferred em)"
proof -
  have "silent s s'" if run: "submit_order_inner (on_pg ps cfg) x i deferred em s = Some (s', r)" for s s' r
    using run unfolding submit_order_inner_def
  proof (cases rule: st_bindE)
    case stop then show ?thesis using st_keepsD [OF silent.admits] by blast
  next
    case (go s1 y)
    show ?thesis
    proof (cases y)
      case (AD_Done o1)
      then show ?thesis using go st_keepsD [OF silent.admits go(1)] by simp
    next
      case (AD_Dispatch o1 i1 ref)
      then show ?thesis using admit_dispatch [of "on_pg ps cfg" "si_admission x" deferred i s s1 o1 i1 ref] go(1) by (simp add: on_pg_def)
    qed
  qed
  then show ?thesis by (auto simp: st_keeps_def)
qed

lemma persist_cancel_requested_silent: "st_keeps silent (persist_cancel_requested (on_pg ps cfg) o' cid)"
  using total_op_keeps [OF ledger.refl cancel_requested_move]
  by (fastforce simp: st_keeps_def silent_def persist_cancel_requested_def on_pg_def pg_store_ops_def ledger.refl
    sends_nothing_same split: option.splits prod.splits)

lemma cancel_order_silent: "st_keeps silent (cancel_order (on_pg ps cfg) x cloid)"
proof -
  have handler: "st_keeps silent_pair (case r of
      CS_Response j \<Rightarrow> handle_cancel_response (on_pg ps cfg) now cid j
    | CS_Failed m \<Rightarrow> cancel_unresolved (on_pg ps cfg) m cid
    | CS_Timeout \<Rightarrow> (case ci_query x of
        Inr (Some j) \<Rightarrow> handle_cancel_response (on_pg ps cfg) now cid j
      | _ \<Rightarrow> cancel_unresolved (on_pg ps cfg) t cid))" for r now cid t
    by (auto split: cancel_submit.splits sum.splits option.splits
        intro: silent_order.cancel_response silent_order.unresolved)
  have store: "st_keeps silent (case y of (o'', accepted) \<Rightarrow>
      st_bind (st_modify (order_store o'')) (\<lambda>_. st_return (accepted :: bool)))" for y
    by (cases y) (auto intro!: silent.keeps silent.storing)
  have "silent s s'" if "cancel_order (on_pg ps cfg) x cloid s = Some (s', r)" for s s' r
  proof (cases "order_load cloid s")
    case None then show ?thesis using that silent.refl by (simp add: cancel_order_def)
  next
    case (Some o')
    show ?thesis
    proof (cases "order_is_terminal o'")
      case True then show ?thesis using that Some silent.refl by (simp add: cancel_order_def)
    next
      case False
      have "st_keeps silent (st_bind (persist_cancel_requested (on_pg ps cfg) o' (ci_command_id x)) (\<lambda>_.
          st_bind (submit_cancel_by_cloid (on_pg ps cfg) (ci_fate x) o') (\<lambda>r.
          st_bind (with_order o' (case r of
              CS_Response j \<Rightarrow> handle_cancel_response (on_pg ps cfg) (ci_now x) (Some (ci_command_id x)) j
            | CS_Failed m \<Rightarrow> cancel_unresolved (on_pg ps cfg) m (Some (ci_command_id x))
            | CS_Timeout \<Rightarrow> (case ci_query x of
                  Inr (Some j) \<Rightarrow> handle_cancel_response (on_pg ps cfg) (ci_now x) (Some (ci_command_id x)) j
                | _ \<Rightarrow> cancel_unresolved (on_pg ps cfg) ''cancel_timeout'' (Some (ci_command_id x)))))
            (\<lambda>(o'', accepted). st_bind (st_modify (order_store o'')) (\<lambda>_. st_return accepted)))))"
        by (intro silent.keeps_bind persist_cancel_requested_silent submit_cancel_silent with_order_silent handler store)
      then show ?thesis using that Some False unfolding cancel_order_def Let_def by (auto dest: st_keepsD)
    qed
  qed
  then show ?thesis by (auto simp: st_keeps_def)
qed

lemma cancel_targets_silent:
  assumes "\<And>n. st_keeps silent_pair (h n)"
  shows "cancel_targets h n os s = Some (s', k) \<Longrightarrow> silent s s'"
proof (induction os arbitrary: n s k)
  case Nil then show ?case using silent.refl by simp
next
  case (Cons o' os)
  obtain s1 j where "cancel_target (h n) o' s = Some (s1, j)" and rest: "\<exists>k'. cancel_targets h (Suc n) os s1 = Some (s', k')"
    using Cons.prems by (auto split: option.splits)
  then obtain t o'' r where "h n (s, o') = Some ((t, o''), r)" "s1 = order_store o'' t"
    by (cases "h n (s, o')") (auto simp: cancel_target_def)
  then have "silent s t" "silent t s1" using st_keepsD [OF assms] silent.storing by (fastforce simp: silent_pair_def)+
  then show ?case using Cons.IH rest silent.trans by blast
qed

lemma cancel_chunk_silent:
  assumes "cancel_chunk (on_pg ps cfg) now fate chunk s = Some (s', k)"
  shows "silent s s'"
proof (cases "cancel_wires (on_pg ps cfg) chunk = []")
  case True then show ?thesis using assms silent.refl by (simp add: cancel_chunk_def)
next
  case False
  then obtain s1 oc where oc: "cancel_outcome fate (cancel_wires (on_pg ps cfg) chunk) s = Some (s1, oc)"
    using assms by (auto simp: cancel_chunk_def split: option.splits)
  note handled = cancel_targets_silent [OF silent_order.cancel_response] cancel_targets_silent [OF silent_order.unresolved]
  have "silent s1 s'"
    using assms False oc by (cases oc) (auto simp: cancel_chunk_def Let_def intro: handled)
  then show ?thesis using cancel_outcome_silent [OF oc] silent.trans by blast
qed

lemma cancel_all_silent: "cancel_all_orders (on_pg ps cfg) now fates symb s = Some (s', k) \<Longrightarrow> silent s s'"
proof -
  have "cancel_chunks (on_pg ps cfg) now fates n cs s = Some (s', k) \<Longrightarrow> silent s s'" for n cs s s' k
  proof (induction cs arbitrary: n s k)
    case Nil then show ?case using silent.refl by simp
  next
    case (Cons c cs)
    then obtain s1 j k' where "cancel_chunk (on_pg ps cfg) now (fates n) c s = Some (s1, j)"
      "cancel_chunks (on_pg ps cfg) now fates (Suc n) cs s1 = Some (s', k')"
      by (auto split: option.splits)
    then show ?case using Cons.IH cancel_chunk_silent silent.trans by blast
  qed
  then show "cancel_all_orders (on_pg ps cfg) now fates symb s = Some (s', k) \<Longrightarrow> silent s s'"
    by (simp add: cancel_all_orders_def)
qed

lemma import_silent: "st_keeps silent (import_exchange_order_authoritative (on_pg ps cfg) o')"
  using total_op_keeps [OF ledger.refl reconcile_move]
  by (fastforce simp: st_keeps_def silent_def import_exchange_order_authoritative_def on_pg_def pg_store_ops_def
    ledger.refl sends_nothing_same split: option.splits prod.splits sum.splits)

section \<open>The system\<close>

text \<open>Workers hold the commands they claimed; the ids still to be deferred are those no answer resolved.\<close>

record system =
  sy_engine :: "pg engine"
  sy_held :: "durable_command list"
  sy_unresolved :: "string list"

definition system_new :: "gates \<Rightarrow> pg \<Rightarrow> system" where
  "system_new g db = \<lparr>sy_engine = engine_new g (Some db), sy_held = [], sy_unresolved = []\<rparr>"

text \<open>
  Other writers change what they like, except that commands of the queue are written by nobody else and no
  cloid of an order ever changes. A crash loses the memory of the process; in the middle of an execution it may also lose
  everything the execution wrote, but not what it sent.
\<close>

inductive system_step :: "pg_store \<Rightarrow> pg engine_config \<Rightarrow> command_queue \<Rightarrow> system \<Rightarrow> system \<Rightarrow> bool"
  for ps :: pg_store and cfg :: "pg engine_config" and q :: command_queue where
  submits: "submit_order_inner (on_pg ps cfg) x i deferred em (sy_engine y) = Some (e, r) \<Longrightarrow>
    system_step ps cfg q y (y\<lparr>sy_engine := e\<rparr>)"
| cancels: "cancel_order (on_pg ps cfg) x' cloid (sy_engine y) = Some (e, b) \<Longrightarrow>
    system_step ps cfg q y (y\<lparr>sy_engine := e\<rparr>)"
| cancels_all: "cancel_all_orders (on_pg ps cfg) now fates symb (sy_engine y) = Some (e, n) \<Longrightarrow>
    system_step ps cfg q y (y\<lparr>sy_engine := e\<rparr>)"
| reconciles: "import_exchange_order_authoritative (on_pg ps cfg) o' (sy_engine y) = Some (e, u) \<Longrightarrow>
    system_step ps cfg q y (y\<lparr>sy_engine := e\<rparr>)"
| claims: "on_store (queue_claim q w) (sy_engine y) = Some (e, claimed) \<Longrightarrow>
    system_step ps cfg q y (y\<lparr>sy_engine := e,
      sy_held := sy_held y @ (case claimed of Inr (Some cmd) \<Rightarrow> [cmd] | _ \<Rightarrow> [])\<rparr>)"
| executes: "sy_held y = before @ cmd # after \<Longrightarrow> execute_command (on_pg ps cfg) d cmd (sy_engine y) = Some (e, b) \<Longrightarrow>
    system_step ps cfg q y (y\<lparr>sy_engine := e, sy_held := before @ after,
      sy_unresolved := sy_unresolved y @ (if b = Inr False then [dc_command_id cmd] else [])\<rparr>)"
| defers: "sy_unresolved y = us @ cid # vs \<Longrightarrow> on_store (queue_defer_unknown q cid reason) (sy_engine y) = Some (e, u) \<Longrightarrow>
    system_step ps cfg q y (y\<lparr>sy_engine := e, sy_unresolved := us @ vs\<rparr>)"
| crashes: "system_step ps cfg q y (y\<lparr>sy_engine := (sy_engine y)\<lparr>en_orders := []\<rparr>, sy_held := [], sy_unresolved := []\<rparr>)"
| crashes_executing: "cmd \<in> set (sy_held y) \<Longrightarrow> execute_command (on_pg ps cfg) d cmd (sy_engine y) = Some (e, b) \<Longrightarrow>
    system_step ps cfg q y (y\<lparr>sy_engine := (sy_engine y)\<lparr>en_orders := [], en_trace := en_trace e\<rparr>, sy_held := [],
      sy_unresolved := []\<rparr>)"
| others: "en_store (sy_engine y) = Some db \<Longrightarrow> filter queue_type (pg_commands db') = filter queue_type (pg_commands db) \<Longrightarrow>
    distinct (map cmr_command_id (pg_commands db')) \<Longrightarrow>
    map orr_cloid (pg_orders db') = map orr_cloid (pg_orders db) \<Longrightarrow> list_all order_row_ok (pg_orders db') \<Longrightarrow>
    system_step ps cfg q y (y\<lparr>sy_engine := (sy_engine y)\<lparr>en_store := Some db', en_gates := g, en_orders := os\<rparr>\<rparr>)"

definition sends_cloid :: "string \<Rightarrow> engine_effect \<Rightarrow> bool" where
  "sends_cloid k e \<longleftrightarrow> (case e of EE_Order wr n \<Rightarrow> ow_cloid wr = Some k | _ \<Rightarrow> False)"

definition sent_count :: "string \<Rightarrow> pg engine \<Rightarrow> nat" where
  "sent_count k s = length (filter (sends_cloid k) (en_trace s))"

definition first_attempts :: "durable_command list \<Rightarrow> durable_command list" where
  "first_attempts = filter (\<lambda>cmd. dc_command_type cmd \<noteq> ''cancel_order'' \<and> \<not> dc_requires_resolution cmd)"

definition dc_cloid :: "durable_command \<Rightarrow> string option" where
  "dc_cloid cmd = json_str_field ''cloid'' (dc_payload cmd)"

text \<open>A cloid that may still be sent: its command is armed, or a worker holds it for a first attempt.\<close>

definition attempt_of :: "pg \<Rightarrow> durable_command \<Rightarrow> bool" where
  "attempt_of db cmd \<longleftrightarrow> (\<exists>c\<in>set (pg_commands db). is_place c \<and> cmr_command_id c = dc_command_id cmd \<and> cmr_payload c = dc_payload cmd)
     \<and> (\<forall>x. armed db x \<longrightarrow> cmr_command_id x \<noteq> dc_command_id cmd)"

definition may_send :: "string \<Rightarrow> pg \<Rightarrow> durable_command list \<Rightarrow> bool" where
  "may_send k db cmds \<longleftrightarrow> (\<exists>x. armed db x \<and> cmr_cloid x = Some k) \<or> (\<exists>cmd\<in>set cmds. dc_cloid cmd = Some k)"

definition system_inv :: "system \<Rightarrow> bool" where
  "system_inv y \<longleftrightarrow> (\<exists>db. en_store (sy_engine y) = Some db \<and> ledger_ok db
     \<and> distinct (map dc_command_id (first_attempts (sy_held y)))
     \<and> (\<forall>cmd\<in>set (first_attempts (sy_held y)). attempt_of db cmd)
     \<and> (\<forall>k. sent_count k (sy_engine y) \<le> 1
          \<and> (sent_count k (sy_engine y) = 1 \<longrightarrow> k \<in> order_cloids db \<and> \<not> may_send k db (first_attempts (sy_held y)))))"

lemma sends_cloid_send: "sends_cloid k e \<Longrightarrow> is_send e"
  by (cases e) (simp_all add: sends_cloid_def)

lemma silent_count: "silent s s' \<Longrightarrow> sent_count k s' = sent_count k s"
  using sends_cloid_send [of k] by (fastforce simp: silent_def sends_nothing_def sent_count_def list_ex_iff filter_empty_conv)

lemma sends_one_count: "sends_one j s s' \<Longrightarrow> sent_count k s' = sent_count k s + (if k = j then 1 else 0)"
proof -
  assume "sends_one j s s'"
  then obtain s1 s2 wr n where s: "silent s s1" "en_trace s2 = en_trace s1 @ [EE_Order wr n]" "ow_cloid wr = Some j" "silent s2 s'"
    by (auto simp: sends_one_def)
  have "sent_count k s2 = sent_count k s1 + (if k = j then 1 else 0)"
    using s(2,3) by (auto simp: sent_count_def sends_cloid_def)
  then show ?thesis using silent_count s(1,4) by metis
qed

text \<open>How the ledger moves the facts on attempts.\<close>

lemma place_command_unique:
  assumes "ledger_ok db" "x \<in> set (pg_commands db)" "y \<in> set (pg_commands db)" "is_place x" "is_place y"
    and "cmr_cloid x = cmr_cloid y"
  shows "x = y"
  using assms by (auto simp: ledger_ok_def place_cloids_def distinct_map inj_on_def)

lemma place_cloid_known: "ledger_ok db \<Longrightarrow> x \<in> set (pg_commands db) \<Longrightarrow> is_place x \<Longrightarrow> cmr_cloid x \<in> Some ` order_cloids db"
  by (auto simp: ledger_ok_def place_cloids_def)

lemma command_id_unique:
  "ledger_ok db \<Longrightarrow> x \<in> set (pg_commands db) \<Longrightarrow> y \<in> set (pg_commands db) \<Longrightarrow> cmr_command_id x = cmr_command_id y \<Longrightarrow> x = y"
  by (auto simp: ledger_ok_def distinct_map inj_on_def)

lemma attempt_of_step:
  assumes "attempt_of db cmd" "ledger_ok db" "ledger_ok db'" "ledger_step db db'"
  shows "attempt_of db' cmd"
proof -
  obtain c where c: "c \<in> set (pg_commands db)" "is_place c" "cmr_command_id c = dc_command_id cmd" "cmr_payload c = dc_payload cmd"
    using assms(1) by (auto simp: attempt_of_def)
  then obtain c' where c': "c' \<in> set (pg_commands db')" "cmr_command_id c' = cmr_command_id c"
    "cmr_command_type c' = cmr_command_type c" "cmr_payload c' = cmr_payload c"
    using assms(4) unfolding ledger_step_def by blast
  have "cmr_command_id x \<noteq> dc_command_id cmd" if x: "armed db' x" for x
  proof
    assume id: "cmr_command_id x = dc_command_id cmd"
    consider y where "armed db y" "cmr_command_id y = cmr_command_id x" | "cmr_cloid x \<notin> Some ` order_cloids db"
      using assms(4) x unfolding ledger_step_def by blast
    then show False
    proof cases
      case 1 then show False using assms(1) id by (auto simp: attempt_of_def)
    next
      case 2
      have "x = c'" using command_id_unique [OF assms(3)] x c'(1,2) c(3) id by (simp add: armed_def)
      then have "cmr_cloid x = cmr_cloid c" using c' by (simp add: cmr_cloid_def)
      then show False using 2 place_cloid_known [OF assms(2)] c by simp
    qed
  qed
  then show ?thesis using c c' by (auto simp: attempt_of_def is_place_def)
qed

lemma may_send_step:
  assumes "ledger_step db db'" "k \<in> order_cloids db" "may_send k db' cmds"
  shows "may_send k db cmds"
proof (cases "\<exists>x. armed db' x \<and> cmr_cloid x = Some k")
  case True
  then obtain x y where "armed db y" "cmr_payload y = cmr_payload x" "cmr_cloid x = Some k"
    using assms(1,2) unfolding ledger_step_def by blast
  then show ?thesis by (auto simp: may_send_def cmr_cloid_def)
next
  case False then show ?thesis using assms(3) by (auto simp: may_send_def)
qed

text \<open>Every step keeps the invariant.\<close>

lemma inv_step:
  assumes inv: "system_inv y" and db': "en_store (sy_engine y') = Some db'"
    and move: "\<And>db. en_store (sy_engine y) = Some db \<Longrightarrow> ledger_move db db'"
    and held: "distinct (map dc_command_id (first_attempts (sy_held y')))"
      "set (first_attempts (sy_held y')) \<subseteq> set (first_attempts (sy_held y))"
    and sent: "\<And>k. sent_count k (sy_engine y') = sent_count k (sy_engine y)
      \<or> (\<exists>cmd. dc_cloid cmd = Some k \<and> cmd \<in> set (first_attempts (sy_held y)) \<and> sent_count k (sy_engine y') = Suc (sent_count k (sy_engine y))
           \<and> (\<forall>x\<in>set (first_attempts (sy_held y')). dc_command_id x \<noteq> dc_command_id cmd))"
  shows "system_inv y'"
proof -
  obtain db where db: "en_store (sy_engine y) = Some db" "ledger_ok db"
    and att: "\<forall>cmd\<in>set (first_attempts (sy_held y)). attempt_of db cmd"
    and cnt: "\<And>k. sent_count k (sy_engine y) \<le> 1"
      "\<And>k. sent_count k (sy_engine y) = 1 \<Longrightarrow> k \<in> order_cloids db \<and> \<not> may_send k db (first_attempts (sy_held y))"
    using inv by (auto simp: system_inv_def)
  have ok: "ledger_ok db'" "ledger_step db db'" using move [OF db(1)] db(2) by (auto simp: ledger_move_def)
  have att': "\<forall>cmd\<in>set (first_attempts (sy_held y')). attempt_of db' cmd"
    using att held(2) attempt_of_step [OF _ db(2) ok] by blast
  have "sent_count k (sy_engine y') \<le> 1 \<and> (sent_count k (sy_engine y') = 1 \<longrightarrow>
      k \<in> order_cloids db' \<and> \<not> may_send k db' (first_attempts (sy_held y')))" for k
    using sent [of k]
  proof
    assume same: "sent_count k (sy_engine y') = sent_count k (sy_engine y)"
    have "k \<in> order_cloids db' \<and> \<not> may_send k db' (first_attempts (sy_held y'))" if "sent_count k (sy_engine y) = 1"
    proof -
      note c = cnt(2) [OF that]
      have "\<not> may_send k db (first_attempts (sy_held y'))" using c held(2) by (auto simp: may_send_def)
      then show ?thesis using c ok(2) may_send_step [OF ok(2)] by (auto simp: ledger_step_def)
    qed
    then show ?thesis using same cnt(1) by simp
  next
    assume "\<exists>cmd. dc_cloid cmd = Some k \<and> cmd \<in> set (first_attempts (sy_held y)) \<and> sent_count k (sy_engine y') = Suc (sent_count k (sy_engine y))
        \<and> (\<forall>x\<in>set (first_attempts (sy_held y')). dc_command_id x \<noteq> dc_command_id cmd)"
    then obtain cmd where cmd: "dc_cloid cmd = Some k" "cmd \<in> set (first_attempts (sy_held y))"
      "sent_count k (sy_engine y') = Suc (sent_count k (sy_engine y))"
      "\<forall>x\<in>set (first_attempts (sy_held y')). dc_command_id x \<noteq> dc_command_id cmd" by blast
    have "may_send k db (first_attempts (sy_held y))" using cmd by (auto simp: may_send_def)
    then have zero: "sent_count k (sy_engine y) = 0" using cnt [of k] by linarith
    obtain c where c: "c \<in> set (pg_commands db')" "is_place c" "cmr_command_id c = dc_command_id cmd" "cmr_cloid c = Some k"
      "\<forall>x. armed db' x \<longrightarrow> cmr_command_id x \<noteq> dc_command_id cmd"
      using attempt_of_step [OF _ db(2) ok, of cmd] att cmd(1,2) by (auto simp: attempt_of_def dc_cloid_def cmr_cloid_def)
    have "k \<in> order_cloids db'" using place_cloid_known [OF ok(1) c(1,2)] c(4) by auto
    moreover have "\<not> (armed db' x \<and> cmr_cloid x = Some k)" for x
      using place_command_unique [OF ok(1) _ c(1) _ c(2)] c(3-5) by (auto simp: armed_def)
    moreover have "dc_cloid x \<noteq> Some k" if x: "x \<in> set (first_attempts (sy_held y'))" for x
    proof
      assume k: "dc_cloid x = Some k"
      obtain z where "z \<in> set (pg_commands db')" "is_place z" "cmr_command_id z = dc_command_id x" "cmr_cloid z = Some k"
        using att' x k by (auto simp: attempt_of_def dc_cloid_def cmr_cloid_def)
      then have "z = c" using place_command_unique [OF ok(1) _ c(1) _ c(2)] c(4) by simp
      then show False using \<open>cmr_command_id z = _\<close> c(3) cmd(4) x by auto
    qed
    ultimately show ?thesis using cmd(3) zero by (auto simp: may_send_def)
  qed
  then show ?thesis using db' ok(1) held(1) att' unfolding system_inv_def by blast
qed

lemma inv_silent:
  assumes "system_inv y" "silent (sy_engine y) e" "distinct (map dc_command_id (first_attempts h))"
    "set (first_attempts h) \<subseteq> set (first_attempts (sy_held y))"
  shows "system_inv (y\<lparr>sy_engine := e, sy_held := h, sy_unresolved := u\<rparr>)"
proof -
  obtain db where "en_store (sy_engine y) = Some db" using assms(1) by (auto simp: system_inv_def)
  then obtain db' where "en_store e = Some db'" "ledger_move db db'"
    using assms(2) by (auto simp: silent_def split: option.splits)
  then show ?thesis
    using assms silent_count \<open>en_store (sy_engine y) = Some db\<close> by (intro inv_step [OF assms(1), of _ db']) auto
qed

lemma inv_held_distinct: "system_inv y \<Longrightarrow> distinct (map dc_command_id (first_attempts (sy_held y)))"
  by (auto simp: system_inv_def)

lemma first_attempts_append [simp]: "first_attempts (xs @ ys) = first_attempts xs @ first_attempts ys"
  "first_attempts [] = []"
  by (simp_all add: first_attempts_def)

lemma on_store_silent:
  assumes "st_keeps ledger_move m" "on_store m s = Some (s', r)"
  shows "silent s s'"
proof -
  obtain db db' where "en_store s = Some db" "m db = Some (db', r)" "s' = s\<lparr>en_store := Some db'\<rparr>"
    using assms(2) by (auto simp: on_store_def split: option.splits)
  then show ?thesis using st_keepsD [OF assms(1)] by (simp add: silent_def sends_nothing_same)
qed

lemma inv_claim:
  assumes inv: "system_inv y" and run: "on_store (queue_claim q w) (sy_engine y) = Some (e, claimed)"
  shows "system_inv (y\<lparr>sy_engine := e, sy_held := sy_held y @ (case claimed of Inr (Some cmd) \<Rightarrow> [cmd] | _ \<Rightarrow> [])\<rparr>)"
proof (cases "\<exists>cmd. claimed = Inr (Some cmd) \<and> first_attempts [cmd] = [cmd]")
  case False
  then have "first_attempts (sy_held y @ (case claimed of Inr (Some cmd) \<Rightarrow> [cmd] | _ \<Rightarrow> [])) = first_attempts (sy_held y)"
    by (auto simp: first_attempts_def split: sum.splits option.splits if_splits)
  then show ?thesis
    using inv_silent [OF inv on_store_silent [OF claim_move run], where u = "sy_unresolved y"] inv_held_distinct [OF inv] by simp
next
  case True
  then obtain cmd where cmd: "claimed = Inr (Some cmd)" "\<not> dc_requires_resolution cmd" "dc_command_type cmd \<noteq> ''cancel_order''"
    by (auto simp: first_attempts_def split: if_splits)
  obtain db db' where db: "en_store (sy_engine y) = Some db" "queue_claim q w db = Some (db', claimed)"
    "e = (sy_engine y)\<lparr>en_store := Some db'\<rparr>"
    using run by (auto simp: on_store_def split: option.splits)
  have ok: "ledger_ok db" using inv db(1) by (auto simp: system_inv_def)
  have ok': "ledger_ok db'" "ledger_step db db'"
    using st_keepsD [OF claim_move db(2)] ok by (simp_all add: ledger_move_def)
  obtain c where c: "armed db c" "dc_command_id cmd = cmr_command_id c" "dc_payload cmd = cmr_payload c"
    "\<forall>x. armed db' x \<longrightarrow> cmr_command_id x \<noteq> dc_command_id cmd"
    using claim_first_attempt [OF db(2)[unfolded cmd(1)] cmd(2,3) ok] by blast
  have att: "\<forall>x\<in>set (first_attempts (sy_held y)). attempt_of db x" using inv db(1) by (auto simp: system_inv_def)
  obtain c' where "c' \<in> set (pg_commands db')" "cmr_command_id c' = cmr_command_id c"
    "cmr_command_type c' = cmr_command_type c" "cmr_payload c' = cmr_payload c"
    using c(1) ok'(2) unfolding ledger_step_def armed_def by blast
  then have new: "attempt_of db' cmd" using c by (auto simp: attempt_of_def armed_def is_place_def)
  have fresh: "dc_command_id x \<noteq> dc_command_id cmd" if "x \<in> set (first_attempts (sy_held y))" for x
  proof -
    have "\<forall>z. armed db z \<longrightarrow> cmr_command_id z \<noteq> dc_command_id x" using att that by (simp add: attempt_of_def)
    then have "cmr_command_id c \<noteq> dc_command_id x" using c(1) by blast
    then show ?thesis using c(2) by simp
  qed
  have count: "sent_count k e = sent_count k (sy_engine y)" for k by (simp add: db(3) sent_count_def)
  have "\<not> may_send k db' (first_attempts (sy_held y) @ [cmd])" if k: "sent_count k (sy_engine y) = 1" for k
  proof -
    have k: "k \<in> order_cloids db" "\<not> may_send k db (first_attempts (sy_held y))" using inv db(1) k by (auto simp: system_inv_def)
    moreover from this have "cmr_cloid c \<noteq> Some k" using c(1) by (auto simp: may_send_def)
    ultimately show ?thesis
      using may_send_step [OF ok'(2)] c(3) by (auto simp: may_send_def dc_cloid_def cmr_cloid_def)
  qed
  moreover have "first_attempts [cmd] = [cmd]" using cmd by (simp add: first_attempts_def)
  moreover have "order_cloids db \<subseteq> order_cloids db'" using ok'(2) by (simp add: ledger_step_def)
  moreover have "\<forall>x\<in>set (first_attempts (sy_held y)). attempt_of db' x" using att attempt_of_step [OF _ ok ok'] by blast
  moreover have "distinct (map dc_command_id (first_attempts (sy_held y) @ [cmd]))"
    using inv_held_distinct [OF inv] fresh by force
  ultimately show ?thesis
    using inv db(1,3) new ok' count unfolding system_inv_def by (auto simp: cmd(1))
qed

lemma inv_execute:
  assumes inv: "system_inv y" and held: "sy_held y = before @ cmd # after"
    and run: "execute_command (on_pg ps cfg) d cmd (sy_engine y) = Some (e, b)"
  shows "\<exists>db'. en_store e = Some db' \<and> (\<forall>db. en_store (sy_engine y) = Some db \<longrightarrow> ledger_move db db')
    \<and> (\<forall>k. sent_count k e = sent_count k (sy_engine y) \<or>
         dc_cloid cmd = Some k \<and> first_attempts [cmd] = [cmd] \<and> sent_count k e = Suc (sent_count k (sy_engine y)))"
proof -
  obtain db where db: "en_store (sy_engine y) = Some db" "ledger_ok db" using inv by (auto simp: system_inv_def)
  have quiet: ?thesis if "silent (sy_engine y) e"
    using that db(1) silent_count [OF that] by (auto simp: silent_def split: option.splits)
  show ?thesis
  proof (cases "dc_command_type cmd = ''cancel_order''")
    case True
    then show ?thesis using run quiet st_keepsD [OF execute_cancel_silent] by (simp add: execute_command_def)
  next
    case False
    from execute_place_cases [of ps cfg d cmd "sy_engine y" e b] run False
    consider "silent (sy_engine y) e"
      | k where "\<not> dc_requires_resolution cmd" "dc_cloid cmd = Some k" "order_by_cloid k db \<noteq> None"
          "sends_one (to_hl_cloid (ec_sha256 cfg) k) (sy_engine y) e"
      using db(1) by (auto simp: execute_command_def dc_cloid_def)
    then show ?thesis
    proof cases
      case 1 then show ?thesis by (rule quiet)
    next
      case (2 k)
      have k: "to_hl_cloid (ec_sha256 cfg) k = k"
        using 2(3) db(2) by (auto simp: order_by_cloid_def find_None_iff ledger_ok_def list_all_iff order_row_ok_def to_hl_cloid_def)
      then obtain s1 s2 where s: "silent (sy_engine y) s1" "en_store s2 = en_store s1" "silent s2 e"
        using 2(4) by (auto simp: sends_one_def)
      then obtain db1 db' where "en_store s1 = Some db1" "en_store e = Some db'" "ledger_move db db1" "ledger_move db1 db'"
        using db(1) by (auto simp: silent_def split: option.splits)
      moreover have "sent_count j e = sent_count j (sy_engine y) + (if j = k then 1 else 0)" for j
        using sends_one_count [OF 2(4)[unfolded k]] .
      ultimately show ?thesis using 2(1,2) False db(1) ledger.trans by (auto simp: first_attempts_def)
    qed
  qed
qed

lemma first_attempts_cons: "first_attempts (cmd # cmds) = first_attempts [cmd] @ first_attempts cmds"
  by (simp add: first_attempts_def)

lemma inv_executed:
  assumes inv: "system_inv y" and held: "sy_held y = before @ cmd # after"
    and run: "execute_command (on_pg ps cfg) d cmd (sy_engine y) = Some (e, b)"
    and y': "sy_engine y' = e" "sy_held y' = before @ after"
  shows "system_inv y'"
proof -
  from inv_execute [OF inv held run] obtain db' where db': "en_store e = Some db'"
    "\<forall>db. en_store (sy_engine y) = Some db \<longrightarrow> ledger_move db db'"
    and sent: "\<forall>k. sent_count k e = sent_count k (sy_engine y) \<or>
      dc_cloid cmd = Some k \<and> first_attempts [cmd] = [cmd] \<and> sent_count k e = Suc (sent_count k (sy_engine y))"
    by (elim exE conjE)
  have parts: "first_attempts (sy_held y) = first_attempts before @ first_attempts [cmd] @ first_attempts after"
    by (simp add: held first_attempts_cons [of cmd after])
  have parts': "first_attempts (sy_held y') = first_attempts before @ first_attempts after" by (simp add: y'(2))
  note ids = inv_held_distinct [OF inv, unfolded parts]
  have only: "\<forall>z\<in>set (first_attempts (sy_held y')). dc_command_id z \<noteq> dc_command_id cmd"
    if "first_attempts [cmd] = [cmd]"
  proof -
    have "dc_command_id cmd \<notin> dc_command_id ` set (first_attempts (sy_held y'))" using ids that by (simp add: parts' image_Un)
    then show ?thesis by (metis imageI)
  qed
  show ?thesis
  proof (rule inv_step [OF inv, where db' = db'])
    show "distinct (map dc_command_id (first_attempts (sy_held y')))" using ids by (simp add: parts' image_Un Int_Un_distrib)
    show "sent_count k (sy_engine y') = sent_count k (sy_engine y)
      \<or> (\<exists>x. dc_cloid x = Some k \<and> x \<in> set (first_attempts (sy_held y))
           \<and> sent_count k (sy_engine y') = Suc (sent_count k (sy_engine y))
           \<and> (\<forall>z\<in>set (first_attempts (sy_held y')). dc_command_id z \<noteq> dc_command_id x))" for k
    proof (cases "sent_count k e = sent_count k (sy_engine y)")
      case False
      then have "dc_cloid cmd = Some k \<and> first_attempts [cmd] = [cmd] \<and> sent_count k e = Suc (sent_count k (sy_engine y))"
        using sent by blast
      then show ?thesis using only by (intro disjI2 exI [of _ cmd]) (simp add: y'(1) parts)
    qed (simp add: y'(1))
  qed (use db' in \<open>simp_all add: y'(1) parts parts' subset_iff\<close>)
qed

text \<open>A crash in the middle of an execution keeps what was sent and the old store.\<close>

lemma inv_crashed_executing:
  assumes inv: "system_inv y" and cmd: "cmd \<in> set (sy_held y)"
    and run: "execute_command (on_pg ps cfg) d cmd (sy_engine y) = Some (e, b)"
  shows "system_inv (y\<lparr>sy_engine := (sy_engine y)\<lparr>en_orders := [], en_trace := en_trace e\<rparr>, sy_held := [], sy_unresolved := []\<rparr>)"
proof -
  obtain before after where held: "sy_held y = before @ cmd # after" using cmd by (auto simp: in_set_conv_decomp)
  have trace: "sent_count k (s\<lparr>en_orders := [], en_trace := en_trace e\<rparr>) = sent_count k e" for k s
    by (simp add: sent_count_def)
  have "sent_count k e = sent_count k (sy_engine y) \<or> (\<exists>x. dc_cloid x = Some k \<and> x \<in> set (first_attempts (sy_held y))
      \<and> sent_count k e = Suc (sent_count k (sy_engine y)))" for k
  proof -
    have "first_attempts [cmd] = [cmd] \<Longrightarrow> cmd \<in> set (first_attempts (sy_held y))"
      by (simp add: held first_attempts_cons [of cmd after])
    then show ?thesis using inv_execute [OF inv held run] by blast
  qed
  moreover obtain db where "en_store (sy_engine y) = Some db" using inv by (auto simp: system_inv_def)
  ultimately show ?thesis
    by (intro inv_step [OF inv, where db' = db]) (auto simp: trace ledger.refl)
qed

lemma others_move:
  assumes "filter queue_type (pg_commands db') = filter queue_type (pg_commands db)"
    and "distinct (map cmr_command_id (pg_commands db'))"
    and "map orr_cloid (pg_orders db') = map orr_cloid (pg_orders db)" "list_all order_row_ok (pg_orders db')"
  shows "ledger_move db db'"
proof -
  have "filter is_place cs = filter is_place (filter queue_type cs)" for cs
    by (induction cs) (auto simp: is_place_def queue_type_def)
  then have places: "filter is_place (pg_commands db') = filter is_place (pg_commands db)" by (metis assms(1))
  have "set (filter is_place (pg_commands db')) = set (filter is_place (pg_commands db))" by (simp only: places)
  then have sets: "c \<in> set (pg_commands db') \<and> is_place c \<longleftrightarrow> c \<in> set (pg_commands db) \<and> is_place c" for c by auto
  then have armed: "armed db' c \<longleftrightarrow> armed db c" for c by (auto simp: armed_def)
  have cloids: "order_cloids db' = order_cloids db" by (simp only: order_cloids_def assms(3))
  show ?thesis
    using assms places armed cloids sets by (auto simp: ledger_move_def ledger_ok_def place_cloids_def ledger_step_def)
qed

lemma inv_system_step:
  assumes "system_step ps cfg q y y'" "system_inv y"
  shows "system_inv y'"
  using assms
proof (cases rule: system_step.cases)
  case (submits x i deferred em e r)
  show ?thesis
    using inv_silent [OF assms(2) st_keepsD [OF submit_deferred_silent submits(2)], of "sy_held y" "sy_unresolved y"]
    by (simp add: submits(1) inv_held_distinct [OF assms(2)])
next
  case (cancels x' cloid e b)
  show ?thesis
    using inv_silent [OF assms(2) st_keepsD [OF cancel_order_silent cancels(2)], of "sy_held y" "sy_unresolved y"]
    by (simp add: cancels(1) inv_held_distinct [OF assms(2)])
next
  case (cancels_all now fates symb e n)
  show ?thesis
    using inv_silent [OF assms(2) cancel_all_silent [OF cancels_all(2)], of "sy_held y" "sy_unresolved y"]
    by (simp add: cancels_all(1) inv_held_distinct [OF assms(2)])
next
  case (reconciles o' e u)
  show ?thesis
    using inv_silent [OF assms(2) st_keepsD [OF import_silent reconciles(2)], of "sy_held y" "sy_unresolved y"]
    by (simp add: reconciles(1) inv_held_distinct [OF assms(2)])
next
  case (claims w e claimed)
  then show ?thesis using inv_claim [OF assms(2)] by simp
next
  case (executes before cmd after d e b)
  then show ?thesis using inv_executed [OF assms(2) executes(2,3)] by simp
next
  case (defers us cid vs reason e u)
  show ?thesis
    using inv_silent [OF assms(2) on_store_silent [OF defer_move defers(3)], of "sy_held y" "us @ vs"]
    by (simp add: defers(1) inv_held_distinct [OF assms(2)])
next
  case crashes
  have "silent (sy_engine y) ((sy_engine y)\<lparr>en_orders := []\<rparr>)" by (rule silent_frame) simp_all
  then show ?thesis using inv_silent [OF assms(2), where h = "[]" and u = "[]"] crashes by simp
next
  case (crashes_executing cmd d e b)
  then show ?thesis using inv_crashed_executing [OF assms(2)] by simp
next
  case (others db db' os g)
  have "system_inv (y\<lparr>sy_engine := (sy_engine y)\<lparr>en_store := Some db', en_gates := g, en_orders := os\<rparr>\<rparr>)"
    using others(2) others_move [OF others(3-6)] inv_held_distinct [OF assms(2)]
    by (intro inv_step [OF assms(2), where db' = db']) (auto simp: sent_count_def)
  then show ?thesis by (simp add: others(1))
qed

end
