(* ===== verification/HE_Store_Log.thy ===== *)
theory HE_Store_Log
  imports HE_Ledger
begin

text \<open>
  The history the store keeps: every committed change of an order has one row of \<open>order_events\<close> and one row
  of \<open>outbox_events\<close>, written by the same transaction. Then what transitions and the admission promise about
  the rows they write, and that no operation of the store panics.
\<close>

section \<open>No operation panics\<close>

definition st_total :: "('s, 'e, 'a) st_op \<Rightarrow> bool" where
  "st_total m \<longleftrightarrow> (\<forall>s. m s \<noteq> None)"

lemma st_total_basic:
  "st_total (st_return x)" "st_total (st_fail e)" "st_total (st_lift r)" "st_total (st_modify f)"
  "(\<And>s. st_total (g s)) \<Longrightarrow> st_total (st_at g)"
  by (simp_all add: st_total_def)

lemma st_total_bind: "st_total m \<Longrightarrow> (\<And>x. st_total (f x)) \<Longrightarrow> st_total (st_bind m f)"
  unfolding st_total_def st_bind_def by (fastforce split: option.splits sum.splits)

lemma st_total_cases:
  "st_total m \<Longrightarrow> st_total n \<Longrightarrow> st_total (if b then m else n)"
  "st_total m \<Longrightarrow> (\<And>y. st_total (f y)) \<Longrightarrow> st_total (case x of None \<Rightarrow> m | Some y \<Rightarrow> f y)"
  by (simp_all split: option.splits)

lemma st_total_rows:
  "st_total (require b t)" "st_total (draw_uuid u)" "st_total (fetch_order c)" "st_total (check_and_lock_risk_scope ps l o' p)"
  by (auto simp: st_total_def require_def violation_def draw_uuid_def fetch_order_def check_and_lock_risk_scope_def Let_def
      split: option.splits sum.splits)

lemmas st_total_intros = st_total_basic st_total_bind st_total_cases st_total_rows

lemma st_total_tx: "st_total m \<Longrightarrow> st_total (pg_tx m)"
proof -
  assume m: "st_total m"
  have "pg_tx m s \<noteq> None" for s
  proof -
    have "m s \<noteq> None" using m by (simp add: st_total_def)
    then obtain s1 r where "m s = Some (s1, r)" by auto
    then show ?thesis by (auto simp: pg_tx_def split: db_link.splits sum.splits tx_end.splits)
  qed
  then show ?thesis by (simp add: st_total_def)
qed

lemma st_total_writes:
  "st_total (insert_order r)" "st_total (update_orders c f)" "st_total (append_event_rows u o' oid v ev j)"
  "st_total (insert_command k)" "st_total (insert_command_once k)" "st_total (complete_command c st m)"
  "st_total (settle_reservation oid ost)" "st_total (release_reservations oid ost)" "st_total (reserve ps c oid o' p)"
  unfolding insert_order_def update_orders_def append_event_rows_def insert_command_def insert_command_once_def
    complete_command_def settle_reservation_def release_reservations_def reserve_def Let_def
  by (intro st_total_intros)+

lemma st_total_pair: "(\<And>a b c. st_total (f a b c)) \<Longrightarrow> st_total (case x of (a, b, c) \<Rightarrow> f a b c)"
  by (cases x) simp

lemma pg_ops_return:
  "st_total (pg_persist_placement ps o' risk cid d p)" "st_total (pg_persist_transition ps o' ev k st)"
  "st_total (pg_persist_cancel_requested ps o' cid)" "st_total (pg_persist_reconciled_order ps o')"
  unfolding pg_persist_placement_def placement_body_def write_placement_def pg_persist_transition_def
    pg_persist_cancel_requested_def pg_persist_reconciled_order_def reconcile_row_def Let_def
  by (intro st_total_tx st_total_intros st_total_writes st_total_pair)+

lemma queue_ops_return: "st_total (queue_claim q w)" "st_total (queue_defer_unknown q cid reason)"
  unfolding queue_claim_def queue_defer_unknown_def lock_command_def Let_def
  by (intro st_total_tx st_total_intros)+

section \<open>The history of an order\<close>

definition order_log :: "pg \<Rightarrow> string \<Rightarrow> (int \<times> string \<times> json) list" where
  "order_log db oid = map (\<lambda>e. (oer_revision e, ''order.'' @ oer_event_type e, oer_payload e))
     (filter (\<lambda>e. oer_order_id e = oid) (pg_order_events db))"

definition outbox_log :: "pg \<Rightarrow> string \<Rightarrow> (int \<times> string \<times> json) list" where
  "outbox_log db oid = map (\<lambda>b. (obr_aggregate_revision b, obr_event_type b, obr_payload b))
     (filter (\<lambda>b. obr_aggregate_type b = ''order'' \<and> obr_aggregate_id b = oid) (pg_outbox db))"

text \<open>The revisions of an order are logged without gap or repetition, in both tables alike, and the sequence
  numbers of the outbox increase.\<close>

definition row_logged :: "pg \<Rightarrow> order_row \<Rightarrow> bool" where
  "row_logged db r \<longleftrightarrow> map fst (order_log db (orr_order_id r)) = [1..orr_revision r] \<and> 1 \<le> orr_revision r
     \<and> outbox_log db (orr_order_id r) = order_log db (orr_order_id r)"

definition events_known :: "string list \<Rightarrow> pg \<Rightarrow> bool" where
  "events_known ids db \<longleftrightarrow> (\<forall>e\<in>set (pg_order_events db). oer_order_id e \<in> set ids)
     \<and> (\<forall>b\<in>set (pg_outbox db). obr_aggregate_type b = ''order'' \<longrightarrow> obr_aggregate_id b \<in> set ids)"

definition sequenced :: "pg \<Rightarrow> bool" where
  "sequenced db \<longleftrightarrow> sorted_wrt (<) (map obr_sequence (pg_outbox db)) \<and> (\<forall>b\<in>set (pg_outbox db). obr_sequence b \<le> pg_sequence db)"

definition log_ok :: "pg \<Rightarrow> bool" where
  "log_ok db \<longleftrightarrow>
     distinct (map orr_order_id (pg_orders db)) \<and> distinct (map orr_cloid (pg_orders db))
     \<and> (\<forall>r\<in>set (pg_orders db). row_logged db r) \<and> events_known (map orr_order_id (pg_orders db)) db \<and> sequenced db"

text \<open>What the history depends on.\<close>

definition same_log :: "pg \<Rightarrow> pg \<Rightarrow> bool" where
  "same_log a b \<longleftrightarrow> pg_orders b = pg_orders a \<and> pg_order_events b = pg_order_events a \<and> pg_outbox b = pg_outbox a
     \<and> pg_sequence b = pg_sequence a"

interpretation same_log: step_order same_log
  by unfold_locales (auto simp: same_log_def)

lemma same_log_ok: "same_log a b \<Longrightarrow> log_ok b = log_ok a"
  by (simp add: same_log_def log_ok_def row_logged_def events_known_def sequenced_def order_log_def outbox_log_def)

lemma small_steps_log:
  "st_keeps same_log (require b t)" "st_keeps same_log (draw_uuid u)" "st_keeps same_log (fetch_order cloid)"
  "st_keeps same_log (settle_reservation oid st)" "st_keeps same_log (release_reservations oid st)"
  by (auto simp: st_keeps_def same_log_def require_def violation_def draw_uuid_def fetch_order_def
      settle_reservation_def release_reservations_def split: if_splits option.splits)

lemma other_tables_log:
  "st_keeps same_log (reserve ps cid oid o' supplied)" "st_keeps same_log (complete_command cid cst m)"
  "st_keeps same_log (insert_command k)" "st_keeps same_log (insert_command_once k)"
  unfolding reserve_def complete_command_def insert_command_once_def insert_command_def Let_def
  by (intro same_log.keeps small_steps_log; simp add: same_log_def)+

lemma check_scope_log: "st_keeps same_log (check_and_lock_risk_scope ps lims o' supplied)"
  by (auto simp: st_keeps_def same_log_def check_and_lock_risk_scope_def expire_reservations_def Let_def
      split: option.splits sum.splits if_splits)

text \<open>One event more.\<close>

definition logs_event :: "string \<Rightarrow> int \<Rightarrow> pg \<Rightarrow> pg \<Rightarrow> bool" where
  "logs_event oid revision a b \<longleftrightarrow> (\<exists>e x.
     pg_orders b = pg_orders a \<and> pg_order_events b = pg_order_events a @ [e] \<and> pg_outbox b = pg_outbox a @ [x]
     \<and> pg_sequence b = pg_sequence a + 1 \<and> obr_sequence x = pg_sequence b
     \<and> oer_order_id e = oid \<and> obr_aggregate_id x = oid \<and> obr_aggregate_type x = ''order''
     \<and> oer_revision e = revision \<and> obr_aggregate_revision x = revision
     \<and> obr_event_type x = ''order.'' @ oer_event_type e \<and> obr_payload x = oer_payload e)"

lemma append_logs:
  assumes "append_event_rows u o' oid revision ev j s = Some (s', Inr x)"
  shows "logs_event oid revision s s'"
  using assms unfolding append_event_rows_def
  by (auto simp: st_bind_Some draw_uuid_def require_def violation_def logs_event_def split: if_splits)

lemma logs_event_logs:
  assumes "logs_event oid revision a b"
  shows "\<exists>t. order_log b k = order_log a k @ (if k = oid then [(revision, t)] else [])
    \<and> outbox_log b k = outbox_log a k @ (if k = oid then [(revision, t)] else [])"
  using assms by (auto simp: logs_event_def order_log_def outbox_log_def)

lemma logs_event_known: "logs_event oid revision a b \<Longrightarrow> events_known ids a \<Longrightarrow> oid \<in> set ids \<Longrightarrow> events_known ids b"
  by (auto simp: logs_event_def events_known_def)

lemma logs_event_sequenced: "logs_event oid revision a b \<Longrightarrow> sequenced a \<Longrightarrow> sequenced b"
  by (fastforce simp: logs_event_def sequenced_def sorted_wrt_append)

text \<open>A changed row: the revision goes up by one, in the row and in the log.\<close>

definition bumps :: "string \<Rightarrow> (order_row \<Rightarrow> order_row) \<Rightarrow> int \<Rightarrow> bool" where
  "bumps cloid f revision \<longleftrightarrow> (\<forall>r. orr_cloid (f r) = orr_cloid r \<and> orr_order_id (f r) = orr_order_id r
     \<and> orr_revision (f r) = revision)"

lemma update_orders_Some:
  assumes "update_orders cloid f db = Some (db', Inr x)"
  shows "db' = db\<lparr>pg_orders := map (\<lambda>r. if orr_cloid r = cloid then f r else r) (pg_orders db)\<rparr>"
  using assms by (auto simp: update_orders_def st_bind_Some require_def violation_def split: if_splits)

lemma log_bump:
  assumes ok: "log_ok a" and r: "order_by_cloid cloid a = Some r"
    and upd: "update_orders cloid f a1 = Some (b, Inr x)" and f: "bumps cloid f (orr_revision r + 1)"
    and frames: "same_log a a1" "same_log b c"
    and app: "append_event_rows u o' (orr_order_id r) (orr_revision r + 1) ev j c = Some (d, Inr y)"
  shows "log_ok d"
proof -
  let ?f = "\<lambda>q. if orr_cloid q = cloid then f q else q"
  note ev = append_logs [OF app]
  have r: "r \<in> set (pg_orders a)" "orr_cloid r = cloid" using r by (auto simp: order_by_cloid_def find_Some_iff)
  have orders: "pg_orders d = map ?f (pg_orders a)"
    using ev frames update_orders_Some [OF upd] by (simp add: logs_event_def same_log_def)
  have ids: "map orr_order_id (pg_orders d) = map orr_order_id (pg_orders a)"
    "map orr_cloid (pg_orders d) = map orr_cloid (pg_orders a)"
    using f by (simp_all add: orders bumps_def)
  have same: "pg_order_events c = pg_order_events a" "pg_outbox c = pg_outbox a" "pg_sequence c = pg_sequence a"
    using frames update_orders_Some [OF upd] by (simp_all add: same_log_def)
  then have logs: "order_log c k = order_log a k" "outbox_log c k = outbox_log a k" for k
    by (simp_all add: order_log_def outbox_log_def)
  have row: "row_logged d q'" if q': "q' \<in> set (pg_orders d)" for q'
  proof -
    obtain q where q: "q \<in> set (pg_orders a)" "q' = ?f q" using q' by (auto simp: orders)
    have old: "row_logged a q" using ok q(1) by (auto simp: log_ok_def)
    have eq: "orr_order_id q = orr_order_id r \<longleftrightarrow> q = r" "orr_cloid q = cloid \<longleftrightarrow> q = r"
      using ok q(1) r by (auto simp: log_ok_def distinct_map inj_on_def)
    have id: "orr_order_id q' = orr_order_id q" using f q(2) by (simp add: bumps_def)
    from logs_event_logs [OF ev, of "orr_order_id q'"] show ?thesis
      using old eq f q(2) by (auto simp: row_logged_def id logs bumps_def upto_rec2)
  qed
  have parts: "events_known (map orr_order_id (pg_orders a)) c" "sequenced c"
    using ok same by (simp_all add: log_ok_def events_known_def sequenced_def)
  have known: "events_known (map orr_order_id (pg_orders d)) d"
    using logs_event_known [OF ev parts(1)] r(1) by (simp add: ids)
  show ?thesis
    using ok row known logs_event_sequenced [OF ev parts(2)] unfolding log_ok_def ids by blast
qed

text \<open>A new row.\<close>

lemma log_new:
  assumes ok: "log_ok a" and new: "insert_order r a1 = Some (b, Inr x)" "orr_revision r = 1"
    and frames: "same_log a a1" "same_log b c"
    and app: "append_event_rows u o' (orr_order_id r) 1 ev j c = Some (d, Inr y)"
  shows "log_ok d"
proof -
  note ev = append_logs [OF app]
  have fresh: "\<forall>q\<in>set (pg_orders a). orr_cloid q \<noteq> orr_cloid r \<and> orr_order_id q \<noteq> orr_order_id r"
    "b = a1\<lparr>pg_orders := pg_orders a1 @ [r]\<rparr>"
    using new(1) frames(1) by (auto simp: insert_order_def st_bind_Some require_def violation_def same_log_def split: if_splits)
  have same: "pg_order_events c = pg_order_events a" "pg_outbox c = pg_outbox a" "pg_sequence c = pg_sequence a"
    using frames fresh(2) by (simp_all add: same_log_def)
  then have logs: "order_log c k = order_log a k" "outbox_log c k = outbox_log a k" for k
    by (simp_all add: order_log_def outbox_log_def)
  have orders: "pg_orders d = pg_orders a @ [r]"
    using ev frames fresh(2) by (simp add: logs_event_def same_log_def)
  have known: "events_known (map orr_order_id (pg_orders a)) a" using ok by (simp add: log_ok_def)
  have none: "order_log a (orr_order_id r) = []" "outbox_log a (orr_order_id r) = []"
    using known fresh(1) by (auto simp: events_known_def order_log_def outbox_log_def filter_empty_conv)
  have row: "row_logged d q" if "q \<in> set (pg_orders d)" for q
  proof (cases "q = r")
    case True
    then show ?thesis using logs_event_logs [OF ev, of "orr_order_id r"] none new(2) by (auto simp: row_logged_def logs)
  next
    case False
    then have "row_logged a q" "orr_order_id q \<noteq> orr_order_id r" using ok that fresh(1) by (auto simp: orders log_ok_def)
    then show ?thesis using logs_event_logs [OF ev, of "orr_order_id q"] by (auto simp: row_logged_def logs)
  qed
  have parts: "events_known (map orr_order_id (pg_orders d)) c" "sequenced c"
    using ok same by (auto simp: log_ok_def events_known_def sequenced_def orders)
  have "events_known (map orr_order_id (pg_orders d)) d"
    using logs_event_known [OF ev parts(1)] by (simp add: orders)
  then show ?thesis
    using ok row fresh(1) logs_event_sequenced [OF ev parts(2)] by (auto simp: log_ok_def orders)
qed

section \<open>Every operation keeps the history\<close>

definition keeps_log :: "pg \<Rightarrow> pg \<Rightarrow> bool" where
  "keeps_log a b \<longleftrightarrow> (log_ok a \<longrightarrow> log_ok b)"

lemma tx_keeps_log:
  assumes "\<And>s s' x. body s = Some (s', Inr (TX_Commit x)) \<Longrightarrow> log_ok s \<Longrightarrow> log_ok s'"
  shows "st_keeps keeps_log (pg_tx body)"
  using assms by (auto simp: st_keeps_def keeps_log_def pg_tx_def split: db_link.splits option.splits sum.splits tx_end.splits)

lemma fetch_order_Some: "fetch_order cloid s = Some (s', Inr r) \<Longrightarrow> s' = s \<and> order_by_cloid cloid s = Some r"
  by (auto simp: fetch_order_def split: option.splits)

lemma project_bumps: "bumps cloid (project_order m revision) revision" "bumps cloid (orr_revision_update (\<lambda>_. revision)) revision"
  by (simp_all add: bumps_def project_order_def)

lemma transition_log: "st_keeps keeps_log (pg_persist_transition ps o' ev cid st)"
  unfolding pg_persist_transition_def Let_def
proof (rule tx_keeps_log, elim st_bind_InrE, goal_cases)
  case (1 s s' x s1 r s2 m s3 y s4 z s5 w s6 v)
  have "same_log s3 s4"
    using 1(5) st_keepsD [OF other_tables_log(2)] same_log.refl by (fastforce split: if_splits)
  moreover have "same_log s4 s5" using st_keepsD [OF small_steps_log(4) 1(6)] .
  ultimately have "same_log s3 s5" by (rule same_log.trans)
  then show ?case
    using 1 fetch_order_Some [OF 1(2)] log_bump [OF 1(1) _ 1(4) project_bumps(1) _ _ 1(7)] by (simp add: same_log.refl)
qed

lemma cancel_requested_log: "st_keeps keeps_log (pg_persist_cancel_requested ps o' cid)"
  unfolding pg_persist_cancel_requested_def Let_def
proof (rule tx_keeps_log, elim st_bind_InrE, goal_cases)
  case (1 s s' x s1 r s2 m s3 y s4 z)
  have "same_log s2 s3" using 1(4) st_keepsD [OF other_tables_log(4)] by fastforce
  then show ?case
    using 1 fetch_order_Some [OF 1(2)] log_bump [OF 1(1) _ 1(3) project_bumps(2) _ _ 1(5)] by (simp add: same_log.refl)
qed

lemma reconcile_log: "st_keeps keeps_log (pg_persist_reconciled_order ps o')"
  unfolding pg_persist_reconciled_order_def
proof (rule tx_keeps_log, elim st_bind_InrE, goal_cases)
  case (1 s s' x s1 k)
  obtain oid revision m where k: "k = (oid, revision, m)" by (cases k)
  obtain s2 y s3 z where st: "append_event_rows (pgs_uuid ps) m oid revision ''reconciled_import'' (order_payload m) s1 = Some (s2, Inr y)"
    "(if order_is_terminal m then release_reservations oid (od_status m) else st_return ()) s2 = Some (s3, Inr z)" "s' = s3"
    using 1(3) by (auto simp: k elim!: st_bind_InrE)
  have "log_ok s2"
  proof (cases "order_by_cloid (od_cloid o') s")
    case None
    obtain s4 oid' u where "draw_uuid (pgs_uuid ps) s = Some (s4, Inr oid')"
      "insert_order (imported_row oid' o' s4) s4 = Some (s1, Inr u)" "k = (oid', 1, o')"
      using 1(2) None by (auto simp: reconcile_row_def elim!: st_bind_InrE)
    then show ?thesis
      using log_new [OF 1(1) _ _ _ same_log.refl, of "imported_row oid' o' s4" s4 s1] st(1) k
        st_keepsD [OF small_steps_log(2)] by (auto simp: imported_row_def order_row_of_def)
  next
    case (Some r)
    have "od_cloid (merge_reconciled now r o') = od_cloid o'" for now
      using Some by (auto simp: merge_reconciled_def to_domain_def order_by_cloid_def find_Some_iff Let_def)
    then obtain mm u where "update_orders (od_cloid o') (project_order mm (orr_revision r + 1)) s = Some (s1, Inr u)"
      "k = (orr_order_id r, orr_revision r + 1, mm)"
      using 1(2) Some by (auto simp: reconcile_row_def Let_def elim!: st_bind_InrE)
    then show ?thesis
      using log_bump [OF 1(1) Some _ project_bumps(1) same_log.refl same_log.refl] st(1) k by auto
  qed
  moreover have "same_log s2 s3"
    using st(2) st_keepsD [OF small_steps_log(5)] same_log.refl by (fastforce split: if_splits)
  ultimately show ?case using same_log_ok st(3) by blast
qed

lemma write_placement_log:
  assumes "write_placement ps oid cid o' risk d reference a1 = Some (s', Inr x)" "log_ok a" "same_log a a1"
  shows "log_ok s'"
  using assms(1) unfolding write_placement_def
proof (elim st_bind_InrE, goal_cases)
  case (1 s1 x1 s2 x2 s3 x3 s4 x4 s5 x5)
  have "same_log s1 s2" "same_log s2 s3" "same_log s3 s4" "same_log s4 s5"
    using 1(2-5) st_keepsD [OF small_steps_log(2) 1(2)] st_keepsD [OF other_tables_log(3)] st_keepsD [OF other_tables_log(1)]
      same_log.refl by (auto simp: same_log_def split: if_splits)
  then have "same_log s1 s5" using same_log.trans by blast
  then show ?case
    using log_new [OF assms(2) _ _ assms(3), of "order_row_of oid (Some cid) 1 (pg_now a1) o'"] 1(1,6)
    by (auto simp: order_row_of_def)
qed

lemma unless_found_E:
  assumes "st_at (\<lambda>s. case q s of None \<Rightarrow> st_bind m f | Some r \<Rightarrow> st_return (TX_Drop (g r))) s = Some (s', Inr (TX_Commit x))"
  obtains s1 e where "m s = Some (s1, Inr e)" "f e s1 = Some (s', Inr (TX_Commit x))"
  using assms by (cases "q s") (auto elim: st_bind_InrE)

lemma placement_log: "st_keeps keeps_log (pg_persist_placement ps o' risk cid d reference)"
  unfolding pg_persist_placement_def placement_body_def Let_def
proof (rule tx_keeps_log, elim st_bind_InrE unless_found_E, goal_cases)
  case (1 s s' x s1 oid s2 e s3 u)
  have "same_log s s1" using st_keepsD [OF small_steps_log(2) 1(2)] .
  moreover have "same_log s1 s2"
    using 1(3) st_keepsD [OF check_scope_log] same_log.refl by (fastforce split: option.splits if_splits)
  ultimately have "log_ok s3" using write_placement_log [OF 1(4,1)] same_log.trans by blast
  then show ?case using 1(5) by simp
qed

text \<open>Commands of the queue are not orders; the bookkeeping of the outbox is not history.\<close>

lemma queue_log: "st_keeps keeps_log (queue_claim q w)" "st_keeps keeps_log (queue_defer_unknown q cid reason)"
proof -
  have "st_keeps same_log (queue_claim q w)" "st_keeps same_log (queue_defer_unknown q cid reason)"
    unfolding queue_claim_def queue_defer_unknown_def lock_command_def Let_def
    by (intro pg_tx_keeps same_log.keeps same_log.refl small_steps_log; simp add: same_log_def expire_leases_def)+
  then show "st_keeps keeps_log (queue_claim q w)" "st_keeps keeps_log (queue_defer_unknown q cid reason)"
    using same_log_ok unfolding st_keeps_def keeps_log_def by blast+
qed

lemma map_outbox_log:
  assumes "\<And>b. obr_sequence (f b) = obr_sequence b \<and> obr_aggregate_type (f b) = obr_aggregate_type b
    \<and> obr_aggregate_id (f b) = obr_aggregate_id b \<and> obr_aggregate_revision (f b) = obr_aggregate_revision b
    \<and> obr_event_type (f b) = obr_event_type b \<and> obr_payload (f b) = obr_payload b"
  shows "keeps_log db (db\<lparr>pg_outbox := map f (pg_outbox db)\<rparr>)"
  using assms by (auto simp: keeps_log_def log_ok_def row_logged_def events_known_def sequenced_def order_log_def
    outbox_log_def filter_map o_def)

interpretation keeps_log: step_order keeps_log
  by unfold_locales (auto simp: keeps_log_def)

lemma outbox_log_ops:
  "st_keeps keeps_log (outbox_claim_batch n w k)" "st_keeps keeps_log (outbox_mark_published e w)"
  "st_keeps keeps_log (outbox_release_claim bd e w err)"
  unfolding outbox_claim_batch_def outbox_mark_published_def outbox_release_claim_def Let_def
  by (intro pg_tx_keeps keeps_log.keeps keeps_log.refl map_outbox_log; auto simp: st_keeps_def)+

lemma append_control_log: "st_keeps keeps_log (outbox_append_control eid ev j)"
  unfolding outbox_append_control_def
proof (rule tx_keeps_log, goal_cases)
  case (1 s s' x)
  then have "s' = s \<or> (pg_orders s' = pg_orders s \<and> pg_order_events s' = pg_order_events s
    \<and> pg_sequence s' = pg_sequence s + 1
    \<and> (\<exists>b. pg_outbox s' = pg_outbox s @ [b] \<and> obr_sequence b = pg_sequence s + 1 \<and> obr_aggregate_type b = ''control''))"
    by (auto elim!: st_bind_InrE split: if_splits)
  then show ?case
    using 1(2) by (fastforce simp: log_ok_def row_logged_def events_known_def sequenced_def order_log_def
      outbox_log_def sorted_wrt_append)
qed

end
