(* ===== verification/HE_Engine_Props.thy ===== *)
theory HE_Engine_Props
  imports HE_Engine_Safety
begin

text \<open>
  The guarantees of the execution engine: a placement is sent only past every gate of the worker, only
  after its durable row and at most once; an outcome nobody confirmed is never reported as one; answers only
  move orders forward. Then concrete runs, for the witnesses and behind the findings.
\<close>

section \<open>An engine with an in-memory store\<close>

definition memory_ops :: "(string \<times> order) list store_ops" where
  "memory_ops =
     \<lparr>so_placement = (\<lambda>o' risk cid d ref st. (AList.update (od_cloid o') o' st, Inr risk)),
      so_transition = (\<lambda>o' ev cid cs st. (AList.update (od_cloid o') o' st, Inr ())),
      so_cancel_requested = (\<lambda>o' cid st. (st, Inr ())),
      so_reconciled = (\<lambda>o' st. (AList.update (od_cloid o') o' st, Inr ())),
      so_load_open = (\<lambda>st. Inr (filter (\<lambda>o'. \<not> order_is_terminal o') (map snd st))),
      so_get = (\<lambda>cloid st. Inr (map_of st cloid))\<rparr>"

definition sample_config :: "(string \<times> order) list engine_config" where
  "sample_config =
     \<lparr>ec_store = memory_ops, ec_account_address = ''0xabc'', ec_deferred = False, ec_stale_seconds = F64_Fin 5,
      ec_durable_kill = False, ec_provider = False, ec_normalizer = None,
      ec_asset_index = Some (\<lambda>symb. if symb = ''BTC'' then Some 0 else None), ec_sha256 = id,
      ec_json_text = (\<lambda>_. ''text'')\<rparr>"

definition sample_gates :: gates where
  "sample_gates =
     \<lparr>gt_kill = kill_switch_new True, gt_safety = Some (safety_new SM_Normal), gt_checker = None,
      gt_limiter = None, gt_budget = None\<rparr>"

definition sample_cloid :: string where
  "sample_cloid = ''0x00000000000000000000000000000001''"

definition sample_intent :: order_intent where
  "sample_intent =
     \<lparr>oi_symbol = ''BTC'', oi_side = Buy, oi_size = Dec (2 * SCALE_I128), oi_price = Some (Dec (100 * SCALE_I128)),
      oi_order_type = OT_Limit, oi_tif = Gtc, oi_strategy_id = None, oi_sub_account = None,
      oi_reduce_only = False, oi_cloid = Some sample_cloid, oi_client_id = None, oi_is_spot = False,
      oi_risk_reducing = False, oi_max_slippage_bps = 50\<rparr>"

definition no_account :: account_view where
  "no_account = \<lparr>av_account_state = None, av_position = (\<lambda>_. None), av_last_update_ts = None\<rparr>"

definition sample_worker :: "string + json \<Rightarrow> worker_inputs" where
  "sample_worker answer =
     \<lparr>wi_others = id, wi_now = 0, wi_nonce = 7, wi_snapshot = Inr None, wi_clock = (\<lambda>_. (0, 0)), wi_cut = None,
      wi_view = no_account, wi_deadline = False, wi_exchange = answer\<rparr>"

definition sample_admission :: admission_inputs where
  "sample_admission =
     \<lparr>ai_now = 0, ai_best = Inr None, ai_snapshot = Inr None, ai_view = no_account, ai_deadline = False,
      ai_command_id = ''cmd''\<rparr>"

text \<open>The transport fails and the status query knows nothing.\<close>

definition lost_submission :: submit_inputs where
  "lost_submission =
     \<lparr>si_admission = sample_admission, si_fate = WF_Answered (sample_worker (Inl ''connection reset'')),
      si_query = Inr None, si_now = 0\<rparr>"

definition sample_engine :: "(string \<times> order) list engine" where
  "sample_engine = engine_new sample_gates (Some [])"

definition sample_wire :: order_wire where
  "sample_wire = \<lparr>ow_asset = 0, ow_is_buy = True, ow_price = ''100'', ow_size = ''2'', ow_reduce_only = False,
     ow_tif = ''Gtc'', ow_cloid = Some sample_cloid\<rparr>"

definition lost_run :: "((string \<times> order) list engine \<times> (hypeedge_error + order)) option" where
  "lost_run = submit_order_inner sample_config lost_submission sample_intent None False sample_engine"

lemma lost_run_value:
  "map_option (\<lambda>(s, r). (filter is_send (en_trace s), map_sum error_code od_status r)) lost_run =
     Some ([EE_Order sample_wire 7], Inr SubmitUnknown)"
  by code_simp

section \<open>Properties\<close>

text \<open>C2: past every gate. Whatever other tasks do to the gates between admission and the worker, if a
  submission puts an order on the wire then it is the only effect, and in the gates that the worker found
  the kill switch lets orders pass, the safety mode permits this placement, the action credits suffice, the
  IP weight was granted, the budget permits the request, and the risk checker passes the order at a reference
  price that, for a market order with a market data provider, is a fresh snapshot from which the wire was
  rebuilt.
\<close>

theorem placement_gated:
  assumes "submit_to_exchange cfg fate query em i cloid reference s = Some (s', outcome)"
    and "EE_Order wr n \<in> set (drop (length (en_trace s)) (en_trace s'))"
  shows "en_trace s' = en_trace s @ [EE_Order wr n] \<and> (\<exists>w g ref. ran fate w \<and> g = wi_others w (en_gates s)
    \<and> ks_check (gt_kill g) = Inr ()
    \<and> (\<forall>sf. gt_safety g = Some sf \<longrightarrow> check_placement sf i = Inr ())
    \<and> (\<forall>rl. gt_limiter g = Some rl \<longrightarrow> check_action_credits (wi_now w) rl)
    \<and> snd (acquire_exchange_weight 1 (wi_clock w) (wi_cut w) (gt_limiter g)) = Inr ()
    \<and> (\<forall>rk. gt_checker g = Some rk \<longrightarrow>
         (\<exists>rk' result. risk_check rk (wi_view w) (wi_now w) (wi_deadline w) i ref = Some (rk', result) \<and> rc_passed result))
    \<and> (\<forall>b p. gt_budget g = Some b \<and> permission (wi_now w) (wi_now w) (placement_request em i) b = Some (Inr p) \<longrightarrow>
         bp_allowed p)
    \<and> build_order_wire cfg i cloid ref = Some (Inr wr)
    \<and> (oi_order_type i = OT_Market \<and> ec_provider cfg \<longrightarrow>
         (\<exists>snap. wi_snapshot w = Inr (Some snap) \<and> snapshot_fresh cfg (wi_now w) snap \<and> ref = Some (mp_price snap))))"
proof -
  have "\<not> sends_nothing s s'" using assms(2) by (force simp: sends_nothing_def list_ex_iff)
  then obtain w wire wire' where w: "ran fate w" "build_order_wire cfg i cloid reference = Some (Inr wire)"
    "en_trace s' = en_trace s @ [EE_Order wire' (wi_nonce w)]"
    "all_gates_pass cfg w em i cloid wire reference (wi_others w (en_gates s)) wire'"
    using submit_to_exchange_cases [OF assms(1)] unfolding sent_once_def by blast
  then have eq: "wr = wire'" "n = wi_nonce w" using assms(2) by auto
  from w(4) obtain ref where ref: "repriced cfg w i cloid wire reference wire' ref"
    "risk_admits w i ref (wi_others w (en_gates s))" by (auto simp: all_gates_pass_def)
  have g: "run_gates i (wi_others w (en_gates s)) = Inr ()" "\<not> credits_low (wi_now w) (wi_others w (en_gates s))"
    "budget_admits w em i (wi_others w (en_gates s))"
    "snd (acquire_exchange_weight 1 (wi_clock w) (wi_cut w) (gt_limiter (wi_others w (en_gates s)))) = Inr ()"
    using w(4) by (simp_all add: all_gates_pass_def)
  show ?thesis
  proof (intro conjI exI [of _ w] exI [of _ "wi_others w (en_gates s)"] exI [of _ ref])
    show "ks_check (gt_kill (wi_others w (en_gates s))) = Inr ()"
      "\<forall>sf. gt_safety (wi_others w (en_gates s)) = Some sf \<longrightarrow> check_placement sf i = Inr ()"
      using g(1) by (auto simp: run_gates_def split: sum.splits)
    show "\<forall>b p. gt_budget (wi_others w (en_gates s)) = Some b \<and>
        permission (wi_now w) (wi_now w) (placement_request em i) b = Some (Inr p) \<longrightarrow> bp_allowed p"
      using g(3) by (auto simp: budget_admits_def)
    show "build_order_wire cfg i cloid ref = Some (Inr wr)"
      using ref(1) w(2) eq by (auto simp: repriced_def split: if_splits)
    show "oi_order_type i = OT_Market \<and> ec_provider cfg \<longrightarrow>
        (\<exists>snap. wi_snapshot w = Inr (Some snap) \<and> snapshot_fresh cfg (wi_now w) snap \<and> ref = Some (mp_price snap))"
      using ref(1) by (auto simp: repriced_def)
  qed (use w eq g ref(2) in \<open>auto simp: credits_low_def risk_admits_def\<close>)
qed

text \<open>C3: written ahead, sent at most once. A call of the submission path puts at most one order on the wire.
  When it does, the cloid was bound to no earlier order, the order it carries was Submitted, and, when a
  durable store is configured, the only things that happened before the send in this call are the durable
  placement, which passed the risk verdict of the store, and the submitted event.
\<close>

theorem submit_write_ahead:
  assumes "submit_order_inner cfg x i deferred em s = Some (s', r)"
  shows "\<exists>new. en_trace s' = en_trace s @ new \<and> length (filter is_send new) \<le> 1
    \<and> (\<forall>pre wr n post. new = pre @ EE_Order wr n # post \<longrightarrow>
        (\<exists>o'. find_existing cfg (od_cloid o') s = Inr None \<and> od_status o' = Submitted
          \<and> ow_cloid wr = Some (to_hl_cloid (ec_sha256 cfg) (od_cloid o'))
          \<and> (if en_store s = None then pre = [EE_Publish EV_Submitted o']
             else \<exists>rr. rc_passed rr \<and> pre = [EE_Placement o' rr True, EE_Publish EV_Submitted o'])))"
  using assms
proof (cases rule: submitE)
  case local
  then obtain new where "en_trace s' = en_trace s @ new" "\<not> list_ex is_send new" by (auto simp: sends_nothing_def)
  then show ?thesis by (intro exI [of _ new]) (auto simp: list_ex_iff filter_empty_conv)
next
  case (dispatched s1 o' i' ref)
  note a = admit_dispatch [OF dispatched(1)]
  obtain pre0 where pre0: "en_trace s1 = en_trace s @ pre0" "\<not> list_ex is_send pre0"
    "if en_store s = None then pre0 = [EE_Publish EV_Submitted o']
     else \<exists>rr. rc_passed rr \<and> pre0 = [EE_Placement o' rr True, EE_Publish EV_Submitted o']"
    using a by (cases "en_store s = None") auto
  obtain s2 outcome s3 o3 r3 where d:
    "submit_to_exchange cfg (si_fate x) (si_query x) em i' (od_cloid o') ref s1 = Some (s2, outcome)"
    "apply_outcome cfg (si_now x) (Some (ai_command_id (si_admission x))) outcome (s2, o') = Some ((s3, o3), r3)"
    "en_trace s' = en_trace s3" using dispatchE [OF dispatched(2)] by metis
  have "quiet_pair (s2, o') (s3, o3)" using st_keepsD [OF quiet_order.outcome d(2)] .
  then obtain post0 where post0: "en_trace s' = en_trace s2 @ post0" "\<not> list_ex is_send post0"
    using d(3) by (auto simp: quiet_pair_def sends_nothing_def)
  obtain mid where mid: "en_trace s2 = en_trace s1 @ mid"
    "\<not> list_ex is_send mid \<or> (\<exists>wr n. mid = [EE_Order wr n] \<and> ow_cloid wr = Some (to_hl_cloid (ec_sha256 cfg) (od_cloid o')))"
    using submit_to_exchange_cases [OF d(1)] sent_once_wire [of cfg "si_fate x" em i' "od_cloid o'" ref s1 s2]
    by (auto simp: sends_nothing_def)
  have "en_trace s' = en_trace s @ (pre0 @ mid @ post0)" using pre0 mid post0 by simp
  moreover have "length (filter is_send (pre0 @ mid @ post0)) \<le> 1"
    using pre0(2) mid(2) post0(2) by (auto simp: list_ex_iff filter_empty_conv)
  moreover have "pre = pre0 \<and> ow_cloid wr = Some (to_hl_cloid (ec_sha256 cfg) (od_cloid o'))"
    if "pre0 @ mid @ post0 = pre @ EE_Order wr n # post" for pre wr n post
  proof -
    from mid(2) show ?thesis
    proof
      assume "\<not> list_ex is_send mid"
      then have "\<forall>z \<in> set (pre0 @ mid @ post0). \<not> is_send z" using pre0(2) post0(2) by (auto simp: list_ex_iff)
      then show ?thesis unfolding that by auto
    next
      assume "\<exists>wr n. mid = [EE_Order wr n] \<and> ow_cloid wr = Some (to_hl_cloid (ec_sha256 cfg) (od_cloid o'))"
      then obtain w k where m: "mid = [EE_Order w k]" "ow_cloid w = Some (to_hl_cloid (ec_sha256 cfg) (od_cloid o'))" by blast
      have "pre = pre0 \<and> EE_Order wr n = EE_Order w k"
        using that m(1) pre0(2) post0(2) by (intro unique_split [where P = is_send]) (auto simp: list_ex_iff)
      then show ?thesis using m(2) by simp
    qed
  qed
  ultimately show ?thesis using a pre0(3) by (intro exI [of _ "pre0 @ mid @ post0"]) (auto intro!: exI [of _ o'])
qed

text \<open>C4: no answer is no outcome. When a placement went out and neither the exchange nor the status query
  answered, the order that the call returns, and the copy it leaves in memory, is SubmitUnknown; and a
  call never returns an order as Acknowledged, PartialFill or Filled unless the exchange or the query
  answered.
\<close>

theorem no_answer_is_unknown:
  assumes "dispatch cfg x em o' i ref s = Some (s', Inr o'')"
    and "\<forall>j. \<not> confirmed (si_fate x) (si_query x) j"
  shows "(list_ex is_send (drop (length (en_trace s)) (en_trace s')) \<longrightarrow>
        od_status o'' = SubmitUnknown \<and> order_load (od_cloid o'') s' = Some o'')
    \<and> od_status o'' \<in> {SubmitUnknown, Cancelled, Rejected}"
proof -
  obtain s1 outcome s2 o2 r2 where d:
    "submit_to_exchange cfg (si_fate x) (si_query x) em i (od_cloid o') ref s = Some (s1, outcome)"
    "apply_outcome cfg (si_now x) (Some (ai_command_id (si_admission x))) outcome (s1, o') = Some ((s2, o2), r2)"
    "en_trace s' = en_trace s2" "Inr o'' = map_sum id (\<lambda>_. o2) r2" "r2 = Inr () \<longrightarrow> s' = order_store o2 s2"
    using dispatchE [OF assms(1)] by metis
  then have r: "r2 = Inr ()" "o'' = o2" by (cases r2; simp)+
  have "quiet_pair (s1, o') (s2, o2)" using st_keepsD [OF quiet_order.outcome d(2)] .
  then have tail: "sends_nothing s1 s2" by (simp add: quiet_pair_def)
  note cs = submit_to_exchange_cases [OF d(1)]
  have no_response: "outcome \<noteq> SO_Response j" for j using cs assms(2) by blast
  have unknown: "outcome = SO_Timeout \<longrightarrow> od_status o2 = SubmitUnknown"
    using d(2) r by (auto simp: apply_outcome_def intro: settle_status)
  have status: "od_status o2 \<in> {SubmitUnknown, Cancelled, Rejected}"
    using d(2) r no_response
    by (cases outcome) (auto simp: apply_outcome_def reject_with_def dest: settle_status)
  have "order_load (od_cloid o2) s' = Some o2" using d(5) r by (simp add: order_load_def order_store_def update_conv')
  moreover have "outcome = SO_Timeout" if "list_ex is_send (drop (length (en_trace s)) (en_trace s'))"
  proof -
    have "\<not> sends_nothing s s1"
      using that tail d(3) by (auto simp: sends_nothing_def)
    then show ?thesis using cs no_response by blast
  qed
  ultimately show ?thesis using unknown status r by simp
qed

text \<open>C5: answers only move orders forward. Whatever the exchange, the status query or a durable command
  makes the engine do with an order, on success and on every error path, its status moves along legal
  transitions of the life cycle and what was ordered never changes; so an order that is filled, cancelled,
  rejected or expired keeps that status for good.\<close>

theorem answers_advance_orders:
  assumes "(\<exists>r. apply_outcome cfg now cid outcome (s, o') = Some ((s', o''), r))
    \<or> (\<exists>r. handle_submit_response cfg now cid answer (s, o') = Some ((s', o''), r))
    \<or> (\<exists>r. handle_cancel_response cfg now cid answer (s, o') = Some ((s', o''), r))
    \<or> (\<exists>r. cancel_unresolved cfg reason cid (s, o') = Some ((s', o''), r))
    \<or> (\<exists>r. resolve_command cfg d cmd (s, o') = Some ((s', o''), r))
    \<or> (\<exists>r. dispatch_command cfg d cmd (s, o') = Some ((s', o''), r))"
  shows "can_transition\<^sup>*\<^sup>* (od_status o') (od_status o'') \<and> intent_from_order o'' = intent_from_order o'
    \<and> (is_terminal (od_status o') \<longrightarrow> od_status o'' = od_status o')"
proof -
  have "advances (s, o') (s', o'')"
    using assms
    by (elim disjE exE) (erule st_keepsD [OF moves.outcome] st_keepsD [OF moves.submit_response]
      st_keepsD [OF moves.cancel_response] st_keepsD [OF moves.unresolved]
      st_keepsD [OF moves.resolve] st_keepsD [OF dispatch_command_moves])+
  then have path: "can_transition\<^sup>*\<^sup>* (od_status o') (od_status o'')" "intent_from_order o'' = intent_from_order o'"
    by (simp_all add: advances_def)
  moreover have "od_status o'' = od_status o'" if "is_terminal (od_status o')"
    using path(1) that by (cases rule: converse_rtranclpE) (auto simp: terminal_iff_no_successor)
  ultimately show ?thesis by blast
qed

section \<open>Witnesses\<close>

definition submitted_order :: order where
  "submitted_order = (order_of_intent 0 sample_cloid sample_intent)\<lparr>od_status := Submitted\<rparr>"

lemma lost_exchange:
  "map_option (\<lambda>(s, r). (en_trace s, r)) (submit_to_exchange sample_config (si_fate lost_submission) (Inr None) False
     sample_intent sample_cloid (Some (Dec (100 * SCALE_I128))) sample_engine) =
   Some ([EE_Order sample_wire 7], SO_Timeout)"
  by code_simp

lemma sample_engine_trace: "en_trace sample_engine = []"
  by (simp add: sample_engine_def engine_new_def)

theorem placement_gated_witness:
  "\<exists>s' outcome. submit_to_exchange sample_config (si_fate lost_submission) (Inr None) False
     sample_intent sample_cloid (Some (Dec (100 * SCALE_I128))) sample_engine = Some (s', outcome)
   \<and> (\<exists>w g. ran (si_fate lost_submission) w \<and> g = wi_others w (en_gates sample_engine) \<and> ks_check (gt_kill g) = Inr ())"
proof -
  obtain s' outcome where run: "submit_to_exchange sample_config (si_fate lost_submission) (Inr None) False
      sample_intent sample_cloid (Some (Dec (100 * SCALE_I128))) sample_engine = Some (s', outcome)"
    "en_trace s' = [EE_Order sample_wire 7]"
    using lost_exchange by auto
  then show ?thesis using placement_gated [OF run(1), of sample_wire 7] by (auto simp: sample_engine_trace)
qed

theorem submit_write_ahead_witness:
  "\<exists>s' r new. lost_run = Some (s', r) \<and> en_trace s' = new \<and> filter is_send new = [EE_Order sample_wire 7]
    \<and> length (filter is_send new) \<le> 1"
proof -
  obtain s' r where run: "lost_run = Some (s', r)" "filter is_send (en_trace s') = [EE_Order sample_wire 7]"
    using lost_run_value by auto
  then show ?thesis using submit_write_ahead [OF run(1)[unfolded lost_run_def]] by (auto simp: sample_engine_trace)
qed

definition lost_dispatch :: "((string \<times> order) list engine \<times> (hypeedge_error + order)) option" where
  "lost_dispatch = dispatch sample_config lost_submission False submitted_order sample_intent
     (Some (Dec (100 * SCALE_I128))) sample_engine"

lemma lost_dispatch_value:
  "map_option (\<lambda>(s, r). (list_ex is_send (en_trace s), map_sum error_code od_cloid r)) lost_dispatch =
     Some (True, Inr sample_cloid)"
  by code_simp

theorem no_answer_is_unknown_witness:
  "\<exists>s' o'. lost_dispatch = Some (s', Inr o') \<and> od_status o' = SubmitUnknown \<and> order_load (od_cloid o') s' = Some o'"
proof -
  obtain s' r where run: "lost_dispatch = Some (s', r)" "list_ex is_send (en_trace s')"
    "map_sum error_code od_cloid r = Inr sample_cloid" using lost_dispatch_value by auto
  then obtain o' where o': "r = Inr o'" by (cases r) auto
  have "\<forall>j. \<not> confirmed (si_fate lost_submission) (si_query lost_submission) j"
    by (simp add: confirmed_def lost_submission_def sample_worker_def)
  from no_answer_is_unknown [OF run(1)[unfolded o' lost_dispatch_def] this] run o'
  show ?thesis by (intro exI [of _ s'] exI [of _ o']) (simp add: sample_engine_trace)
qed

text \<open>A fill that arrives after the order was cancelled is refused.\<close>

definition fill_answer :: json where
  "fill_answer = JObj [(''status'', JStr ''ok''), (''response'', JObj [(''data'', JObj [(''statuses'',
     JArr [JObj [(''filled'', JObj [(''totalSz'', JStr ''2''), (''avgPx'', JStr ''100'')])]])])])]"

lemma late_fill_value:
  "map_option (\<lambda>(_, r). map_sum error_code id r) (handle_submit_response sample_config 0 None fill_answer
     (sample_engine, submitted_order\<lparr>od_status := Cancelled\<rparr>)) = Some (Inl ''invalid_state_transition'')"
  by code_simp

theorem answers_advance_orders_witness:
  "\<exists>s' o' r. handle_submit_response sample_config 0 None fill_answer
      (sample_engine, submitted_order\<lparr>od_status := Cancelled\<rparr>) = Some ((s', o'), r)
    \<and> od_status o' = Cancelled"
proof -
  obtain s' o' r where run: "handle_submit_response sample_config 0 None fill_answer
      (sample_engine, submitted_order\<lparr>od_status := Cancelled\<rparr>) = Some ((s', o'), r)"
    using late_fill_value by auto
  have "od_status o' = Cancelled"
    using answers_advance_orders [of sample_config 0 None SO_Timeout sample_engine
        "submitted_order\<lparr>od_status := Cancelled\<rparr>" s' o' fill_answer] run
    by (auto simp: is_terminal_def)
  then show ?thesis using run by blast
qed

section \<open>Runs behind the findings\<close>

text \<open>
  \<open>cancel_all_orders\<close> with a first order whose asset is unknown: one wire is sent, for the second order. Its
  success is booked on the first order, which no cancel ever named, and the second is left in doubt.
\<close>

definition stray_order :: order where
  "stray_order = submitted_order\<lparr>od_cloid := ''stray'', od_symbol := ''XYZ'', od_status := Acknowledged\<rparr>"

definition live_order :: order where
  "live_order = submitted_order\<lparr>od_status := Acknowledged\<rparr>"

definition success_answer :: json where
  "success_answer = JObj [(''status'', JStr ''ok''), (''response'', JObj [(''data'', JObj [(''statuses'',
     JArr [JStr ''success''])])])]"

lemma cancel_all_misattributes:
  "map_option (\<lambda>(s, n). (n, map (\<lambda>(c, o'). (c, od_status o')) (en_orders s),
        filter (\<lambda>e. case e of EE_Cancel _ _ \<Rightarrow> True | _ \<Rightarrow> False) (en_trace s)))
     (cancel_all_orders sample_config 0 (\<lambda>_. WF_Answered (sample_worker (Inr success_answer))) None
       (order_store live_order (order_store stray_order sample_engine))) =
   Some (1, [(''stray'', Cancelled), (sample_cloid, CancelUnknown)],
     [EE_Cancel [\<lparr>cw_asset = 0, cw_cloid = sample_cloid\<rparr>] 7])"
  by code_simp

text \<open>
  A partial fill merged from the acknowledgement and the full fill found by a later status query credit the
  action budget with the volumes 100 and 200 of one order of volume 200.
\<close>

definition partial_answer :: json where
  "partial_answer = JObj [(''status'', JStr ''ok''), (''response'', JObj [(''data'', JObj [(''statuses'',
     JArr [JObj [(''resting'', JObj [(''oid'', JNum ''1'')]),
       (''filled'', JObj [(''totalSz'', JStr ''1''), (''avgPx'', JStr ''100'')])]])])])]"

definition filled_lookup :: json where
  "filled_lookup = JObj [(''status'', JStr ''order''), (''order'', JObj [(''status'', JStr ''filled''),
     (''order'', JObj [(''totalSz'', JStr ''2''), (''avgPx'', JStr ''100'')])])]"

definition budget_engine :: "(string \<times> order) list engine" where
  "budget_engine = sample_engine\<lparr>en_gates := sample_gates\<lparr>gt_budget := Some sample_budget\<rparr>\<rparr>"


definition credited_volumes :: "'s engine \<Rightarrow> decimal list" where
  "credited_volumes s = (case gt_budget (en_gates s) of Some b \<Rightarrow> map fc_volume_usdc (bg_fills b) | None \<Rightarrow> [])"

lemma fill_credited_twice:
  "map_option (\<lambda>((s, o'), r). (map raw (credited_volumes s), raw (od_filled_size o')))
     (st_bind (handle_submit_response sample_config 0 None partial_answer)
       (\<lambda>_. handle_submit_response sample_config 1 None filled_lookup) (budget_engine, submitted_order)) =
   Some ([100 * SCALE_I128, 200 * SCALE_I128], 2 * SCALE_I128)"
  by code_simp

text \<open>A halted safety controller does not stop a leverage update.\<close>

lemma leverage_ignores_safety_mode:
  "map_option (\<lambda>(s, r). (en_trace s, r)) (update_leverage sample_config (WF_Answered (sample_worker (Inr JNull)))
     ''BTC'' 5 True (sample_engine\<lparr>en_gates := sample_gates\<lparr>gt_safety := Some (safety_new SM_Halted)\<rparr>\<rparr>)) =
   Some ([EE_Leverage 0 True 5 7], Inr JNull)"
  by code_simp

text \<open>The address ledger is debited although the send failed.\<close>

lemma failed_send_debited:
  "map_option (\<lambda>(s, r). (map_option (length \<circ> bg_attempts) (gt_budget (en_gates s)), r))
     (w_send (sample_worker (Inl ''refused'')) False sample_intent sample_cloid sample_wire budget_engine) =
   Some (Some (Suc (length (bg_attempts sample_budget))), Inl (WE_Transport ''refused''))"
  by code_simp

end
