(* ===== verification/HE_Store_Props.thy ===== *)
theory HE_Store_Props
  imports HE_Store_Log HE_Engine_Props
begin

text \<open>
  The guarantees of the durable store: a complete history, rows that only advance, and a position limit that
  holds for every way in which the outstanding reservations may still fill.
\<close>

section \<open>Rows that only advance\<close>

definition row_advances :: "order_row \<Rightarrow> order_row \<Rightarrow> bool" where
  "row_advances r r' \<longleftrightarrow> orr_order_id r' = orr_order_id r \<and> orr_cloid r' = orr_cloid r \<and> orr_size r' = orr_size r
     \<and> orr_filled_size r \<le> orr_filled_size r' \<and> orr_revision r \<le> orr_revision r'
     \<and> (is_terminal (row_status r) \<longrightarrow> row_status r' = row_status r)"

lemma row_advances_refl: "row_advances r r"
  by (simp add: row_advances_def)

lemma merge_keeps:
  assumes "merge_transport_transition r o' = Inr m"
  shows "od_filled_size m \<ge> orr_filled_size r" "is_terminal (row_status r) \<Longrightarrow> od_status m = row_status r"
proof -
  define d where "d = to_domain r"
  have d: "od_filled_size d = orr_filled_size r" "od_status d = row_status r" by (simp_all add: d_def to_domain_def)
  have m: "od_filled_size m = (if od_filled_size o' > od_filled_size d then od_filled_size o' else od_filled_size d)"
    "is_terminal (od_status d) \<longrightarrow> od_status m = od_status d"
    using assms
    by (cases "od_exchange_oid o' \<noteq> None \<and> od_exchange_oid d \<noteq> None \<and> od_exchange_oid d \<noteq> od_exchange_oid o'";
      clarsimp simp: merge_transport_transition_def Let_def d_def [symmetric] simp del: not_None_eq)+
  show "od_filled_size m \<ge> orr_filled_size r" using m(1) by (simp add: d less_imp_le)
  show "is_terminal (row_status r) \<Longrightarrow> od_status m = row_status r" using m(2) by (simp add: d)
qed

lemma project_advances:
  assumes "merge_transport_transition r o' = Inr m"
  shows "row_advances r (project_order m (orr_revision r + 1) r)"
  using merge_keeps [OF assms] by (simp add: row_advances_def project_order_def row_status_def order_status_codec.read_write)

lemma update_advances:
  assumes "update_orders cloid f a = Some (b, Inr x)" "order_by_cloid cloid a = Some r" "row_advances r (f r)"
    and "distinct (map orr_cloid (pg_orders a))"
  shows "list_all2 row_advances (pg_orders a) (pg_orders b)"
proof -
  have "r \<in> set (pg_orders a)" "orr_cloid r = cloid" using assms(2) by (auto simp: order_by_cloid_def find_Some_iff)
  then have "q = r" if "q \<in> set (pg_orders a)" "orr_cloid q = cloid" for q
    using assms(4) that by (auto simp: distinct_map inj_on_def)
  then show ?thesis
    using update_orders_Some [OF assms(1)] assms(3) by (auto simp: list.rel_map list.rel_refl_strong row_advances_refl list_all2_same)
qed

lemma tx_advances:
  assumes "pg_tx body s = Some (s', r)"
    and "\<And>s' x. body s = Some (s', Inr (TX_Commit x)) \<Longrightarrow> list_all2 row_advances (pg_orders s) (pg_orders s')"
  shows "list_all2 row_advances (pg_orders s) (pg_orders s')"
  using assms by (auto simp: pg_tx_def list.rel_refl row_advances_refl split: db_link.splits option.splits sum.splits tx_end.splits)

lemma later_rows:
  "list_all2 row_advances (pg_orders a) (pg_orders b) \<Longrightarrow> same_log b c \<Longrightarrow> list_all2 row_advances (pg_orders a) (pg_orders c)"
  by (simp add: same_log_def)

section \<open>Positions under every fill\<close>

text \<open>The reservations that may still open exposure, and the position of an account in a symbol.\<close>

definition open_reservations :: "string option \<Rightarrow> pg \<Rightarrow> reservation_row list" where
  "open_reservations sub db = filter (\<lambda>r. \<not> rsv_reduce_only r)
     (filter (\<lambda>r. rsv_status r = ''active'' \<and> rsv_sub_account r = sub) (pg_reservations db))"

definition held_position :: "string option \<Rightarrow> string \<Rightarrow> pg \<Rightarrow> decimal" where
  "held_position sub symb db = position_size_of symb (filter (\<lambda>p. por_sub_account p = sub) (pg_positions db))"

text \<open>Fills of the reservations of a symbol, each bought or sold.\<close>

definition net_fill :: "(reservation_row \<Rightarrow> int) \<Rightarrow> string \<Rightarrow> reservation_row list \<Rightarrow> int" where
  "net_fill f symb rs = (\<Sum>r\<leftarrow>rs. if rsv_symbol r = symb then (if rsv_side r = ''buy'' then f r else - f r) else 0)"

definition may_fill :: "(reservation_row \<Rightarrow> int) \<Rightarrow> reservation_row list \<Rightarrow> bool" where
  "may_fill f rs \<longleftrightarrow> (\<forall>r\<in>set rs. 0 \<le> f r \<and> f r \<le> raw (rsv_size r))"

definition total_reserved :: "reservation_row list \<Rightarrow> int" where
  "total_reserved rs = (\<Sum>r\<leftarrow>rs. raw (rsv_size r))"

definition side_total :: "string \<Rightarrow> bool \<Rightarrow> reservation_row list \<Rightarrow> int" where
  "side_total symb buy rs = (\<Sum>r\<leftarrow>rs. if rsv_symbol r = symb \<and> (rsv_side r = ''buy'') = buy then raw (rsv_size r) else 0)"

lemma side_total_bounds:
  assumes "\<forall>r\<in>set rs. 0 \<le> raw (rsv_size r)"
  shows "0 \<le> side_total symb b rs \<and> side_total symb True rs + side_total symb False rs \<le> total_reserved rs"
  using assms by (induction rs) (auto simp: side_total_def total_reserved_def)

lemma net_fill_bounds:
  assumes "may_fill f rs"
  shows "- side_total symb False rs \<le> net_fill f symb rs \<and> net_fill f symb rs \<le> side_total symb True rs"
  using assms by (induction rs) (auto simp: may_fill_def net_fill_def side_total_def)

lemma raw_sum_reserved:
  assumes "\<forall>r\<in>set rs. 0 \<le> raw (rsv_size r)" "total_reserved rs \<le> i128_max"
  shows "raw (sum_reserved symb b rs) = side_total symb b rs"
proof -
  have "raw (fold (\<lambda>r acc. if rsv_symbol r = symb \<and> (rsv_side r = ''buy'') = b then acc + rsv_size r else acc) rs d)
      = raw d + side_total symb b rs" if "0 \<le> raw d" "raw d + total_reserved rs \<le> i128_max" for d
    using assms(1) that
  proof (induction rs arbitrary: d)
    case Nil then show ?case by (simp add: side_total_def)
  next
    case (Cons r rs)
    have rest: "0 \<le> total_reserved rs" using Cons.prems(1) by (auto simp: total_reserved_def intro!: sum_list_nonneg)
    have le: "raw d + raw (rsv_size r) + total_reserved rs \<le> i128_max" using Cons.prems(3) by (simp add: total_reserved_def)
    have "raw (d + rsv_size r) = raw d + raw (rsv_size r)"
      using Cons.prems(1,2) le rest by (simp add: sat_i128_def i128_min_def)
    then show ?case using Cons le by (simp add: side_total_def del: raw_add)
  qed
  from this [of ZERO] show ?thesis using assms by (simp add: sum_reserved_def)
qed

text \<open>The worst case of the store bounds every fill, partial fills included.\<close>

lemma worst_case_covers:
  assumes sizes: "\<forall>r\<in>set rs. 0 \<le> raw (rsv_size r)" "0 \<le> raw (od_size o')" "\<not> od_reduce_only o'"
    and room: "\<bar>raw held\<bar> + raw (od_size o') + total_reserved rs \<le> i128_max"
    and held: "held = position_size_of (od_symbol o') ps"
    and fills: "may_fill f rs" "0 \<le> g" "g \<le> raw (od_size o')"
  shows "\<bar>raw held + net_fill f (od_symbol o') rs + (if od_side o' = Buy then g else - g)\<bar> \<le> raw (worst_symbol_size o' ps rs)"
proof -
  define buys sells where "buys = raw (reserved_with o' (od_symbol o') True rs)"
    and "sells = raw (reserved_with o' (od_symbol o') False rs)"
  let ?B = "side_total (od_symbol o') True rs" and ?S = "side_total (od_symbol o') False rs"
  note bounds = side_total_bounds [OF sizes(1)] net_fill_bounds [OF fills(1), of "od_symbol o'"]
  have total: "total_reserved rs \<le> i128_max" using room sizes(2) by linarith
  have parts: "0 \<le> ?B" "0 \<le> ?S" "?B + ?S \<le> total_reserved rs"
    using bounds(1) [of "od_symbol o'" True] bounds(1) [of "od_symbol o'" False] by simp_all
  have sums: "raw (sum_reserved (od_symbol o') True rs) = ?B" "raw (sum_reserved (od_symbol o') False rs) = ?S"
    by (simp_all add: raw_sum_reserved [OF sizes(1) total])
  have "buys = ?B + (if od_side o' = Buy then raw (od_size o') else 0)"
    "sells = ?S + (if od_side o' = Buy then 0 else raw (od_size o'))"
    using parts room sizes(2,3)
    by (auto simp: buys_def sells_def reserved_with_def Let_def sums sat_i128_def i128_min_def)
  then have sides: "net_fill f (od_symbol o') rs + (if od_side o' = Buy then g else - g) \<le> buys"
    "- sells \<le> net_fill f (od_symbol o') rs + (if od_side o' = Buy then g else - g)"
    "0 \<le> buys" "0 \<le> sells" "\<bar>raw held\<bar> + buys + sells \<le> i128_max"
    using bounds(2) fills(2,3) parts room sizes(2) by auto
  have "raw (dec_abs (held + reserved_with o' (od_symbol o') True rs)) = \<bar>raw held + buys\<bar>"
    "raw (dec_abs (held - reserved_with o' (od_symbol o') False rs)) = \<bar>raw held - sells\<bar>"
    using sides(3-5) unfolding buys_def sells_def
    by (auto simp: dec_abs_def checked_i128_def sat_i128_def i128_min_def i128_max_def in_i128_def)
  then have "\<bar>raw held + buys\<bar> \<le> raw (worst_symbol_size o' ps rs)" "\<bar>raw held - sells\<bar> \<le> raw (worst_symbol_size o' ps rs)"
    by (auto simp: worst_symbol_size_def Let_def held max_def dec_le_iff)
  then show ?thesis using sides(1,2) by linarith
qed

text \<open>A verdict that passes.\<close>

lemma check_exposure_passed:
  assumes "rc_passed (check_exposure lims o' equity ps reservations reference checked)" "\<not> od_reduce_only o'"
  shows "ZERO < equity \<and> worst_symbol_size o' ps (filter (\<lambda>r. \<not> rsv_reduce_only r) reservations) * reference
    \<le> equity * position_fraction lims"
  using assms by (auto simp: check_exposure_def scope_fail_def Let_def not_le not_less split: if_splits)

lemma expire_frame: "pg_positions (expire_reservations sub s) = pg_positions s"
  by (simp add: expire_reservations_def)

lemma scope_passed:
  assumes "check_and_lock_risk_scope ps lims o' supplied s = Some (s', Inr v)" "rc_passed v"
    and "\<not> od_is_spot o'" "\<not> od_reduce_only o'"
  shows "\<exists>a px. find (\<lambda>a. acr_sub_account a = od_sub_account o') (pg_accounts s') = Some a
    \<and> store_reference_price o' supplied s' = Inr px \<and> ZERO < px \<and> ZERO < acr_equity a
    \<and> worst_symbol_size o' (filter (\<lambda>p. por_sub_account p = od_sub_account o') (pg_positions s'))
        (open_reservations (od_sub_account o') s') * px \<le> acr_equity a * position_fraction lims"
proof -
  obtain a px where "find (\<lambda>a. acr_sub_account a = od_sub_account o') (pg_accounts s) = Some a"
    and s': "s' = expire_reservations (od_sub_account o') s" and px: "store_reference_price o' supplied s' = Inr px"
    and v: "v = (if px \<le> ZERO then scope_fail ''market_price_not_available'' [''postgres_account_scope_locked'', ''active_reservations_included'']
      else check_exposure lims o' (acr_equity a) (filter (\<lambda>p. por_sub_account p = od_sub_account o') (pg_positions s'))
        (filter (\<lambda>r. rsv_status r = ''active'' \<and> rsv_sub_account r = od_sub_account o') (pg_reservations s'))
        px [''postgres_account_scope_locked'', ''active_reservations_included''])"
    using assms by (auto simp: check_and_lock_risk_scope_def Let_def scope_fail_def split: option.splits if_splits sum.splits)
  moreover have "pg_accounts s' = pg_accounts s" by (simp add: s' expire_reservations_def)
  moreover have px0: "\<not> px \<le> ZERO" using v assms(2) by (auto simp: scope_fail_def)
  moreover note check_exposure_passed [OF assms(2)[unfolded v if_not_P [OF px0]] assms(4)]
  ultimately show ?thesis
    unfolding open_reservations_def by (intro exI [of _ a] exI [of _ px]) (simp add: not_le)
qed

text \<open>The tables that the rows of a placement leave alone, and the reservation they add.\<close>

definition same_scope :: "pg \<Rightarrow> pg \<Rightarrow> bool" where
  "same_scope a b \<longleftrightarrow> pg_positions b = pg_positions a \<and> pg_accounts b = pg_accounts a \<and> pg_reservations b = pg_reservations a"

interpretation same_scope: step_order same_scope
  by unfold_locales (auto simp: same_scope_def)

lemma small_steps_scope:
  "st_keeps same_scope (require b t)" "st_keeps same_scope (draw_uuid u)" "st_keeps same_scope (fetch_order cloid)"
  by (auto simp: st_keeps_def same_scope_def require_def violation_def draw_uuid_def fetch_order_def split: if_splits option.splits)

lemma write_rows_scope:
  "st_keeps same_scope (insert_order r)" "st_keeps same_scope (insert_command k)"
  "st_keeps same_scope (append_event_rows u o' oid rv ev j)"
  unfolding insert_order_def insert_command_def append_event_rows_def
  by (intro same_scope.keeps small_steps_scope; simp add: same_scope_def)+

lemma reserve_adds:
  assumes "reserve ps cid oid o' supplied s = Some (s', Inr x)"
  shows "\<exists>v. pg_reservations s' = pg_reservations s @ [v] \<and> pg_positions s' = pg_positions s \<and> pg_accounts s' = pg_accounts s
    \<and> rsv_symbol v = od_symbol o' \<and> rsv_side v = side_as_str (od_side o') \<and> rsv_size v = od_size o'
    \<and> rsv_reduce_only v = (od_reduce_only o' \<or> od_risk_reducing o') \<and> rsv_status v = ''active''
    \<and> rsv_sub_account v = od_sub_account o'"
  using assms by (auto simp: reserve_def Let_def require_def violation_def draw_uuid_def elim!: st_bind_InrE split: if_splits)

lemma dispatched_placement:
  assumes "pg_persist_placement ps o' risk cid True supplied db = Some (db', Inr v)" "rc_passed v"
    and "order_by_cloid (od_cloid o') db = None" "pgs_limits ps = Some lims"
  shows "\<exists>s1 s2 oid s3. check_and_lock_risk_scope ps lims o' supplied s1 = Some (s2, Inr v) \<and> same_scope s2 s3
    \<and> (\<exists>s4. reserve ps cid oid o' supplied s3 = Some (s4, Inr ()) \<and> same_scope s4 db')"
proof -
  have body: "placement_body ps o' risk cid True supplied db = Some (db', Inr (TX_Commit v))"
    using pg_tx_Inr [OF assms(1)[unfolded pg_persist_placement_def]] assms(3)
    by (auto simp: placement_body_def draw_uuid_def order_by_cloid_def Let_def elim!: st_bind_InrE)
  then show ?thesis
    unfolding placement_body_def Let_def
  proof (elim st_bind_InrE unless_found_E, goal_cases)
    case (1 s1 oid s2 e s3 u)
    have v: "v = e" "s3 = db'" using 1(4) by simp_all
    then have risk: "rc_passed risk" using 1(2) assms(2,4) by (auto split: if_splits)
    have scope: "check_and_lock_risk_scope ps lims o' supplied s1 = Some (s2, Inr v)" using 1(2) risk assms(4) v by simp
    from 1(3) have "\<exists>s3. same_scope s2 s3 \<and> (\<exists>s4. reserve ps cid oid o' supplied s3 = Some (s4, Inr ()) \<and> same_scope s4 db')"
      unfolding write_placement_def
    proof (elim st_bind_InrE, goal_cases)
      case (1 t1 x1 t2 x2 t3 x3 t4 x4 t5 x5)
      have "same_scope s2 t1" "same_scope t1 t2" "same_scope t2 t3" "same_scope t3 t4" "same_scope t5 db'"
        using 1 v(2) st_keepsD [OF small_steps_scope(2) 1(2)] st_keepsD [OF write_rows_scope(1)]
          st_keepsD [OF write_rows_scope(2)] st_keepsD [OF write_rows_scope(3)] by (auto simp: same_scope_def)
      moreover have "reserve ps cid oid o' supplied t4 = Some (t5, Inr ())" using 1(5) v risk assms(2,4) by simp
      ultimately show ?case using same_scope.trans by blast
    qed
    then show ?case using scope by blast
  qed
qed

section \<open>Properties\<close>


text \<open>C28: the position limit holds for every fill. When a placement of a perpetual that may open exposure is
  dispatched, the account has equity and, at the reference price, the position it would have after any of
  the open reservations of its symbol were filled, each in part or in full, stays within the limit; the
  reservation of the placement is one of them.
\<close>

theorem every_fill_within_limit:
  assumes run: "pg_persist_placement ps o' risk cid True supplied db = Some (db', Inr v)" "rc_passed v"
    and new: "order_by_cloid (od_cloid o') db = None" "pgs_limits ps = Some lims"
    and opens: "\<not> od_is_spot o'" "\<not> od_reduce_only o'" "\<not> od_risk_reducing o'" "0 \<le> raw (od_size o')"
    and rs: "rs = open_reservations (od_sub_account o') db'" "\<forall>r\<in>set rs. 0 \<le> raw (rsv_size r)"
    and held: "held = held_position (od_sub_account o') (od_symbol o') db'" "\<bar>raw held\<bar> + total_reserved rs \<le> i128_max"
    and fills: "may_fill f rs"
  shows "\<exists>a px. find (\<lambda>a. acr_sub_account a = od_sub_account o') (pg_accounts db') = Some a
    \<and> store_reference_price o' supplied db' = Inr px \<and> ZERO < px \<and> ZERO < acr_equity a
    \<and> px * Dec \<bar>raw held + net_fill f (od_symbol o') rs\<bar> \<le> acr_equity a * position_fraction lims
    \<and> (\<exists>r\<in>set rs. rsv_symbol r = od_symbol o' \<and> rsv_size r = od_size o' \<and> rsv_side r = side_as_str (od_side o'))"
proof -
  obtain s1 s2 oid s3 s4 where w: "check_and_lock_risk_scope ps lims o' supplied s1 = Some (s2, Inr v)" "same_scope s2 s3"
    "reserve ps cid oid o' supplied s3 = Some (s4, Inr ())" "same_scope s4 db'"
    using dispatched_placement [OF run new] by blast
  obtain n where n: "pg_reservations db' = pg_reservations s2 @ [n]" "pg_positions db' = pg_positions s2"
    "pg_accounts db' = pg_accounts s2" "rsv_symbol n = od_symbol o'" "rsv_side n = side_as_str (od_side o')"
    "rsv_size n = od_size o'" "\<not> rsv_reduce_only n" "rsv_status n = ''active''" "rsv_sub_account n = od_sub_account o'"
    using reserve_adds [OF w(3)] w(2,4) opens by (auto simp: same_scope_def)
  define old where "old = open_reservations (od_sub_account o') s2"
  have parts: "rs = old @ [n]" using n by (simp add: rs(1) old_def open_reservations_def)
  have total: "total_reserved rs = total_reserved old + raw (od_size o')" by (simp add: parts total_reserved_def n(6))
  have buy: "rsv_side n = ''buy'' \<longleftrightarrow> od_side o' = Buy" by (cases "od_side o'") (simp_all add: n(5))
  have net: "net_fill f (od_symbol o') rs = net_fill f (od_symbol o') old + (if od_side o' = Buy then f n else - f n)"
    by (simp add: parts net_fill_def n(4) buy)
  have room: "\<bar>raw held\<bar> + raw (od_size o') + total_reserved old \<le> i128_max" using held(2) total by linarith
  have sizes: "\<forall>r\<in>set old. 0 \<le> raw (rsv_size r)" and amounts: "may_fill f old" "0 \<le> f n" "f n \<le> raw (od_size o')"
    using rs(2) fills by (auto simp: parts may_fill_def n(6))
  obtain a px where a: "find (\<lambda>a. acr_sub_account a = od_sub_account o') (pg_accounts db') = Some a"
    "store_reference_price o' supplied s2 = Inr px" "ZERO < px" "ZERO < acr_equity a"
    "worst_symbol_size o' (filter (\<lambda>p. por_sub_account p = od_sub_account o') (pg_positions db')) old * px
      \<le> acr_equity a * position_fraction lims"
    using scope_passed [OF w(1) run(2) opens(1,2)] by (auto simp: old_def n)
  have "store_reference_price o' supplied db' = store_reference_price o' supplied s2"
    by (simp add: store_reference_price_def mark_of_def n)
  moreover have "\<bar>raw held + net_fill f (od_symbol o') rs\<bar> \<le>
      raw (worst_symbol_size o' (filter (\<lambda>p. por_sub_account p = od_sub_account o') (pg_positions db')) old)"
    using worst_case_covers [OF sizes opens(4,2) room held(1)[unfolded held_position_def] amounts] by (simp add: net add.assoc)
  then have "px * Dec \<bar>raw held + net_fill f (od_symbol o') rs\<bar> \<le>
      px * worst_symbol_size o' (filter (\<lambda>p. por_sub_account p = od_sub_account o') (pg_positions db')) old"
    using a(3) by (intro dec_mul_mono) (simp_all add: dec_cmp)
  ultimately show ?thesis
    using a n(4-6) unfolding parts
    by (intro exI [of _ a] exI [of _ px]) (auto simp: dec_mul_commute intro: order_trans)
qed

text \<open>C29: rows only advance. Whatever a transition or a cancel request writes, and whatever became of its
  transaction, every order row is still there with the size that was ordered, its fill does not shrink, its
  revision does not decrease, and a row that is filled, cancelled, rejected or expired keeps that status.
\<close>

theorem rows_only_advance:
  assumes "(\<exists>r. pg_persist_transition ps o' ev k st db = Some (db', r))
    \<or> (\<exists>r. pg_persist_cancel_requested ps o' cid db = Some (db', r))"
    and "distinct (map orr_cloid (pg_orders db))"
  shows "list_all2 row_advances (pg_orders db) (pg_orders db')"
  using assms(1)
proof (elim disjE exE)
  fix r assume "pg_persist_transition ps o' ev k st db = Some (db', r)"
  then show ?thesis
    unfolding pg_persist_transition_def Let_def
  proof (rule tx_advances, elim st_bind_InrE, goal_cases)
    case (1 t x s1 r s2 m s3 y s4 z s5 w s6 v)
    have r: "s1 = db" "order_by_cloid (od_cloid o') db = Some r" using fetch_order_Some [OF 1(2)] by simp_all
    have m: "merge_transport_transition r o' = Inr m" "s2 = s1" using 1(3) by simp_all
    have "list_all2 row_advances (pg_orders db) (pg_orders s3)"
      using update_advances [OF 1(4)[unfolded m(2) r(1)] r(2) project_advances [OF m(1)] assms(2)] .
    moreover have "same_log s3 s4" using 1(5) st_keepsD [OF other_tables_log(2)] same_log.refl by (fastforce split: if_splits)
    moreover have "same_log s4 s5" using st_keepsD [OF small_steps_log(4) 1(6)] .
    ultimately show ?case using append_logs [OF 1(7)] 1(8) by (simp add: logs_event_def same_log_def)
  qed
next
  fix r assume "pg_persist_cancel_requested ps o' cid db = Some (db', r)"
  then show ?thesis
    unfolding pg_persist_cancel_requested_def Let_def
  proof (rule tx_advances, elim st_bind_InrE, goal_cases)
    case (1 t x s1 r s2 y s3 z s4 w)
    have r: "s1 = db" "order_by_cloid (od_cloid o') db = Some r" using fetch_order_Some [OF 1(2)] by simp_all
    have "row_advances r (r\<lparr>orr_revision := orr_revision r + 1\<rparr>)" by (simp add: row_advances_def row_status_def)
    from update_advances [OF 1(3)[unfolded r(1)] r(2) _ assms(2)] this
    have "list_all2 row_advances (pg_orders db) (pg_orders s2)" by simp
    moreover have "same_log s2 s3" using 1(4) st_keepsD [OF other_tables_log(4)] by fastforce
    ultimately show ?case using append_logs [OF 1(5)] 1(6) by (simp add: logs_event_def same_log_def)
  qed
qed

section \<open>Witnesses\<close>

definition sample_store :: pg_store where
  "sample_store = \<lparr>pgs_limits = None, pgs_stale_seconds = F64_Fin 5, pgs_ttl_seconds = 60,
     pgs_uuid = (\<lambda>n. ''uuid'' @ replicate n CHR ''i'')\<rparr>"

definition sample_db :: pg where
  "sample_db = \<lparr>pg_clock = 0, pg_now = 0, pg_link = DB_Up, pg_uuids = 0, pg_sequence = 0, pg_orders = [],
     pg_risk_events = [], pg_commands = [], pg_reservations = [], pg_order_events = [], pg_outbox = [],
     pg_positions = [], pg_accounts = []\<rparr>"

text \<open>A placement that is written down: one order, one event.\<close>

text \<open>A placement that is written down: one order, one event.\<close>

lemma placement_value:
  "map_option (\<lambda>(db, r). (length (pg_orders db), length (pg_order_events db), map_sum error_code rc_passed r))
     (pg_persist_placement sample_store submitted_order (scope_pass []) ''cmd'' True None sample_db) = Some (1, 1, Inr True)"
  by code_simp


text \<open>An account of equity 10000 that is long one and may have to buy one more asks for two.\<close>

definition full_limits :: risk_limits where
  "full_limits = \<lparr>rl_max_position_pct = F64_Fin 1, rl_max_strategy_loss_pct = F64_Fin 1, rl_max_drawdown_pct = F64_Fin 1,
     rl_max_leverage = 5, rl_timeout_ms = 500, rl_account_stale_seconds = F64_Fin 360\<rparr>"

definition funded_store :: pg_store where
  "funded_store = sample_store\<lparr>pgs_limits := Some full_limits\<rparr>"

definition resting_reservation :: reservation_row where
  "resting_reservation = \<lparr>rsv_reservation_id = ''r'', rsv_command_id = ''c'', rsv_order_id = ''o'', rsv_sub_account = None,
     rsv_strategy_id = None, rsv_symbol = ''BTC'', rsv_side = ''buy'', rsv_reduce_only = False,
     rsv_size = Dec SCALE_I128, rsv_notional = Dec (100 * SCALE_I128), rsv_status = ''active'',
     rsv_expires_at = 1, rsv_released_at = None\<rparr>"

definition funded_db :: pg where
  "funded_db = sample_db\<lparr>
     pg_accounts := [\<lparr>acr_sub_account = None, acr_equity = Dec (10000 * SCALE_I128), acr_exchange_updated_at = 0\<rparr>],
     pg_positions := [\<lparr>por_sub_account = None, por_symbol = ''BTC'', por_size = Dec SCALE_I128, por_mark_price = Some (Dec (100 * SCALE_I128))\<rparr>],
     pg_reservations := [resting_reservation]\<rparr>"


lemma round_one_two: "round_f64 1 = F64_Fin 1" "round_f64 2 = F64_Fin 2"
  using f64_of_int_exact [of 1] f64_of_int_exact [of 2] by (simp_all add: f64_of_int_def)

lemma display_one: "f64_display 1 = ''1''"
proof -
  have e: "dec_exponent 1 = 0" by (simp add: dec_exponent_def numeral_eq_Suc)
  have "shortest_digits (Suc 16) 1 1 = (1, 0)"
    unfolding shortest_digits.simps Let_def by (simp add: e pow10_def round_one_two)
  then have "shortest_digits 17 1 1 = (1, 0)" by simp
  moreover have "show_nat 1 = ''1''" by code_simp
  ultimately show ?thesis by (simp add: f64_display_def)
qed
lemma from_one: "from_f64 (F64_Fin 1) = Inr ONE"
proof -
  have "from_str_lenient ''1'' = Inr ONE" by code_simp
  then show ?thesis by (simp add: from_f64_def display_one)
qed
lemma row_ok: "order_row_ok (order_row_of i c 1 0 submitted_order)"
  by code_simp

lemma full_fraction: "position_fraction full_limits = ONE"
  by (simp add: position_fraction_def full_limits_def from_one)

lemma submitted_order_simps [simp]:
  "od_cloid submitted_order = sample_cloid" "od_sub_account submitted_order = None" "od_symbol submitted_order = ''BTC''"
  "od_side submitted_order = Buy" "od_size submitted_order = Dec (2 * SCALE_I128)"
  "od_price submitted_order = Some (Dec (100 * SCALE_I128))" "od_status submitted_order = Submitted"
  "\<not> od_is_spot submitted_order" "\<not> od_reduce_only submitted_order" "\<not> od_risk_reducing submitted_order"
  by code_simp+

lemma exposure_value:
  "rc_passed (check_exposure full_limits submitted_order (Dec (10000 * SCALE_I128)) (pg_positions funded_db)
     [resting_reservation] (Dec (100 * SCALE_I128)) ch)"
proof -
  have opens: "\<not> rsv_reduce_only resting_reservation" by (simp add: resting_reservation_def)
  have worst: "worst_symbol_size submitted_order (pg_positions funded_db) [resting_reservation] = Dec (4 * SCALE_I128)"
    by code_simp
  have sum: "sum_exposures submitted_order (pg_positions funded_db) [resting_reservation] (Dec (100 * SCALE_I128))
    (exposure_symbols submitted_order (pg_positions funded_db) [resting_reservation]) ZERO = Some (Dec (400 * SCALE_I128))"
    by code_simp
  have fits: "(Dec (10000 * SCALE_I128) * ONE < Dec (4 * SCALE_I128) * Dec (100 * SCALE_I128)) = False" by code_simp
  have equity: "(Dec (10000 * SCALE_I128) \<le> ZERO) = False" by code_simp
  have leverage: "(case (dec_div (Dec (400 * SCALE_I128)) (Dec (10000 * SCALE_I128)), from_i128 (int (rl_max_leverage full_limits))) of
      (Some q, Some m) \<Rightarrow> q > m | _ \<Rightarrow> True) = False" by code_simp
  show ?thesis
    unfolding check_exposure_def Let_def filter.simps if_P [OF opens] worst sum full_fraction fits option.case leverage equity
    by (simp add: scope_pass_def)
qed

lemma scope_value:
  assumes "pg_accounts s = pg_accounts funded_db" "pg_positions s = pg_positions funded_db"
    "pg_reservations s = pg_reservations funded_db" "pg_clock s = 0" "pg_now s = 0"
  shows "\<exists>v. check_and_lock_risk_scope funded_store full_limits submitted_order None s = Some (s, Inr v) \<and> rc_passed v"
proof -
  have expire: "expire_reservations None s = s"
    using assms(3,5) by (simp add: expire_reservations_def funded_db_def resting_reservation_def)
  have fresh: "\<not> f64_lt (F64_Fin 5) (f64_of_int (num_seconds 0))"
    by (simp add: num_seconds_def f64_of_int_exact)
  have price: "store_reference_price submitted_order None s = Inr (Dec (100 * SCALE_I128))"
    using assms(2) by (simp add: store_reference_price_def mark_of_def funded_db_def dec_cmp SCALE_I128_def min_def)
  have opens: "rsv_status resting_reservation = ''active''" "rsv_sub_account resting_reservation = None"
    by (simp_all add: resting_reservation_def)
  have positive: "(Dec (100 * SCALE_I128) \<le> ZERO) = False" by code_simp
  show ?thesis
    using assms exposure_value
    by (simp add: check_and_lock_risk_scope_def Let_def expire price fresh funded_store_def sample_store_def
      positive opens funded_db_def)
qed

text \<open>What a first placement needs to be written down and to commit.\<close>

lemma write_commits:
  assumes "order_row_ok (order_row_of oid (Some cid) 1 (pg_now s) o')" "pg_orders s = []" "pg_commands s = []" "pg_order_events s = []"
    and "\<And>t. pg_positions t = pg_positions s \<Longrightarrow> store_reference_price o' given t = Inr px"
    and "ZERO \<le> od_size o' * px" "numeric_ok (od_size o' * px)" "ZERO \<le> od_size o'" "numeric_ok (od_size o')"
  shows "\<exists>s' v. write_placement ps oid cid o' risk True given s = Some (s', Inr ()) \<and> pg_reservations s' = pg_reservations s @ [v]
    \<and> rsv_size v = od_size o' \<and> pg_positions s' = pg_positions s"
  using assms
  by (simp add: write_placement_def insert_order_def require_def st_bind_def draw_uuid_def insert_command_def
    place_command_def COMMAND_STATUSES_def reserve_def append_event_rows_def Let_def)

lemma placement_commits:
  assumes "pg_link db = DB_Up" "pgs_limits ps = Some lims" "rc_passed risk" "pg_orders db = []" "rc_passed v"
    and "check_and_lock_risk_scope ps lims o' given (db\<lparr>pg_uuids := Suc (pg_uuids db)\<rparr>) = Some (s2, Inr v)"
    and "write_placement ps (pgs_uuid ps (pg_uuids db)) cid o' v True given s2 = Some (db', Inr ())"
  shows "pg_persist_placement ps o' risk cid True given db = Some (db', Inr v)"
  using assms
  by (simp add: pg_persist_placement_def pg_tx_def placement_body_def st_bind_def draw_uuid_def order_by_cloid_def Let_def)

lemma funded_run:
  "\<exists>db' v w. pg_persist_placement funded_store submitted_order (scope_pass []) ''cmd'' True None funded_db = Some (db', Inr v)
     \<and> rc_passed v \<and> pg_reservations db' = [resting_reservation, w] \<and> rsv_size w = Dec (2 * SCALE_I128)
     \<and> pg_positions db' = pg_positions funded_db"
proof -
  let ?s = "funded_db\<lparr>pg_uuids := Suc (pg_uuids funded_db)\<rparr>"
  have db: "pg_link funded_db = DB_Up" "pg_orders funded_db = []" "pg_commands funded_db = []" "pg_order_events funded_db = []"
    "pg_now funded_db = 0" "pg_clock funded_db = 0" "pg_reservations funded_db = [resting_reservation]"
    by (simp_all add: funded_db_def sample_db_def)
  obtain v where v: "check_and_lock_risk_scope funded_store full_limits submitted_order None ?s = Some (?s, Inr v)" "rc_passed v"
    using scope_value [of ?s] by (auto simp: db)
  have price: "store_reference_price submitted_order None s = Inr (Dec (100 * SCALE_I128))"
    if "pg_positions s = pg_positions ?s" for s
    using that by (simp add: store_reference_price_def mark_of_def funded_db_def dec_cmp SCALE_I128_def min_def)
  have sizes: "numeric_ok (Dec (2 * SCALE_I128) * Dec (100 * SCALE_I128))" "numeric_ok (Dec (2 * SCALE_I128))"
    "ZERO \<le> Dec (2 * SCALE_I128) * Dec (100 * SCALE_I128)" "ZERO \<le> Dec (2 * SCALE_I128)" by code_simp+
  have "\<exists>s' v'. write_placement funded_store (pgs_uuid funded_store (pg_uuids funded_db)) ''cmd'' submitted_order v True None ?s
      = Some (s', Inr ()) \<and> pg_reservations s' = pg_reservations ?s @ [v']
      \<and> rsv_size v' = od_size submitted_order \<and> pg_positions s' = pg_positions ?s"
    by (rule write_commits [where px = "Dec (100 * SCALE_I128)"]) (use price sizes row_ok in \<open>simp_all add: db\<close>)
  then obtain db' w where "write_placement funded_store (pgs_uuid funded_store (pg_uuids funded_db)) ''cmd'' submitted_order v True None ?s
      = Some (db', Inr ())" "pg_reservations db' = [resting_reservation, w]" "rsv_size w = Dec (2 * SCALE_I128)"
      "pg_positions db' = pg_positions funded_db"
    by (auto simp: db)
  then show ?thesis
    using placement_commits [OF db(1) _ _ db(2) v(2,1), where risk = "scope_pass []" and cid = "''cmd''" and db' = db'] v(2)
    by (auto simp: funded_store_def scope_pass_def)
qed

theorem every_fill_within_limit_witness:
  "\<exists>db' v px (a :: account_row). pg_persist_placement funded_store submitted_order (scope_pass []) ''cmd'' True None funded_db = Some (db', Inr v)
    \<and> rc_passed v \<and> ZERO < px \<and> length (pg_reservations db') = 2
    \<and> px * Dec \<bar>SCALE_I128 + net_fill (raw \<circ> rsv_size) ''BTC'' (open_reservations None db')\<bar>
        \<le> acr_equity a * position_fraction full_limits"
proof -
  obtain db' v w where run: "pg_persist_placement funded_store submitted_order (scope_pass []) ''cmd'' True None funded_db = Some (db', Inr v)"
    "rc_passed v" and rows: "pg_reservations db' = [resting_reservation, w]" "rsv_size w = Dec (2 * SCALE_I128)"
    "pg_positions db' = pg_positions funded_db"
    using funded_run by blast
  let ?rs = "open_reservations None db'"
  have known: "r = resting_reservation \<or> r = w" if "r \<in> set ?rs" for r using that by (auto simp: open_reservations_def rows split: if_splits)
  have sizes: "\<forall>r\<in>set ?rs. 0 \<le> raw (rsv_size r)"
    using known rows(2) by (fastforce simp: resting_reservation_def SCALE_I128_def)
  have held: "raw (held_position None ''BTC'' db') = SCALE_I128"
    by (simp add: held_position_def position_size_of_def rows funded_db_def)
  have fits: "\<bar>raw (held_position None ''BTC'' db')\<bar> + total_reserved ?rs \<le> i128_max"
    unfolding held by (auto simp: total_reserved_def open_reservations_def rows resting_reservation_def SCALE_I128_def i128_max_def)
  have new: "order_by_cloid (od_cloid submitted_order) funded_db = None" "pgs_limits funded_store = Some full_limits"
    by (simp_all add: order_by_cloid_def funded_db_def sample_db_def funded_store_def)
  have fill: "may_fill (raw \<circ> rsv_size) ?rs" using sizes by (simp add: may_fill_def)
  from every_fill_within_limit [OF run new _ _ _ _ _ _ _ _ fill, of "held_position None ''BTC'' db'"] sizes fits
  obtain a :: account_row and px where "ZERO < px" "px * Dec \<bar>SCALE_I128 + net_fill (raw \<circ> rsv_size) ''BTC'' ?rs\<bar> \<le> acr_equity a * position_fraction full_limits"
    by (auto simp: held SCALE_I128_def)
  then show ?thesis using run rows(1) by auto
qed

text \<open>A late cancellation does not touch a filled order.\<close>

definition filled_db :: pg where
  "filled_db = sample_db\<lparr>pg_orders := [order_row_of ''order'' None 1 0 (submitted_order\<lparr>od_status := Filled\<rparr>)]\<rparr>"

theorem rows_only_advance_witness:
  "\<exists>db' r q. pg_persist_transition sample_store (submitted_order\<lparr>od_status := Cancelled\<rparr>) ''cancelled'' None None filled_db = Some (db', r)
    \<and> pg_orders db' = [q] \<and> row_status q = Filled"
proof -
  let ?o = "submitted_order\<lparr>od_status := Cancelled\<rparr>"
  have "pg_persist_transition sample_store ?o ''cancelled'' None None filled_db \<noteq> None"
    using pg_ops_return(2) by (simp add: st_total_def)
  then obtain db' r where run: "pg_persist_transition sample_store ?o ''cancelled'' None None filled_db = Some (db', r)" by auto
  then have "\<exists>r. pg_persist_transition sample_store ?o ''cancelled'' None None filled_db = Some (db', r)" by blast
  from rows_only_advance [OF disjI1 [OF this]]
  have "list_all2 row_advances (pg_orders filled_db) (pg_orders db')" by (simp add: filled_db_def)
  moreover have "row_status (order_row_of ''order'' None 1 0 (submitted_order\<lparr>od_status := Filled\<rparr>)) = Filled"
    by (simp add: row_status_def order_row_of_def order_status_from_str_def)
  ultimately show ?thesis
    using run by (auto simp: filled_db_def list_all2_Cons1 row_advances_def is_terminal_def)
qed

end
