(* ===== verification/HE_System_Props.thy ===== *)
theory HE_System_Props
  imports HE_Workers HE_Store_Props
begin

text \<open>
  The guarantee of the system: whatever processes do and whenever they crash, an order is sent at most once.
\<close>

section \<open>Properties\<close>

text \<open>C1: at most once, across crashes. Start with any consistent database and let submissions, cancellations,
  reconciliations, workers, lease expiries, crashes of the process (also in the middle of an execution, losing
  the transactions it ran) and other writers of the other tables interleave as they like: over the whole run
  no cloid is put on the wire twice, and a cloid that was put on the wire has its order row in the database
  and no pending placement.
\<close>

theorem sends_at_most_once:
  assumes "ledger_ok db" "(system_step ps cfg q)\<^sup>*\<^sup>* (system_new g db) y"
  shows "sent_count k (sy_engine y) \<le> 1
    \<and> (0 < sent_count k (sy_engine y) \<longrightarrow>
        (\<exists>db'. en_store (sy_engine y) = Some db' \<and> order_by_cloid k db' \<noteq> None
          \<and> (\<forall>c\<in>set (pg_commands db'). cmr_command_type c = ''place_order'' \<and> cmr_cloid c = Some k \<longrightarrow> cmr_status c \<noteq> ''pending'')))"
proof -
  have "system_inv (system_new g db)"
    using assms(1) by (simp add: system_inv_def system_new_def engine_new_def sent_count_def first_attempts_def)
  with assms(2) have "system_inv y" by (induction) (use inv_system_step in blast)+
  then obtain db' where inv: "en_store (sy_engine y) = Some db'" "sent_count k (sy_engine y) \<le> 1"
    "sent_count k (sy_engine y) = 1 \<longrightarrow> k \<in> order_cloids db' \<and> \<not> may_send k db' (first_attempts (sy_held y))"
    by (auto simp: system_inv_def)
  have "order_by_cloid k db' \<noteq> None \<and> (\<forall>c\<in>set (pg_commands db').
      cmr_command_type c = ''place_order'' \<and> cmr_cloid c = Some k \<longrightarrow> cmr_status c \<noteq> ''pending'')"
    if "0 < sent_count k (sy_engine y)"
  proof -
    have "sent_count k (sy_engine y) = 1" using that inv(2) by linarith
    then show ?thesis
      using inv(3) by (auto simp: order_cloids_def order_by_cloid_def find_None_iff may_send_def armed_def is_place_def)
  qed
  then show ?thesis using inv(1,2) by blast
qed

text \<open>The loop of the worker.\<close>

lemma worker_run_backoff:
  assumes "\<forall>k s. \<exists>s' e. turn k s = Some (s', Inl e)"
  shows "\<exists>s'. worker_run turn poll n k (min (BACKOFF_BASE_MS * 2 ^ j) BACKOFF_MAX_MS) s =
    Some (s', map (\<lambda>i. min (BACKOFF_BASE_MS * 2 ^ (j + i)) BACKOFF_MAX_MS) [0..<n])"
proof (induction n arbitrary: k j s)
  case (Suc n)
  obtain s1 e where t: "turn k s = Some (s1, Inl e)" using assms by blast
  have "min (min (BACKOFF_BASE_MS * 2 ^ j) BACKOFF_MAX_MS * 2) BACKOFF_MAX_MS = min (BACKOFF_BASE_MS * 2 ^ Suc j) BACKOFF_MAX_MS"
    by (auto simp: min_def)
  moreover obtain s' where "worker_run turn poll n (Suc k) (min (BACKOFF_BASE_MS * 2 ^ Suc j) BACKOFF_MAX_MS) s1 =
      Some (s', map (\<lambda>i. min (BACKOFF_BASE_MS * 2 ^ (Suc j + i)) BACKOFF_MAX_MS) [0..<n])"
    using Suc.IH [of "Suc k" "Suc j" s1] by blast
  ultimately show ?case
    by (simp add: t worker_delay_def map_upt_Suc del: upt_Suc)
qed simp

lemma worker_run_returns:
  assumes "\<forall>k s. turn k s \<noteq> None" "b \<le> BACKOFF_MAX_MS"
  shows "\<exists>s' ds. worker_run turn poll n k b s = Some (s', ds) \<and> length ds = n \<and> (\<forall>d\<in>set ds. d \<le> max poll BACKOFF_MAX_MS)"
  using assms(2)
proof (induction n arbitrary: k b s)
  case (Suc n)
  obtain s1 r where t: "turn k s = Some (s1, r)" using assms(1) by (metis option.exhaust surj_pair)
  obtain delay b' where d: "worker_delay poll b r = (delay, b')" by (cases "worker_delay poll b r")
  then have "delay \<le> max poll BACKOFF_MAX_MS" "b' \<le> BACKOFF_MAX_MS"
    using Suc.prems by (auto simp: worker_delay_def BACKOFF_BASE_MS_def BACKOFF_MAX_MS_def split: sum.splits bool.splits)
  with Suc.IH [of b' "Suc k" s1] t d show ?case by (auto simp: le_max_iff_disj)
qed simp


section \<open>Witnesses\<close>

definition system_config :: "pg engine_config" where
  "system_config =
     \<lparr>ec_store = pg_store_ops sample_store, ec_account_address = ''0xabc'', ec_deferred = True, ec_stale_seconds = F64_Fin 5,
      ec_durable_kill = False, ec_provider = False, ec_normalizer = None,
      ec_asset_index = Some (\<lambda>symb. if symb = ''BTC'' then Some 0 else None), ec_sha256 = id,
      ec_json_text = (\<lambda>_. ''text'')\<rparr>"

definition sample_inputs :: durable_inputs where
  "sample_inputs =
     \<lparr>di_now = 0, di_resolution = Inr None, di_snapshot = Inr None, di_view = no_account, di_deadline = False,
      di_fate = WF_Answered (sample_worker (Inl ''connection reset'')), di_query = Inr None, di_hook = False\<rparr>"

text \<open>A submission was recorded. A worker claims it and sends it; the connection breaks and the process crashes.\<close>

definition submitted_command :: command_row where
  "submitted_command = place_command ''cmd'' ''order'' submitted_order True None sample_db"

definition submitted_db :: pg where
  "submitted_db = sample_db\<lparr>pg_orders := [order_row_of ''order'' (Some ''cmd'') 1 0 submitted_order],
     pg_commands := [submitted_command]\<rparr>"

definition claimed_db :: pg where
  "claimed_db = submitted_db\<lparr>pg_commands := [submitted_command\<lparr>cmr_status := ''processing'', cmr_attempt_count := 1,
     cmr_locked_at := Some 0, cmr_locked_by := Some ''worker''\<rparr>]\<rparr>"

definition claimed_command :: durable_command where
  "claimed_command = \<lparr>dc_command_id = ''cmd'', dc_command_type = ''place_order'', dc_payload = order_payload submitted_order,
     dc_attempt_count = 1, dc_requires_resolution = False\<rparr>"

definition claimed_engine :: "pg engine" where
  "claimed_engine = engine_new sample_gates (Some claimed_db)"

definition loaded_engine :: "pg engine" where
  "loaded_engine = order_store submitted_order claimed_engine"

lemma submitted_ok: "ledger_ok submitted_db"
  by code_simp

lemma claim_value: "queue_claim command_queue_default ''worker'' submitted_db = Some (claimed_db, Inr (Some claimed_command))"
  by code_simp

lemma load_value: "json_str_field ''cloid'' (dc_payload claimed_command) = Some sample_cloid"
  "pg_get_order sample_cloid claimed_db = Inr (Some submitted_order)"
  by code_simp+

lemma send_value:
  "map_option (\<lambda>(s, r). (en_trace s, r)) (submit_to_exchange (on_pg sample_store system_config) (di_fate sample_inputs)
     (di_query sample_inputs) False (intent_from_order submitted_order) sample_cloid (od_price submitted_order) loaded_engine) =
   Some ([EE_Order sample_wire 7], SO_Timeout)"
  by code_simp

lemma timeout_returns: "od_status o' = Submitted \<Longrightarrow>
  \<exists>s' o'' r. apply_outcome cfg now cid SO_Timeout (s, o') = Some ((s', o''), r)"
  by (cases "en_store s")
    (auto simp: apply_outcome_def settle_def st_bind_def to_status_def persist_order_def persist_transition_def
      on_engine_def set_order_def split: prod.splits sum.splits option.splits)

lemma execute_value:
  "\<exists>e b. execute_command (on_pg sample_store system_config) sample_inputs claimed_command claimed_engine = Some (e, b)
    \<and> sent_count sample_cloid e = 1"
proof -
  let ?cfg = "on_pg sample_store system_config"
  obtain s1 where s1: "submit_to_exchange ?cfg (di_fate sample_inputs) (di_query sample_inputs) False
      (intent_from_order submitted_order) sample_cloid (od_price submitted_order) loaded_engine = Some (s1, SO_Timeout)"
    "en_trace s1 = [EE_Order sample_wire 7]"
    using send_value by auto
  obtain s2 o2 r2 where settled: "apply_outcome ?cfg 0 (Some ''cmd'') SO_Timeout (s1, submitted_order) = Some ((s2, o2), r2)"
    using timeout_returns [of submitted_order] by (fastforce simp: submitted_order_def)
  have "sends_nothing s1 s2" using st_keepsD [OF quiet_order.outcome settled] by (simp add: quiet_pair_def)
  then have count: "sent_count sample_cloid s2 = 1"
    using sends_cloid_send s1(2)
    by (fastforce simp: sends_nothing_def sent_count_def sends_cloid_def sample_wire_def list_ex_iff filter_empty_conv)
  have gates: "run_gates (intent_from_order submitted_order) (en_gates loaded_engine) = Inr ()" by code_simp
  have cloid: "od_cloid submitted_order = sample_cloid" by code_simp
  have loaded: "durable_order ?cfg a b c claimed_command claimed_engine = Some (loaded_engine, Inr submitted_order)" for a b c
    by (simp add: durable_order_def durable_get_def load_value loaded_engine_def claimed_engine_def engine_new_def
      on_pg_def pg_store_ops_def)
  have quiet_gates: "gt_checker (en_gates loaded_engine) = None" "\<not> credits_low n (en_gates loaded_engine)" for n
    by (simp_all add: loaded_engine_def order_store_def claimed_engine_def engine_new_def sample_gates_def credits_low_def)
  have provider: "\<not> ec_provider ?cfg" by (simp add: on_pg_def system_config_def)
  have live: "\<not> order_is_terminal submitted_order" by code_simp
  have "\<exists>r. dispatch_command ?cfg sample_inputs claimed_command (loaded_engine, submitted_order) = Some ((s2, o2), r)"
    using s1(1) settled
    by (cases r2) (auto simp: dispatch_command_def gates resolve_replay_reference_def provider recheck_command_def
      durable_risk_def quiet_gates risk_pass_def send_command_def cloid Let_def st_bind_def sample_inputs_def claimed_command_def)
  then obtain r where "dispatch_command ?cfg sample_inputs claimed_command (loaded_engine, submitted_order) = Some ((s2, o2), r)" ..
  then have "\<exists>b. execute_command ?cfg sample_inputs claimed_command claimed_engine = Some (s2, b)"
    by (cases r) (auto simp: execute_command_def execute_durable_command_def claimed_command_def [THEN arg_cong [where f = dc_command_type]]
      claimed_command_def [THEN arg_cong [where f = dc_requires_resolution]] loaded live with_order_def st_bind_def)
  with count show ?thesis by blast
qed

theorem sends_at_most_once_witness:
  "\<exists>y db'. (system_step sample_store system_config command_queue_default)\<^sup>*\<^sup>* (system_new sample_gates submitted_db) y
    \<and> sent_count sample_cloid (sy_engine y) = 1 \<and> sy_held y = []
    \<and> en_store (sy_engine y) = Some db' \<and> order_by_cloid sample_cloid db' \<noteq> None"
proof -
  let ?step = "system_step sample_store system_config command_queue_default"
  let ?y0 = "system_new sample_gates submitted_db"
  let ?y1 = "\<lparr>sy_engine = claimed_engine, sy_held = [claimed_command], sy_unresolved = []\<rparr>"
  obtain e b where run: "execute_command (on_pg sample_store system_config) sample_inputs claimed_command claimed_engine = Some (e, b)"
    "sent_count sample_cloid e = 1"
    using execute_value by blast
  let ?y2 = "?y1\<lparr>sy_engine := claimed_engine\<lparr>en_orders := [], en_trace := en_trace e\<rparr>, sy_held := [], sy_unresolved := []\<rparr>"
  have "on_store (queue_claim command_queue_default ''worker'') (sy_engine ?y0) = Some (claimed_engine, Inr (Some claimed_command))"
    by (simp add: on_store_def system_new_def engine_new_def claim_value claimed_engine_def)
  from system_step.claims [OF this, of sample_store system_config] have "?step ?y0 ?y1" by (simp add: system_new_def)
  moreover have "?step ?y1 ?y2"
    using system_step.crashes_executing [of claimed_command ?y1 sample_store system_config sample_inputs e b] run(1) by simp
  ultimately have path: "?step\<^sup>*\<^sup>* ?y0 ?y2" by (meson rtranclp.rtrancl_into_rtrancl rtranclp.rtrancl_refl)
  have "sent_count sample_cloid (sy_engine ?y2) = 1" using run(2) by (simp add: sent_count_def)
  then show ?thesis
    using sends_at_most_once [OF submitted_ok path, of sample_cloid] path by (intro exI [of _ ?y2]) auto
qed

text \<open>Five turns while the database cannot be reached.\<close>

definition unreachable_turn :: "nat \<Rightarrow> (pg engine, hypeedge_error, bool) st_op" where
  "unreachable_turn k = (\<lambda>s. run_once command_queue_default (on_pg sample_store system_config) (\<lambda>_. sample_inputs) ''worker''
     (s\<lparr>en_store := Some (sample_db\<lparr>pg_link := DB_Down ''connection refused''\<rparr>)\<rparr>))"


end
