(* ===== verification/HE_Recovery.thy ===== *)
theory HE_Recovery
  imports HE_Quotes
begin

text \<open>
  \<open>crates/trading/src/execution/recovery.rs\<close>: orders that may still be live although nobody confirmed it.
  A registry keeps one owner per cloid; an owner blocks its quote slot until the exchange reports a
  terminal status. A \<open>Duration\<close> is a natural number of nanoseconds.
\<close>

section \<open>Owners\<close>

datatype recovery_reason = RR_SubmitUnknown | RR_CancelUnknown | RR_ModifyUnknown | RR_LateOldRevision | RR_UnattributedLive

fun recovery_reason_str :: "recovery_reason \<Rightarrow> string" where
  "recovery_reason_str RR_SubmitUnknown = ''submit_unknown''"
| "recovery_reason_str RR_CancelUnknown = ''cancel_unknown''"
| "recovery_reason_str RR_ModifyUnknown = ''modify_unknown''"
| "recovery_reason_str RR_LateOldRevision = ''late_old_revision''"
| "recovery_reason_str RR_UnattributedLive = ''unattributed_live''"

datatype recovery_status = RS_Required | RS_CancelPending | RS_ResolvedTerminal

fun recovery_status_str :: "recovery_status \<Rightarrow> string" where
  "recovery_status_str RS_Required = ''required''"
| "recovery_status_str RS_CancelPending = ''cancel_pending''"
| "recovery_status_str RS_ResolvedTerminal = ''resolved_terminal''"

record recovery_owner =
  rv_slot :: quote_slot_key
  rv_owner :: quote_risk_owner
  rv_reason :: recovery_reason
  rv_discovered_at :: time_ns
  rv_status :: recovery_status

definition recovery_owner_new :: "quote_slot_key \<Rightarrow> quote_risk_owner \<Rightarrow> recovery_reason \<Rightarrow> time_ns \<Rightarrow> recovery_owner" where
  "recovery_owner_new slot own reason discovered_at =
     \<lparr>rv_slot = slot, rv_owner = own, rv_reason = reason, rv_discovered_at = discovered_at, rv_status = RS_Required\<rparr>"

definition blocks_placement :: "recovery_owner \<Rightarrow> bool" where
  "blocks_placement r \<longleftrightarrow> rv_status r \<noteq> RS_ResolvedTerminal"

definition mark_cancel_pending :: "recovery_owner \<Rightarrow> string + recovery_owner" where
  "mark_cancel_pending r =
     (if rv_status r = RS_ResolvedTerminal then Inl ''terminal recovery owner cannot be cancelled again''
      else Inr (r\<lparr>rv_status := RS_CancelPending\<rparr>))"

definition owner_reconcile :: "order_status \<Rightarrow> recovery_owner \<Rightarrow> recovery_owner" where
  "owner_reconcile st r =
     (if st \<in> {Filled, Cancelled, Rejected, Expired} then r\<lparr>rv_status := RS_ResolvedTerminal\<rparr> else r)"

section \<open>The registry\<close>

type_synonym recovery_registry = "recovery_owner list"

definition rv_cloid :: "recovery_owner \<Rightarrow> string" where
  "rv_cloid r = ro_cloid (rv_owner r)"

definition registry_new :: "recovery_owner list \<Rightarrow> string + recovery_registry" where
  "registry_new owners =
     (if distinct (map rv_cloid owners) then Inr owners else Inl ''recovery owner cloids must be unique'')"

definition registry_register :: "recovery_owner \<Rightarrow> recovery_registry \<Rightarrow> recovery_registry" where
  "registry_register r owners =
     (if list_ex (\<lambda>x. rv_cloid x = rv_cloid r) owners then owners else owners @ [r])"

definition placement_blocked :: "quote_slot_key \<Rightarrow> recovery_registry \<Rightarrow> bool" where
  "placement_blocked slot owners \<longleftrightarrow> list_ex (\<lambda>r. rv_slot r = slot \<and> blocks_placement r) owners"

definition registry_unresolved :: "recovery_registry \<Rightarrow> recovery_owner list" where
  "registry_unresolved owners = filter blocks_placement owners"

definition oldest_unresolved_age :: "time_ns \<Rightarrow> recovery_registry \<Rightarrow> nat option" where
  "oldest_unresolved_age now owners =
     (case registry_unresolved owners of
        [] \<Rightarrow> None
      | r # rs \<Rightarrow> Some (nat (now - fold (\<lambda>x m. min m (rv_discovered_at x)) rs (rv_discovered_at r))))"

definition sla_exceeded :: "time_ns \<Rightarrow> nat \<Rightarrow> recovery_registry \<Rightarrow> string + bool" where
  "sla_exceeded now sla owners =
     (if sla = 0 then Inl ''recovery SLA must be positive''
      else Inr (case oldest_unresolved_age now owners of None \<Rightarrow> False | Some age \<Rightarrow> age > sla))"

definition registry_reconcile :: "string \<Rightarrow> order_status \<Rightarrow> recovery_registry \<Rightarrow> string + recovery_registry" where
  "registry_reconcile cloid st owners =
     (if list_ex (\<lambda>r. rv_cloid r = cloid) owners
      then Inr (map (\<lambda>r. if rv_cloid r = cloid then owner_reconcile st r else r) owners)
      else Inl (''recovery owner not found for cloid '' @ cloid))"

definition classify_orphan :: "quote_risk_owner \<Rightarrow> int \<Rightarrow> recovery_reason option" where
  "classify_orphan own active =
     (if ro_status own = SubmitUnknown then Some RR_SubmitUnknown
      else if ro_status own = CancelUnknown then Some RR_CancelUnknown
      else if ro_plan_revision own < active then Some RR_LateOldRevision else None)"

section \<open>Runs\<close>

text \<open>What the supervisors do with a registry; a reconciliation of an unknown cloid leaves it alone.\<close>

datatype recovery_event = RE_Register recovery_owner | RE_Reconcile string order_status

fun recovery_step :: "recovery_event \<Rightarrow> recovery_registry \<Rightarrow> recovery_registry" where
  "recovery_step (RE_Register r) owners = registry_register r owners"
| "recovery_step (RE_Reconcile cloid st) owners =
     (case registry_reconcile cloid st owners of Inr owners' \<Rightarrow> owners' | Inl _ \<Rightarrow> owners)"

text \<open>The reference: a cloid is resolved once a terminal status was reported after its registration.\<close>

fun resolved_by :: "string \<Rightarrow> recovery_event list \<Rightarrow> bool" where
  "resolved_by cloid [] = False"
| "resolved_by cloid (RE_Register _ # es) = resolved_by cloid es"
| "resolved_by cloid (RE_Reconcile c st # es) = (c = cloid \<and> is_terminal st \<or> resolved_by cloid es)"

lemma terminal_set: "st \<in> {Filled, Cancelled, Rejected, Expired} \<longleftrightarrow> is_terminal st"
  by (cases st) (simp_all add: is_terminal_def)

lemma owner_reconcile_frame [simp]:
  "rv_cloid (owner_reconcile st r) = rv_cloid r" "rv_slot (owner_reconcile st r) = rv_slot r"
  "rv_discovered_at (owner_reconcile st r) = rv_discovered_at r"
  "blocks_placement (owner_reconcile st r) \<longleftrightarrow> blocks_placement r \<and> \<not> is_terminal st"
  by (auto simp: owner_reconcile_def rv_cloid_def blocks_placement_def terminal_set [symmetric])

lemma recovery_step_cloids: "distinct (map rv_cloid owners) \<Longrightarrow> distinct (map rv_cloid (recovery_step e owners))"
  by (cases e)
    (auto simp: registry_register_def registry_reconcile_def list_ex_iff comp_def if_distrib image_iff
      cong: map_cong if_cong)

lemma resolved_by_append: "resolved_by c (xs @ ys) \<longleftrightarrow> resolved_by c xs \<or> resolved_by c ys"
  by (induction xs rule: resolved_by.induct) auto

text \<open>The first registration of a cloid, with the events before and after it.\<close>

definition registered :: "recovery_event list \<Rightarrow> recovery_event list \<Rightarrow> recovery_owner \<Rightarrow> recovery_event list \<Rightarrow> bool" where
  "registered es pre r post \<longleftrightarrow>
     es = pre @ RE_Register r # post \<and> (\<forall>x. RE_Register x \<in> set pre \<longrightarrow> rv_cloid x \<noteq> rv_cloid r)"

definition resolved_owner :: "recovery_event list \<Rightarrow> recovery_owner \<Rightarrow> recovery_owner" where
  "resolved_owner post r = (if resolved_by (rv_cloid r) post then r\<lparr>rv_status := RS_ResolvedTerminal\<rparr> else r)"

lemma registered_snoc:
  "registered (es @ [e]) pre r post \<longleftrightarrow>
     (\<exists>post'. post = post' @ [e] \<and> registered es pre r post') \<or>
     (post = [] \<and> pre = es \<and> e = RE_Register r \<and> (\<forall>x. RE_Register x \<in> set es \<longrightarrow> rv_cloid x \<noteq> rv_cloid r))"
  unfolding registered_def by (cases post rule: rev_cases) auto

lemma resolved_owner_frame [simp]:
  "rv_cloid (resolved_owner post r) = rv_cloid r" "rv_slot (resolved_owner post r) = rv_slot r"
  "rv_discovered_at (resolved_owner post r) = rv_discovered_at r"
  "blocks_placement (resolved_owner post r) \<longleftrightarrow> blocks_placement r \<and> \<not> resolved_by (rv_cloid r) post"
  by (auto simp: resolved_owner_def rv_cloid_def blocks_placement_def)

lemma first_registration:
  assumes "RE_Register x \<in> set es"
  shows "\<exists>pre r post. registered es pre r post \<and> rv_cloid r = rv_cloid x"
proof -
  let ?P = "\<lambda>e. \<exists>y. e = RE_Register y \<and> rv_cloid y = rv_cloid x"
  from split_list_first_prop [of es ?P] assms obtain pre e post where
    s: "es = pre @ e # post" "?P e" "\<forall>z\<in>set pre. \<not> ?P z" by blast
  then obtain r where "e = RE_Register r" "rv_cloid r = rv_cloid x" by blast
  with s have "registered es pre r post" by (auto simp: registered_def)
  with \<open>rv_cloid r = rv_cloid x\<close> show ?thesis by blast
qed

lemma resolved_owner_Nil [simp]: "resolved_owner [] r = r"
  by (simp add: resolved_owner_def)

lemma registered_contents_snoc:
  "(\<exists>pre q post. registered (es @ [e]) pre q post \<and> r' = resolved_owner post q) \<longleftrightarrow>
     (\<exists>pre q post. registered es pre q post \<and> r' = resolved_owner (post @ [e]) q) \<or>
     (e = RE_Register r' \<and> (\<forall>x. RE_Register x \<in> set es \<longrightarrow> rv_cloid x \<noteq> rv_cloid r'))" (is "?L \<longleftrightarrow> ?A \<or> ?B")
proof
  assume ?L
  then obtain pre q post where q: "registered (es @ [e]) pre q post" "r' = resolved_owner post q" by blast
  then show "?A \<or> ?B" by (cases post rule: rev_cases) (auto simp: registered_snoc)
next
  assume "?A \<or> ?B"
  then show ?L
  proof
    assume ?A then show ?L unfolding registered_snoc by blast
  next
    assume ?B
    then have "registered (es @ [e]) es r' []" by (auto simp: registered_snoc)
    then show ?L by (metis resolved_owner_Nil)
  qed
qed

lemma recovery_run_contents:
  "r' \<in> set (fold recovery_step es []) \<longleftrightarrow> (\<exists>pre r post. registered es pre r post \<and> r' = resolved_owner post r)"
proof (induction es arbitrary: r' rule: rev_induct)
  case Nil
  then show ?case by (simp add: registered_def)
next
  case (snoc e es)
  let ?S = "fold recovery_step es []"
  have cloids: "(\<exists>x\<in>set ?S. rv_cloid x = c) \<longleftrightarrow> (\<exists>x. RE_Register x \<in> set es \<and> rv_cloid x = c)" for c
  proof
    assume "\<exists>x\<in>set ?S. rv_cloid x = c"
    then obtain pre r post where "registered es pre r post" "rv_cloid r = c"
      using snoc.IH by (metis resolved_owner_frame(1))
    then show "\<exists>x. RE_Register x \<in> set es \<and> rv_cloid x = c" by (auto simp: registered_def)
  next
    assume "\<exists>x. RE_Register x \<in> set es \<and> rv_cloid x = c"
    then show "\<exists>x\<in>set ?S. rv_cloid x = c" using first_registration snoc.IH by (metis resolved_owner_frame(1))
  qed
  show ?case
  proof (cases e)
    case (RE_Register r)
    have "r' \<in> set (fold recovery_step (es @ [e]) []) \<longleftrightarrow>
        r' \<in> set ?S \<or> (r' = r \<and> (\<forall>x. RE_Register x \<in> set es \<longrightarrow> rv_cloid x \<noteq> rv_cloid r))"
      using cloids [of "rv_cloid r"] by (auto simp: RE_Register registry_register_def list_ex_iff)
    also have "\<dots> \<longleftrightarrow> (\<exists>pre q post. registered (es @ [e]) pre q post \<and> r' = resolved_owner post q)"
      unfolding registered_contents_snoc snoc.IH
      by (auto simp: resolved_owner_def resolved_by_append RE_Register)
    finally show ?thesis .
  next
    case (RE_Reconcile c st)
    have upd: "(if rv_cloid q = c then owner_reconcile st (resolved_owner post q) else resolved_owner post q) =
        resolved_owner (post @ [e]) q" for q post
      by (auto simp: resolved_owner_def resolved_by_append RE_Reconcile owner_reconcile_def terminal_set rv_cloid_def is_terminal_def)
    have "r' \<in> set (fold recovery_step (es @ [e]) []) \<longleftrightarrow>
        (\<exists>x\<in>set ?S. r' = (if rv_cloid x = c then owner_reconcile st x else x))"
      by (auto simp: RE_Reconcile registry_reconcile_def list_ex_iff image_iff)
    also have "\<dots> \<longleftrightarrow> (\<exists>pre q post. registered es pre q post \<and> r' = resolved_owner (post @ [e]) q)"
      unfolding Bex_def snoc.IH by (metis upd resolved_owner_frame(1))
    also have "\<dots> \<longleftrightarrow> (\<exists>pre q post. registered (es @ [e]) pre q post \<and> r' = resolved_owner post q)"
      unfolding registered_contents_snoc by (auto simp: RE_Reconcile)
    finally show ?thesis .
  qed
qed

lemma fold_min_le: "fold (\<lambda>x m. min m (f x)) rs (a::int) < b \<longleftrightarrow> a < b \<or> (\<exists>x\<in>set rs. f x < b)"
  by (induction rs arbitrary: a) (auto simp: min_less_iff_disj)

lemma sla_exceeded_iff:
  assumes "0 < sla"
  shows "sla_exceeded now sla owners =
     Inr (\<exists>r\<in>set owners. blocks_placement r \<and> now - rv_discovered_at r > int sla)"
proof (cases "registry_unresolved owners")
  case Nil
  then have "\<forall>r\<in>set owners. \<not> blocks_placement r" by (auto simp: registry_unresolved_def filter_empty_conv)
  with Nil assms show ?thesis by (auto simp: sla_exceeded_def oldest_unresolved_age_def)
next
  case (Cons r rs)
  then have u: "{x \<in> set owners. blocks_placement x} = set (r # rs)"
    by (metis registry_unresolved_def set_filter)
  have "nat (now - m) > sla \<longleftrightarrow> m < now - int sla" for m using assms by auto
  moreover have "(\<exists>x\<in>set owners. blocks_placement x \<and> now - rv_discovered_at x > int sla) \<longleftrightarrow>
      (\<exists>x\<in>set (r # rs). rv_discovered_at x < now - int sla)"
    unfolding u [symmetric] by (auto simp: algebra_simps)
  ultimately show ?thesis
    using Cons assms by (simp add: sla_exceeded_def oldest_unresolved_age_def fold_min_le)
qed

section \<open>The property\<close>

definition unresolved_fact :: "recovery_event list \<Rightarrow> recovery_owner \<Rightarrow> bool" where
  "unresolved_fact es r \<longleftrightarrow>
     (\<exists>pre post. registered es pre r post \<and> blocks_placement r \<and> \<not> resolved_by (rv_cloid r) post)"

text \<open>no recovery fact is lost. In every registry that registrations and reconciliations can build the
  cloids are distinct, a slot is blocked exactly when the first registration of some cloid is for it, still
  possibly live, and no terminal status of that cloid was reported since, and with a positive deadline the alarm
  is raised exactly when one of these is older than the deadline.
\<close>

theorem recovery_until_terminal:
  "distinct (map rv_cloid (fold recovery_step es []))
    \<and> (placement_blocked slot (fold recovery_step es []) \<longleftrightarrow> (\<exists>r. unresolved_fact es r \<and> rv_slot r = slot))
    \<and> sla_exceeded now (Suc n) (fold recovery_step es []) =
        Inr (\<exists>r. unresolved_fact es r \<and> now - rv_discovered_at r > int (Suc n))"
proof -
  have "distinct (map rv_cloid (fold recovery_step es owners))" if "distinct (map rv_cloid owners)" for owners
    using that by (induction es arbitrary: owners) (simp_all add: recovery_step_cloids)
  moreover have "(\<exists>x\<in>set (fold recovery_step es []). blocks_placement x \<and> P (rv_slot x) (rv_discovered_at x)) \<longleftrightarrow>
      (\<exists>r. unresolved_fact es r \<and> P (rv_slot r) (rv_discovered_at r))" for P
    unfolding Bex_def recovery_run_contents unresolved_fact_def by (metis resolved_owner_frame(2-4))
  from this [of "\<lambda>s _. s = slot"] this [of "\<lambda>_ d. now - d > int (Suc n)"] show ?thesis
    using calculation [of "[]"]
    by (simp add: placement_blocked_def list_ex_iff sla_exceeded_iff conj_commute)
qed

end
