(* ===== verification/HE_Event_Bus.thy ===== *)
theory HE_Event_Bus
  imports HE_Models "HOL-Library.Sublist"
begin

text \<open>
  The in-process event bus (\<open>crates/infra/src/event_bus.rs\<close>) with the event types of
  \<open>crates/domain/src/events.rs\<close>. A mailbox is identified by the order of its allocation; the strong
  references to it are the handles its consumers hold and the targets of publishers still under way, and
  the bus itself refers to it weakly. Every step is what runs under one lock acquisition: \<open>put\<close> and
  \<open>recv\<close> take a step when their loop leaves the wait, a publisher takes one turn per attempt on its first
  remaining target, and steps of any consumers and publishers interleave. Payloads are opaque, since the bus
  reads nothing but their type.
\<close>

section \<open>Event types\<close>

datatype event_type =
    L2BookUpdate | TradeUpdate | CandleUpdate | FundingUpdate | MidPriceUpdate | ExternalReferenceUpdate
  | MmFeatureSample | MmQuoteDecision | MmInventorySample | MmActionCreditSample | MmFillMarkout
  | OrderSubmitted | OrderAcknowledged | OrderFilled | OrderPartialFill | OrderCancelled | OrderRejected
  | OrderExpired | PositionChanged | BalanceChanged | AccountStateUpdate | SignalGenerated
  | RiskCheckPassed | RiskCheckFailed | KillSwitchTriggered | ReconciliationComplete | ActionCreditsLow
  | WsConnected | WsDisconnected

fun event_type_as_str :: "event_type \<Rightarrow> string" where
  "event_type_as_str L2BookUpdate = ''L2BookUpdate''"
| "event_type_as_str TradeUpdate = ''TradeUpdate''"
| "event_type_as_str CandleUpdate = ''CandleUpdate''"
| "event_type_as_str FundingUpdate = ''FundingUpdate''"
| "event_type_as_str MidPriceUpdate = ''MidPriceUpdate''"
| "event_type_as_str ExternalReferenceUpdate = ''ExternalReferenceUpdate''"
| "event_type_as_str MmFeatureSample = ''MarketMakerFeatureSample''"
| "event_type_as_str MmQuoteDecision = ''MarketMakerQuoteDecision''"
| "event_type_as_str MmInventorySample = ''MarketMakerInventorySample''"
| "event_type_as_str MmActionCreditSample = ''MarketMakerActionCreditSample''"
| "event_type_as_str MmFillMarkout = ''MarketMakerFillMarkout''"
| "event_type_as_str OrderSubmitted = ''OrderSubmitted''"
| "event_type_as_str OrderAcknowledged = ''OrderAcknowledged''"
| "event_type_as_str OrderFilled = ''OrderFilled''"
| "event_type_as_str OrderPartialFill = ''OrderPartialFill''"
| "event_type_as_str OrderCancelled = ''OrderCancelled''"
| "event_type_as_str OrderRejected = ''OrderRejected''"
| "event_type_as_str OrderExpired = ''OrderExpired''"
| "event_type_as_str PositionChanged = ''PositionChanged''"
| "event_type_as_str BalanceChanged = ''BalanceChanged''"
| "event_type_as_str AccountStateUpdate = ''AccountStateUpdate''"
| "event_type_as_str SignalGenerated = ''SignalGenerated''"
| "event_type_as_str RiskCheckPassed = ''RiskCheckPassed''"
| "event_type_as_str RiskCheckFailed = ''RiskCheckFailed''"
| "event_type_as_str KillSwitchTriggered = ''KillSwitchTriggered''"
| "event_type_as_str ReconciliationComplete = ''ReconciliationComplete''"
| "event_type_as_str ActionCreditsLow = ''ActionCreditsLow''"
| "event_type_as_str WsConnected = ''WsConnected''"
| "event_type_as_str WsDisconnected = ''WsDisconnected''"

definition ALL_EVENT_TYPES :: "string list" where
  "ALL_EVENT_TYPES =
     [''L2BookUpdate'', ''TradeUpdate'', ''CandleUpdate'', ''FundingUpdate'', ''MidPriceUpdate'',
      ''ExternalReferenceUpdate'', ''MarketMakerFeatureSample'', ''MarketMakerQuoteDecision'',
      ''MarketMakerInventorySample'', ''MarketMakerActionCreditSample'', ''MarketMakerFillMarkout'',
      ''OrderSubmitted'', ''OrderAcknowledged'', ''OrderFilled'', ''OrderPartialFill'', ''OrderCancelled'',
      ''OrderRejected'', ''OrderExpired'', ''PositionChanged'', ''BalanceChanged'', ''AccountStateUpdate'',
      ''SignalGenerated'', ''RiskCheckPassed'', ''RiskCheckFailed'', ''KillSwitchTriggered'',
      ''ReconciliationComplete'', ''ActionCreditsLow'', ''WsConnected'', ''WsDisconnected'']"

text \<open>The types in the order of the enum, to read the map of subscriptions as the code iterates it.\<close>

definition event_types :: "event_type list" where
  "event_types =
     [L2BookUpdate, TradeUpdate, CandleUpdate, FundingUpdate, MidPriceUpdate, ExternalReferenceUpdate,
      MmFeatureSample, MmQuoteDecision, MmInventorySample, MmActionCreditSample, MmFillMarkout,
      OrderSubmitted, OrderAcknowledged, OrderFilled, OrderPartialFill, OrderCancelled, OrderRejected,
      OrderExpired, PositionChanged, BalanceChanged, AccountStateUpdate, SignalGenerated, RiskCheckPassed,
      RiskCheckFailed, KillSwitchTriggered, ReconciliationComplete, ActionCreditsLow, WsConnected,
      WsDisconnected]"

record 'p event =
  ev_type :: event_type
  ev_payload :: 'p

definition event_is_lossy :: "'p event \<Rightarrow> bool" where
  "event_is_lossy e \<longleftrightarrow> ev_type e \<in>
     {L2BookUpdate, TradeUpdate, CandleUpdate, FundingUpdate, MidPriceUpdate, ExternalReferenceUpdate,
      MmFeatureSample, MmQuoteDecision, MmInventorySample, MmActionCreditSample, MmFillMarkout}"

section \<open>Mailboxes\<close>

record 'a mailbox =
  mb_items :: "'a list"
  mb_capacity :: nat
  mb_dropped :: int
  mb_closed :: bool

definition mailbox_new :: "nat \<Rightarrow> 'a mailbox" where
  "mailbox_new capacity = \<lparr>mb_items = [], mb_capacity = capacity, mb_dropped = 0, mb_closed = False\<rparr>"

definition push_item :: "'a \<Rightarrow> 'a mailbox \<Rightarrow> 'a mailbox" where
  "push_item x b = b\<lparr>mb_items := mb_items b @ [x]\<rparr>"

definition count_drop :: "'a mailbox \<Rightarrow> 'a mailbox" where
  "count_drop b = b\<lparr>mb_dropped := (mb_dropped b + 1) mod 2 ^ 64\<rparr>"

text \<open>\<open>put\<close> and \<open>recv\<close>: \<open>None\<close> when the loop goes (back) to wait.\<close>

definition mailbox_put :: "'a \<Rightarrow> 'a mailbox \<Rightarrow> ('a mailbox \<times> bool) option" where
  "mailbox_put x b =
     (if mb_closed b then Some (b, False)
      else if length (mb_items b) < mb_capacity b then Some (push_item x b, True)
      else None)"

fun list_position :: "('a \<Rightarrow> bool) \<Rightarrow> 'a list \<Rightarrow> nat option" where
  "list_position P [] = None"
| "list_position P (x # xs) = (if P x then Some 0 else map_option Suc (list_position P xs))"

definition put_lossy :: "('a \<Rightarrow> bool) \<Rightarrow> 'a \<Rightarrow> 'a mailbox \<Rightarrow> 'a mailbox \<times> int option" where
  "put_lossy lossy x b =
     (if mb_closed b then (b, None)
      else if mb_capacity b \<le> length (mb_items b) then
        (case list_position lossy (mb_items b) of
           Some i \<Rightarrow> (push_item x (count_drop (b\<lparr>mb_items := take i (mb_items b) @ drop (Suc i) (mb_items b)\<rparr>)), Some 1)
         | None \<Rightarrow> (count_drop b, Some 1))
      else (push_item x b, Some 0))"

definition mailbox_recv :: "'a mailbox \<Rightarrow> ('a mailbox \<times> 'a option) option" where
  "mailbox_recv b =
     (case mb_items b of
        x # xs \<Rightarrow> Some (b\<lparr>mb_items := xs\<rparr>, Some x)
      | [] \<Rightarrow> if mb_closed b then Some (b, None) else None)"

definition try_recv :: "'a mailbox \<Rightarrow> 'a mailbox \<times> 'a option" where
  "try_recv b = (case mb_items b of x # xs \<Rightarrow> (b\<lparr>mb_items := xs\<rparr>, Some x) | [] \<Rightarrow> (b, None))"

definition try_recv_forced :: "'a \<Rightarrow> 'a mailbox \<Rightarrow> 'a mailbox \<times> bool" where
  "try_recv_forced x b =
     (if mb_closed b \<or> mb_capacity b \<le> length (mb_items b) then (b, False) else (push_item x b, True))"

definition mailbox_close :: "'a mailbox \<Rightarrow> 'a mailbox" where
  "mailbox_close b = b\<lparr>mb_closed := True\<rparr>"

definition mailbox_len :: "'a mailbox \<Rightarrow> nat" where "mailbox_len b = length (mb_items b)"
definition mailbox_is_empty :: "'a mailbox \<Rightarrow> bool" where "mailbox_is_empty b \<longleftrightarrow> mailbox_len b = 0"

section \<open>The bus\<close>

text \<open>A publisher under way: its event, the targets left, whether it is \<open>publish_sync\<close>, and the attempts
  left on the first target.\<close>

record 'p publisher =
  pb_event :: "'p event"
  pb_targets :: "nat list"
  pb_sync :: bool
  pb_tries :: nat

record 'p bus =
  bs_by_type :: "event_type \<Rightarrow> nat list"
  bs_wildcard :: "nat list"
  bs_maxsize :: nat
  bs_count :: int
  bs_boxes :: "'p event mailbox list"
  bs_handles :: "nat list"
  bs_tasks :: "(nat \<times> 'p publisher) list"
  bs_next :: nat

definition bus_new :: "nat \<Rightarrow> 'p bus" where
  "bus_new maxsize =
     \<lparr>bs_by_type = (\<lambda>_. []), bs_wildcard = [], bs_maxsize = maxsize, bs_count = 0, bs_boxes = [],
      bs_handles = [], bs_tasks = [], bs_next = 0\<rparr>"

definition bus_default :: "'p bus" where "bus_default = bus_new 10000"

definition is_live :: "'p bus \<Rightarrow> nat \<Rightarrow> bool" where
  "is_live s m \<longleftrightarrow> m \<in> set (bs_handles s) \<or> (\<exists>(t, p)\<in>set (bs_tasks s). m \<in> set (pb_targets p))"

text \<open>Allocate a mailbox whose handle goes to the caller.\<close>

definition new_mailbox :: "nat \<Rightarrow> 'p bus \<Rightarrow> 'p bus \<times> nat" where
  "new_mailbox capacity s =
     (s\<lparr>bs_boxes := bs_boxes s @ [mailbox_new capacity], bs_handles := bs_handles s @ [length (bs_boxes s)]\<rparr>,
      length (bs_boxes s))"

definition add_subscriber :: "nat \<Rightarrow> event_type \<Rightarrow> 'p bus \<Rightarrow> 'p bus" where
  "add_subscriber m et s = s\<lparr>bs_by_type := (bs_by_type s)(et := bs_by_type s et @ [m])\<rparr>"

definition subscribe_many :: "event_type list \<Rightarrow> 'p bus \<Rightarrow> 'p bus \<times> nat" where
  "subscribe_many ets s = (let (s1, m) = new_mailbox (bs_maxsize s) s in (fold (add_subscriber m) ets s1, m))"

definition subscribe :: "event_type \<Rightarrow> 'p bus \<Rightarrow> 'p bus \<times> nat" where
  "subscribe et s = (let (s1, m) = new_mailbox (bs_maxsize s) s in (add_subscriber m et s1, m))"

definition subscribe_maxsize :: "event_type \<Rightarrow> nat \<Rightarrow> 'p bus \<Rightarrow> 'p bus \<times> nat" where
  "subscribe_maxsize et maxsize s = (let (s1, m) = new_mailbox maxsize s in (add_subscriber m et s1, m))"

definition subscribe_all :: "'p bus \<Rightarrow> 'p bus \<times> nat" where
  "subscribe_all s = (let (s1, m) = new_mailbox (bs_maxsize s) s in (s1\<lparr>bs_wildcard := bs_wildcard s1 @ [m]\<rparr>, m))"

definition unsubscribe :: "nat \<Rightarrow> event_type \<Rightarrow> 'p bus \<Rightarrow> 'p bus" where
  "unsubscribe m et s = s\<lparr>bs_by_type := (bs_by_type s)(et := filter (\<lambda>q. q \<noteq> m) (bs_by_type s et))\<rparr>"

definition unsubscribe_many :: "event_type list \<Rightarrow> nat \<Rightarrow> 'p bus \<Rightarrow> 'p bus" where
  "unsubscribe_many ets m s = fold (unsubscribe m) ets s"

definition unsubscribe_wildcard :: "nat \<Rightarrow> 'p bus \<Rightarrow> 'p bus" where
  "unsubscribe_wildcard m s = s\<lparr>bs_wildcard := filter (\<lambda>q. q \<noteq> m) (bs_wildcard s)\<rparr>"

definition matching_mailboxes :: "event_type \<Rightarrow> 'p bus \<Rightarrow> 'p bus \<times> nat list" where
  "matching_mailboxes et s =
     (let typed = filter (is_live s) (bs_by_type s et); wild = filter (is_live s) (bs_wildcard s)
      in (s\<lparr>bs_by_type := (bs_by_type s)(et := typed), bs_wildcard := wild\<rparr>, typed @ wild))"

definition subscriber_count :: "'p bus \<Rightarrow> nat" where
  "subscriber_count s =
     sum_list (map (\<lambda>et. length (filter (is_live s) (bs_by_type s et))) event_types) +
     length (filter (is_live s) (bs_wildcard s))"

definition event_type_count :: "'p bus \<Rightarrow> nat" where
  "event_type_count s = length (filter (\<lambda>et. list_ex (is_live s) (bs_by_type s et)) event_types)"

section \<open>Publishing\<close>

definition SYNC_TRIES :: nat where "SYNC_TRIES = 100"

text \<open>What an observer of the bus sees: a publisher starts on its targets, delivers to one, skips a closed
  one, loses a lossy event on one full of reliable events, or ends; a consumer receives an event.\<close>

datatype 'p bus_obs =
    OB_Start nat "'p event" "nat list"
  | OB_Push nat nat "'p event"
  | OB_Skip nat nat
  | OB_Lost nat nat
  | OB_Done nat "string + unit"
  | OB_Received nat "'p event"

definition start_publisher :: "bool \<Rightarrow> 'p event \<Rightarrow> 'p bus \<Rightarrow> 'p bus \<times> 'p bus_obs list" where
  "start_publisher sync e s =
     (let (s1, targets) = matching_mailboxes (ev_type e) s;
          p = \<lparr>pb_event = e, pb_targets = targets, pb_sync = sync, pb_tries = SYNC_TRIES\<rparr>
      in (s1\<lparr>bs_tasks := bs_tasks s1 @ [(bs_next s1, p)], bs_next := bs_next s1 + 1\<rparr>,
          [OB_Start (bs_next s1) e targets]))"

definition end_publisher :: "nat \<Rightarrow> 'p bus \<Rightarrow> 'p bus" where
  "end_publisher t s = s\<lparr>bs_tasks := filter (\<lambda>(t', p). t' \<noteq> t) (bs_tasks s)\<rparr>"

definition set_publisher :: "nat \<Rightarrow> 'p publisher \<Rightarrow> 'p bus \<Rightarrow> 'p bus" where
  "set_publisher t p s = s\<lparr>bs_tasks := map (\<lambda>(t', p'). if t' = t then (t, p) else (t', p')) (bs_tasks s)\<rparr>"

definition set_box :: "nat \<Rightarrow> 'p event mailbox \<Rightarrow> 'p bus \<Rightarrow> 'p bus" where
  "set_box m b s = s\<lparr>bs_boxes := (bs_boxes s)[m := b]\<rparr>"

text \<open>When \<open>put_lossy\<close> drops the incoming event.\<close>

definition full_of_reliable :: "'p event mailbox \<Rightarrow> bool" where
  "full_of_reliable b \<longleftrightarrow> mb_capacity b \<le> length (mb_items b) \<and> list_position event_is_lossy (mb_items b) = None"

text \<open>\<open>publish\<close> and \<open>publish_sync\<close> on their first target; \<open>None\<close> while \<open>put\<close> waits.\<close>

definition publish_turn :: "nat \<Rightarrow> 'p bus \<Rightarrow> ('p bus \<times> 'p bus_obs list) option" where
  "publish_turn t s =
     (case map_of (bs_tasks s) t of
        None \<Rightarrow> None
      | Some p \<Rightarrow>
          (case pb_targets p of
             [] \<Rightarrow> Some ((end_publisher t s)\<lparr>bs_count := (bs_count s + 1) mod 2 ^ 64\<rparr>, [OB_Done t (Inr ())])
           | m # rest \<Rightarrow>
               let e = pb_event p; b = bs_boxes s ! m;
                   next = set_publisher t (p\<lparr>pb_targets := rest, pb_tries := SYNC_TRIES\<rparr>) s
               in if event_is_lossy e then
                    let (b', r) = put_lossy event_is_lossy e b
                    in Some (set_box m b' next,
                         [if r = None then OB_Skip t m
                          else if full_of_reliable b then OB_Lost t m else OB_Push t m e])
                  else if pb_sync p then
                    (case try_recv_forced e b of
                       (b', True) \<Rightarrow> Some (set_box m b' next, [OB_Push t m e])
                     | (b', False) \<Rightarrow>
                         if pb_tries p \<le> 1 then
                           Some (end_publisher t s, [OB_Done t (Inl (event_type_as_str (ev_type e)))])
                         else Some (set_publisher t (p\<lparr>pb_tries := pb_tries p - 1\<rparr>) s, []))
                  else
                    (case mailbox_put e b of
                       None \<Rightarrow> None
                     | Some (b', ok) \<Rightarrow>
                         Some (set_box m b' next, [if ok then OB_Push t m e else OB_Skip t m]))))"

text \<open>The steps of the consumers need a handle. The task that runs \<open>publish\<close> of a reliable event can be
  dropped at an \<open>await\<close>.\<close>

datatype 'p bus_event =
    BE_Subscribe event_type
  | BE_SubscribeMany "event_type list"
  | BE_SubscribeMax event_type nat
  | BE_SubscribeAll
  | BE_Unsubscribe event_type nat
  | BE_UnsubscribeMany "event_type list" nat
  | BE_UnsubscribeWildcard nat
  | BE_Publish "'p event"
  | BE_PublishSync "'p event"
  | BE_Turn nat
  | BE_Cancel nat
  | BE_Recv nat
  | BE_TryRecv nat
  | BE_Close nat
  | BE_Clone nat
  | BE_Drop nat

definition with_handle :: "nat \<Rightarrow> 'p bus \<Rightarrow> ('p bus \<times> 'p bus_obs list) option \<Rightarrow> ('p bus \<times> 'p bus_obs list) option" where
  "with_handle m s r = (if m \<in> set (bs_handles s) then r else None)"

definition received_obs :: "nat \<Rightarrow> 'p event option \<Rightarrow> 'p bus_obs list" where
  "received_obs m r = (case r of None \<Rightarrow> [] | Some e \<Rightarrow> [OB_Received m e])"

fun bus_step :: "'p bus_event \<Rightarrow> 'p bus \<Rightarrow> ('p bus \<times> 'p bus_obs list) option" where
  "bus_step (BE_Subscribe et) s = Some (fst (subscribe et s), [])"
| "bus_step (BE_SubscribeMany ets) s = Some (fst (subscribe_many ets s), [])"
| "bus_step (BE_SubscribeMax et n) s = Some (fst (subscribe_maxsize et n s), [])"
| "bus_step BE_SubscribeAll s = Some (fst (subscribe_all s), [])"
| "bus_step (BE_Unsubscribe et m) s = with_handle m s (Some (unsubscribe m et s, []))"
| "bus_step (BE_UnsubscribeMany ets m) s = with_handle m s (Some (unsubscribe_many ets m s, []))"
| "bus_step (BE_UnsubscribeWildcard m) s = with_handle m s (Some (unsubscribe_wildcard m s, []))"
| "bus_step (BE_Publish e) s = Some (start_publisher False e s)"
| "bus_step (BE_PublishSync e) s = Some (start_publisher True e s)"
| "bus_step (BE_Turn t) s = publish_turn t s"
| "bus_step (BE_Cancel t) s =
     (case map_of (bs_tasks s) t of
        None \<Rightarrow> None
      | Some p \<Rightarrow> if pb_sync p \<or> event_is_lossy (pb_event p) then None else Some (end_publisher t s, []))"
| "bus_step (BE_Recv m) s = with_handle m s
     (case mailbox_recv (bs_boxes s ! m) of
        None \<Rightarrow> None
      | Some (b, r) \<Rightarrow> Some (set_box m b s, received_obs m r))"
| "bus_step (BE_TryRecv m) s = with_handle m s
     (let (b, r) = try_recv (bs_boxes s ! m) in Some (set_box m b s, received_obs m r))"
| "bus_step (BE_Close m) s = with_handle m s (Some (set_box m (mailbox_close (bs_boxes s ! m)) s, []))"
| "bus_step (BE_Clone m) s = with_handle m s (Some (s\<lparr>bs_handles := m # bs_handles s\<rparr>, []))"
| "bus_step (BE_Drop m) s = with_handle m s (Some (s\<lparr>bs_handles := remove1 m (bs_handles s)\<rparr>, []))"

fun bus_run :: "'p bus_event list \<Rightarrow> 'p bus \<Rightarrow> ('p bus \<times> 'p bus_obs list) option" where
  "bus_run [] s = Some (s, [])"
| "bus_run (e # es) s =
     (case bus_step e s of
        None \<Rightarrow> None
      | Some (s1, o1) \<Rightarrow> map_option (\<lambda>(s2, o2). (s2, o1 @ o2)) (bus_run es s1))"

section \<open>Channels that may lose what need not be kept\<close>

text \<open>
  The law of one step of a channel: what it hands out followed by what it holds afterwards is what it held
  followed by what it took in, in the same order, with some items missing that need not be kept.
\<close>

definition channel_law :: "('a \<Rightarrow> bool) \<Rightarrow> 'a list \<Rightarrow> 'a list \<Rightarrow> 'a list \<Rightarrow> 'a list \<Rightarrow> bool" where
  "channel_law keep held taken given held' \<longleftrightarrow>
     subseq (given @ held') (held @ taken) \<and> filter keep (given @ held') = filter keep (held @ taken)"

lemma channel_law_idle [simp]: "channel_law keep h [] [] h"
  by (simp add: channel_law_def)

lemma channel_law_trans:
  assumes "channel_law keep h1 t1 g1 h2" and "channel_law keep h2 t2 g2 h3"
  shows "channel_law keep h1 (t1 @ t2) (g1 @ g2) h3"
proof -
  have "subseq (g1 @ g2 @ h3) (g1 @ h2 @ t2)" and "subseq ((g1 @ h2) @ t2) ((h1 @ t1) @ t2)"
    using assms unfolding channel_law_def by (blast intro: list_emb_append_mono subseq_order.refl)+
  then have "subseq (g1 @ g2 @ h3) (h1 @ t1 @ t2)"
    by (metis append.assoc subseq_order.trans)
  moreover have "filter keep (g1 @ g2 @ h3) = filter keep (h1 @ t1 @ t2)"
    using assms unfolding channel_law_def filter_append by (metis append.assoc)
  ultimately show ?thesis by (simp add: channel_law_def)
qed

locale lossy_channel =
  fixes held :: "'s \<Rightarrow> 'a list" and keep :: "'a \<Rightarrow> bool"
    and chan_step :: "'s \<Rightarrow> 'a list \<Rightarrow> 'a list \<Rightarrow> 's \<Rightarrow> bool"
  assumes step_law: "chan_step s taken given s' \<Longrightarrow> channel_law keep (held s) taken given (held s')"
begin

inductive chan_run :: "'s \<Rightarrow> 'a list \<Rightarrow> 'a list \<Rightarrow> 's \<Rightarrow> bool" where
  run_idle: "chan_run s [] [] s"
| run_step: "chan_step s t1 g1 s1 \<Longrightarrow> chan_run s1 t2 g2 s2 \<Longrightarrow> chan_run s (t1 @ t2) (g1 @ g2) s2"

lemma run_law: "chan_run s taken given s' \<Longrightarrow> channel_law keep (held s) taken given (held s')"
  by (induction rule: chan_run.induct) (auto intro: channel_law_trans step_law)

end

section \<open>Facts on mailboxes\<close>

lemma list_position_None: "list_position P xs = None \<longleftrightarrow> (\<forall>x\<in>set xs. \<not> P x)"
  by (induction xs) auto

lemma list_position_Some: "list_position P xs = Some i \<Longrightarrow> i < length xs \<and> P (xs ! i)"
  by (induction xs arbitrary: i) (auto split: if_splits)

lemma remove_at_law:
  assumes "list_position P xs = Some i"
  shows "subseq (take i xs @ drop (Suc i) xs) xs"
    and "filter (\<lambda>x. \<not> P x) (take i xs @ drop (Suc i) xs) = filter (\<lambda>x. \<not> P x) xs"
    and "length (take i xs @ drop (Suc i) xs) = length xs - 1"
proof -
  have i: "i < length xs" "P (xs ! i)" using list_position_Some [OF assms] by auto
  have xs: "xs = take i xs @ xs ! i # drop (Suc i) xs" using i(1) by (rule id_take_nth_drop)
  show "subseq (take i xs @ drop (Suc i) xs) xs"
    by (subst (3) xs) (intro list_emb_append_mono subseq_order.refl list_emb_Cons)
  show "filter (\<lambda>x. \<not> P x) (take i xs @ drop (Suc i) xs) = filter (\<lambda>x. \<not> P x) xs"
    by (subst (3) xs) (simp add: i(2))
  show "length (take i xs @ drop (Suc i) xs) = length xs - 1" using i(1) by auto
qed

definition mailbox_ok :: "'a mailbox \<Rightarrow> bool" where
  "mailbox_ok b \<longleftrightarrow> length (mb_items b) \<le> mb_capacity b"

lemma push_item_law [simp]: "channel_law keep (mb_items b) [x] [] (mb_items (push_item x b))"
  by (simp add: channel_law_def push_item_def)

lemma put_lossy_law:
  assumes "put_lossy lossy x b = (b', r)"
  shows "channel_law (\<lambda>y. \<not> lossy y) (mb_items b)
           (if r = None \<or> mb_capacity b \<le> length (mb_items b) \<and> list_position lossy (mb_items b) = None then [] else [x])
           [] (mb_items b')"
proof (cases "mb_closed b \<or> length (mb_items b) < mb_capacity b")
  case True
  then show ?thesis using assms by (auto simp: put_lossy_def channel_law_def push_item_def split: if_splits)
next
  case False
  show ?thesis
  proof (cases "list_position lossy (mb_items b)")
    case None
    then show ?thesis using False assms by (auto simp: put_lossy_def count_drop_def)
  next
    case (Some i)
    then have "b' = push_item x (count_drop (b\<lparr>mb_items := take i (mb_items b) @ drop (Suc i) (mb_items b)\<rparr>))" "r = Some 1"
      using False assms by (auto simp: put_lossy_def)
    then show ?thesis
      using remove_at_law(1,2) [OF Some] Some
      by (simp add: channel_law_def push_item_def count_drop_def list_emb_append_mono flip: append_assoc del: filter_append)
        (simp add: filter_append)
  qed
qed

text \<open>A mailbox keeps its capacity and, once closed, stays closed.\<close>

definition box_grows :: "'a mailbox \<Rightarrow> 'a mailbox \<Rightarrow> bool" where
  "box_grows b b' \<longleftrightarrow> (mailbox_ok b \<longrightarrow> mailbox_ok b') \<and> (mb_closed b \<longrightarrow> mb_closed b')"

lemma box_grows_refl [simp]: "box_grows b b"
  by (simp add: box_grows_def)

lemma put_lossy_grows: "put_lossy lossy x b = (b', r) \<Longrightarrow> box_grows b b'"
  using remove_at_law(3) [of lossy "mb_items b"] list_position_Some [of lossy "mb_items b"]
  by (fastforce simp: put_lossy_def box_grows_def mailbox_ok_def push_item_def count_drop_def
      split: if_splits option.splits)

lemma put_lossy_closed: "put_lossy lossy x b = (b', r) \<Longrightarrow> r = None \<longleftrightarrow> mb_closed b"
  by (auto simp: put_lossy_def split: if_splits option.splits)

lemma mailbox_put_cases:
  "mailbox_put x b = Some (b', ok) \<Longrightarrow>
     (ok \<and> b' = push_item x b \<or> \<not> ok \<and> b' = b \<and> mb_closed b) \<and> box_grows b b'"
  by (auto simp: mailbox_put_def box_grows_def mailbox_ok_def push_item_def split: if_splits)

lemma try_recv_forced_cases:
  "try_recv_forced x b = (b', ok) \<Longrightarrow> (ok \<and> b' = push_item x b \<or> \<not> ok \<and> b' = b) \<and> box_grows b b'"
  by (auto simp: try_recv_forced_def box_grows_def mailbox_ok_def push_item_def split: if_splits)

lemma recv_law:
  "mailbox_recv b = Some (b', r) \<Longrightarrow>
     channel_law keep (mb_items b) [] (case r of None \<Rightarrow> [] | Some x \<Rightarrow> [x]) (mb_items b') \<and> box_grows b b'"
  "try_recv b = (b', r) \<Longrightarrow>
     channel_law keep (mb_items b) [] (case r of None \<Rightarrow> [] | Some x \<Rightarrow> [x]) (mb_items b') \<and> box_grows b b'"
  by (auto simp: mailbox_recv_def try_recv_def channel_law_def box_grows_def mailbox_ok_def
      split: list.splits if_splits)

lemma closed_mailbox_drains:
  "mb_closed b \<Longrightarrow> mailbox_recv b \<noteq> None \<and> (mailbox_recv b = Some (b, None) \<longleftrightarrow> mb_items b = [])"
  by (auto simp: mailbox_recv_def split: list.splits)

end
