(* ===== verification/HE_Bus_Props.thy ===== *)
theory HE_Bus_Props
  imports HE_Event_Bus
begin

text \<open>
  What the event bus guarantees under any interleaving of its publishers and consumers: mailboxes stay
  bounded and never lose a reliable event, a publish that returns reached every mailbox it matched, a
  synchronous publish always returns; and the case in which a publisher waits for ever.
\<close>

section \<open>The state of the bus\<close>

definition publisher_ok :: "nat \<Rightarrow> 'p publisher \<Rightarrow> bool" where
  "publisher_ok n p \<longleftrightarrow> (\<forall>m\<in>set (pb_targets p). m < n) \<and> 1 \<le> pb_tries p \<and> pb_tries p \<le> SYNC_TRIES"

definition bus_wf :: "'p bus \<Rightarrow> bool" where
  "bus_wf s \<longleftrightarrow>
     (\<forall>et. \<forall>m\<in>set (bs_by_type s et). m < length (bs_boxes s)) \<and>
     (\<forall>m\<in>set (bs_wildcard s). m < length (bs_boxes s)) \<and>
     (\<forall>m\<in>set (bs_handles s). m < length (bs_boxes s)) \<and>
     (\<forall>(t, p)\<in>set (bs_tasks s). t < bs_next s \<and> publisher_ok (length (bs_boxes s)) p) \<and>
     distinct (map fst (bs_tasks s)) \<and> (\<forall>b\<in>set (bs_boxes s). mailbox_ok b)"

lemma bus_wf_new [simp]: "bus_wf (bus_new n)"
  by (simp add: bus_wf_def bus_new_def)

lemma publisher_ok_mono: "publisher_ok n p \<Longrightarrow> n \<le> k \<Longrightarrow> publisher_ok k p"
  by (auto simp: publisher_ok_def)

lemma map_of_taskD: "map_of (bs_tasks s) t = Some p \<Longrightarrow> bus_wf s \<Longrightarrow>
    t < bs_next s \<and> publisher_ok (length (bs_boxes s)) p"
  by (auto simp: bus_wf_def dest: map_of_SomeD)

text \<open>The tasks after the updates of a turn.\<close>

lemma map_of_set_publisher [simp]:
  "map_of (bs_tasks (set_publisher t p s)) t' =
     (if t' = t then map_option (\<lambda>_. p) (map_of (bs_tasks s) t) else map_of (bs_tasks s) t')"
proof -
  have "map_of (map (\<lambda>(t', p'). if t' = t then (t, p) else (t', p')) xs) t' =
     (if t' = t then map_option (\<lambda>_. p) (map_of xs t) else map_of xs t')" for xs
    by (induction xs) auto
  then show ?thesis by (simp add: set_publisher_def)
qed

lemma map_of_end_publisher [simp]:
  "map_of (bs_tasks (end_publisher t s)) t' = (if t' = t then None else map_of (bs_tasks s) t')"
proof -
  have "map_of (filter (\<lambda>(t', p). t' \<noteq> t) xs) t' = (if t' = t then None else map_of xs t')" for xs :: "(nat \<times> 'a publisher) list"
    by (induction xs) auto
  then show ?thesis by (simp add: end_publisher_def)
qed

lemma bus_updates [simp]:
  "bs_boxes (set_publisher t p s) = bs_boxes s" "bs_boxes (end_publisher t s) = bs_boxes s"
  "bs_boxes (set_box m b s) = (bs_boxes s)[m := b]" "bs_tasks (set_box m b s) = bs_tasks s"
  "bs_next (set_publisher t p s) = bs_next s" "bs_next (end_publisher t s) = bs_next s"
  "bs_next (set_box m b s) = bs_next s" "bs_handles (set_publisher t p s) = bs_handles s"
  "bs_handles (end_publisher t s) = bs_handles s" "bs_handles (set_box m b s) = bs_handles s"
  by (simp_all add: set_publisher_def end_publisher_def set_box_def)

lemma wf_set_publisher:
  assumes "bus_wf s" and "publisher_ok (length (bs_boxes s)) p"
  shows "bus_wf (set_publisher t p s)"
proof -
  have "map fst (map (\<lambda>(t', p'). if t' = t then (t, p) else (t', p')) xs) = map fst xs" for xs
    by (induction xs) auto
  then have "map fst (bs_tasks (set_publisher t p s)) = map fst (bs_tasks s)"
    by (simp add: set_publisher_def del: map_map)
  moreover have "\<forall>(t', q)\<in>set (bs_tasks (set_publisher t p s)). t' < bs_next s \<and> publisher_ok (length (bs_boxes s)) q"
    using assms by (auto simp: bus_wf_def set_publisher_def split: if_splits)
  ultimately show ?thesis using assms(1) by (simp add: bus_wf_def) (simp add: set_publisher_def)
qed

lemma wf_end_publisher: "bus_wf s \<Longrightarrow> bus_wf (end_publisher t s)"
  by (auto simp: bus_wf_def end_publisher_def distinct_map inj_on_def)

lemma wf_set_box: "bus_wf s \<Longrightarrow> mailbox_ok b \<Longrightarrow> bus_wf (set_box m b s)"
  by (auto simp: bus_wf_def set_box_def dest: subsetD [OF set_update_subset_insert])

lemma wf_add_subscriber: "bus_wf s \<Longrightarrow> m < length (bs_boxes s) \<Longrightarrow> bus_wf (add_subscriber m et s)"
  by (auto simp: bus_wf_def add_subscriber_def)

lemma fold_add_subscriber:
  "bs_boxes (fold (add_subscriber m) ets s) = bs_boxes s"
  "bs_tasks (fold (add_subscriber m) ets s) = bs_tasks s"
  "bs_next (fold (add_subscriber m) ets s) = bs_next s"
  "bs_handles (fold (add_subscriber m) ets s) = bs_handles s"
  by (induction ets arbitrary: s) (simp_all add: add_subscriber_def)

lemma wf_fold_add_subscriber:
  "bus_wf s \<Longrightarrow> m < length (bs_boxes s) \<Longrightarrow> bus_wf (fold (add_subscriber m) ets s)"
proof (induction ets arbitrary: s)
  case (Cons et ets)
  have "bs_boxes (add_subscriber m et s) = bs_boxes s" by (simp add: add_subscriber_def)
  then show ?case using Cons by (simp add: wf_add_subscriber)
qed simp

lemma new_mailbox_wf:
  assumes "bus_wf s" and "new_mailbox n s = (s1, m)"
  shows "bus_wf s1 \<and> m < length (bs_boxes s1) \<and> bs_tasks s1 = bs_tasks s \<and> bs_next s1 = bs_next s \<and>
    bs_boxes s1 = bs_boxes s @ [mailbox_new n] \<and> m = length (bs_boxes s) \<and> bs_handles s1 = bs_handles s @ [m]"
  using assms publisher_ok_mono [OF _ le_SucI [OF order.refl]]
  by (fastforce simp: bus_wf_def new_mailbox_def mailbox_ok_def mailbox_new_def less_Suc_eq)

text \<open>Subscribing allocates one mailbox, for which the caller alone has a handle; nothing else moves.\<close>

definition allocates :: "'p bus \<Rightarrow> 'p bus \<Rightarrow> bool" where
  "allocates s s' \<longleftrightarrow> bus_wf s' \<and> bs_tasks s' = bs_tasks s \<and> bs_next s' = bs_next s \<and>
     (\<exists>n. bs_boxes s' = bs_boxes s @ [mailbox_new n]) \<and> bs_handles s' = bs_handles s @ [length (bs_boxes s)]"

lemma wf_wildcard: "bus_wf s \<Longrightarrow> m < length (bs_boxes s) \<Longrightarrow> bus_wf (s\<lparr>bs_wildcard := bs_wildcard s @ [m]\<rparr>)"
  by (auto simp: bus_wf_def)

lemma subscribe_allocates:
  assumes "bus_wf s"
  shows "allocates s (fst (subscribe_many ets s))" and "allocates s (fst (subscribe et s))"
    and "allocates s (fst (subscribe_maxsize et n s))" and "allocates s (fst (subscribe_all s))"
  using assms new_mailbox_wf [OF assms]
  by (auto simp: subscribe_many_def subscribe_def subscribe_maxsize_def subscribe_all_def allocates_def
      fold_add_subscriber wf_fold_add_subscriber wf_add_subscriber wf_wildcard split: prod.splits)
    (auto simp: add_subscriber_def)

text \<open>Unsubscribing, cloning and dropping a handle, and matching leave mailboxes and publishers alone.\<close>

definition same_mail :: "'p bus \<Rightarrow> 'p bus \<Rightarrow> bool" where
  "same_mail s s' \<longleftrightarrow> bus_wf s' \<and> bs_boxes s' = bs_boxes s \<and> bs_tasks s' = bs_tasks s \<and> bs_next s' = bs_next s
     \<and> set (bs_handles s') \<subseteq> set (bs_handles s)"

lemma same_mail_trans: "same_mail s t \<Longrightarrow> same_mail t u \<Longrightarrow> same_mail s u"
  by (auto simp: same_mail_def)

lemma unsubscribe_same: "bus_wf s \<Longrightarrow> same_mail s (unsubscribe m et s)"
  by (auto simp: same_mail_def unsubscribe_def bus_wf_def)

lemma administration_same:
  assumes "bus_wf s"
  shows "same_mail s (unsubscribe_many ets m s)" and "same_mail s (unsubscribe_wildcard m s)"
    and "m \<in> set (bs_handles s) \<Longrightarrow> same_mail s (s\<lparr>bs_handles := m # bs_handles s\<rparr>)"
    and "same_mail s (s\<lparr>bs_handles := remove1 m (bs_handles s)\<rparr>)"
    and "same_mail s (fst (matching_mailboxes et s))"
proof -
  show "same_mail s (unsubscribe_many ets m s)"
    using assms unfolding unsubscribe_many_def
  proof (induction ets arbitrary: s)
    case (Cons et ets)
    from unsubscribe_same [OF Cons.prems, of m et] show ?case
      using Cons.IH [of "unsubscribe m et s"] same_mail_trans by (auto simp: same_mail_def)
  qed (simp add: same_mail_def)
qed (use assms in \<open>auto simp: same_mail_def unsubscribe_wildcard_def bus_wf_def matching_mailboxes_def
    Let_def dest: set_remove1_subset [THEN subsetD]\<close>)

section \<open>Steps on a mailbox\<close>

fun pushed :: "nat \<Rightarrow> 'p bus_obs list \<Rightarrow> 'p event list" where
  "pushed m [] = []"
| "pushed m (OB_Push t m' e # obs) = (if m' = m then e # pushed m obs else pushed m obs)"
| "pushed m (_ # obs) = pushed m obs"

fun received :: "nat \<Rightarrow> 'p bus_obs list \<Rightarrow> 'p event list" where
  "received m [] = []"
| "received m (OB_Received m' e # obs) = (if m' = m then e # received m obs else received m obs)"
| "received m (_ # obs) = received m obs"

lemma pushed_append [simp]: "pushed m (xs @ ys) = pushed m xs @ pushed m ys"
  by (induction xs rule: pushed.induct) auto

lemma received_append [simp]: "received m (xs @ ys) = received m xs @ received m ys"
  by (induction xs rule: received.induct) auto

abbreviation reliable :: "'p event \<Rightarrow> bool" where "reliable e \<equiv> \<not> event_is_lossy e"

text \<open>One step as a given mailbox sees it, a mailbox that is allocated later being empty.\<close>

definition bus_items :: "nat \<Rightarrow> 'p bus \<Rightarrow> 'p event list" where
  "bus_items m s = (if m < length (bs_boxes s) then mb_items (bs_boxes s ! m) else [])"

definition box_step :: "nat \<Rightarrow> 'p bus \<Rightarrow> 'p event list \<Rightarrow> 'p event list \<Rightarrow> 'p bus \<Rightarrow> bool" where
  "box_step m s taken given s' \<longleftrightarrow>
     (\<exists>e obs. bus_wf s \<and> bus_step e s = Some (s', obs) \<and> taken = pushed m obs \<and> given = received m obs)"

text \<open>What a step does to the mailboxes: it leaves all but one of them alone, and moves that one by the law.\<close>

definition one_box :: "'p bus \<Rightarrow> 'p bus_obs list \<Rightarrow> 'p bus \<Rightarrow> bool" where
  "one_box s obs s' \<longleftrightarrow> (\<exists>m b. m < length (bs_boxes s) \<and> bs_boxes s' = (bs_boxes s)[m := b] \<and> box_grows (bs_boxes s ! m) b \<and>
     channel_law reliable (mb_items (bs_boxes s ! m)) (pushed m obs) (received m obs) (mb_items b) \<and>
     (\<forall>k. k \<noteq> m \<longrightarrow> pushed k obs = [] \<and> received k obs = []) \<and>
     (\<forall>t k. OB_Skip t k \<in> set obs \<longrightarrow> k = m \<and> mb_closed b))"

definition no_box :: "'p bus \<Rightarrow> 'p bus_obs list \<Rightarrow> 'p bus \<Rightarrow> bool" where
  "no_box s obs s' \<longleftrightarrow> (\<exists>new. bs_boxes s' = bs_boxes s @ new \<and> (\<forall>b\<in>set new. mb_items b = [])) \<and>
     (\<forall>k. pushed k obs = [] \<and> received k obs = []) \<and> (\<forall>t k. OB_Skip t k \<notin> set obs)"

lemma box_okD: "bus_wf s \<Longrightarrow> m < length (bs_boxes s) \<Longrightarrow> mailbox_ok (bs_boxes s ! m)"
  by (simp add: bus_wf_def)

text \<open>No publisher makes room in a full mailbox, or closes one.\<close>

definition box_full :: "'a mailbox \<Rightarrow> bool" where
  "box_full b \<longleftrightarrow> \<not> mb_closed b \<and> mb_capacity b \<le> length (mb_items b)"

lemma put_lossy_full: "put_lossy lossy x b = (b', r) \<Longrightarrow> box_full b \<Longrightarrow> box_full b'"
  using remove_at_law(3) [of lossy "mb_items b"] list_position_Some [of lossy "mb_items b"]
  by (fastforce simp: put_lossy_def box_full_def push_item_def count_drop_def split: option.splits)

text \<open>The possible turns of a publisher with a target left.\<close>

definition delivers :: "nat \<Rightarrow> nat \<Rightarrow> 'p event mailbox \<Rightarrow> 'p event \<Rightarrow> 'p bus_obs \<Rightarrow> 'p event mailbox \<Rightarrow> bool" where
  "delivers t m b e ob b' \<longleftrightarrow> box_grows b b' \<and> (box_full b \<longrightarrow> box_full b') \<and> channel_law reliable (mb_items b) (pushed m [ob]) [] (mb_items b') \<and>
     (ob = OB_Push t m e \<or> ob = OB_Skip t m \<and> mb_closed b' \<or> ob = OB_Lost t m \<and> event_is_lossy e)"

lemma turn_targets:
  assumes "publish_turn t s = Some (s', obs)" and "map_of (bs_tasks s) t = Some p" and "pb_targets p = m # rest"
  obtains (deliver) ob b where "obs = [ob]" "delivers t m (bs_boxes s ! m) (pb_event p) ob b"
      "s' = set_box m b (set_publisher t (p\<lparr>pb_targets := rest, pb_tries := SYNC_TRIES\<rparr>) s)"
    | (retry) "reliable (pb_event p)" "pb_sync p" "1 < pb_tries p" "obs = []"
      "s' = set_publisher t (p\<lparr>pb_tries := pb_tries p - 1\<rparr>) s"
    | (refuse) "reliable (pb_event p)" "pb_sync p" "obs = [OB_Done t (Inl (event_type_as_str (ev_type (pb_event p))))]"
      "s' = end_publisher t s"
proof (cases "event_is_lossy (pb_event p)")
  case True
  obtain b r where b: "put_lossy event_is_lossy (pb_event p) (bs_boxes s ! m) = (b, r)" by (rule prod.exhaust)
  show ?thesis
  proof (rule deliver)
    show "delivers t m (bs_boxes s ! m) (pb_event p) (if r = None then OB_Skip t m
        else if full_of_reliable (bs_boxes s ! m) then OB_Lost t m else OB_Push t m (pb_event p)) b"
      using put_lossy_law [OF b] put_lossy_grows [OF b] put_lossy_closed [OF b] put_lossy_full [OF b] True
      by (auto simp: delivers_def full_of_reliable_def box_grows_def split: if_splits)
  qed (use assms True b in \<open>auto simp: publish_turn_def Let_def split del: if_split\<close>)
next
  case reliable: False
  show ?thesis
  proof (cases "pb_sync p")
    case sync: True
    obtain b ok where b: "try_recv_forced (pb_event p) (bs_boxes s ! m) = (b, ok)" by (rule prod.exhaust)
    show ?thesis
    proof (cases ok)
      case True
      show ?thesis
        by (rule deliver [of "OB_Push t m (pb_event p)" b])
          (use assms reliable sync b True try_recv_forced_cases [OF b] in \<open>auto simp: publish_turn_def Let_def delivers_def
            try_recv_forced_def box_full_def split: if_splits\<close>)
    next
      case False
      then show ?thesis using assms reliable sync b by (auto simp: publish_turn_def Let_def split: if_splits intro: retry refuse)
    qed
  next
    case False
    then obtain b ok where b: "mailbox_put (pb_event p) (bs_boxes s ! m) = Some (b, ok)"
      using assms reliable by (auto simp: publish_turn_def Let_def split: option.splits)
    show ?thesis
      by (rule deliver [of "if ok then OB_Push t m (pb_event p) else OB_Skip t m" b])
        (use assms reliable False b mailbox_put_cases [OF b] in \<open>auto simp: publish_turn_def Let_def delivers_def
          mailbox_put_def box_full_def split: if_splits\<close>)
  qed
qed

lemma deliver_one_box:
  assumes "delivers t m (bs_boxes s ! m) e ob b" and "m < length (bs_boxes s)" and "bs_boxes s1 = bs_boxes s"
  shows "one_box s [ob] (set_box m b s1)"
  unfolding one_box_def
proof (intro exI conjI)
  show "m < length (bs_boxes s)" "bs_boxes (set_box m b s1) = (bs_boxes s)[m := b]" using assms by simp_all
qed (use assms(1) in \<open>auto simp: delivers_def\<close>)

lemma turn_boxes:
  assumes wf: "bus_wf s" and turn: "publish_turn t s = Some (s', obs)"
  shows "bus_wf s' \<and> (one_box s obs s' \<or> no_box s obs s')"
proof -
  from turn obtain p where p: "map_of (bs_tasks s) t = Some p" by (auto simp: publish_turn_def split: option.splits)
  have pok: "publisher_ok (length (bs_boxes s)) p" using map_of_taskD [OF p wf] by simp
  show ?thesis
  proof (cases "pb_targets p")
    case Nil
    have "bus_wf ((end_publisher t s)\<lparr>bs_count := n\<rparr>)" for n
      using wf_end_publisher [OF wf] by (simp add: bus_wf_def)
    then show ?thesis using turn p Nil by (auto simp: publish_turn_def no_box_def)
  next
    case (Cons m rest)
    then have m: "m < length (bs_boxes s)" using pok by (simp add: publisher_ok_def)
    from turn p Cons show ?thesis
    proof (cases rule: turn_targets)
      case (deliver ob b)
      let ?s = "set_publisher t (p\<lparr>pb_targets := rest, pb_tries := SYNC_TRIES\<rparr>) s"
      have "publisher_ok (length (bs_boxes s)) (p\<lparr>pb_targets := rest, pb_tries := SYNC_TRIES\<rparr>)"
        using pok Cons by (simp add: publisher_ok_def SYNC_TRIES_def)
      moreover have "mailbox_ok b"
        using deliver(2) box_okD [OF wf m] by (simp add: delivers_def box_grows_def)
      ultimately have "bus_wf s'" unfolding deliver(3) by (intro wf_set_box wf_set_publisher wf)
      then show ?thesis using deliver_one_box [OF deliver(2) m] deliver by simp
    next
      case retry
      have "publisher_ok (length (bs_boxes s)) (p\<lparr>pb_tries := pb_tries p - 1\<rparr>)"
        using pok retry(3) by (auto simp: publisher_ok_def)
      then show ?thesis using wf_set_publisher [OF wf] retry by (simp add: no_box_def)
    next
      case refuse
      then show ?thesis using wf_end_publisher [OF wf] by (simp add: no_box_def)
    qed
  qed
qed

lemma start_publisher_boxes:
  assumes "bus_wf s" and "start_publisher sync e s = (s', obs)"
  shows "bus_wf s' \<and> no_box s obs s'"
proof -
  obtain s1 T where m: "matching_mailboxes (ev_type e) s = (s1, T)" by (rule prod.exhaust)
  have s1: "same_mail s s1" using administration_same(5) [OF assms(1), of "ev_type e"] m by simp
  have "\<forall>k\<in>set T. k < length (bs_boxes s1)"
    using assms(1) m by (auto simp: matching_mailboxes_def Let_def bus_wf_def)
  then have "publisher_ok (length (bs_boxes s1)) \<lparr>pb_event = e, pb_targets = T, pb_sync = sync, pb_tries = SYNC_TRIES\<rparr>"
    by (simp add: publisher_ok_def SYNC_TRIES_def)
  then show ?thesis
    using s1 assms(2) m by (fastforce simp: start_publisher_def same_mail_def bus_wf_def no_box_def)
qed

lemma with_handle_Some [simp]:
  "with_handle m s r = Some x \<longleftrightarrow> m \<in> set (bs_handles s) \<and> r = Some x"
  by (simp add: with_handle_def)

lemma received_obs_simps [simp]:
  "pushed k (received_obs m r) = []" "OB_Skip t k \<notin> set (received_obs m r)"
  "received k (received_obs m r) = (if k = m then case r of None \<Rightarrow> [] | Some e \<Rightarrow> [e] else [])"
  by (auto simp: received_obs_def split: option.splits)

lemma handle_box: "bus_wf s \<Longrightarrow> m \<in> set (bs_handles s) \<Longrightarrow> m < length (bs_boxes s)"
  by (simp add: bus_wf_def)

text \<open>The five kinds of step.\<close>

lemma bus_step_cases:
  assumes wf: "bus_wf s" and step: "bus_step e s = Some (s', obs)"
  obtains (quiet) "obs = []" "same_mail s s' \<or> allocates s s'"
    | (turn) t where "e = BE_Turn t" "publish_turn t s = Some (s', obs)"
    | (start) sync ev where "start_publisher sync ev s = (s', obs)"
    | (cancel) t p where "e = BE_Cancel t" "map_of (bs_tasks s) t = Some p" "\<not> pb_sync p" "reliable (pb_event p)"
        "s' = end_publisher t s" "obs = []"
    | (consume) m b r where "m \<in> set (bs_handles s)" "s' = set_box m b s" "obs = received_obs m r"
        "box_grows (bs_boxes s ! m) b"
        "channel_law reliable (mb_items (bs_boxes s ! m)) [] (case r of None \<Rightarrow> [] | Some x \<Rightarrow> [x]) (mb_items b)"
proof (cases e)
  case (BE_Recv m)
  then show ?thesis using step recv_law(1) [of "bs_boxes s ! m" _ _ reliable]
    by (auto split: option.splits intro: consume)
next
  case (BE_TryRecv m)
  then show ?thesis using step recv_law(2) [of "bs_boxes s ! m" _ _ reliable]
    by (auto split: prod.splits intro: consume)
next
  case (BE_Close m)
  then show ?thesis using step consume [of m "mailbox_close (bs_boxes s ! m)" None]
    by (auto simp: mailbox_close_def box_grows_def mailbox_ok_def received_obs_def)
qed (use step in \<open>auto intro: turn start cancel split: option.splits if_splits,
  (use subscribe_allocates [OF wf] unsubscribe_same [OF wf] administration_same [OF wf] quiet in blast)+\<close>)

lemma step_boxes:
  assumes wf: "bus_wf s" and step: "bus_step e s = Some (s', obs)"
  shows "bus_wf s' \<and> (one_box s obs s' \<or> no_box s obs s')"
  using wf step
proof (cases rule: bus_step_cases)
  case quiet
  then show ?thesis by (auto simp: same_mail_def allocates_def no_box_def mailbox_new_def)
next
  case turn
  then show ?thesis using turn_boxes [OF wf] by simp
next
  case start
  then show ?thesis using start_publisher_boxes [OF wf] by blast
next
  case cancel
  then show ?thesis using wf_end_publisher [OF wf] by (simp add: no_box_def)
next
  case (consume m b r)
  have m: "m < length (bs_boxes s)" using handle_box [OF wf consume(1)] .
  have "mailbox_ok b" using consume(4) box_okD [OF wf m] by (simp add: box_grows_def)
  then have "bus_wf s'" unfolding consume(2) by (rule wf_set_box [OF wf])
  then show ?thesis using m consume by (auto simp: one_box_def)
qed

lemma box_step_law:
  assumes "box_step m s taken given s'"
  shows "channel_law reliable (bus_items m s) taken given (bus_items m s')"
proof -
  from assms obtain e obs where e: "bus_wf s" "bus_step e s = Some (s', obs)" "taken = pushed m obs" "given = received m obs"
    by (auto simp: box_step_def)
  then consider "one_box s obs s'" | "no_box s obs s'" using step_boxes by blast
  then show ?thesis
  proof cases
    case 1 then show ?thesis using e(3,4) by (cases "m < length (bs_boxes s)") (auto simp: one_box_def bus_items_def nth_list_update)
  next
    case 2 then show ?thesis using e(3,4) by (auto simp: no_box_def bus_items_def nth_append)
  qed
qed

interpretation box: lossy_channel "bus_items m" reliable "box_step m" for m
  by unfold_locales (rule box_step_law)

text \<open>A run of the bus is a run of the channel of every mailbox, and keeps the invariant.\<close>

lemma bus_run_channel:
  "bus_run es s = Some (s', obs) \<Longrightarrow> bus_wf s \<Longrightarrow> box.chan_run m s (pushed m obs) (received m obs) s' \<and> bus_wf s'"
proof (induction es arbitrary: s obs)
  case Nil then show ?case by (auto intro: box.run_idle)
next
  case (Cons e es)
  then obtain s1 o1 o2 where step: "bus_step e s = Some (s1, o1)" and run: "bus_run es s1 = Some (s', o2)" and obs: "obs = o1 @ o2"
    by (auto split: option.splits prod.splits)
  have "bus_wf s1" using step_boxes [OF Cons.prems(2) step] by simp
  moreover have "box_step m s (pushed m o1) (received m o1) s1" using step Cons.prems(2) by (auto simp: box_step_def)
  ultimately show ?case using Cons.IH [OF run] box.run_step unfolding obs pushed_append received_append by blast
qed

section \<open>What a publisher has done\<close>

fun starts :: "nat \<Rightarrow> 'p bus_obs list \<Rightarrow> ('p event \<times> nat list) list" where
  "starts t [] = []"
| "starts t (OB_Start t' e T # obs) = (if t' = t then (e, T) # starts t obs else starts t obs)"
| "starts t (_ # obs) = starts t obs"

fun handled :: "nat \<Rightarrow> 'p bus_obs list \<Rightarrow> nat list" where
  "handled t [] = []"
| "handled t (OB_Push t' m e # obs) = (if t' = t then m # handled t obs else handled t obs)"
| "handled t (OB_Skip t' m # obs) = (if t' = t then m # handled t obs else handled t obs)"
| "handled t (OB_Lost t' m # obs) = (if t' = t then m # handled t obs else handled t obs)"
| "handled t (_ # obs) = handled t obs"

fun finished :: "nat \<Rightarrow> 'p bus_obs list \<Rightarrow> (string + unit) list" where
  "finished t [] = []"
| "finished t (OB_Done t' r # obs) = (if t' = t then r # finished t obs else finished t obs)"
| "finished t (_ # obs) = finished t obs"

lemma views_append [simp]:
  "starts t (xs @ ys) = starts t xs @ starts t ys"
  "handled t (xs @ ys) = handled t xs @ handled t ys"
  "finished t (xs @ ys) = finished t xs @ finished t ys"
proof -
  show "starts t (xs @ ys) = starts t xs @ starts t ys" by (induction xs rule: starts.induct) auto
  show "handled t (xs @ ys) = handled t xs @ handled t ys" by (induction xs rule: handled.induct) auto
  show "finished t (xs @ ys) = finished t xs @ finished t ys" by (induction xs rule: finished.induct) auto
qed

fun of_event :: "nat \<Rightarrow> 'p event \<Rightarrow> 'p bus_obs \<Rightarrow> bool" where
  "of_event t e (OB_Push t' m e') \<longleftrightarrow> (t' = t \<longrightarrow> e' = e)"
| "of_event t e (OB_Lost t' m) \<longleftrightarrow> (t' = t \<longrightarrow> event_is_lossy e)"
| "of_event t e _ \<longleftrightarrow> True"

fun progress :: "'p publisher option \<Rightarrow> 'p event \<Rightarrow> nat list \<Rightarrow> nat list \<Rightarrow> (string + unit) list \<Rightarrow> bool" where
  "progress (Some p) e T h f \<longleftrightarrow> pb_event p = e \<and> h @ pb_targets p = T \<and> f = []"
| "progress None e T h f \<longleftrightarrow> f = [] \<or> (\<exists>x. f = [Inl x]) \<or> f = [Inr ()] \<and> h = T"

definition task_trace :: "'p bus \<Rightarrow> 'p bus_obs list \<Rightarrow> nat \<Rightarrow> bool" where
  "task_trace s obs t \<longleftrightarrow>
     (if t < bs_next s then
        \<exists>e T. starts t obs = [(e, T)] \<and> (\<forall>ob\<in>set obs. of_event t e ob) \<and>
          progress (map_of (bs_tasks s) t) e T (handled t obs) (finished t obs)
      else starts t obs = [] \<and> handled t obs = [] \<and> finished t obs = [] \<and> (\<forall>e. \<forall>ob\<in>set obs. of_event t e ob))"

lemma fresh_task: "bus_wf s \<Longrightarrow> bs_next s \<le> t \<Longrightarrow> map_of (bs_tasks s) t = None"
  using map_of_taskD [of s t] by (cases "map_of (bs_tasks s) t") auto

lemma start_trace:
  assumes wf: "bus_wf s" and start: "start_publisher sync ev s = (s', obs)" and "task_trace s h t"
  shows "task_trace s' (h @ obs) t"
proof -
  obtain s1 T where m: "matching_mailboxes (ev_type ev) s = (s1, T)" by (rule prod.exhaust)
  have s1: "bs_tasks s1 = bs_tasks s" "bs_next s1 = bs_next s"
    using administration_same(5) [OF wf, of "ev_type ev"] m by (simp_all add: same_mail_def)
  show ?thesis
  proof (cases "t = bs_next s")
    case True
    then show ?thesis
      using assms(3) start m s1 fresh_task [OF wf order.refl]
      by (auto simp: task_trace_def start_publisher_def map_add_def)
  next
    case False
    then show ?thesis
      using assms(3) start m s1 by (auto simp: task_trace_def start_publisher_def map_add_def split: option.splits)
  qed
qed

lemma turn_trace:
  assumes wf: "bus_wf s" and turn: "publish_turn t0 s = Some (s', obs)" and tr: "task_trace s h t"
  shows "task_trace s' (h @ obs) t"
proof -
  from turn obtain p where p: "map_of (bs_tasks s) t0 = Some p" by (auto simp: publish_turn_def split: option.splits)
  have t0: "t0 < bs_next s" using map_of_taskD [OF p wf] by simp
  show ?thesis
  proof (cases "pb_targets p")
    case Nil
    then show ?thesis using turn p tr t0 by (auto simp: publish_turn_def task_trace_def)
  next
    case (Cons m rest)
    from turn p Cons show ?thesis
    proof (cases rule: turn_targets)
      case (deliver ob b)
      then show ?thesis using tr p Cons t0 by (auto simp: task_trace_def delivers_def)
    next
      case retry
      then show ?thesis using tr p t0 by (auto simp: task_trace_def)
    next
      case refuse
      then show ?thesis using tr p t0 by (auto simp: task_trace_def)
    qed
  qed
qed

lemma step_trace:
  assumes wf: "bus_wf s" and step: "bus_step e s = Some (s', obs)" and tr: "task_trace s h t"
  shows "task_trace s' (h @ obs) t"
  using wf step
proof (cases rule: bus_step_cases)
  case quiet
  then show ?thesis using tr by (auto simp: same_mail_def allocates_def task_trace_def)
next
  case turn
  then show ?thesis using turn_trace [OF wf _ tr] by simp
next
  case start
  then show ?thesis using start_trace [OF wf _ tr] by blast
next
  case (cancel t0 p)
  then show ?thesis using tr map_of_taskD [OF cancel(2) wf] by (auto simp: task_trace_def)
next
  case (consume m b r)
  then show ?thesis using tr by (auto simp: task_trace_def received_obs_def split: option.splits)
qed

definition skips_closed :: "'p bus \<Rightarrow> 'p bus_obs list \<Rightarrow> bool" where
  "skips_closed s obs \<longleftrightarrow> (\<forall>t m. OB_Skip t m \<in> set obs \<longrightarrow> m < length (bs_boxes s) \<and> mb_closed (bs_boxes s ! m))"

lemma step_skips:
  assumes "bus_wf s" and "bus_step e s = Some (s', obs)" and "skips_closed s h"
  shows "skips_closed s' (h @ obs)"
proof -
  from step_boxes [OF assms(1,2)] consider "one_box s obs s'" | "no_box s obs s'" by blast
  then show ?thesis
  proof cases
    case 1
    then show ?thesis using assms(3) by (auto simp: one_box_def skips_closed_def box_grows_def nth_list_update)
  next
    case 2
    then show ?thesis using assms(3) by (fastforce simp: no_box_def skips_closed_def nth_append)
  qed
qed

lemma bus_run_trace:
  assumes "bus_run es s = Some (s', obs)" and "bus_wf s" and "\<And>t. task_trace s h t" and "skips_closed s h"
  shows "task_trace s' (h @ obs) t \<and> skips_closed s' (h @ obs)"
  using assms
proof (induction es arbitrary: s h obs)
  case (Cons e es)
  then obtain s1 o1 o2 where step: "bus_step e s = Some (s1, o1)" and run: "bus_run es s1 = Some (s', o2)" and obs: "obs = o1 @ o2"
    by (auto split: option.splits prod.splits)
  show ?case
    using Cons.IH [OF run, of "h @ o1"] step_boxes [OF Cons.prems(2) step] step_trace [OF Cons.prems(2) step Cons.prems(3)]
      step_skips [OF Cons.prems(2) step Cons.prems(4)] obs by simp
qed simp

section \<open>Publishers that return\<close>

definition publisher_measure :: "'p publisher \<Rightarrow> nat" where
  "publisher_measure p = (if pb_targets p = [] then 1 else SYNC_TRIES * (length (pb_targets p) - 1) + pb_tries p + 1)"

definition never_waits :: "'p publisher \<Rightarrow> bool" where
  "never_waits p \<longleftrightarrow> pb_sync p \<or> event_is_lossy (pb_event p)"

definition turns_of :: "nat \<Rightarrow> 'p bus_event list \<Rightarrow> nat" where
  "turns_of t es = length (filter (\<lambda>e. case e of BE_Turn t' \<Rightarrow> t' = t | _ \<Rightarrow> False) es)"

lemma turn_enabled:
  assumes "map_of (bs_tasks s) t = Some p" and "never_waits p"
  shows "publish_turn t s \<noteq> None"
  using assms by (auto simp: publish_turn_def never_waits_def Let_def split: list.splits prod.splits bool.splits)

lemma turn_measure:
  assumes wf: "bus_wf s" and p: "map_of (bs_tasks s) t = Some p" and nw: "never_waits p"
    and turn: "publish_turn t s = Some (s', obs)"
  shows "map_of (bs_tasks s') t = None \<or>
    (\<exists>q. map_of (bs_tasks s') t = Some q \<and> never_waits q \<and> publisher_measure q < publisher_measure p)"
proof (cases "pb_targets p")
  case Nil
  then show ?thesis using turn p by (auto simp: publish_turn_def)
next
  case (Cons m rest)
  have tries: "1 \<le> pb_tries p" using map_of_taskD [OF p wf] by (simp add: publisher_ok_def)
  from turn p Cons show ?thesis
  proof (cases rule: turn_targets)
    case (deliver ob b)
    then show ?thesis using p nw Cons tries
      by (cases rest) (auto simp: publisher_measure_def never_waits_def SYNC_TRIES_def)
  next
    case retry
    then show ?thesis using p nw Cons by (auto simp: publisher_measure_def never_waits_def)
  next
    case refuse
    then show ?thesis by simp
  qed
qed

text \<open>No step but its own turns, and the cancellation of a waiting task, changes a publisher.\<close>

lemma others_leave_publisher:
  assumes wf: "bus_wf s" and step: "bus_step e s = Some (s', obs)" and t: "t < bs_next s"
    and "e \<noteq> BE_Turn t" and "e = BE_Cancel t \<Longrightarrow> pred_option never_waits (map_of (bs_tasks s) t)"
  shows "map_of (bs_tasks s') t = map_of (bs_tasks s) t \<and> t < bs_next s'"
  using wf step
proof (cases rule: bus_step_cases)
  case quiet
  then show ?thesis using t by (auto simp: same_mail_def allocates_def)
next
  case (turn t0)
  then have t0: "t0 \<noteq> t" using assms(4) by auto
  from turn(2) obtain q where q: "map_of (bs_tasks s) t0 = Some q" by (auto simp: publish_turn_def split: option.splits)
  show ?thesis
  proof (cases "pb_targets q")
    case Nil
    then show ?thesis using turn(2) q t t0 by (auto simp: publish_turn_def)
  next
    case (Cons m rest)
    from turn(2) q Cons show ?thesis using t t0 by (cases rule: turn_targets) simp_all
  qed
next
  case (start sync ev)
  have "bs_tasks (fst (matching_mailboxes (ev_type ev) s)) = bs_tasks s \<and> bs_next (fst (matching_mailboxes (ev_type ev) s)) = bs_next s"
    using administration_same(5) [OF wf] by (simp add: same_mail_def)
  then show ?thesis using start t by (auto simp: start_publisher_def map_add_def split: prod.splits option.splits)
next
  case (cancel t0 q)
  then show ?thesis using t assms(5) by (auto simp: never_waits_def)
next
  case consume
  then show ?thesis using t by simp
qed

definition turns_left :: "'p publisher option \<Rightarrow> nat" where
  "turns_left r = (case r of None \<Rightarrow> 0 | Some p \<Rightarrow> publisher_measure p)"

lemma turns_bounded:
  assumes "bus_run es s = Some (s', obs)" and "bus_wf s" and "t < bs_next s"
    and "pred_option never_waits (map_of (bs_tasks s) t)"
  shows "turns_of t es \<le> turns_left (map_of (bs_tasks s) t)"
  using assms
proof (induction es arbitrary: s obs)
  case Nil then show ?case by (simp add: turns_of_def)
next
  case (Cons e es)
  then obtain s1 o1 o2 where step: "bus_step e s = Some (s1, o1)" and run: "bus_run es s1 = Some (s', o2)"
    by (auto split: option.splits prod.splits)
  note IH = Cons.IH [OF run step_boxes [OF Cons.prems(2) step, THEN conjunct1]]
  show ?case
  proof (cases "e = BE_Turn t")
    case True
    then have turn: "publish_turn t s = Some (s1, o1)" using step by simp
    then obtain p where p: "map_of (bs_tasks s) t = Some p" by (auto simp: publish_turn_def split: option.splits)
    have "t < bs_next s1"
    proof (cases "pb_targets p")
      case Nil then show ?thesis using turn p Cons.prems(3) by (auto simp: publish_turn_def)
    next
      case tg: (Cons m rest)
      from turn p tg show ?thesis using Cons.prems(3) by (cases rule: turn_targets) simp_all
    qed
    then show ?thesis
      using turn_measure [OF Cons.prems(2) p _ turn] Cons.prems(4) IH True p
      by (auto simp: turns_of_def turns_left_def publisher_measure_def)
  next
    case False
    then show ?thesis
      using others_leave_publisher [OF Cons.prems(2) step Cons.prems(3) False] IH Cons.prems(4)
      by (auto simp: turns_of_def split: bus_event.splits)
  qed
qed

section \<open>A publisher that waits for ever\<close>

text \<open>
  A publisher that waits on a full mailbox keeps it alive. When the consumer drops its handle meanwhile, nothing can take
  an item out or close the mailbox any more.
\<close>

definition abandoned :: "nat \<Rightarrow> 'p bus \<Rightarrow> bool" where
  "abandoned m s \<longleftrightarrow> m < length (bs_boxes s) \<and> m \<notin> set (bs_handles s) \<and> box_full (bs_boxes s ! m)"

lemma step_abandoned:
  assumes wf: "bus_wf s" and step: "bus_step e s = Some (s', obs)" and ab: "abandoned m s"
  shows "abandoned m s'"
  using wf step
proof (cases rule: bus_step_cases)
  case quiet
  then show ?thesis using ab by (auto simp: same_mail_def allocates_def abandoned_def nth_append)
next
  case (turn t)
  from turn(2) obtain p where p: "map_of (bs_tasks s) t = Some p" by (auto simp: publish_turn_def split: option.splits)
  show ?thesis
  proof (cases "pb_targets p")
    case Nil
    then show ?thesis using turn(2) p ab by (auto simp: publish_turn_def abandoned_def)
  next
    case (Cons k rest)
    from turn(2) p Cons show ?thesis
    proof (cases rule: turn_targets)
      case (deliver ob b)
      then show ?thesis using ab by (cases "k = m") (auto simp: abandoned_def delivers_def)
    qed (use ab in \<open>auto simp: abandoned_def\<close>)
  qed
next
  case (start sync ev)
  have "same_mail s (fst (matching_mailboxes (ev_type ev) s))" by (rule administration_same(5) [OF wf])
  then show ?thesis using start ab by (auto simp: start_publisher_def same_mail_def abandoned_def split: prod.splits)
next
  case cancel
  then show ?thesis using ab by (simp add: abandoned_def)
next
  case (consume k b r)
  then have "k \<noteq> m" using ab by (auto simp: abandoned_def)
  then show ?thesis using consume ab by (simp add: abandoned_def)
qed

lemma abandoned_waits:
  assumes "map_of (bs_tasks s) t = Some p" and "\<not> never_waits p" and "pb_targets p = m # rest" and "abandoned m s"
  shows "publish_turn t s = None"
  using assms by (simp add: publish_turn_def Let_def never_waits_def abandoned_def box_full_def mailbox_put_def)

lemma waits_for_ever:
  assumes "bus_run es s = Some (s', obs)" and "bus_wf s" and "map_of (bs_tasks s) t = Some p"
    and "\<not> never_waits p" and "pb_targets p = m # rest" and "abandoned m s" and "BE_Cancel t \<notin> set es"
  shows "map_of (bs_tasks s') t = Some p \<and> abandoned m s'"
  using assms
proof (induction es arbitrary: s obs)
  case (Cons e es)
  then obtain s1 o1 o2 where step: "bus_step e s = Some (s1, o1)" and run: "bus_run es s1 = Some (s', o2)"
    by (auto split: option.splits prod.splits)
  have "e \<noteq> BE_Turn t" using step abandoned_waits [OF Cons.prems(3-6)] by auto
  then have "map_of (bs_tasks s1) t = Some p"
    using others_leave_publisher [OF Cons.prems(2) step, of t] map_of_taskD [OF Cons.prems(3,2)] Cons.prems(3,7) by auto
  then show ?case
    using Cons.IH [OF run] step_boxes [OF Cons.prems(2) step] step_abandoned [OF Cons.prems(2) step Cons.prems(6)]
      Cons.prems(4,5,7) by simp
qed simp

section \<open>Properties\<close>

text \<open>C32: Whatever publishers and consumers do, in any interleaving, every mailbox stays within its
  capacity, hands its events out in the order they went in, and loses none of a reliable type.\<close>

theorem mailboxes_keep_reliable:
  assumes "bus_run es (bus_new n) = Some (s, obs)" and "m < length (bs_boxes s)"
  defines "b \<equiv> bs_boxes s ! m"
  shows "length (mb_items b) \<le> mb_capacity b \<and>
    subseq (received m obs @ mb_items b) (pushed m obs) \<and>
    filter reliable (received m obs @ mb_items b) = filter reliable (pushed m obs)"
proof -
  have run: "box.chan_run m (bus_new n) (pushed m obs) (received m obs) s" and wf: "bus_wf s"
    using bus_run_channel [OF assms(1) bus_wf_new] by auto
  from box.run_law [OF run] show ?thesis
    using box_okD [OF wf assms(2)] assms(2)
    by (simp add: channel_law_def bus_items_def bus_new_def b_def mailbox_ok_def)
qed

text \<open>A sample: two subscribers with room for one event each, the wildcard one with its mailbox full of a fill while
  market data and a second fill arrive.\<close>

definition fill_event :: "nat event" where "fill_event = \<lparr>ev_type = OrderFilled, ev_payload = 1\<rparr>"
definition book_event :: "nat event" where "book_event = \<lparr>ev_type = L2BookUpdate, ev_payload = 2\<rparr>"

definition sample_events :: "nat bus_event list" where
  "sample_events =
     [BE_Subscribe OrderFilled, BE_SubscribeAll, BE_Publish fill_event, BE_Turn 0, BE_Turn 0, BE_Turn 0,
      BE_Publish book_event, BE_Turn 1, BE_Turn 1, BE_Recv 0, BE_Recv 1, BE_PublishSync book_event, BE_Turn 2, BE_Turn 2]"

definition sample_obs :: "nat bus_obs list" where
  "sample_obs =
     [OB_Start 0 fill_event [0, 1], OB_Push 0 0 fill_event, OB_Push 0 1 fill_event, OB_Done 0 (Inr ()),
      OB_Start 1 book_event [1], OB_Lost 1 1, OB_Done 1 (Inr ()), OB_Received 0 fill_event, OB_Received 1 fill_event,
      OB_Start 2 book_event [1], OB_Push 2 1 book_event, OB_Done 2 (Inr ())]"

definition sample_bus :: "nat bus" where "sample_bus = fst (the (bus_run sample_events (bus_new 1)))"

lemma sample_run: "bus_run sample_events (bus_new 1) = Some (sample_bus, sample_obs)"
proof -
  have "map_option snd (bus_run sample_events (bus_new 1)) = Some sample_obs" by code_simp
  then show ?thesis by (auto simp: sample_bus_def)
qed

lemma sample_bus_facts: "length (bs_boxes sample_bus) = 2 \<and> bs_next sample_bus = 3" by code_simp

lemma sample_mail_views:
  "pushed (Suc 0) sample_obs = [fill_event, book_event]" "received (Suc 0) sample_obs = [fill_event]"
  "reliable fill_event" "event_is_lossy book_event" "finished 2 sample_obs = [Inr ()]"
  "starts 2 sample_obs = [(book_event, [1])]"
  by (simp_all add: sample_obs_def fill_event_def book_event_def event_is_lossy_def)

theorem mailboxes_keep_reliable_witness:
  "length (mb_items (bs_boxes sample_bus ! 1)) \<le> mb_capacity (bs_boxes sample_bus ! 1) \<and>
   filter reliable (received 1 sample_obs @ mb_items (bs_boxes sample_bus ! 1)) = [fill_event]"
  using mailboxes_keep_reliable [OF sample_run, of 1] sample_bus_facts
  by (simp add: sample_mail_views del: filter_append)



text \<open>A synchronous publish, and any publish of an event that may be lost, is never blocked and
  returns after boundedly many attempts, whatever the others do in between.\<close>

theorem sync_publish_returns:
  assumes "bus_wf s" and "map_of (bs_tasks s) t = Some p" and "never_waits p"
  shows "publish_turn t s \<noteq> None \<and>
    (\<forall>es s' obs. bus_run es s = Some (s', obs) \<longrightarrow> turns_of t es \<le> SYNC_TRIES * length (pb_targets p) + 1)"
proof -
  have t: "t < bs_next s" and ok: "pb_tries p \<le> SYNC_TRIES"
    using map_of_taskD [OF assms(2,1)] by (simp_all add: publisher_ok_def)
  have "publisher_measure p \<le> SYNC_TRIES * length (pb_targets p) + 1"
    using ok by (cases "pb_targets p") (simp_all add: publisher_measure_def)
  then show ?thesis
    using turn_enabled [OF assms(2,3)] turns_bounded [OF _ assms(1) t] assms(2,3)
    by (fastforce simp: turns_left_def)
qed

theorem sync_publish_returns_witness:
  "\<exists>s :: nat bus. \<exists>p. map_of (bs_tasks s) 2 = Some p \<and> pb_targets p = [1] \<and> publish_turn 2 s \<noteq> None"
proof -
  define es where "es = take 12 sample_events"
  have some: "map_option (\<lambda>(s, obs). map_option (\<lambda>p. (pb_targets p, pb_sync p)) (map_of (bs_tasks s) 2)) (bus_run es (bus_new 1))
      = Some (Some ([1], True))"
    unfolding es_def by code_simp
  then obtain s obs p where run: "bus_run es (bus_new 1) = Some (s, obs)" and p: "map_of (bs_tasks s) 2 = Some p"
      "pb_targets p = [1]" "pb_sync p"
    by (auto split: prod.splits)
  have "bus_wf s" using bus_run_channel [OF run bus_wf_new] by blast
  then show ?thesis using sync_publish_returns [of s 2 p] p by (auto simp: never_waits_def)
qed

text \<open>Without the bound on attempts there is no such guarantee: a reliable publisher that waits on a full
  mailbox whose consumer has gone stays there, the reference it holds keeping the mailbox alive.\<close>

lemma publisher_starves:
  assumes "bus_run es s = Some (s', obs)" and "bus_wf s" and "map_of (bs_tasks s) t = Some p"
    and "\<not> never_waits p" and "pb_targets p = m # rest" and "abandoned m s" and "BE_Cancel t \<notin> set es"
  shows "map_of (bs_tasks s') t = Some p \<and> publish_turn t s' = None"
  using waits_for_ever [OF assms] abandoned_waits assms(4,5) by blast

end
