(* ===== verification/HE_Emergency.thy ===== *)
theory HE_Emergency
  imports HE_Json HE_Ids "HOL-Library.AList" "HOL-Library.Sublist"
begin

text \<open>
  The emergency cancellation path (\<open>crates/trading/src/execution/emergency_cancel.rs\<close>): the append-only
  journal, the provider of authoritative open orders and the executor that journals every attempt before it
  sends a cancel. The state is the journal file, the number of outside calls made so far and the trace of
  what was done; the environment answers the n-th outside call: what the exchange reports as open, the
  answer to a cancel, how a write to the file ends, the fresh attempt id and the time. The operation lock
  makes operations atomic with respect to each other. The text of a journal record is made and read by
  \<open>serde_json\<close>, whose two functions are parameters.
\<close>

section \<open>Targets\<close>

record emergency_target =
  ct_symbol :: string
  ct_cloid :: "string option"
  ct_oid :: "string option"

definition target_new :: "string \<Rightarrow> string option \<Rightarrow> string option \<Rightarrow> string + emergency_target" where
  "target_new symbol cloid oid =
     (if symbol = [] then Inl ''emergency cancel target requires a symbol''
      else if cloid = None \<and> oid = None then Inl ''emergency cancel target requires cloid or oid''
      else Inr \<lparr>ct_symbol = symbol, ct_cloid = cloid, ct_oid = oid\<rparr>)"

definition target_key :: "(string \<Rightarrow> string) \<Rightarrow> emergency_target \<Rightarrow> string" where
  "target_key sha256 t =
     (case ct_cloid t of
        Some c \<Rightarrow> ''cloid:'' @ to_hl_cloid sha256 c
      | None \<Rightarrow> ''oid:'' @ ct_symbol t @ '':'' @ (case ct_oid t of Some k \<Rightarrow> k | None \<Rightarrow> []))"

definition find_target :: "(string \<Rightarrow> string) \<Rightarrow> emergency_target list \<Rightarrow> emergency_target \<Rightarrow> emergency_target option" where
  "find_target sha256 candidates t =
     find (\<lambda>c. target_key sha256 c = target_key sha256 t \<or>
               ct_oid t \<noteq> None \<and> ct_oid c \<noteq> None \<and> ct_oid c = ct_oid t) candidates"

record cancel_result =
  cr_target :: emergency_target
  cr_success :: bool
  cr_outcome :: string
  cr_attempt_id :: "string option"
  cr_error :: "string option"

record cancel_batch_result =
  cb_requested :: int
  cb_cancelled :: int
  cb_unresolved :: "emergency_target list"

definition batch_success :: "cancel_batch_result \<Rightarrow> bool" where
  "batch_success b \<longleftrightarrow> cb_unresolved b = []"

section \<open>Authoritative open orders\<close>

text \<open>The text of a JSON number has no leading plus or zero, and \<open>-0\<close> is read as a float.\<close>

fun json_as_i64 :: "json \<Rightarrow> int option" where
  "json_as_i64 (JNum s) = (if s = ''-0'' then None else parse_int in_i64 s)"
| "json_as_i64 _ = None"

definition order_oid :: "json \<Rightarrow> string option" where
  "order_oid item =
     (case json_get ''oid'' item of
        None \<Rightarrow> None
      | Some v \<Rightarrow> (case json_as_str v of Some s \<Rightarrow> Some s | None \<Rightarrow> map_option show_int (json_as_i64 v)))"

definition order_target :: "json \<Rightarrow> hypeedge_error + emergency_target" where
  "order_target item =
     (let symbol = Option.bind (case json_get ''coin'' item of Some v \<Rightarrow> Some v | None \<Rightarrow> json_get ''symbol'' item) json_as_str;
          cloid = json_str_field ''cloid'' item;
          oid = order_oid item
      in case symbol of
           None \<Rightarrow> Inl (Execution ''Authoritative open order lacks symbol'')
         | Some coin \<Rightarrow>
             if coin = [] then Inl (Execution ''Authoritative open order lacks symbol'')
             else if cloid = None \<and> oid = None then Inl (Execution ''Authoritative open order lacks cloid and oid'')
             else (case target_new coin cloid oid of Inl m \<Rightarrow> Inl (Execution m) | Inr t \<Rightarrow> Inr t))"

fun open_order_targets :: "json list \<Rightarrow> hypeedge_error + emergency_target list" where
  "open_order_targets [] = Inr []"
| "open_order_targets (item # items) =
     (case order_target item of
        Inl e \<Rightarrow> Inl e
      | Inr t \<Rightarrow> map_sum id (Cons t) (open_order_targets items))"

section \<open>The journal\<close>

record journal_record =
  jr_attempt_id :: string
  jr_event :: string
  jr_recorded_at :: string
  jr_target :: emergency_target
  jr_outcome :: "string option"
  jr_error :: "string option"

definition newline :: char where "newline = CHR 0x0A"

text \<open>How a write ends: the line is on disk, or after some bytes of it an error or a crash comes.\<close>

datatype append_outcome = AO_Synced | AO_Failed nat string

datatype cancel_action = CA_Cloid int string | CA_Oid int int

datatype em_effect =
    EE_Open_Orders "hypeedge_error + emergency_target list"
  | EE_Appended journal_record
  | EE_Append_Failed journal_record
  | EE_Cancel cancel_action

record em_env =
  ev_sha256 :: "string \<Rightarrow> string"
  ev_render :: "journal_record \<Rightarrow> string"
  ev_parse :: "string \<Rightarrow> journal_record option"
  ev_asset :: "string \<Rightarrow> int option"
  ev_open :: "nat \<Rightarrow> hypeedge_error + json list"
  ev_answer :: "nat \<Rightarrow> string + json"
  ev_append :: "nat \<Rightarrow> append_outcome"
  ev_read_error :: "nat \<Rightarrow> string option"
  ev_uuid :: "nat \<Rightarrow> string"
  ev_now :: "nat \<Rightarrow> string"
  ev_path :: string

record em_state =
  es_file :: "string option"
  es_tick :: nat
  es_trace :: "em_effect list"

type_synonym 'a em = "(em_state, hypeedge_error, 'a) st_op"

text \<open>The number of the next outside call.\<close>

definition em_tick :: "(nat \<Rightarrow> 'a em) \<Rightarrow> 'a em" where
  "em_tick f s = f (es_tick s) (s\<lparr>es_tick := es_tick s + 1\<rparr>)"

definition em_emit :: "em_effect \<Rightarrow> em_state \<Rightarrow> em_state" where
  "em_emit e s = s\<lparr>es_trace := es_trace s @ [e]\<rparr>"

definition append_sync :: "append_outcome \<Rightarrow> string \<Rightarrow> journal_record \<Rightarrow> unit em" where
  "append_sync ao payload r =
     (case ao of
        AO_Synced \<Rightarrow> st_modify (\<lambda>s. em_emit (EE_Appended r)
          (s\<lparr>es_file := Some ((case es_file s of Some f \<Rightarrow> f | None \<Rightarrow> []) @ payload)\<rparr>))
      | AO_Failed k m \<Rightarrow> st_bind (st_modify (\<lambda>s. em_emit (EE_Append_Failed r)
          (if k = 0 then s
           else s\<lparr>es_file := Some ((case es_file s of Some f \<Rightarrow> f | None \<Rightarrow> []) @ take k payload)\<rparr>)))
          (\<lambda>_. st_fail (Execution m)))"

definition journal_append :: "em_env \<Rightarrow> string \<Rightarrow> string \<Rightarrow> emergency_target \<Rightarrow> string option \<Rightarrow> string option \<Rightarrow> unit em" where
  "journal_append env attempt_id event t outcome err = em_tick (\<lambda>n.
     let r = \<lparr>jr_attempt_id = attempt_id, jr_event = event, jr_recorded_at = ev_now env n, jr_target = t,
              jr_outcome = outcome, jr_error = err\<rparr>
     in append_sync (ev_append env n) (ev_render env r @ [newline]) r)"

text \<open>\<open>data.split(|b| *b == b'\n')\<close>\<close>

fun split_lines :: "string \<Rightarrow> string list" where
  "split_lines [] = [[]]"
| "split_lines (c # cs) =
     (if c = newline then [] # split_lines cs
      else case split_lines cs of [] \<Rightarrow> [[c]] | l # ls \<Rightarrow> (c # l) # ls)"

definition journal_lines :: "string \<Rightarrow> string list" where
  "journal_lines data = filter (\<lambda>l. l \<noteq> []) (split_lines data)"

definition ends_with_newline :: "string \<Rightarrow> bool" where
  "ends_with_newline data \<longleftrightarrow> data \<noteq> [] \<and> last data = newline"

text \<open>The loop over the numbered lines; \<open>torn\<close> says that the file does not end with a line break.\<close>

fun parse_lines :: "(string \<Rightarrow> journal_record option) \<Rightarrow> bool \<Rightarrow> nat \<Rightarrow> string list \<Rightarrow> nat + journal_record list" where
  "parse_lines parse torn i [] = Inr []"
| "parse_lines parse torn i (l # ls) =
     (case parse l of
        Some r \<Rightarrow> map_sum id (Cons r) (parse_lines parse torn (i + 1) ls)
      | None \<Rightarrow> if ls = [] \<and> torn then Inr [] else Inl (i + 1))"

definition read_records_sync :: "(string \<Rightarrow> journal_record option) \<Rightarrow> string option \<Rightarrow> nat + journal_record list" where
  "read_records_sync parse file =
     (case file of
        None \<Rightarrow> Inr []
      | Some data \<Rightarrow> parse_lines parse (\<not> ends_with_newline data) 0 (journal_lines data))"

definition read_records :: "em_env \<Rightarrow> journal_record list em" where
  "read_records env = em_tick (\<lambda>n. st_at (\<lambda>s.
     case ev_read_error env n of
       Some m \<Rightarrow> st_fail (Execution m)
     | None \<Rightarrow> st_lift (case read_records_sync (ev_parse env) (es_file s) of
           Inl i \<Rightarrow> Inl (Execution (''Malformed emergency cancel journal: path='' @ ev_path env @ '' line='' @ show_nat (int i)))
         | Inr rs \<Rightarrow> Inr rs)))"

definition is_terminal_event :: "string \<Rightarrow> bool" where
  "is_terminal_event e \<longleftrightarrow> e \<in> {''verified_absent'', ''already_absent'', ''recovery_resolved''}"

type_synonym pending_list = "(string \<times> emergency_target) list"

fun fold_pending :: "journal_record list \<Rightarrow> pending_list \<Rightarrow> hypeedge_error + pending_list" where
  "fold_pending [] m = Inr m"
| "fold_pending (r # rs) m =
     (if jr_event r = ''dispatch_intent'' then
        (case target_new (ct_symbol (jr_target r)) (ct_cloid (jr_target r)) (ct_oid (jr_target r)) of
           Inl e \<Rightarrow> Inl (Execution e)
         | Inr t \<Rightarrow> fold_pending rs (AList.update (jr_attempt_id r) t m))
      else if is_terminal_event (jr_event r) then fold_pending rs (AList.delete (jr_attempt_id r) m)
      else fold_pending rs m)"

definition pending_attempts :: "em_env \<Rightarrow> pending_list em" where
  "pending_attempts env = st_bind (read_records env) (\<lambda>rs. st_lift (fold_pending rs []))"

section \<open>The executor\<close>

definition get_open_orders :: "em_env \<Rightarrow> emergency_target list em" where
  "get_open_orders env = em_tick (\<lambda>n.
     let r = (case ev_open env n of Inl e \<Rightarrow> Inl e | Inr items \<Rightarrow> open_order_targets items)
     in st_bind (st_modify (em_emit (EE_Open_Orders r))) (\<lambda>_. st_lift r))"

definition fresh_id :: "em_env \<Rightarrow> string em" where
  "fresh_id env = em_tick (\<lambda>n. st_return (ev_uuid env n))"

definition transport_outcome :: "json \<Rightarrow> string" where
  "transport_outcome response = (case json_str_field ''status'' response of Some s \<Rightarrow> s | None \<Rightarrow> ''unknown_response'')"

text \<open>The wire of the cancel, from the target; the error is that of an id that is not a number.\<close>

definition cancel_wire_of :: "em_env \<Rightarrow> int \<Rightarrow> emergency_target \<Rightarrow> hypeedge_error + cancel_action" where
  "cancel_wire_of env asset t =
     (case ct_cloid t of
        Some c \<Rightarrow> Inr (CA_Cloid asset (to_hl_cloid (ev_sha256 env) c))
      | None \<Rightarrow>
          let oid = (case ct_oid t of Some k \<Rightarrow> k | None \<Rightarrow> [])
          in case parse_int in_i64 oid of
               None \<Rightarrow> Inl (Execution (''emergency cancel oid is not numeric: '' @ debug_opt (ct_oid t)))
             | Some k \<Rightarrow> Inr (CA_Oid asset k))"

text \<open>The submission to the nonce queue.\<close>

definition send_cancel :: "em_env \<Rightarrow> cancel_action \<Rightarrow> (string + json) em" where
  "send_cancel env a = em_tick (\<lambda>n.
     st_bind (st_modify (em_emit (EE_Cancel a))) (\<lambda>_. st_return (ev_answer env n)))"

definition em_dispatch :: "em_env \<Rightarrow> emergency_target \<Rightarrow> string em" where
  "em_dispatch env t =
     (case ev_asset env (ct_symbol t) of
        None \<Rightarrow> st_fail (Execution (''unknown symbol for emergency cancel: '' @ ct_symbol t))
      | Some asset \<Rightarrow>
          st_bind (fresh_id env) (\<lambda>aid.
          st_bind (journal_append env aid ''dispatch_intent'' t None None) (\<lambda>_.
          st_bind (st_lift (cancel_wire_of env asset t)) (\<lambda>a.
          st_bind (send_cancel env a) (\<lambda>r.
          st_bind (case r of
              Inr value \<Rightarrow> journal_append env aid ''transport_result'' t (Some (transport_outcome value)) None
            | Inl msg \<Rightarrow> journal_append env aid ''transport_error'' t None (Some (error_display (Execution msg)))) (\<lambda>_.
          st_return aid))))))"

definition em_verify :: "em_env \<Rightarrow> emergency_target \<Rightarrow> emergency_target list \<Rightarrow> string option \<Rightarrow> cancel_result em" where
  "em_verify env t remaining attempt_id =
     st_bind (case attempt_id of
         Some aid \<Rightarrow> st_return aid
       | None \<Rightarrow> st_bind (pending_attempts env) (\<lambda>ps.
           case find (\<lambda>(a, t'). target_key (ev_sha256 env) t' = target_key (ev_sha256 env) t) (List.rev ps) of
             Some (a, _) \<Rightarrow> st_return a
           | None \<Rightarrow> fresh_id env)) (\<lambda>aid.
     if find_target (ev_sha256 env) remaining t = None then
       st_bind (journal_append env aid ''verified_absent'' t (Some ''cancelled'') None) (\<lambda>_.
       st_return \<lparr>cr_target = t, cr_success = True, cr_outcome = ''cancelled'', cr_attempt_id = Some aid, cr_error = None\<rparr>)
     else
       st_bind (journal_append env aid ''verified_open'' t (Some ''still_open'') None) (\<lambda>_.
       st_return \<lparr>cr_target = t, cr_success = False, cr_outcome = ''still_open'', cr_attempt_id = Some aid,
                  cr_error = Some ''authoritative_order_still_open''\<rparr>))"

definition em_cancel :: "em_env \<Rightarrow> emergency_target \<Rightarrow> cancel_result em" where
  "em_cancel env t =
     st_bind (get_open_orders env) (\<lambda>authoritative.
     case find_target (ev_sha256 env) authoritative t of
       None \<Rightarrow>
         st_bind (fresh_id env) (\<lambda>aid.
         st_bind (journal_append env aid ''already_absent'' t None None) (\<lambda>_.
         st_return \<lparr>cr_target = t, cr_success = True, cr_outcome = ''already_absent'', cr_attempt_id = Some aid, cr_error = None\<rparr>))
     | Some matched \<Rightarrow>
         st_bind (em_dispatch env matched) (\<lambda>aid.
         st_bind (get_open_orders env) (\<lambda>remaining.
         em_verify env matched remaining (Some aid))))"

text \<open>The result of an operation as a value, for a caller that goes on after an error.\<close>

definition st_try :: "('s, 'e, 'a) st_op \<Rightarrow> ('s, 'f, 'e + 'a) st_op" where
  "st_try m s = map_option (\<lambda>(s', r). (s', Inr r)) (m s)"

type_synonym attempts_map = "(string \<times> string) list"

fun dispatch_all :: "em_env \<Rightarrow> emergency_target list \<Rightarrow> attempts_map \<Rightarrow> emergency_target list \<Rightarrow> (attempts_map \<times> emergency_target list) em" where
  "dispatch_all env [] attempts unresolved = st_return (attempts, unresolved)"
| "dispatch_all env (t # ts) attempts unresolved =
     st_bind (st_try (em_dispatch env t)) (\<lambda>r.
       case r of
         Inr aid \<Rightarrow> dispatch_all env ts (AList.update (target_key (ev_sha256 env) t) aid attempts) unresolved
       | Inl _ \<Rightarrow> dispatch_all env ts attempts (unresolved @ [t]))"

fun verify_all :: "em_env \<Rightarrow> emergency_target list \<Rightarrow> attempts_map \<Rightarrow> emergency_target list \<Rightarrow> emergency_target list \<Rightarrow> emergency_target list em" where
  "verify_all env remaining attempts [] unresolved = st_return unresolved"
| "verify_all env remaining attempts (t # ts) unresolved =
     (case map_of attempts (target_key (ev_sha256 env) t) of
        None \<Rightarrow> verify_all env remaining attempts ts unresolved
      | Some aid \<Rightarrow>
          st_bind (em_verify env t remaining (Some aid)) (\<lambda>r.
          verify_all env remaining attempts ts (if cr_success r then unresolved else unresolved @ [t])))"

text \<open>\<open>usize\<close> subtraction wraps in a release build.\<close>

definition em_cancel_all :: "em_env \<Rightarrow> string option \<Rightarrow> cancel_batch_result em" where
  "em_cancel_all env symbol =
     st_bind (get_open_orders env) (\<lambda>authoritative.
     let targets = filter (\<lambda>t. case symbol of None \<Rightarrow> True | Some s \<Rightarrow> ct_symbol t = s) authoritative in
     st_bind (dispatch_all env targets [] []) (\<lambda>(attempts, unresolved).
     st_bind (get_open_orders env) (\<lambda>remaining.
     st_bind (verify_all env remaining attempts targets unresolved) (\<lambda>unresolved'.
     st_return \<lparr>cb_requested = int (length targets),
                cb_cancelled = (int (length targets) - int (length unresolved')) mod 2 ^ 64,
                cb_unresolved = unresolved'\<rparr>))))"

fun recover_each :: "em_env \<Rightarrow> pending_list \<Rightarrow> emergency_target list \<Rightarrow> emergency_target list \<Rightarrow> int \<Rightarrow> (emergency_target list \<times> int) em" where
  "recover_each env [] authoritative unresolved cancelled = st_return (unresolved, cancelled)"
| "recover_each env ((old_id, old_target) # ps) authoritative unresolved cancelled =
     (case find_target (ev_sha256 env) authoritative old_target of
        None \<Rightarrow>
          st_bind (journal_append env old_id ''recovery_resolved'' old_target (Some ''already_absent'') None) (\<lambda>_.
          recover_each env ps authoritative unresolved (cancelled + 1))
      | Some matched \<Rightarrow>
          st_bind (em_dispatch env matched) (\<lambda>new_id.
          st_bind (get_open_orders env) (\<lambda>remaining.
          st_bind (em_verify env matched remaining (Some new_id)) (\<lambda>r.
          if cr_success r then
            st_bind (journal_append env old_id ''recovery_resolved'' old_target (Some ''cancelled'') None) (\<lambda>_.
            recover_each env ps remaining unresolved (cancelled + 1))
          else recover_each env ps authoritative (unresolved @ [old_target]) cancelled))))"

definition em_recover_pending :: "em_env \<Rightarrow> cancel_batch_result em" where
  "em_recover_pending env =
     st_bind (pending_attempts env) (\<lambda>pending.
     st_bind (get_open_orders env) (\<lambda>authoritative.
     st_bind (recover_each env pending authoritative [] 0) (\<lambda>(unresolved, cancelled).
     st_return \<lparr>cb_requested = int (length pending), cb_cancelled = cancelled, cb_unresolved = unresolved\<rparr>)))"

end
