(* ===== verification/HE_Emergency_Props.thy ===== *)
theory HE_Emergency_Props
  imports HE_Emergency
begin

text \<open>
  What the emergency cancellation path guarantees: every cancel is sent on the strength of a journal record
  that is already on disk, a recovery that leaves nothing unresolved empties the journal of pending attempts,
  and nothing is reported as cancelled that the last answer of the exchange still lists.
\<close>

section \<open>Write-ahead\<close>

text \<open>A cancel comes right after the synced intent it belongs to.\<close>

definition intent_for :: "em_env \<Rightarrow> journal_record \<Rightarrow> cancel_action \<Rightarrow> bool" where
  "intent_for env r a \<longleftrightarrow> jr_event r = ''dispatch_intent'' \<and>
     (\<exists>asset. ev_asset env (ct_symbol (jr_target r)) = Some asset \<and> cancel_wire_of env asset (jr_target r) = Inr a)"

fun wal_from :: "em_env \<Rightarrow> journal_record option \<Rightarrow> em_effect list \<Rightarrow> bool" where
  "wal_from env prev [] \<longleftrightarrow> True"
| "wal_from env prev (EE_Cancel a # es) \<longleftrightarrow> (\<exists>r. prev = Some r \<and> intent_for env r a) \<and> wal_from env None es"
| "wal_from env prev (EE_Appended r # es) \<longleftrightarrow> wal_from env (Some r) es"
| "wal_from env prev (EE_Append_Failed r # es) \<longleftrightarrow> wal_from env None es"
| "wal_from env prev (EE_Open_Orders ts # es) \<longleftrightarrow> wal_from env None es"

abbreviation wal :: "em_env \<Rightarrow> em_effect list \<Rightarrow> bool" where "wal env \<equiv> wal_from env None"

lemma wal_weaken: "wal env es \<Longrightarrow> wal_from env prev es"
  by (cases "(env, prev, es)" rule: wal_from.cases) auto

lemma wal_append: "wal_from env prev xs \<Longrightarrow> wal env ys \<Longrightarrow> wal_from env prev (xs @ ys)"
  by (induction env prev xs rule: wal_from.induct) (auto intro: wal_weaken)

definition wal_step :: "em_env \<Rightarrow> em_state \<Rightarrow> em_state \<Rightarrow> bool" where
  "wal_step env s s' \<longleftrightarrow> (\<exists>es. es_trace s' = es_trace s @ es \<and> wal env es)"

interpretation wal: step_order "wal_step env" for env
proof
  show "wal_step env s s" for s by (auto simp: wal_step_def intro: exI [of _ "[]"])
  show "wal_step env s u" if "wal_step env s t" "wal_step env t u" for s t u
    using that wal_append by (force simp: wal_step_def)
qed

lemma keeps_tick: "(\<And>n. st_keeps (wal_step env) (f n)) \<Longrightarrow> st_keeps (wal_step env) (em_tick f)"
  by (fastforce simp: st_keeps_def em_tick_def wal_step_def)

lemma keeps_emit: "wal env [e] \<Longrightarrow> st_keeps (wal_step env) (st_modify (em_emit e))"
  by (auto simp: st_keeps_def wal_step_def em_emit_def)

lemma append_wal: "st_keeps (wal_step env) (journal_append env' aid ev t o' e)"
  unfolding journal_append_def append_sync_def Let_def
  by (rule keeps_tick) (auto simp: st_keeps_def wal_step_def em_emit_def st_bind_Some split: append_outcome.splits)

lemma read_wal: "st_keeps (wal_step env) (pending_attempts env')"
  unfolding pending_attempts_def read_records_def
  by (intro wal.keeps_bind wal.keeps_pure keeps_tick)
    (auto simp: st_keeps_def wal_step_def split: option.splits)

lemma open_orders_wal: "st_keeps (wal_step env) (get_open_orders env')"
  unfolding get_open_orders_def Let_def by (intro keeps_tick wal.keeps_bind wal.keeps_pure keeps_emit) simp

lemma fresh_wal: "st_keeps (wal_step env) (fresh_id env')"
  unfolding fresh_id_def by (intro keeps_tick wal.keeps_pure)

text \<open>A dispatch is an attempt, the one place that sends, and the record of its answer.\<close>

definition em_attempt :: "em_env \<Rightarrow> string \<Rightarrow> emergency_target \<Rightarrow> int \<Rightarrow> (string + json) em" where
  "em_attempt env aid t asset =
     st_bind (journal_append env aid ''dispatch_intent'' t None None) (\<lambda>_.
     st_bind (st_lift (cancel_wire_of env asset t)) (send_cancel env))"

definition em_answered :: "em_env \<Rightarrow> string \<Rightarrow> emergency_target \<Rightarrow> string + json \<Rightarrow> unit em" where
  "em_answered env aid t r =
     (case r of
        Inr value \<Rightarrow> journal_append env aid ''transport_result'' t (Some (transport_outcome value)) None
      | Inl msg \<Rightarrow> journal_append env aid ''transport_error'' t None (Some (error_display (Execution msg))))"

lemma st_bind_assoc: "st_bind (st_bind m f) g = st_bind m (\<lambda>x. st_bind (f x) g)"
  by (auto simp: st_bind_def fun_eq_iff split: option.splits sum.splits)

lemma dispatch_parts:
  "em_dispatch env t =
     (case ev_asset env (ct_symbol t) of
        None \<Rightarrow> st_fail (Execution (''unknown symbol for emergency cancel: '' @ ct_symbol t))
      | Some asset \<Rightarrow>
          st_bind (fresh_id env) (\<lambda>aid.
          st_bind (em_attempt env aid t asset) (\<lambda>r.
          st_bind (em_answered env aid t r) (\<lambda>_. st_return aid))))"
  by (cases "ev_asset env (ct_symbol t)") (simp_all add: em_dispatch_def em_attempt_def em_answered_def st_bind_assoc)

text \<open>The record on disk and the cancel are made from the same target.\<close>

lemma attempt_wal:
  assumes "ev_asset env (ct_symbol t) = Some asset"
  shows "st_keeps (wal_step env) (em_attempt env aid t asset)"
  unfolding st_keeps_def
proof (intro allI impI)
  fix s s' r
  assume "em_attempt env aid t asset s = Some (s', r)"
  then show "wal_step env s s'"
    unfolding em_attempt_def using assms
    by (auto simp: st_bind_Some journal_append_def em_tick_def append_sync_def send_cancel_def em_emit_def wal_step_def
        intent_for_def Let_def split: append_outcome.splits if_splits)
qed

lemma answered_wal: "st_keeps (wal_step env) (em_answered env aid t r)"
  by (cases r) (simp_all add: em_answered_def append_wal)

lemma dispatch_wal: "st_keeps (wal_step env) (em_dispatch env t)"
  unfolding dispatch_parts
  by (cases "ev_asset env (ct_symbol t)") (auto intro!: wal.keeps fresh_wal attempt_wal answered_wal)

lemma verify_wal: "st_keeps (wal_step env) (em_verify env t remaining aid)"
  unfolding em_verify_def
  by (intro wal.keeps append_wal fresh_wal read_wal) (auto intro!: wal.keeps fresh_wal split: option.splits prod.splits)

lemma cancel_wal: "st_keeps (wal_step env) (em_cancel env t)"
  unfolding em_cancel_def by (intro wal.keeps open_orders_wal fresh_wal append_wal dispatch_wal verify_wal)

lemma try_wal: "st_keeps (wal_step env) m \<Longrightarrow> st_keeps (wal_step env) (st_try m)"
  by (auto simp: st_keeps_def st_try_def)

lemma dispatch_all_wal: "st_keeps (wal_step env) (dispatch_all env ts att u)"
proof (induction ts arbitrary: att u)
  case (Cons t ts)
  show ?case
    unfolding dispatch_all.simps
    by (rule wal.keeps_bind [OF try_wal [OF dispatch_wal]]) (auto split: sum.splits intro: Cons.IH)
qed (simp add: wal.keeps_pure)

lemma verify_all_wal: "st_keeps (wal_step env) (verify_all env remaining att ts u)"
  by (induction ts arbitrary: u) (auto intro!: wal.keeps verify_wal split: option.splits)

lemma cancel_all_wal: "st_keeps (wal_step env) (em_cancel_all env symbol)"
  unfolding em_cancel_all_def Let_def
  by (intro wal.keeps open_orders_wal) (auto intro!: wal.keeps open_orders_wal dispatch_all_wal verify_all_wal split: prod.splits)

lemma recover_each_wal: "st_keeps (wal_step env) (recover_each env ps auth u c)"
proof (induction env ps auth u c rule: recover_each.induct)
  case (2 env old_id old_target ps auth u c)
  show ?case
    by (cases "find_target (ev_sha256 env) auth old_target")
      (auto intro!: wal.keeps_bind append_wal dispatch_wal open_orders_wal verify_wal 2)
qed (simp add: st_keeps_def wal.refl)

lemma recover_pending_wal: "st_keeps (wal_step env) (em_recover_pending env)"
  unfolding em_recover_pending_def
  by (intro wal.keeps read_wal open_orders_wal) (auto intro!: wal.keeps recover_each_wal split: prod.splits)

section \<open>The journal on disk\<close>

text \<open>What the code relies on of \<open>serde_json\<close>: a record is rendered on one line and read back as itself.\<close>

definition codec_ok :: "em_env \<Rightarrow> bool" where
  "codec_ok env \<longleftrightarrow> (\<forall>r. ev_parse env (ev_render env r) = Some r \<and> ev_render env r \<noteq> [] \<and> newline \<notin> set (ev_render env r))"

text \<open>The file ends where a record ends and holds these records.\<close>

definition journal_holds :: "em_env \<Rightarrow> string option \<Rightarrow> journal_record list \<Rightarrow> bool" where
  "journal_holds env file rs \<longleftrightarrow>
     (case file of None \<Rightarrow> True | Some data \<Rightarrow> data = [] \<or> last data = newline) \<and>
     read_records_sync (ev_parse env) file = Inr rs"

lemma split_lines_append:
  "split_lines (xs @ newline # ys) = split_lines xs @ split_lines ys"
proof (induction xs)
  case (Cons c cs)
  have "split_lines zs \<noteq> []" for zs by (cases zs) (auto split: list.splits)
  then show ?case using Cons by (auto split: list.splits simp: append_eq_Cons_conv)
qed simp

lemma split_lines_line: "newline \<notin> set l \<Longrightarrow> split_lines l = [l]"
  by (induction l) auto

lemma journal_lines_snoc:
  assumes "data = [] \<or> last data = newline"
  shows "journal_lines (data @ l) = journal_lines data @ journal_lines l"
proof (cases data rule: rev_cases)
  case (snoc xs c)
  then show ?thesis using assms split_lines_append [of xs l] split_lines_append [of xs "[]"] by (simp add: journal_lines_def)
qed (simp add: journal_lines_def)

lemma parse_lines_append:
  assumes "parse_lines parse torn i ls = Inr rs" and "parse l = Some r" and "\<not> torn"
  shows "parse_lines parse torn' i (ls @ [l]) = Inr (rs @ [r])"
  using assms by (induction ls arbitrary: i rs) (auto split: option.splits if_splits simp: map_sum_def split: sum.splits)

lemma journal_holdsD:
  assumes "journal_holds env file rs"
  shows "(case file of Some f \<Rightarrow> f | None \<Rightarrow> []) = [] \<or> last (case file of Some f \<Rightarrow> f | None \<Rightarrow> []) = newline"
    and "parse_lines (ev_parse env) False 0 (journal_lines (case file of Some f \<Rightarrow> f | None \<Rightarrow> [])) = Inr rs"
proof -
  show "(case file of Some f \<Rightarrow> f | None \<Rightarrow> []) = [] \<or> last (case file of Some f \<Rightarrow> f | None \<Rightarrow> []) = newline"
    using assms by (auto simp: journal_holds_def split: option.splits)
  show "parse_lines (ev_parse env) False 0 (journal_lines (case file of Some f \<Rightarrow> f | None \<Rightarrow> [])) = Inr rs"
  proof (cases "file = None \<or> file = Some []")
    case True
    then show ?thesis using assms by (auto simp: journal_holds_def read_records_sync_def journal_lines_def)
  next
    case False
    then obtain data where "file = Some data" "data \<noteq> []" by auto
    then show ?thesis using assms by (auto simp: journal_holds_def read_records_sync_def ends_with_newline_def)
  qed
qed

lemma parse_lines_torn:
  "parse_lines parse False i ls = Inr rs \<Longrightarrow> parse l = None \<Longrightarrow> parse_lines parse True i (ls @ [l]) = Inr rs"
  by (induction ls arbitrary: i rs) (auto split: option.splits if_splits sum.splits simp: map_sum_def)

text \<open>A synced append adds its record, whatever the journal holds.\<close>

lemma journal_holds_append:
  assumes "codec_ok env" and "journal_holds env file rs"
  shows "journal_holds env (Some ((case file of Some f \<Rightarrow> f | None \<Rightarrow> []) @ ev_render env r @ [newline])) (rs @ [r])"
proof -
  define data where "data = (case file of Some f \<Rightarrow> f | None \<Rightarrow> [])"
  let ?l = "ev_render env r"
  note data = journal_holdsD(1) [OF assms(2), folded data_def] and read = journal_holdsD(2) [OF assms(2), folded data_def]
  have l: "ev_parse env ?l = Some r" "?l \<noteq> []" "newline \<notin> set ?l" using assms(1) by (auto simp: codec_ok_def)
  have "journal_lines (?l @ [newline]) = [?l]"
    using split_lines_append [of ?l "[]"] split_lines_line [OF l(3)] l(2) by (simp add: journal_lines_def)
  then have "journal_lines (data @ ?l @ [newline]) = journal_lines data @ [?l]"
    using journal_lines_snoc [OF data] by simp
  then show ?thesis
    using parse_lines_append [OF read l(1), of False]
    by (simp add: journal_holds_def read_records_sync_def ends_with_newline_def flip: data_def)
qed

text \<open>A crash within an append leaves what the journal held, and at most the record being appended.\<close>

lemma torn_append:
  assumes "codec_ok env" and "journal_holds env file rs" and "k \<le> length (ev_render env r)"
    and "\<forall>j. 0 < j \<and> j < length (ev_render env r) \<longrightarrow> ev_parse env (take j (ev_render env r)) = None"
  shows "read_records_sync (ev_parse env) (Some ((case file of Some f \<Rightarrow> f | None \<Rightarrow> []) @ take k (ev_render env r))) \<in>
    {Inr rs, Inr (rs @ [r])}"
proof -
  define data where "data = (case file of Some f \<Rightarrow> f | None \<Rightarrow> [])"
  let ?l = "take k (ev_render env r)"
  note data = journal_holdsD(1) [OF assms(2), folded data_def] and read = journal_holdsD(2) [OF assms(2), folded data_def]
  have l: "ev_parse env (ev_render env r) = Some r" "ev_render env r \<noteq> []" "newline \<notin> set (ev_render env r)"
    using assms(1) by (auto simp: codec_ok_def)
  show ?thesis
  proof (cases "k = 0")
    case True
    have "parse_lines (ev_parse env) (\<not> ends_with_newline data) 0 (journal_lines data) = Inr rs"
      using data read by (cases "data = []") (simp_all add: ends_with_newline_def journal_lines_def)
    then show ?thesis using True by (simp add: read_records_sync_def flip: data_def)
  next
    case False
    then have ne: "?l \<noteq> []" using l(2) by simp
    have nl: "newline \<notin> set ?l" using l(3) in_set_takeD by fast
    then have no_end: "last (data @ ?l) \<noteq> newline" using ne nl by (metis last_in_set last_appendR)
    from ne nl have lines: "journal_lines (data @ ?l) = journal_lines data @ [?l]"
      using journal_lines_snoc [OF data] split_lines_line [of ?l] by (simp add: journal_lines_def)
    show ?thesis
    proof (cases "k = length (ev_render env r)")
      case True
      then show ?thesis using ne no_end lines parse_lines_append [OF read, of ?l r True] l(1)
        by (simp add: read_records_sync_def ends_with_newline_def flip: data_def)
    next
      case False
      then have "ev_parse env ?l = None" using assms(3,4) \<open>k \<noteq> 0\<close> by simp
      then show ?thesis using ne no_end lines parse_lines_torn [OF read, of ?l]
        by (simp add: read_records_sync_def ends_with_newline_def flip: data_def)
    qed
  qed
qed

section \<open>Pending attempts\<close>

definition valid_target :: "emergency_target \<Rightarrow> bool" where
  "valid_target t \<longleftrightarrow> target_new (ct_symbol t) (ct_cloid t) (ct_oid t) = Inr t"

text \<open>The attempts a reader of the journal finds pending.\<close>

definition pending_map :: "em_env \<Rightarrow> em_state \<Rightarrow> (string \<Rightarrow> emergency_target option) \<Rightarrow> bool" where
  "pending_map env s M \<longleftrightarrow>
     (\<exists>rs m. journal_holds env (es_file s) rs \<and> fold_pending rs [] = Inr m \<and> map_of m = M)"

lemma fold_pending_snoc:
  "fold_pending (rs @ [r]) m = (case fold_pending rs m of Inl e \<Rightarrow> Inl e | Inr m' \<Rightarrow> fold_pending [r] m')"
  by (induction rs arbitrary: m) (auto split: sum.splits)

lemma append_file:
  assumes "journal_append env aid ev t o' e s = Some (s', Inr ())" and "codec_ok env" and "journal_holds env (es_file s) rs"
  shows "\<exists>r. jr_attempt_id r = aid \<and> jr_event r = ev \<and> jr_target r = t \<and> journal_holds env (es_file s') (rs @ [r])"
proof -
  define r where "r = \<lparr>jr_attempt_id = aid, jr_event = ev, jr_recorded_at = ev_now env (es_tick s), jr_target = t,
    jr_outcome = o', jr_error = e\<rparr>"
  have "es_file s' = Some ((case es_file s of Some f \<Rightarrow> f | None \<Rightarrow> []) @ ev_render env r @ [newline])"
    using assms(1) by (auto simp: journal_append_def em_tick_def append_sync_def em_emit_def Let_def r_def st_bind_Some
        split: append_outcome.splits)
  then have "journal_holds env (es_file s') (rs @ [r])" using journal_holds_append [OF assms(2,3), of r] by simp
  then show ?thesis by (intro exI [of _ r]) (simp add: r_def)
qed

lemma append_pending:
  assumes "journal_append env aid ev t o' e s = Some (s', Inr ())" and "codec_ok env" and "pending_map env s M"
  shows "ev = ''dispatch_intent'' \<Longrightarrow> valid_target t \<Longrightarrow> pending_map env s' (M(aid \<mapsto> t))"
    and "is_terminal_event ev \<Longrightarrow> pending_map env s' (M(aid := None))"
    and "ev \<noteq> ''dispatch_intent'' \<Longrightarrow> \<not> is_terminal_event ev \<Longrightarrow> pending_map env s' M"
proof -
  from assms(3) obtain rs m where m: "journal_holds env (es_file s) rs" "fold_pending rs [] = Inr m" "map_of m = M"
    by (auto simp: pending_map_def)
  obtain r where r: "jr_attempt_id r = aid" "jr_event r = ev" "jr_target r = t" and f: "journal_holds env (es_file s') (rs @ [r])"
    using append_file [OF assms(1,2) m(1)] by blast
  have goal: "pending_map env s' M'" if "fold_pending [r] m = Inr m'" "map_of m' = M'" for m' M'
    using that f m(2) unfolding pending_map_def by (intro exI [of _ "rs @ [r]"]) (simp add: fold_pending_snoc)
  show "ev = ''dispatch_intent'' \<Longrightarrow> valid_target t \<Longrightarrow> pending_map env s' (M(aid \<mapsto> t))"
    by (rule goal [of "AList.update aid t m"]) (auto simp: r valid_target_def update_conv' m(3))
  show "is_terminal_event ev \<Longrightarrow> pending_map env s' (M(aid := None))"
    by (rule goal [of "AList.delete aid m"]) (auto simp: r delete_conv' m(3) is_terminal_event_def)
  show "ev \<noteq> ''dispatch_intent'' \<Longrightarrow> \<not> is_terminal_event ev \<Longrightarrow> pending_map env s' M"
    by (rule goal [of m]) (auto simp: r m(3))
qed

text \<open>The other steps leave the file alone.\<close>

lemma other_steps_file:
  "get_open_orders env s = Some (s', r1) \<Longrightarrow> es_file s' = es_file s"
  "fresh_id env s = Some (s', r2) \<Longrightarrow> es_file s' = es_file s"
  "send_cancel env a s = Some (s', r3) \<Longrightarrow> es_file s' = es_file s"
  "pending_attempts env s = Some (s', r4) \<Longrightarrow> es_file s' = es_file s"
  by (auto simp: get_open_orders_def fresh_id_def send_cancel_def pending_attempts_def read_records_def em_tick_def em_emit_def
      st_bind_Some Let_def split: option.splits)

lemma pending_map_file: "es_file s' = es_file s \<Longrightarrow> pending_map env s' M \<longleftrightarrow> pending_map env s M"
  by (simp add: pending_map_def)

lemma transport_not_terminal:
  "\<not> is_terminal_event ''transport_result''" "\<not> is_terminal_event ''transport_error''" "\<not> is_terminal_event ''verified_open''"
  "is_terminal_event ''verified_absent''" "is_terminal_event ''already_absent''" "is_terminal_event ''recovery_resolved''"
  "\<not> is_terminal_event ''dispatch_intent''"
  by (simp_all add: is_terminal_event_def)

lemma attempt_pending:
  assumes "em_attempt env aid t asset s = Some (s', Inr r)" and "codec_ok env" and "pending_map env s M" and "valid_target t"
  shows "pending_map env s' (M(aid \<mapsto> t))"
proof -
  from assms(1) obtain s1 a where a: "journal_append env aid ''dispatch_intent'' t None None s = Some (s1, Inr ())"
      "send_cancel env a s1 = Some (s', Inr r)"
    by (auto simp: em_attempt_def st_bind_Some)
  show ?thesis
    using append_pending(1) [OF a(1) assms(2,3)] assms(4) pending_map_file [OF other_steps_file(3) [OF a(2)]] by simp
qed

lemma answered_pending:
  assumes "em_answered env aid t r s = Some (s', Inr ())" and "codec_ok env" and "pending_map env s M"
  shows "pending_map env s' M"
  using assms append_pending(3) transport_not_terminal by (cases r) (fastforce simp: em_answered_def)+

lemma dispatch_pending:
  assumes "em_dispatch env t s = Some (s', Inr aid)" and "codec_ok env" and "pending_map env s M" and "valid_target t"
  shows "pending_map env s' (M(aid \<mapsto> t))"
proof -
  from assms(1) obtain asset s1 s2 r where "fresh_id env s = Some (s1, Inr aid)"
      "em_attempt env aid t asset s1 = Some (s2, Inr r)" "em_answered env aid t r s2 = Some (s', Inr ())"
    by (auto simp: dispatch_parts st_bind_Some split: option.splits)
  then show ?thesis
    using attempt_pending [OF _ assms(2) _ assms(4)] answered_pending [OF _ assms(2)]
      pending_map_file [OF other_steps_file(2)] assms(3) by metis
qed

lemma verify_pending:
  assumes "em_verify env t remaining (Some aid) s = Some (s', Inr r)" and "codec_ok env" and "pending_map env s M"
  shows "pending_map env s' (if cr_success r then M(aid := None) else M)"
    and "cr_success r \<longleftrightarrow> find_target (ev_sha256 env) remaining t = None" and "cr_target r = t"
proof -
  show "pending_map env s' (if cr_success r then M(aid := None) else M)"
    using assms append_pending(2,3) transport_not_terminal
    by (fastforce simp: em_verify_def st_bind_Some split: if_splits)
  show "cr_success r \<longleftrightarrow> find_target (ev_sha256 env) remaining t = None" "cr_target r = t"
    using assms(1) by (auto simp: em_verify_def st_bind_Some split: if_splits)
qed

lemma open_orders_valid:
  assumes "get_open_orders env s = Some (s', Inr ts)" and "t \<in> set ts"
  shows "valid_target t"
proof -
  have "order_target i = Inr t \<Longrightarrow> valid_target t" for i t
    by (auto simp: order_target_def target_new_def valid_target_def Let_def split: option.splits if_splits)
  moreover have "open_order_targets items = Inr ts \<Longrightarrow> t \<in> set ts \<Longrightarrow> \<exists>i. order_target i = Inr t" for items ts
    by (induction items arbitrary: ts) (auto simp: map_sum_def split: sum.splits)
  ultimately show ?thesis
    using assms by (fastforce simp: get_open_orders_def em_tick_def st_bind_Some Let_def split: sum.splits)
qed

lemma find_target_in: "find_target h ts t = Some c \<Longrightarrow> c \<in> set ts"
  by (auto simp: find_target_def find_Some_iff)

section \<open>Recovery\<close>

text \<open>Each pending attempt is resolved or reported; what is resolved is pending no more.\<close>

lemma recover_each_pending:
  assumes "recover_each env ps auth u c s = Some (s', Inr (u', c'))" and "codec_ok env" and "pending_map env s M"
    and "\<forall>t\<in>set auth. valid_target t"
  shows "\<exists>M' new. pending_map env s' M' \<and> u' = u @ new \<and> c' + int (length new) = c + int (length ps) \<and>
    (new = [] \<longrightarrow> dom M' \<subseteq> dom M - fst ` set ps)"
  using assms
proof (induction env ps auth u c arbitrary: s M rule: recover_each.induct)
  case (1 env auth u c)
  then show ?case by (auto intro: exI [of _ M])
next
  case (2 env old_id old_target ps auth u c)
  show ?case
  proof (cases "find_target (ev_sha256 env) auth old_target")
    case None
    with "2.prems"(1) obtain s1 where s1: "journal_append env old_id ''recovery_resolved'' old_target (Some ''already_absent'') None s = Some (s1, Inr ())"
        "recover_each env ps auth u (c + 1) s1 = Some (s', Inr (u', c'))"
      by (auto simp: st_bind_Some)
    have "pending_map env s1 (M(old_id := None))"
      using append_pending(2) [OF s1(1) "2.prems"(2,3)] by (simp add: is_terminal_event_def)
    from "2.IH"(1) [OF None s1(2) "2.prems"(2) this "2.prems"(4)] obtain M' new where IH: "pending_map env s' M'" "u' = u @ new"
        "c' + int (length new) = c + 1 + int (length ps)" "new = [] \<longrightarrow> dom M' \<subseteq> dom (M(old_id := None)) - fst ` set ps"
      by blast
    then show ?thesis by (intro exI [of _ M'] exI [of _ new]) auto
  next
    case (Some matched)
    with "2.prems"(1) obtain new_id s1 s2 s3 remaining r where
        d: "em_dispatch env matched s = Some (s1, Inr new_id)" and q: "get_open_orders env s1 = Some (s2, Inr remaining)" and
        v: "em_verify env matched remaining (Some new_id) s2 = Some (s3, Inr r)" and
        rest: "(if cr_success r then
            st_bind (journal_append env old_id ''recovery_resolved'' old_target (Some ''cancelled'') None) (\<lambda>_.
            recover_each env ps remaining u (c + 1))
          else recover_each env ps auth (u @ [old_target]) c) s3 = Some (s', Inr (u', c'))"
      by (auto simp: st_bind_Some)
    have valid: "valid_target matched" using find_target_in [OF Some] "2.prems"(4) by blast
    have "pending_map env s2 (M(new_id \<mapsto> matched))"
      using dispatch_pending [OF d "2.prems"(2,3) valid] pending_map_file [OF other_steps_file(1) [OF q]] by simp
    note v' = verify_pending [OF v "2.prems"(2) this]
    show ?thesis
    proof (cases "cr_success r")
      case True
      with rest obtain s4 where s4: "journal_append env old_id ''recovery_resolved'' old_target (Some ''cancelled'') None s3 = Some (s4, Inr ())"
          "recover_each env ps remaining u (c + 1) s4 = Some (s', Inr (u', c'))"
        by (auto simp: st_bind_Some)
      have "pending_map env s4 ((M(new_id := None))(old_id := None))"
        using append_pending(2) [OF s4(1) "2.prems"(2)] v'(1) True by (simp add: is_terminal_event_def)
      from "2.IH"(2) [OF Some True s4(2) "2.prems"(2) this] open_orders_valid [OF q] obtain M' new where
          IH: "pending_map env s' M'" "u' = u @ new" "c' + int (length new) = c + 1 + int (length ps)"
          "new = [] \<longrightarrow> dom M' \<subseteq> dom ((M(new_id := None))(old_id := None)) - fst ` set ps"
        by blast
      then show ?thesis by (intro exI [of _ M'] exI [of _ new]) auto
    next
      case False
      with rest have "recover_each env ps auth (u @ [old_target]) c s3 = Some (s', Inr (u', c'))" by simp
      from "2.IH"(3) [OF Some False this "2.prems"(2) v'(1) "2.prems"(4)] obtain M' new where
          IH: "pending_map env s' M'" "u' = (u @ [old_target]) @ new" "c' + int (length new) = c + int (length ps)"
        by blast
      then show ?thesis by (intro exI [of _ M'] exI [of _ "old_target # new"]) auto
    qed
  qed
qed

section \<open>Authoritative answers\<close>

fun last_open :: "em_effect list \<Rightarrow> emergency_target list option" where
  "last_open [] = None"
| "last_open (e # es) = (case last_open es of Some ts \<Rightarrow> Some ts
     | None \<Rightarrow> (case e of EE_Open_Orders (Inr ts) \<Rightarrow> Some ts | _ \<Rightarrow> None))"

lemma last_open_append: "last_open (xs @ ys) = (case last_open ys of Some ts \<Rightarrow> Some ts | None \<Rightarrow> last_open xs)"
  by (induction xs) (auto split: option.splits)

text \<open>Steps that ask nothing, and a successful question.\<close>

definition asks_nothing :: "em_state \<Rightarrow> em_state \<Rightarrow> bool" where
  "asks_nothing s s' \<longleftrightarrow> (\<exists>es. es_trace s' = es_trace s @ es \<and> (\<forall>ts. EE_Open_Orders ts \<notin> set es))"

lemma asks_nothing_trans: "asks_nothing s t \<Longrightarrow> asks_nothing t u \<Longrightarrow> asks_nothing s u"
  by (fastforce simp: asks_nothing_def)

interpretation quiet: step_order asks_nothing
  by unfold_locales (auto simp: asks_nothing_def intro: asks_nothing_trans)

lemma last_open_nothing: "\<forall>ts. EE_Open_Orders ts \<notin> set es \<Longrightarrow> last_open es = None"
  by (induction es) (auto split: em_effect.splits)

lemma asks_nothing_last: "asks_nothing s s' \<Longrightarrow> last_open (es_trace s') = last_open (es_trace s)"
  by (auto simp: asks_nothing_def last_open_append last_open_nothing)

lemma append_asks: "st_keeps asks_nothing (journal_append env aid ev t o' e)"
  by (auto simp: st_keeps_def journal_append_def append_sync_def em_tick_def em_emit_def asks_nothing_def st_bind_Some Let_def
      split: append_outcome.splits)

lemma fresh_asks: "st_keeps asks_nothing (fresh_id env)"
  by (auto simp: st_keeps_def fresh_id_def em_tick_def asks_nothing_def)

lemma dispatch_asks: "st_keeps asks_nothing (em_dispatch env t)"
proof -
  have "st_keeps asks_nothing (send_cancel env a)" for a
    by (auto simp: st_keeps_def send_cancel_def em_tick_def em_emit_def asks_nothing_def st_bind_Some)
  then have "st_keeps asks_nothing (em_attempt env aid t asset)" for aid asset
    unfolding em_attempt_def by (intro quiet.keeps append_asks)
  moreover have "st_keeps asks_nothing (em_answered env aid t r)" for aid r
    by (cases r) (simp_all add: em_answered_def append_asks)
  ultimately show ?thesis
    unfolding dispatch_parts by (cases "ev_asset env (ct_symbol t)") (auto intro!: quiet.keeps fresh_asks)
qed

lemma verify_asks: "st_keeps asks_nothing (em_verify env t remaining (Some aid))"
  unfolding em_verify_def by (auto intro!: quiet.keeps append_asks)

lemma dispatch_all_asks: "st_keeps asks_nothing (dispatch_all env ts att u)"
proof (induction ts arbitrary: att u)
  case (Cons t ts)
  have "st_keeps asks_nothing (st_try (em_dispatch env t))"
    using dispatch_asks [of env t] by (auto simp: st_keeps_def st_try_def)
  then show ?case
    unfolding dispatch_all.simps by (rule quiet.keeps_bind) (auto split: sum.splits intro: Cons.IH)
qed (simp add: quiet.keeps_pure)

lemma verify_all_asks: "st_keeps asks_nothing (verify_all env remaining att ts u)"
  by (induction ts arbitrary: u) (auto intro!: quiet.keeps verify_asks split: option.splits)

lemma open_orders_last:
  "get_open_orders env s = Some (s', Inr ts) \<Longrightarrow> es_trace s' = es_trace s @ [EE_Open_Orders (Inr ts)]"
  by (auto simp: get_open_orders_def em_tick_def em_emit_def st_bind_Some Let_def)

lemma verify_all_sound:
  assumes "verify_all env remaining att ts u s = Some (s', Inr u')"
  shows "\<exists>new. u' = u @ new \<and> subseq new (filter (\<lambda>t. map_of att (target_key (ev_sha256 env) t) \<noteq> None) ts) \<and>
    (\<forall>t\<in>set ts. map_of att (target_key (ev_sha256 env) t) \<noteq> None \<longrightarrow> t \<in> set new \<or> find_target (ev_sha256 env) remaining t = None)"
  using assms
proof (induction ts arbitrary: u s)
  case (Cons t ts)
  show ?case
  proof (cases "map_of att (target_key (ev_sha256 env) t)")
    case None
    with Cons.prems Cons.IH [of u s] show ?thesis by simp
  next
    case (Some aid)
    with Cons.prems obtain s1 r where v: "em_verify env t remaining (Some aid) s = Some (s1, Inr r)"
        and rest: "verify_all env remaining att ts (if cr_success r then u else u @ [t]) s1 = Some (s', Inr u')"
      by (auto simp: st_bind_Some)
    have r: "cr_success r \<longleftrightarrow> find_target (ev_sha256 env) remaining t = None"
      using v by (auto simp: em_verify_def st_bind_Some split: if_splits)
    from Cons.IH [OF rest] obtain new where new: "u' = (if cr_success r then u else u @ [t]) @ new"
        "subseq new (filter (\<lambda>t. map_of att (target_key (ev_sha256 env) t) \<noteq> None) ts)"
        "\<forall>t\<in>set ts. map_of att (target_key (ev_sha256 env) t) \<noteq> None \<longrightarrow> t \<in> set new \<or> find_target (ev_sha256 env) remaining t = None"
      by blast
    show ?thesis
      using new r Some by (intro exI [of _ "(if cr_success r then [] else [t]) @ new"]) (auto simp: list_emb_Cons)
  qed
qed simp

text \<open>After the dispatches every target has an attempt or is unresolved; with distinct keys exactly one of the two.\<close>

lemma dispatch_all_sound:
  assumes "dispatch_all env ts att u s = Some (s', Inr (att', u'))"
  shows "dom (map_of att) \<subseteq> dom (map_of att')" and "set u \<subseteq> set u'"
    and "t \<in> set ts \<Longrightarrow> target_key (ev_sha256 env) t \<in> dom (map_of att') \<or> t \<in> set u'"
    and "distinct (map (target_key (ev_sha256 env)) ts) \<Longrightarrow> \<forall>t\<in>set ts. map_of att (target_key (ev_sha256 env) t) = None \<Longrightarrow>
      u' = u @ filter (\<lambda>t. map_of att' (target_key (ev_sha256 env) t) = None) ts \<and> (\<forall>k. k \<notin> target_key (ev_sha256 env) ` set ts \<longrightarrow> map_of att' k = map_of att k)"
proof -
  have "dom (map_of att) \<subseteq> dom (map_of att') \<and> set u \<subseteq> set u' \<and> (\<forall>t\<in>set ts. target_key (ev_sha256 env) t \<in> dom (map_of att') \<or> t \<in> set u') \<and>
    (distinct (map (target_key (ev_sha256 env)) ts) \<longrightarrow> (\<forall>t\<in>set ts. map_of att (target_key (ev_sha256 env) t) = None) \<longrightarrow>
      u' = u @ filter (\<lambda>t. map_of att' (target_key (ev_sha256 env) t) = None) ts \<and> (\<forall>k. k \<notin> target_key (ev_sha256 env) ` set ts \<longrightarrow> map_of att' k = map_of att k))"
    using assms(1)
  proof (induction ts arbitrary: att u s)
    case (Cons t ts)
    then obtain s1 r where "em_dispatch env t s = Some (s1, r)"
        "(case r of Inr aid \<Rightarrow> dispatch_all env ts (AList.update (target_key (ev_sha256 env) t) aid att) u
          | Inl _ \<Rightarrow> dispatch_all env ts att (u @ [t])) s1 = Some (s', Inr (att', u'))"
      by (auto simp: st_bind_Some st_try_def)
    note rest = this(2)
    show ?case
    proof (cases r)
      case (Inl e)
      with rest Cons.IH [of att "u @ [t]" s1] show ?thesis by (auto simp: image_iff)
    next
      case (Inr aid)
      let ?k = "target_key (ev_sha256 env) t"
      have upd: "map_of (AList.update ?k aid att) = (map_of att)(?k \<mapsto> aid)" by (rule update_conv')
      from rest Inr have "dispatch_all env ts (AList.update ?k aid att) u s1 = Some (s', Inr (att', u'))" by simp
      note IH = Cons.IH [OF this, unfolded upd dom_fun_upd]
      have k: "map_of att' ?k \<noteq> None" and dom: "dom (map_of att) \<subseteq> dom (map_of att')" using IH by auto
      show ?thesis
      proof (intro conjI impI)
        assume dist: "distinct (map (target_key (ev_sha256 env)) (t # ts))"
          and none: "\<forall>t'\<in>set (t # ts). map_of att (target_key (ev_sha256 env) t') = None"
        then have "\<forall>t'\<in>set ts. ((map_of att)(?k \<mapsto> aid)) (target_key (ev_sha256 env) t') = None"
          by (fastforce simp: image_iff)
        with IH dist show "u' = u @ filter (\<lambda>t. map_of att' (target_key (ev_sha256 env) t) = None) (t # ts)"
          and "\<forall>k. k \<notin> target_key (ev_sha256 env) ` set (t # ts) \<longrightarrow> map_of att' k = map_of att k"
          using k by auto
      qed (use IH k dom in auto)
    qed
  qed auto
  then show "dom (map_of att) \<subseteq> dom (map_of att')" "set u \<subseteq> set u'"
    "t \<in> set ts \<Longrightarrow> target_key (ev_sha256 env) t \<in> dom (map_of att') \<or> t \<in> set u'"
    "distinct (map (target_key (ev_sha256 env)) ts) \<Longrightarrow> \<forall>t\<in>set ts. map_of att (target_key (ev_sha256 env) t) = None \<Longrightarrow>
      u' = u @ filter (\<lambda>t. map_of att' (target_key (ev_sha256 env) t) = None) ts \<and> (\<forall>k. k \<notin> target_key (ev_sha256 env) ` set ts \<longrightarrow> map_of att' k = map_of att k)"
    by blast+
qed

section \<open>Properties\<close>

text \<open>C34: Whichever operation runs, with whatever answers and faults, a cancel leaves for the exchange only right
  after a journal record of exactly this attempt has been synced to disk.\<close>

theorem cancels_write_ahead:
  assumes "em_cancel env t s = Some (s', r1) \<or> em_cancel_all env symbol s = Some (s', r2) \<or>
    em_recover_pending env s = Some (s', r3)"
  shows "\<exists>es. es_trace s' = es_trace s @ es \<and> wal env es"
  using assms st_keepsD [OF cancel_wal] st_keepsD [OF cancel_all_wal] st_keepsD [OF recover_pending_wal]
  unfolding wal_step_def by blast


text \<open>A cancel reports success exactly when the last answer of the exchange no longer lists the order.\<close>

theorem cancel_reports_truth:
  assumes "em_cancel env t s = Some (s', Inr r)"
  shows "\<exists>ts. last_open (es_trace s') = Some ts \<and>
    (cr_success r \<longleftrightarrow> find_target (ev_sha256 env) ts (cr_target r) = None)"
proof -
  from assms obtain s1 ts where q: "get_open_orders env s = Some (s1, Inr ts)"
    by (auto simp: em_cancel_def st_bind_Some)
  note q' = open_orders_last [OF q]
  show ?thesis
  proof (cases "find_target (ev_sha256 env) ts t")
    case None
    with assms q obtain s2 aid where f: "fresh_id env s1 = Some (s2, Inr aid)"
        and a: "journal_append env aid ''already_absent'' t None None s2 = Some (s', Inr ())" and r: "cr_success r" "cr_target r = t"
      by (auto simp: em_cancel_def st_bind_Some)
    have "asks_nothing s1 s'"
      using asks_nothing_trans st_keepsD [OF fresh_asks f] st_keepsD [OF append_asks a] by blast
    then show ?thesis using asks_nothing_last q' None r by (auto simp: last_open_append)
  next
    case (Some matched)
    with assms q obtain s2 s3 aid remaining where d: "em_dispatch env matched s1 = Some (s2, Inr aid)"
        and q2: "get_open_orders env s2 = Some (s3, Inr remaining)" and v: "em_verify env matched remaining (Some aid) s3 = Some (s', Inr r)"
      by (auto simp: em_cancel_def st_bind_Some)
    have "last_open (es_trace s') = Some remaining"
      using asks_nothing_last [OF st_keepsD [OF verify_asks v]] open_orders_last [OF q2] by (simp add: last_open_append)
    then show ?thesis using v by (auto simp: em_verify_def st_bind_Some split: if_splits)
  qed
qed

text \<open>C36: Cancel-all accounts for every matching order of its first snapshot: it is reported as unresolved, or its last
  snapshot no longer lists it; and when no two orders share a key, requested is cancelled plus unresolved.\<close>

theorem cancel_all_accounts:
  assumes "em_cancel_all env symbol s = Some (s', Inr b)"
  shows "\<exists>auth es R. es_trace s' = es_trace s @ EE_Open_Orders (Inr auth) # es \<and> last_open (es_trace s') = Some R \<and>
    (let T = filter (\<lambda>t. case symbol of None \<Rightarrow> True | Some s \<Rightarrow> ct_symbol t = s) auth in
       cb_requested b = int (length T) \<and>
       (\<forall>t\<in>set T. t \<in> set (cb_unresolved b) \<or> find_target (ev_sha256 env) R t = None) \<and>
       (distinct (map (target_key (ev_sha256 env)) T) \<and> length T < 2 ^ 64 \<longrightarrow>
         cb_cancelled b + int (length (cb_unresolved b)) = cb_requested b))"
proof -
  define h where "h = ev_sha256 env"
  from assms obtain s1 auth where q: "get_open_orders env s = Some (s1, Inr auth)"
    by (auto simp: em_cancel_all_def st_bind_Some)
  define T where "T = filter (\<lambda>t. case symbol of None \<Rightarrow> True | Some s \<Rightarrow> ct_symbol t = s) auth"
  from assms q obtain s2 s3 att u R u' where d: "dispatch_all env T [] [] s1 = Some (s2, Inr (att, u))"
      and q2: "get_open_orders env s2 = Some (s3, Inr R)" and v: "verify_all env R att T u s3 = Some (s', Inr u')"
      and b: "b = \<lparr>cb_requested = int (length T), cb_cancelled = (int (length T) - int (length u')) mod 2 ^ 64, cb_unresolved = u'\<rparr>"
    by (auto simp: em_cancel_all_def st_bind_Some Let_def T_def)
  obtain new where new: "u' = u @ new" "subseq new (filter (\<lambda>t. map_of att (target_key h t) \<noteq> None) T)"
      "\<forall>t\<in>set T. map_of att (target_key h t) \<noteq> None \<longrightarrow> t \<in> set new \<or> find_target h R t = None"
    using verify_all_sound [OF v] unfolding h_def by blast
  have last: "last_open (es_trace s') = Some R"
    using asks_nothing_last [OF st_keepsD [OF verify_all_asks v]] open_orders_last [OF q2] by (simp add: last_open_append)
  obtain e1 e2 where "es_trace s2 = es_trace s1 @ e1" "es_trace s' = es_trace s3 @ e2"
    using st_keepsD [OF dispatch_all_asks d] st_keepsD [OF verify_all_asks v] by (auto simp: asks_nothing_def)
  then have trace: "es_trace s' = es_trace s @ EE_Open_Orders (Inr auth) # e1 @ EE_Open_Orders (Inr R) # e2"
    using open_orders_last [OF q] open_orders_last [OF q2] by simp
  have complete: "t \<in> set u' \<or> find_target h R t = None" if "t \<in> set T" for t
    using dispatch_all_sound(3) [OF d that] new that unfolding h_def by auto
  have count: "cb_cancelled b + int (length u') = int (length T)" if "distinct (map (target_key h) T)" "length T < 2 ^ 64"
  proof -
    have "u = filter (\<lambda>t. map_of att (target_key h t) = None) T"
      using dispatch_all_sound(4) [OF d] that(1) by (simp add: h_def)
    then have "length u' \<le> length T"
      using new(1) list_emb_length [OF new(2)] sum_length_filter_compl [of "\<lambda>t. map_of att (target_key h t) = None" T] by simp
    then show ?thesis using that(2) b by simp
  qed
  show ?thesis
    by (rule exI [of _ auth], rule exI, rule exI [of _ R], intro conjI, rule trace, rule last,
        unfold Let_def T_def [symmetric]) (use complete count b in \<open>auto simp: h_def\<close>)
qed

section \<open>A journal that no recovery can read or finish\<close>

text \<open>A target whose order id is not a number has its intent journaled before the id is parsed: the attempt is pending
  and every recovery that still finds the order open ends with an error there.\<close>

lemma non_numeric_oid_poisons:
  assumes "ct_cloid t = None" and "ct_oid t = Some k" and "parse_int in_i64 k = None" and "ev_asset env (ct_symbol t) = Some asset"
    and "codec_ok env" and "pending_map env s M" and "valid_target t"
    and "ev_append env (es_tick s + 1) = AO_Synced"
  shows "\<exists>s' e. em_dispatch env t s = Some (s', Inl e) \<and> pending_map env s' (M(ev_uuid env (es_tick s) \<mapsto> t))"
proof -
  define s1 where "s1 = s\<lparr>es_tick := es_tick s + 1\<rparr>"
  have id: "fresh_id env s = Some (s1, Inr (ev_uuid env (es_tick s)))"
    by (simp add: fresh_id_def em_tick_def s1_def)
  obtain s2 where a: "journal_append env (ev_uuid env (es_tick s)) ''dispatch_intent'' t None None s1 = Some (s2, Inr ())"
    using assms(8) by (simp add: journal_append_def em_tick_def append_sync_def s1_def Let_def)
  have "pending_map env s1 M" using assms(6) pending_map_file [of s1 s] by (simp add: s1_def)
  from append_pending(1) [OF a assms(5) this] have "pending_map env s2 (M(ev_uuid env (es_tick s) \<mapsto> t))"
    using assms(7) by simp
  moreover have "\<exists>e. em_dispatch env t s = Some (s2, Inl e)"
    using id a assms(1-4) by (simp add: em_dispatch_def cancel_wire_of_def)
  ultimately show ?thesis by blast
qed

lemma parse_lines_bad: "parse l = None \<Longrightarrow> \<exists>i. parse_lines parse False j (ls @ [l]) = Inl i"
proof (induction ls arbitrary: j)
  case (Cons k ls)
  from Cons.IH [OF Cons.prems, of "j + 1"] show ?case by (cases "parse k") auto
qed simp

text \<open>Appending to a journal with a torn tail glues the new record to it; unless that happens to be a record, no reader
  accepts the journal again.\<close>

lemma append_after_torn_tail:
  assumes "data \<noteq> []" and "last data \<noteq> newline" and "newline \<notin> set l" and "l \<noteq> []"
    and "\<And>pre tail. data = pre @ tail \<Longrightarrow> newline \<notin> set tail \<Longrightarrow> tail \<noteq> [] \<Longrightarrow> pre = [] \<or> last pre = newline \<Longrightarrow> parse (tail @ l) = None"
  shows "\<exists>i. read_records_sync parse (Some (data @ l @ [newline])) = Inl i"
proof -
  define torn where "torn = List.rev (takeWhile (\<lambda>c. c \<noteq> newline) (List.rev data))"
  define pre where "pre = List.rev (dropWhile (\<lambda>c. c \<noteq> newline) (List.rev data))"
  have data: "data = pre @ torn"
    unfolding pre_def torn_def by (simp flip: rev_append)
  have torn: "newline \<notin> set torn" unfolding torn_def by (auto dest: set_takeWhileD)
  have pre: "pre = [] \<or> last pre = newline"
    using hd_dropWhile [of "\<lambda>c. c \<noteq> newline" "List.rev data"]
    by (cases "dropWhile (\<lambda>c. c \<noteq> newline) (List.rev data) = []") (simp_all add: pre_def last_rev)
  have ne: "torn \<noteq> []" using data pre assms(1,2) by auto
  have "journal_lines (data @ l @ [newline]) = journal_lines pre @ [torn @ l]"
    using journal_lines_snoc [OF pre, of "torn @ l @ [newline]"] split_lines_append [of "torn @ l" "[]"]
      split_lines_line [of "torn @ l"] torn assms(3) ne data
    by (simp add: journal_lines_def)
  moreover have "\<exists>i. parse_lines parse False j (ls @ [torn @ l]) = Inl i" for j ls
    using assms(5) [OF data torn ne pre] by (rule parse_lines_bad)
  ultimately show ?thesis by (simp add: read_records_sync_def ends_with_newline_def)
qed

section \<open>A sample environment\<close>

text \<open>A codec with the documented behaviour: fields one after the other, each ended by a mark, with escapes.\<close>

fun enc_str :: "string \<Rightarrow> string" where
  "enc_str [] = ''%;''"
| "enc_str (c # cs) = (if c = CHR ''%'' then ''%%'' else if c = newline then ''%n'' else [c]) @ enc_str cs"

fun dec_str :: "string \<Rightarrow> (string \<times> string) option" where
  "dec_str (c # d # cs) =
     (if c = CHR ''%'' then
        (if d = CHR '';'' then Some ([], cs)
         else map_option (map_prod (Cons (if d = CHR ''n'' then newline else CHR ''%'')) id) (dec_str cs))
      else map_option (map_prod (Cons c) id) (dec_str (d # cs)))"
| "dec_str _ = None"

lemma enc_str_line: "newline \<notin> set (enc_str s)" "enc_str s \<noteq> []"
  by (induction s) (auto simp: newline_def)

lemma dec_enc_str: "dec_str (enc_str s @ rest) = Some (s, rest)"
proof (induction s)
  case (Cons c cs)
  obtain d ds where "enc_str cs @ rest = d # ds"
    using enc_str_line(2) [of cs] by (cases "enc_str cs @ rest") auto
  then show ?case using Cons by (auto simp: newline_def)
qed simp

definition enc_opt :: "string option \<Rightarrow> string" where
  "enc_opt r = (case r of None \<Rightarrow> ''%%%;'' | Some s \<Rightarrow> ''s'' @ enc_str s)"

definition dec_opt :: "string \<Rightarrow> (string option \<times> string) option" where
  "dec_opt cs = (case cs of CHR ''%'' # rest \<Rightarrow> Some (None, drop 3 rest)
     | _ # rest \<Rightarrow> map_option (map_prod Some id) (dec_str rest) | [] \<Rightarrow> None)"

lemma dec_enc_opt: "dec_opt (enc_opt r @ rest) = Some (r, rest)"
  by (cases r) (simp_all add: enc_opt_def dec_opt_def dec_enc_str)

lemma enc_opt_line: "newline \<notin> set (enc_opt r)"
  by (cases r) (simp_all add: enc_opt_def enc_str_line, simp_all add: newline_def)

definition enc_record :: "journal_record \<Rightarrow> string" where
  "enc_record r = enc_str (jr_attempt_id r) @ enc_str (jr_event r) @ enc_str (jr_recorded_at r) @
     enc_str (ct_symbol (jr_target r)) @ enc_opt (ct_cloid (jr_target r)) @ enc_opt (ct_oid (jr_target r)) @
     enc_opt (jr_outcome r) @ enc_opt (jr_error r)"

definition dec_record :: "string \<Rightarrow> journal_record option" where
  "dec_record s =
     do { (aid, s) \<leftarrow> dec_str s; (event, s) \<leftarrow> dec_str s; (tm, s) \<leftarrow> dec_str s; (symbol, s) \<leftarrow> dec_str s;
          (cloid, s) \<leftarrow> dec_opt s; (oid, s) \<leftarrow> dec_opt s; (outcome, s) \<leftarrow> dec_opt s; (err, s) \<leftarrow> dec_opt s;
          Some \<lparr>jr_attempt_id = aid, jr_event = event, jr_recorded_at = tm,
            jr_target = \<lparr>ct_symbol = symbol, ct_cloid = cloid, ct_oid = oid\<rparr>, jr_outcome = outcome, jr_error = err\<rparr> }"

lemma dec_enc_record: "dec_record (enc_record r) = Some r"
  using dec_enc_opt [of "jr_error r" "[]"]
  by (simp add: dec_record_def enc_record_def dec_enc_str dec_enc_opt)

text \<open>An exchange that drops every order it is asked to cancel.\<close>

definition sample_em_env :: em_env where
  "sample_em_env =
     \<lparr>ev_sha256 = id, ev_render = enc_record, ev_parse = dec_record, ev_asset = (\<lambda>_. Some 3),
      ev_open = (\<lambda>n. Inr (if n \<le> 1 then [JObj [(''coin'', JStr ''BTC''), (''oid'', JNum ''77'')]] else [])),
      ev_answer = (\<lambda>_. Inr (JObj [(''status'', JStr ''ok'')])), ev_append = (\<lambda>_. AO_Synced),
      ev_read_error = (\<lambda>_. None), ev_uuid = (\<lambda>n. ''u'' @ show_nat (int n)), ev_now = (\<lambda>_. ''now''), ev_path = ''wal''\<rparr>"

lemma sample_codec: "codec_ok sample_em_env"
  using enc_str_line enc_opt_line by (simp add: codec_ok_def sample_em_env_def dec_enc_record) (simp add: enc_record_def)

definition btc_target :: emergency_target where "btc_target = \<lparr>ct_symbol = ''BTC'', ct_cloid = None, ct_oid = Some ''77''\<rparr>"

definition sample_cancel_intent :: journal_record where
  "sample_cancel_intent = \<lparr>jr_attempt_id = ''a1'', jr_event = ''dispatch_intent'', jr_recorded_at = ''then'', jr_target = btc_target,
     jr_outcome = None, jr_error = None\<rparr>"

definition sample_em_state :: em_state where
  "sample_em_state = \<lparr>es_file = Some (enc_record sample_cancel_intent @ [newline]), es_tick = 0, es_trace = []\<rparr>"

lemma sample_journal: "journal_holds sample_em_env (es_file sample_em_state) [sample_cancel_intent]"
  by code_simp

lemma sample_recovery:
  "map_option snd (em_recover_pending sample_em_env sample_em_state) =
    Some (Inr \<lparr>cb_requested = 1, cb_cancelled = 1, cb_unresolved = []\<rparr>)"
  by code_simp

lemma sample_cancel:
  "map_option (map_sum id cr_success \<circ> snd) (em_cancel sample_em_env btc_target sample_em_state) = Some (Inr True)"
  by code_simp

lemma sample_cancel_all:
  "map_option (map_sum id cb_requested \<circ> snd) (em_cancel_all sample_em_env None sample_em_state) = Some (Inr 1)"
  by code_simp

lemma map_sum_Inr: "map_sum f g x = Inr y \<longleftrightarrow> (\<exists>z. x = Inr z \<and> g z = y)"
  by (cases x) auto

theorem cancels_write_ahead_witness:
  "\<exists>s' es r. em_cancel sample_em_env btc_target sample_em_state = Some (s', r) \<and> es_trace s' = es \<and> wal sample_em_env es"
proof -
  obtain s' r where "em_cancel sample_em_env btc_target sample_em_state = Some (s', r)" using sample_cancel by auto
  with cancels_write_ahead [of sample_em_env btc_target sample_em_state s' r] show ?thesis
    by (auto simp: sample_em_state_def)
qed


theorem cancel_reports_truth_witness:
  "\<exists>s' ts. last_open (es_trace s') = Some ts \<and> find_target (ev_sha256 sample_em_env) ts btc_target = None \<and>
     (\<exists>r. em_cancel sample_em_env btc_target sample_em_state = Some (s', Inr r))"
proof -
  have "map_option (map_sum id (\<lambda>r. (cr_success r, cr_target r)) \<circ> snd) (em_cancel sample_em_env btc_target sample_em_state)
      = Some (Inr (True, btc_target))" by code_simp
  then obtain s' r where "em_cancel sample_em_env btc_target sample_em_state = Some (s', Inr r)" "cr_success r" "cr_target r = btc_target"
    by (auto simp: map_sum_Inr)
  with cancel_reports_truth show ?thesis by fastforce
qed

theorem cancel_all_accounts_witness:
  "\<exists>s' R. last_open (es_trace s') = Some R \<and> (\<exists>b. em_cancel_all sample_em_env None sample_em_state = Some (s', Inr b))"
proof -
  obtain s' b where "em_cancel_all sample_em_env None sample_em_state = Some (s', Inr b)"
    using sample_cancel_all by (auto simp: map_sum_Inr)
  with cancel_all_accounts [OF this] show ?thesis by blast
qed

end
