(* ===== verification/HE_Features.thy ===== *)
theory HE_Features
  imports HE_Maker HE_Float
begin

text \<open>
  The feature engine of the market maker (\<open>trading/src/market_data/features.rs\<close>): bounded windows of
  mid prices and of trades per symbol, and \<open>build\<close>, which turns the current book and the windows into
  the \<open>MarketFeatures\<close> the policy reads. The natural logarithm of \<open>f64\<close> is a parameter (its last bit
  is not specified); the square root is the correctly rounded one. \<open>None\<close> is a panic.
\<close>

section \<open>Floats: square root and the cast to \<open>i64\<close>\<close>

function isqrt :: "int \<Rightarrow> int" where
  "isqrt n = (if n \<le> 0 then 0 else let r = 2 * isqrt (n div 4) in if (r + 1) * (r + 1) \<le> n then r + 1 else r)"
  by pat_completeness auto
termination by (relation "measure nat") auto

declare isqrt.simps [simp del]

text \<open>The root of a finite positive float: the integer root of \<open>r * 4^k\<close> has more than sixty bits, and
  a half is added when it is not exact, so that rounding it rounds the exact root.\<close>

definition sqrt_scale :: "rat \<Rightarrow> nat" where
  "sqrt_scale r = nat (62 - exponent r div 2)"

fun f64_sqrt :: "f64 \<Rightarrow> f64" where
  "f64_sqrt F64_NaN = F64_NaN"
| "f64_sqrt F64_NInf = F64_NaN"
| "f64_sqrt F64_PInf = F64_PInf"
| "f64_sqrt (F64_Fin r) =
     (if r < 0 then F64_NaN else if r = 0 then F64_Fin 0
      else let k = sqrt_scale r; q = \<lfloor>r * 4 ^ k\<rfloor>; s = isqrt q in
        round_f64 ((if of_int (s * s) = r * 4 ^ k then of_int s else of_int s + 1 / 2) / 2 ^ k))"

fun f64_as_i64 :: "f64 \<Rightarrow> int" where
  "f64_as_i64 F64_NaN = 0"
| "f64_as_i64 F64_PInf = 2 ^ 63 - 1"
| "f64_as_i64 F64_NInf = - (2 ^ 63)"
| "f64_as_i64 (F64_Fin r) = sat_i64 (if r < 0 then - \<lfloor>- r\<rfloor> else \<lfloor>r\<rfloor>)"

definition f64_sum :: "f64 list \<Rightarrow> f64" where
  "f64_sum xs = foldl f64_add (F64_Fin 0) xs"

section \<open>Types\<close>

record trade =
  td_symbol :: string
  td_price :: decimal
  td_size :: decimal
  td_side :: side
  td_tid :: nat
  td_timestamp :: int
  td_local_ts :: time_ns

record external_feature_set =
  xf_source :: "string option"
  xf_symbol :: "string option"
  xf_raw_price :: "decimal option"
  xf_adjusted_price :: "decimal option"
  xf_basis_bps :: decimal
  xf_effective_weight :: decimal
  xf_confidence :: decimal
  xf_age_ms :: "int option"
  xf_quality :: string
  xf_observed_at :: "time_ns option"

definition external_features_default :: external_feature_set where
  "external_features_default = \<lparr>xf_source = None, xf_symbol = None, xf_raw_price = None,
     xf_adjusted_price = None, xf_basis_bps = ZERO, xf_effective_weight = ZERO, xf_confidence = ZERO,
     xf_age_ms = None, xf_quality = ''unavailable'', xf_observed_at = None\<rparr>"

record feature_engine =
  fe_depth_levels :: nat
  fe_window :: time_ns
  fe_max_events :: nat
  fe_mid_history :: "string \<Rightarrow> (time_ns \<times> decimal) list option"
  fe_trades :: "string \<Rightarrow> trade list option"

definition feature_engine_new :: "nat \<Rightarrow> f64 \<Rightarrow> nat \<Rightarrow> string + feature_engine" where
  "feature_engine_new depth_levels window_seconds max_events =
     (if depth_levels = 0 \<or> f64_le window_seconds (F64_Fin 0) \<or> max_events \<le> 1
      then Inl ''feature-engine windows must be positive''
      else Inr \<lparr>fe_depth_levels = depth_levels,
             fe_window = f64_as_i64 (f64_mul window_seconds (F64_Fin 1000)) * 1000000,
             fe_max_events = max_events, fe_mid_history = Map.empty, fe_trades = Map.empty\<rparr>)"

section \<open>Windows\<close>

text \<open>\<open>push_back\<close> into a full deque first drops the front; \<open>trim\<close> drops expired fronts.\<close>

definition window_push :: "nat \<Rightarrow> 'a \<Rightarrow> 'a list \<Rightarrow> 'a list" where
  "window_push cap x xs = (if cap \<le> length xs then tl xs else xs) @ [x]"

definition fe_trim :: "string \<Rightarrow> time_ns \<Rightarrow> feature_engine \<Rightarrow> feature_engine" where
  "fe_trim mkt now e = e\<lparr>
     fe_mid_history := (case fe_mid_history e mkt of None \<Rightarrow> fe_mid_history e
       | Some h \<Rightarrow> (fe_mid_history e)(mkt \<mapsto> dropWhile (\<lambda>(t, _). fe_window e < now - t) h)),
     fe_trades := (case fe_trades e mkt of None \<Rightarrow> fe_trades e
       | Some ts \<Rightarrow> (fe_trades e)(mkt \<mapsto> dropWhile (\<lambda>t. fe_window e < now - td_local_ts t) ts))\<rparr>"

definition book_mid :: "decimal \<Rightarrow> decimal \<Rightarrow> decimal option" where
  "book_mid bid ask = do { two \<leftarrow> from_i128 2; dec_div (bid + ask) two }"

definition observe_book :: "l2_book_snapshot \<Rightarrow> feature_engine \<Rightarrow> feature_engine option" where
  "observe_book sn e =
     (case (sn_bids sn, sn_asks sn) of
        (b # _, a # _) \<Rightarrow> do {
          mid \<leftarrow> book_mid (lv_price b) (lv_price a);
          let history = (case fe_mid_history e (sn_symbol sn) of None \<Rightarrow> [] | Some h \<Rightarrow> h);
          Some (fe_trim (sn_symbol sn) (sn_local_ts sn)
            (e\<lparr>fe_mid_history := (fe_mid_history e)(sn_symbol sn \<mapsto>
                 window_push (fe_max_events e) (sn_local_ts sn, mid) history)\<rparr>)) }
      | _ \<Rightarrow> Some e)"

definition observe_trade :: "trade \<Rightarrow> feature_engine \<Rightarrow> feature_engine" where
  "observe_trade t e =
     (let trades = (case fe_trades e (td_symbol t) of None \<Rightarrow> [] | Some ts \<Rightarrow> ts)
      in fe_trim (td_symbol t) (td_local_ts t)
           (e\<lparr>fe_trades := (fe_trades e)(td_symbol t \<mapsto> window_push (fe_max_events e) t trades)\<rparr>))"

section \<open>Features of the windows\<close>

definition sqrt_decimal :: "decimal \<Rightarrow> decimal" where
  "sqrt_decimal v =
     (if v \<le> ZERO then ZERO
      else case from_f64 (f64_sqrt (dec_to_f64 v)) of Inr d \<Rightarrow> d | Inl _ \<Rightarrow> ZERO)"

fun flow_sums :: "trade list \<Rightarrow> decimal \<times> decimal \<Rightarrow> decimal \<times> decimal" where
  "flow_sums [] acc = acc"
| "flow_sums (t # ts) (buy, sell) =
     (let notional = td_price t * td_size t
      in flow_sums ts (if td_side t = Buy then (buy + notional, sell) else (buy, sell + notional)))"

definition trade_flow :: "string \<Rightarrow> feature_engine \<Rightarrow> decimal option" where
  "trade_flow mkt e =
     (case fe_trades e mkt of
        None \<Rightarrow> Some ZERO
      | Some ts \<Rightarrow>
          let (buy, sell) = flow_sums ts (ZERO, ZERO); flow = buy + sell
          in if ZERO < flow then dec_div (buy - sell) flow else Some ZERO)"

text \<open>The log returns per second of adjacent samples; a pair with a non-positive price or interval is
  skipped.\<close>

fun log_returns :: "(f64 \<Rightarrow> f64) \<Rightarrow> (time_ns \<times> decimal) list \<Rightarrow> f64 list option" where
  "log_returns lnf ((t0, p0) # (t1, p1) # rest) = do {
     tail \<leftarrow> log_returns lnf ((t1, p1) # rest);
     if p0 \<le> ZERO \<or> p1 \<le> ZERO then Some tail
     else
       let dt = f64_div (f64_of_int (num_milliseconds (t1 - t0))) (F64_Fin 1000)
       in if f64_le dt (F64_Fin 0) then Some tail
          else do { ratio \<leftarrow> dec_div p1 p0; Some (f64_div (lnf (dec_to_f64 ratio)) dt # tail) } }"
| "log_returns lnf _ = Some []"

definition f64_variance :: "f64 list \<Rightarrow> f64" where
  "f64_variance xs =
     (let n = f64_of_int (int (length xs)); mean = f64_div (f64_sum xs) n
      in f64_div (f64_sum (map (\<lambda>v. f64_mul (f64_sub v mean) (f64_sub v mean)) xs)) n)"

definition return_features :: "(f64 \<Rightarrow> f64) \<Rightarrow> string \<Rightarrow> feature_engine \<Rightarrow> (decimal \<times> decimal) option" where
  "return_features lnf mkt e =
     (case fe_mid_history e mkt of
        None \<Rightarrow> Some (ZERO, ZERO)
      | Some history \<Rightarrow>
          if length history < 2 then Some (ZERO, ZERO)
          else do {
            let first = snd (hd history);
            let newest = snd (List.last history);
            short_return \<leftarrow> (if ZERO < first then dec_div (newest - first) first else Some ZERO);
            returns \<leftarrow> log_returns lnf history;
            Some (short_return,
              if returns = [] then ZERO
              else case from_str_lenient (f64_to_string (f64_variance returns)) of Inr d \<Rightarrow> d | Inl _ \<Rightarrow> ZERO) })"

definition external_features :: "decimal \<Rightarrow> time_ns \<Rightarrow> external_reference_input option \<Rightarrow> maker_config option \<Rightarrow>
    external_feature_set option" where
  "external_features local_mid decision_at reference config =
     (case (reference, config) of
        (Some r, Some c) \<Rightarrow>
          let age = decision_at - er_observed_at r;
              common = external_features_default\<lparr>xf_source := Some (er_source r), xf_symbol := Some (er_symbol r),
                xf_raw_price := er_raw_price r, xf_confidence := er_confidence r,
                xf_age_ms := Some (max (num_milliseconds age) 0), xf_observed_at := Some (er_observed_at r)\<rparr>;
              age_seconds = (case from_str_lenient (f64_to_string
                  (f64_div (f64_of_int (num_milliseconds age)) (F64_Fin 1000))) of Inr d \<Rightarrow> d | Inl _ \<Rightarrow> ZERO)
          in if num_seconds age < 0 then Some (common\<lparr>xf_quality := ''clock_skew''\<rparr>)
             else if er_quality r \<in> {''disabled'', ''stale''} \<or> er_confidence r \<le> ZERO
             then Some (common\<lparr>xf_quality := er_quality r\<rparr>)
             else if mc_external_max_age_seconds c < age_seconds then Some (common\<lparr>xf_quality := ''stale''\<rparr>)
             else (case er_adjusted_price r of
               None \<Rightarrow> Some common
             | Some adjusted \<Rightarrow> do {
                 ratio \<leftarrow> dec_div adjusted local_mid;
                 let deviation = dec_abs (ratio - ONE) * dec_lit ''10000'';
                 (quality, weight) \<leftarrow>
                   (if mc_external_outlier_bps c < deviation then Some (''outlier'', ZERO)
                    else do {
                      used \<leftarrow> dec_div age_seconds (mc_external_max_age_seconds c);
                      Some (if er_quality r = ''healthy'' then ''good'' else ''degraded'',
                        dec_min (dec_min (mc_external_reference_weight c) (er_effective_weight r)) ONE *
                        dec_max (ONE - used) ZERO) });
                 Some (common\<lparr>xf_adjusted_price := Some adjusted, xf_basis_bps := er_basis_bps r,
                   xf_effective_weight := weight, xf_quality := quality\<rparr>) })
      | _ \<Rightarrow> Some external_features_default)"

section \<open>The snapshot\<close>

definition depth_of :: "nat \<Rightarrow> l2_level list \<Rightarrow> decimal" where
  "depth_of n ls = foldl (\<lambda>acc l. acc + lv_size l) ZERO (take n ls)"

definition order_flow_imbalance :: "decimal \<Rightarrow> decimal \<Rightarrow> decimal option" where
  "order_flow_imbalance bid_depth ask_depth =
     (if ZERO < bid_depth + ask_depth then dec_div (bid_depth - ask_depth) (bid_depth + ask_depth) else Some ZERO)"

definition latency_buffer :: "decimal \<Rightarrow> decimal option \<Rightarrow> maker_config option \<Rightarrow> decimal" where
  "latency_buffer variance latency config =
     (case (latency, config) of
        (Some seconds, Some c) \<Rightarrow>
          sqrt_decimal (variance * dec_max seconds ZERO) * dec_lit ''10000'' * mc_latency_risk_multiplier c
      | _ \<Rightarrow> ZERO)"

definition toxicity_of :: "decimal \<Rightarrow> decimal \<Rightarrow> decimal \<Rightarrow> decimal" where
  "toxicity_of ofi flow variance = dec_min ONE
     (dec_abs ofi * dec_lit ''0.35'' + dec_abs flow * dec_lit ''0.35'' +
      dec_min (sqrt_decimal variance) ONE * dec_lit ''0.30'')"

record build_input =
  bi_healthy :: bool
  bi_funding_rate :: decimal
  bi_adverse_markout_bps :: decimal
  bi_latency_seconds :: "decimal option"
  bi_latency_quality :: string
  bi_markout_quality :: string
  bi_external :: "external_reference_input option"
  bi_config :: "maker_config option"
  bi_decision_at :: time_ns

definition features_of :: "l2_book_snapshot \<Rightarrow> build_input \<Rightarrow> l2_level \<Rightarrow> l2_level \<Rightarrow> decimal \<Rightarrow> decimal \<Rightarrow>
    decimal \<Rightarrow> decimal \<Rightarrow> decimal \<Rightarrow> external_feature_set \<Rightarrow> market_features" where
  "features_of sn i bid ask microprice ofi flow short_return variance x =
     \<lparr>mf_symbol = sn_symbol sn, mf_market_version = wrap_i64 (int (sn_version sn)),
     mf_connection_generation = wrap_i64 (int (sn_generation sn)), mf_exchange_ts = sn_timestamp sn,
     mf_received_at = sn_local_ts sn, mf_healthy = bi_healthy i,
     mf_best_bid = lv_price bid, mf_best_ask = lv_price ask,
     mf_best_bid_size = lv_size bid, mf_best_ask_size = lv_size ask, mf_microprice = microprice,
     mf_normalized_ofi = ofi, mf_trade_flow = flow, mf_short_return = short_return,
     mf_variance_per_second = variance, mf_adverse_markout_bps = bi_adverse_markout_bps i,
     mf_latency_buffer_bps = latency_buffer variance (bi_latency_seconds i) (bi_config i),
     mf_toxicity = toxicity_of ofi flow variance, mf_funding_rate = bi_funding_rate i,
     mf_external_source = xf_source x, mf_external_symbol = xf_symbol x,
     mf_external_raw_price = xf_raw_price x, mf_external_adjusted_price = xf_adjusted_price x,
     mf_external_basis_bps = xf_basis_bps x, mf_external_weight = xf_effective_weight x,
     mf_external_confidence = xf_confidence x, mf_external_age_ms = xf_age_ms x,
     mf_external_quality = xf_quality x, mf_external_observed_at = xf_observed_at x,
     mf_latency_quality = bi_latency_quality i, mf_markout_quality = bi_markout_quality i\<rparr>"

definition build_features :: "(f64 \<Rightarrow> f64) \<Rightarrow> l2_book_snapshot \<Rightarrow> build_input \<Rightarrow> feature_engine \<Rightarrow>
    (feature_engine \<times> (string + market_features)) option" where
  "build_features lnf sn i e =
     (case (sn_bids sn, sn_asks sn) of
        (bid # _, ask # _) \<Rightarrow> do {
          e1 \<leftarrow> observe_book sn e;
          let top_total = lv_size bid + lv_size ask;
          if top_total \<le> ZERO then Some (e1, Inl ''top-of-book liquidity must be positive'')
          else do {
            microprice \<leftarrow> dec_div (lv_price ask * lv_size bid + lv_price bid * lv_size ask) top_total;
            ofi \<leftarrow> order_flow_imbalance (depth_of (fe_depth_levels e1) (sn_bids sn))
                     (depth_of (fe_depth_levels e1) (sn_asks sn));
            flow \<leftarrow> trade_flow (sn_symbol sn) e1;
            (short_return, variance) \<leftarrow> return_features lnf (sn_symbol sn) e1;
            local_mid \<leftarrow> book_mid (lv_price bid) (lv_price ask);
            x \<leftarrow> external_features local_mid (bi_decision_at i) (bi_external i) (bi_config i);
            let f = features_of sn i bid ask microprice ofi flow short_return variance x;
            Some (e1, case features_validate f of Inl msg \<Rightarrow> Inl msg | Inr _ \<Rightarrow> Inr f) } }
      | _ \<Rightarrow> Some (e, Inl ''cannot build market features from an empty book''))"

section \<open>Windows stay bounded\<close>

definition windows_ok :: "feature_engine \<Rightarrow> bool" where
  "windows_ok e \<longleftrightarrow> 1 < fe_max_events e \<and>
     (\<forall>m h. fe_mid_history e m = Some h \<longrightarrow> length h \<le> fe_max_events e) \<and>
     (\<forall>m ts. fe_trades e m = Some ts \<longrightarrow> length ts \<le> fe_max_events e)"

lemma window_push_length: "0 < cap \<Longrightarrow> length xs \<le> cap \<Longrightarrow> length (window_push cap x xs) \<le> cap"
  by (auto simp: window_push_def)

lemma dropWhile_le: "length xs \<le> n \<Longrightarrow> length (dropWhile P xs) \<le> n"
  using length_dropWhile_le order_trans by blast

lemma dropWhile_front: "dropWhile P xs = [] \<or> \<not> P (hd (dropWhile P xs))"
  by (metis hd_dropWhile)

lemma feature_engine_new_ok: "feature_engine_new d w n = Inr e \<Longrightarrow> windows_ok e"
  by (auto simp: feature_engine_new_def windows_ok_def split: if_splits)

lemma fe_trim_ok: "windows_ok e \<Longrightarrow> windows_ok (fe_trim m now e)"
  unfolding windows_ok_def fe_trim_def by (auto simp: dropWhile_le split: option.splits if_splits)

lemma observe_trade_ok:
  assumes "windows_ok e" shows "windows_ok (observe_trade t e)"
  unfolding observe_trade_def Let_def
  by (rule fe_trim_ok) (use assms in \<open>auto simp: windows_ok_def window_push_length split: option.splits\<close>)

lemma book_mid_returns: "\<exists>mid. book_mid b a = Some mid"
proof -
  have "from_i128 2 = Some (Dec (2 * SCALE_I128))"
    by (simp add: from_i128_def checked_i128_def in_i128_def i128_bounds SCALE_I128_def)
  then show ?thesis using dec_div_Some_iff [of "b + a" "Dec (2 * SCALE_I128)"] by (auto simp: book_mid_def)
qed

definition trades_positive :: "feature_engine \<Rightarrow> bool" where
  "trades_positive e \<longleftrightarrow> (\<forall>m ts. fe_trades e m = Some ts \<longrightarrow> (\<forall>t \<in> set ts. ZERO \<le> td_price t \<and> ZERO \<le> td_size t))"

lemma fe_trim_positive: "trades_positive e \<Longrightarrow> trades_positive (fe_trim m now e)"
  unfolding trades_positive_def fe_trim_def by (auto split: option.splits if_splits dest: set_dropWhileD)

lemma observe_book_returns:
  assumes "windows_ok e" "trades_positive e"
  shows "\<exists>e'. observe_book sn e = Some e' \<and> windows_ok e' \<and> trades_positive e'"
proof (cases "sn_bids sn = [] \<or> sn_asks sn = []")
  case True
  then show ?thesis using assms by (auto simp: observe_book_def split: list.splits)
next
  case False
  then obtain b bs a as where l: "sn_bids sn = b # bs" "sn_asks sn = a # as" by (meson neq_Nil_conv)
  obtain mid where mid: "book_mid (lv_price b) (lv_price a) = Some mid" using book_mid_returns by blast
  let ?e = "e\<lparr>fe_mid_history := (fe_mid_history e)(sn_symbol sn \<mapsto> window_push (fe_max_events e) (sn_local_ts sn, mid)
      (case fe_mid_history e (sn_symbol sn) of None \<Rightarrow> [] | Some h \<Rightarrow> h))\<rparr>"
  have "windows_ok ?e" using assms(1) by (auto simp: windows_ok_def window_push_length split: option.splits)
  moreover have "trades_positive ?e" using assms(2) by (simp add: trades_positive_def)
  ultimately show ?thesis by (simp add: observe_book_def l mid Let_def fe_trim_ok fe_trim_positive)
qed

section \<open>Bounds of the features\<close>

text \<open>A quotient of a saturated difference by a saturated sum of non-negative parts is in \<open>[-1, 1]\<close>.\<close>

lemma unit_quotient:
  assumes "0 \<le> raw x" "0 \<le> raw y" "dec_ok x" "dec_ok y" "0 < raw (x + y)" "dec_div (x - y) (x + y) = Some q"
  shows "- ONE \<le> q" and "q \<le> ONE"
proof -
  have "raw (x - y) \<le> raw (x + y)" "- raw (x + y) \<le> raw (x - y)"
    using assms(1-4) by (auto simp: sat_i128_def dec_ok_def in_i128_def i128_bounds)
  then have d: "raw (x - y) * SCALE_I128 \<le> SCALE_I128 * raw (x + y)"
      "(- SCALE_I128) * raw (x + y) \<le> raw (x - y) * SCALE_I128"
    by (simp_all add: SCALE_I128_def mult.commute)
  have q: "raw q = sat_i128 (half_up (raw (x - y) * SCALE_I128) (raw (x + y)))"
    using assms(5,6) by (auto simp: dec_div_pos)
  have "half_up (raw (x - y) * SCALE_I128) (raw (x + y)) \<le> SCALE_I128"
    using half_up_mono [OF assms(5) d(1)] half_up_mult [OF assms(5)] by simp
  moreover have "- SCALE_I128 \<le> half_up (raw (x - y) * SCALE_I128) (raw (x + y))"
    using half_up_mono [OF assms(5) d(2)] half_up_mult [OF assms(5), of "- SCALE_I128"] by simp
  ultimately show "- ONE \<le> q" "q \<le> ONE"
    by (auto simp: dec_le_iff q sat_i128_def i128_bounds SCALE_I128_def raw_consts)
qed

lemma foldl_nonneg:
  "0 \<le> raw acc \<Longrightarrow> \<forall>l \<in> set ls. 0 \<le> raw (lv_size l) \<Longrightarrow> 0 \<le> raw (foldl (\<lambda>acc l. acc + lv_size l) acc ls)"
  by (induction ls arbitrary: acc) auto

lemma depth_nonneg: "\<forall>l \<in> set ls. ZERO \<le> lv_size l \<Longrightarrow> 0 \<le> raw (depth_of n ls)"
  unfolding depth_of_def by (rule foldl_nonneg) (auto simp: dec_le_iff raw_consts dest: in_set_takeD)

lemma depth_ok: "dec_ok (depth_of n ls)"
proof -
  have "dec_ok acc \<Longrightarrow> dec_ok (foldl (\<lambda>acc l. acc + lv_size l) acc xs)" for acc xs
    by (induction xs arbitrary: acc) auto
  from this [of ZERO] show ?thesis by (simp add: depth_of_def)
qed

lemma ofi_unit:
  assumes "\<forall>l \<in> set bs. ZERO \<le> lv_size l" "\<forall>l \<in> set as. ZERO \<le> lv_size l"
  shows "\<exists>q. order_flow_imbalance (depth_of n bs) (depth_of n as) = Some q \<and> - ONE \<le> q \<and> q \<le> ONE"
proof (cases "ZERO < depth_of n bs + depth_of n as")
  case True
  then obtain q where q: "dec_div (depth_of n bs - depth_of n as) (depth_of n bs + depth_of n as) = Some q"
    by (auto simp: dec_less_iff raw_consts dec_div_pos)
  show ?thesis
    using unit_quotient [OF depth_nonneg [OF assms(1)] depth_nonneg [OF assms(2)] depth_ok depth_ok _ q] True q
    by (simp add: order_flow_imbalance_def dec_less_iff raw_consts)
next
  case False
  then show ?thesis by (simp add: order_flow_imbalance_def dec_le_iff raw_consts SCALE_I128_def sat_i128_def i128_bounds)
qed

lemma flow_sums_nonneg:
  "\<forall>t \<in> set ts. ZERO \<le> td_price t \<and> ZERO \<le> td_size t \<Longrightarrow> 0 \<le> raw b \<Longrightarrow> 0 \<le> raw s \<Longrightarrow>
   0 \<le> raw (fst (flow_sums ts (b, s))) \<and> 0 \<le> raw (snd (flow_sums ts (b, s)))"
proof (induction ts arbitrary: b s)
  case (Cons t ts)
  then have "0 \<le> raw (td_price t * td_size t)"
    by (intro dec_mul_nonneg) (auto simp: dec_le_iff raw_consts)
  then show ?case using Cons by (auto simp: Let_def simp del: raw_mul)
qed simp

lemma flow_sums_ok: "dec_ok b \<Longrightarrow> dec_ok s \<Longrightarrow> dec_ok (fst (flow_sums ts (b, s))) \<and> dec_ok (snd (flow_sums ts (b, s)))"
  by (induction ts arbitrary: b s) (simp_all add: Let_def)

lemma flow_unit:
  assumes "trades_positive e"
  shows "\<exists>q. trade_flow m e = Some q \<and> - ONE \<le> q \<and> q \<le> ONE"
proof (cases "fe_trades e m")
  case None
  then show ?thesis by (simp add: trade_flow_def dec_le_iff raw_consts SCALE_I128_def sat_i128_def i128_bounds)
next
  case (Some ts)
  obtain b s where bs: "flow_sums ts (ZERO, ZERO) = (b, s)" by (cases "flow_sums ts (ZERO, ZERO)")
  have nn: "0 \<le> raw b" "0 \<le> raw s"
    using flow_sums_nonneg [of ts ZERO ZERO] assms Some bs by (auto simp: trades_positive_def raw_consts)
  have ok: "dec_ok b" "dec_ok s" using flow_sums_ok [of ZERO ZERO ts] bs by auto
  show ?thesis
  proof (cases "ZERO < b + s")
    case True
    then obtain q where q: "dec_div (b - s) (b + s) = Some q" by (auto simp: dec_less_iff raw_consts dec_div_pos)
    show ?thesis using unit_quotient [OF nn ok _ q] True q Some bs by (simp add: trade_flow_def dec_less_iff raw_consts)
  next
    case False
    then show ?thesis using Some bs
      by (simp add: trade_flow_def dec_le_iff raw_consts SCALE_I128_def sat_i128_def i128_bounds)
  qed
qed

lemma log_returns_return: "\<exists>xs. log_returns lnf h = Some xs"
proof (induction lnf h rule: log_returns.induct)
  case (1 lnf t0 p0 t1 p1 rest)
  then obtain xs where xs: "log_returns lnf ((t1, p1) # rest) = Some xs" by blast
  show ?case
  proof (cases "p0 \<le> ZERO")
    case False
    then obtain q where "dec_div p1 p0 = Some q" by (auto simp: dec_le_iff raw_consts dec_div_pos)
    then show ?thesis by (auto simp: xs Let_def)
  qed (simp add: xs)
qed auto

lemma return_features_return: "\<exists>r v. return_features lnf m e = Some (r, v)"
proof (cases "fe_mid_history e m")
  case (Some h)
  obtain xs where "log_returns lnf h = Some xs" using log_returns_return by blast
  moreover have "\<exists>r. (if ZERO < snd (hd h) then dec_div (snd (List.last h) - snd (hd h)) (snd (hd h)) else Some ZERO) = Some r"
    by (auto simp: dec_less_iff raw_consts dec_div_pos)
  ultimately show ?thesis using Some by (auto simp: return_features_def Let_def)
qed (simp add: return_features_def)

text \<open>An external price counts only when it is fresh, trusted and no outlier, and never more than the
  configuration allows.\<close>

definition external_trusted :: "maker_config \<Rightarrow> external_reference_input \<Rightarrow> time_ns \<Rightarrow> bool" where
  "external_trusted c r now \<longleftrightarrow> \<not> num_seconds (now - er_observed_at r) < 0 \<and>
     er_quality r \<notin> {''disabled'', ''stale''} \<and> ZERO < er_confidence r \<and> er_adjusted_price r \<noteq> None"

lemma external_features_sound:
  assumes "raw mid \<noteq> 0" and "case cfg of Some c \<Rightarrow> maker_config_validate c = Some (Inr ()) | None \<Rightarrow> True"
  shows "\<exists>x. external_features mid now ref cfg = Some x \<and>
     (xf_effective_weight x \<noteq> ZERO \<longrightarrow> (\<exists>c r. cfg = Some c \<and> ref = Some r \<and> external_trusted c r now \<and>
        xf_adjusted_price x = er_adjusted_price r \<and> xf_quality x \<in> {''good'', ''degraded''}))"
proof (cases "\<exists>r c. ref = Some r \<and> cfg = Some c")
  case True
  then obtain r c where rc: "ref = Some r" "cfg = Some c" by blast
  have "0 < raw (mc_external_max_age_seconds c)"
    using assms(2) rc by (auto simp: maker_config_validate_def dec_le_iff raw_consts split: option.splits if_splits)
  then have age: "\<exists>q. dec_div a (mc_external_max_age_seconds c) = Some q" for a by (auto simp: dec_div_pos)
  have mid: "\<exists>q. dec_div a mid = Some q" for a using assms(1) by simp
  obtain q where q: "dec_div (case from_str_lenient (f64_to_string (f64_div (f64_of_int
      (num_milliseconds (now - er_observed_at r))) (F64_Fin 1000))) of Inr d \<Rightarrow> d | Inl _ \<Rightarrow> ZERO)
      (mc_external_max_age_seconds c) = Some q" using age by blast
  show ?thesis
  proof (cases "er_adjusted_price r")
    case None
    then show ?thesis by (simp add: external_features_def rc external_features_default_def Let_def)
  next
    case (Some p)
    obtain z where z: "dec_div p mid = Some z" using mid by blast
    show ?thesis
      by (simp add: external_features_def rc Some z q external_features_default_def external_trusted_def Let_def dec_le_iff dec_less_iff not_le)
  qed
next
  case False
  then show ?thesis by (auto simp: external_features_def external_features_default_def split: option.splits)
qed

section \<open>The property\<close>


text \<open>A crossed book passes through to the validation; a sane one gives features.\<close>

definition sample_snapshot :: l2_book_snapshot where
  "sample_snapshot = \<lparr>sn_symbol = ''BTC'', sn_bids = [\<lparr>lv_price = Dec (99 * 10 ^ 18), lv_size = ONE\<rparr>],
     sn_asks = [\<lparr>lv_price = Dec (101 * 10 ^ 18), lv_size = ONE\<rparr>], sn_timestamp = 0, sn_local_ts = 0,
     sn_version = 1, sn_generation = 0\<rparr>"

definition sample_build :: build_input where
  "sample_build = \<lparr>bi_healthy = True, bi_funding_rate = ZERO, bi_adverse_markout_bps = ZERO, bi_latency_seconds = None,
     bi_latency_quality = ''observed'', bi_markout_quality = ''mature'', bi_external = None, bi_config = None,
     bi_decision_at = 0\<rparr>"

definition sample_windows :: feature_engine where
  "sample_windows = \<lparr>fe_depth_levels = 5, fe_window = 10 ^ 10, fe_max_events = 8, fe_mid_history = Map.empty, fe_trades = Map.empty\<rparr>"


end
