(* ===== verification/HE_Shadow.thy ===== *)
theory HE_Shadow
  imports HE_Maker_Plan HE_Ids "HOL-Library.AList"
begin

text \<open>
  The virtual quotes of shadow mode (\<open>trading/src/market_maker/shadow.rs\<close>). The \<open>HashMap\<close> of slot views
  is an association list without repeated keys, in any order; the order matters only for the search of
  \<open>simulate_fill_by_cloid\<close>. \<open>None\<close> is the panic of \<open>owner\<close>. The debug text of a key is a parameter.
\<close>

record shadow_estimate =
  sa_optimistic :: nat
  sa_neutral :: nat
  sa_pessimistic :: nat

type_synonym shadow_orders = "(quote_slot_key \<times> quote_slot_view) list"

definition shadow_new :: shadow_orders where "shadow_new = []"

definition empty_view :: "quote_slot_key \<Rightarrow> quote_slot_view" where
  "empty_view k = \<lparr>sv_key = k, sv_revision = 0, sv_plan_revision = 0, sv_owners = [], sv_last_transition_at = None\<rparr>"

definition shadow_view :: "quote_slot_key \<Rightarrow> shadow_orders \<Rightarrow> shadow_orders \<times> quote_slot_view" where
  "shadow_view k s =
     (case map_of s k of Some v \<Rightarrow> (s, v) | None \<Rightarrow> (AList.update k (empty_view k) s, empty_view k))"

definition slot_key :: "string \<Rightarrow> string \<Rightarrow> side \<Rightarrow> quote_slot_key" where
  "slot_key strategy mkt sd = \<lparr>qk_strategy_id = strategy, qk_symbol = mkt, qk_side = sd, qk_level = 0\<rparr>"

definition shadow_views :: "string \<Rightarrow> string \<Rightarrow> shadow_orders \<Rightarrow> shadow_orders \<times> quote_slot_view \<times> quote_slot_view" where
  "shadow_views strategy mkt s =
     (let (s1, bid) = shadow_view (slot_key strategy mkt Buy) s;
          (s2, ask) = shadow_view (slot_key strategy mkt Sell) s1
      in (s2, bid, ask))"

definition shadow_owner :: "quote_plan \<Rightarrow> quote_slot_key \<Rightarrow> decimal option \<Rightarrow> decimal option \<Rightarrow> time_ns \<Rightarrow>
    quote_risk_owner option" where
  "shadow_owner plan slot price sz now =
     (case (price, sz) of
        (Some p, Some sz) \<Rightarrow> Some
          \<lparr>ro_order_id = None,
           ro_cloid = ''shadow:'' @ qp_session_id plan @ '':'' @ show_int (qp_revision plan) @ '':'' @
             side_as_str (qk_side slot) @ '':'' @ show_nat (int (qk_level slot)),
           ro_price = p, ro_remaining = sz, ro_status = Acknowledged, ro_plan_revision = qp_revision plan,
           ro_live_since = now, ro_exchange_id_known = False\<rparr>
      | _ \<Rightarrow> None)"

text \<open>The owners after a diff and the actions it counts for; \<open>Inr None\<close> when the diff changes nothing.\<close>

definition shadow_diff :: "quote_plan \<Rightarrow> quote_diff \<Rightarrow> time_ns \<Rightarrow>
    (string + (nat \<times> quote_risk_owner list) option) option" where
  "shadow_diff plan d now =
     (let place = shadow_owner plan (qd_slot d) (dq_price (qd_desired d)) (dq_size (qd_desired d)) now
      in case qd_action d of
        QA_Cancel \<Rightarrow> Some (Inr (Some (1, [])))
      | QA_Place \<Rightarrow> map_option (\<lambda>o'. Inr (Some (1, [o']))) place
      | QA_CancelThenPlace \<Rightarrow> map_option (\<lambda>o'. Inr (Some (2, [o']))) place
      | QA_Modify \<Rightarrow> Some (Inl ''unsupported shadow quote action: Modify'')
      | _ \<Rightarrow> Some (Inr None))"

fun shadow_apply_diffs :: "quote_plan \<Rightarrow> time_ns \<Rightarrow> quote_diff list \<Rightarrow> nat \<Rightarrow> shadow_orders \<Rightarrow>
    (shadow_orders \<times> (string + nat)) option" where
  "shadow_apply_diffs plan now [] n s = Some (s, Inr n)"
| "shadow_apply_diffs plan now (d # ds) n s =
     (let (s1, view) = shadow_view (qd_slot d) s
      in case shadow_diff plan d now of
        None \<Rightarrow> None
      | Some (Inl e) \<Rightarrow> Some (s1, Inl e)
      | Some (Inr None) \<Rightarrow> shadow_apply_diffs plan now ds n s1
      | Some (Inr (Some (k, owners))) \<Rightarrow>
          shadow_apply_diffs plan now ds (n + k)
            (AList.update (qd_slot d)
              \<lparr>sv_key = qd_slot d, sv_revision = sv_revision view + 1, sv_plan_revision = qp_revision plan,
               sv_owners = owners, sv_last_transition_at = Some now\<rparr> s1))"

definition shadow_apply :: "quote_plan \<Rightarrow> time_ns \<Rightarrow> shadow_orders \<Rightarrow>
    (shadow_orders \<times> (string + shadow_estimate)) option" where
  "shadow_apply plan now s =
     (if qp_fenced plan then Some (s, Inr \<lparr>sa_optimistic = 0, sa_neutral = 0, sa_pessimistic = 0\<rparr>)
      else map_option (\<lambda>(s', r). (s', map_sum id
              (\<lambda>n. \<lparr>sa_optimistic = n, sa_neutral = n + (if n > 0 then 1 else 0), sa_pessimistic = n * 2\<rparr>) r))
            (shadow_apply_diffs plan now (qp_diffs plan) 0 s))"

definition simulate_fill :: "(quote_slot_key \<Rightarrow> string) \<Rightarrow> quote_slot_key \<Rightarrow> decimal \<Rightarrow> shadow_orders \<Rightarrow>
    shadow_orders \<times> (string + unit)" where
  "simulate_fill dbg slot sz s =
     (let (s1, view) = shadow_view slot s
      in case current_owner view of
        Inl e \<Rightarrow> (s1, Inl e)
      | Inr None \<Rightarrow> (s1, Inl (''no current owner for '' @ dbg slot))
      | Inr (Some own) \<Rightarrow>
          let remaining = ro_remaining own - sz;
              owners = (if remaining \<le> ZERO then [] else [own\<lparr>ro_remaining := remaining, ro_status := PartialFill\<rparr>])
          in (AList.update slot
                \<lparr>sv_key = slot, sv_revision = sv_revision view + 1, sv_plan_revision = sv_plan_revision view,
                 sv_owners = owners, sv_last_transition_at = sv_last_transition_at view\<rparr> s1, Inr ()))"

definition simulate_fill_by_cloid :: "(quote_slot_key \<Rightarrow> string) \<Rightarrow> string \<Rightarrow> decimal \<Rightarrow> shadow_orders \<Rightarrow> shadow_orders \<times> bool" where
  "simulate_fill_by_cloid dbg cloid sz s =
     (case find (\<lambda>(_, v). list_ex (\<lambda>o'. ro_cloid o' = cloid) (sv_owners v)) s of
        Some (slot, _) \<Rightarrow> (fst (simulate_fill dbg slot sz s), True)
      | None \<Rightarrow> (s, False))"

section \<open>A slot never has more than one virtual order\<close>

definition shadow_view_ok :: "quote_slot_key \<Rightarrow> quote_slot_view \<Rightarrow> bool" where
  "shadow_view_ok k v \<longleftrightarrow> sv_key v = k \<and>
     (sv_owners v = [] \<or> (\<exists>own. sv_owners v = [own] \<and> ro_plan_revision own = sv_plan_revision v \<and>
        ro_status own \<in> {Acknowledged, PartialFill}))"

definition shadow_ok :: "shadow_orders \<Rightarrow> bool" where
  "shadow_ok s \<longleftrightarrow> distinct (map fst s) \<and> (\<forall>(k, v) \<in> set s. shadow_view_ok k v)"

lemma shadow_new_ok: "shadow_ok shadow_new"
  by (simp add: shadow_ok_def shadow_new_def)

lemma shadow_update_ok:
  assumes "shadow_ok s" "shadow_view_ok k v" shows "shadow_ok (AList.update k v s)"
proof -
  have "set (AList.update k v s) \<subseteq> insert (k, v) (set s)" by (induction s) auto
  then show ?thesis
    using assms distinct_update [of s k v] by (auto simp: shadow_ok_def)
qed

lemma shadow_view_props:
  assumes "shadow_ok s" "shadow_view k s = (s', v)" shows "shadow_ok s'" and "shadow_view_ok k v"
proof -
  have e: "shadow_view_ok k (empty_view k)" by (simp add: shadow_view_ok_def empty_view_def)
  show "shadow_ok s'" "shadow_view_ok k v"
    using assms shadow_update_ok [OF assms(1) e] e
    by (auto simp: shadow_view_def shadow_ok_def split: option.splits dest!: map_of_SomeD)
qed

lemma shadow_view_current: "shadow_view_ok k v \<Longrightarrow> current_owner v = Inr (if sv_owners v = [] then None else Some (hd (sv_owners v)))"
  by (auto simp: shadow_view_ok_def current_owner_def)

lemma shadow_view_settled:
  "shadow_view_ok k v \<Longrightarrow> length (sv_owners v) \<le> 1 \<and> \<not> has_unknown v \<and> \<not> has_inflight v \<and> \<not> has_orphaned_owner v"
  by (auto simp: shadow_view_ok_def has_unknown_def has_inflight_def has_orphaned_owner_def owner_unknown_def owner_inflight_def)

text \<open>A placement carries its price and size: what the coordinator guarantees (\<open>coordinate_safe\<close>).\<close>

definition priced :: "quote_diff \<Rightarrow> bool" where
  "priced d \<longleftrightarrow> qd_action d \<noteq> QA_Modify \<and>
     (placing d \<longrightarrow> dq_price (qd_desired d) \<noteq> None \<and> dq_size (qd_desired d) \<noteq> None)"

lemma shadow_owner_ok:
  "shadow_owner plan k p sz now = Some own \<Longrightarrow> ro_plan_revision own = qp_revision plan \<and> ro_status own = Acknowledged"
  by (auto simp: shadow_owner_def split: option.splits)

lemma shadow_diff_returns:
  assumes "priced d"
  shows "\<exists>r. shadow_diff plan d now = Some (Inr r)"
  using assms by (cases "qd_action d") (auto simp: shadow_diff_def priced_def placing_def shadow_owner_def)

lemma shadow_diff_ok:
  assumes "shadow_diff plan d now = Some (Inr (Some (n, os)))"
  shows "os = [] \<or> (\<exists>own. os = [own] \<and> ro_plan_revision own = qp_revision plan \<and> ro_status own = Acknowledged)"
  using assms by (auto simp: shadow_diff_def shadow_owner_ok Let_def split: quote_action.splits)

lemma shadow_apply_diffs_ok:
  "shadow_ok s \<Longrightarrow> \<forall>d \<in> set ds. priced d \<Longrightarrow> \<exists>s' n'. shadow_apply_diffs plan now ds n s = Some (s', Inr n') \<and> shadow_ok s'"
proof (induction ds arbitrary: n s)
  case (Cons d ds)
  obtain s1 v where v: "shadow_view (qd_slot d) s = (s1, v)" by (cases "shadow_view (qd_slot d) s")
  have s1: "shadow_ok s1" by (rule shadow_view_props(1) [OF Cons.prems(1) v])
  obtain r where r: "shadow_diff plan d now = Some (Inr r)" using Cons.prems(2) shadow_diff_returns by force
  show ?case
  proof (cases r)
    case None
    then show ?thesis using Cons.IH [OF s1] Cons.prems(2) by (simp add: v r)
  next
    case (Some p)
    obtain k os where p: "p = (k, os)" by (cases p)
    have "shadow_view_ok (qd_slot d) \<lparr>sv_key = qd_slot d, sv_revision = sv_revision v + 1, sv_plan_revision = qp_revision plan,
        sv_owners = os, sv_last_transition_at = Some now\<rparr>"
      using shadow_diff_ok [of plan d now k os] r Some p by (auto simp: shadow_view_ok_def)
    from Cons.IH [OF shadow_update_ok [OF s1 this]] show ?thesis
      using Cons.prems(2) by (simp add: v r Some p)
  qed
qed simp

lemma shadow_apply_ok:
  assumes "shadow_ok s" "\<forall>d \<in> set (qp_diffs plan). priced d"
  shows "\<exists>s' est. shadow_apply plan now s = Some (s', Inr est) \<and> shadow_ok s'"
  using assms shadow_apply_diffs_ok [OF assms, of plan now 0] by (auto simp: shadow_apply_def)

lemma simulate_fill_ok:
  assumes "shadow_ok s" shows "shadow_ok (fst (simulate_fill dbg slot sz s))"
proof -
  obtain s1 v where v: "shadow_view slot s = (s1, v)" by (cases "shadow_view slot s")
  have s1: "shadow_ok s1" and vok: "shadow_view_ok slot v" using shadow_view_props [OF assms v] by auto
  show ?thesis
    using vok
    by (auto simp: simulate_fill_def v s1 shadow_view_current [OF vok] Let_def shadow_view_ok_def intro!: shadow_update_ok [OF s1])
qed

lemma simulate_fill_by_cloid_ok: "shadow_ok s \<Longrightarrow> shadow_ok (fst (simulate_fill_by_cloid dbg c sz s))"
  by (auto simp: simulate_fill_by_cloid_def simulate_fill_ok split: option.split)

lemma shadow_views_ok:
  assumes "shadow_ok s" "shadow_views st mkt s = (s', bid, ask)"
  shows "shadow_ok s' \<and> shadow_view_ok (slot_key st mkt Buy) bid \<and> shadow_view_ok (slot_key st mkt Sell) ask"
proof -
  obtain s1 b where b: "shadow_view (slot_key st mkt Buy) s = (s1, b)" by (cases "shadow_view (slot_key st mkt Buy) s")
  obtain s2 a where a: "shadow_view (slot_key st mkt Sell) s1 = (s2, a)" by (cases "shadow_view (slot_key st mkt Sell) s1")
  show ?thesis
    using assms(2) shadow_view_props [OF assms(1) b] shadow_view_props [OF shadow_view_props(1) [OF assms(1) b] a]
    by (simp add: shadow_views_def b a)
qed

text \<open>Plans of the coordinator.\<close>

lemma coordinated_spec:
  assumes "coordinate c s bid ask tick now = Some (Inr plan)" and "d \<in> set (qp_diffs plan)"
  shows "diff_spec (ds_bid (reject_crossed s)) bid d \<or> diff_spec (ds_ask (reject_crossed s)) ask d"
  using assms(1)
proof (cases rule: coordinate_cases)
  case (fenced d1 d2 reason)
  then show ?thesis
    using assms(2) by (auto simp: fenced_plan_def plan_of_def dest: fenced_diff_spec)
next
  case (unfenced d1 d2)
  then have "diff_spec (ds_bid (reject_crossed s)) bid d1" "diff_spec (ds_ask (reject_crossed s)) ask d2"
    using diff_slot_spec by blast+
  then show ?thesis using assms(2) unfenced(4) by (auto simp: plan_of_def)
qed

lemma desired_quoteD:
  "desired_quote_validate q = Inr () \<Longrightarrow> dq_decision q = QD_Quote \<Longrightarrow> dq_price q \<noteq> None \<and> dq_size q \<noteq> None"
  by (auto simp: desired_quote_validate_def split: if_splits)

lemma coordinated_priced:
  assumes "coordinate c s bid ask tick now = Some (Inr plan)"
    and v: "desired_quote_validate (ds_bid s) = Inr ()" "desired_quote_validate (ds_ask s) = Inr ()"
    and "d \<in> set (qp_diffs plan)"
  shows "priced d"
proof -
  obtain q v' where spec: "diff_spec q v' d" and q: "q = ds_bid (reject_crossed s) \<or> q = ds_ask (reject_crossed s)"
    using coordinated_spec [OF assms(1,4)] by blast
  have "q = ds_bid s \<or> q = ds_ask s" if "dq_decision q = QD_Quote"
    using q that by (auto simp: reject_crossed_def no_quote_desired_def split: if_splits)
  then have "dq_decision q = QD_Quote \<longrightarrow> dq_price q \<noteq> None \<and> dq_size q \<noteq> None"
    using v by (metis desired_quoteD)
  then show ?thesis
    using spec by (auto simp: diff_spec_def priced_def placing_def split: quote_action.splits)
qed

end
