(* ===== verification/HE_Maker_Client.thy ===== *)
theory HE_Maker_Client
  imports HE_Shadow HE_Tracker HE_Action_Budget HE_Engine_Commands
begin

text \<open>
  The adapters between the market maker and the rest of the system (\<open>market_maker/adapters.rs\<close>): inventory
  and health from the account tracker, the action budget from the shared controller, quote slots from the
  open orders of the engine, and the client that turns a quote plan into engine calls.
\<close>

section \<open>Inventory, health and budget\<close>

definition ACCOUNT_FRESH_AFTER :: time_ns where "ACCOUNT_FRESH_AFTER = 30000000000"

definition updated_within :: "time_ns \<Rightarrow> tracker \<Rightarrow> time_ns \<Rightarrow> bool" where
  "updated_within limit t now = (case tr_last_update t of Some ts \<Rightarrow> ts \<le> now \<and> now - ts \<le> limit | None \<Rightarrow> False)"

definition tracker_is_fresh :: "tracker \<Rightarrow> time_ns \<Rightarrow> bool" where
  "tracker_is_fresh t now = updated_within ACCOUNT_FRESH_AFTER t now"

definition get_inventory :: "string \<Rightarrow> time_ns \<Rightarrow> tracker \<Rightarrow> inventory_snapshot" where
  "get_inventory mkt now t =
     \<lparr>iv_position_size = (case get_position mkt t of Some p \<Rightarrow> ps_size p | None \<Rightarrow> ZERO),
      iv_equity = current_equity t,
      iv_available_balance = (case tr_account t of Some a \<Rightarrow> ac_available_balance a | None \<Rightarrow> ZERO),
      iv_margin_used = (case tr_account t of Some a \<Rightarrow> ac_total_margin_used a | None \<Rightarrow> ZERO),
      iv_observed_at = (case tr_last_update t of Some ts \<Rightarrow> ts | None \<Rightarrow> now),
      iv_healthy = tracker_is_fresh t now\<rparr>"

definition allows_risk_increase :: "time_ns \<Rightarrow> tracker \<Rightarrow> time_ns \<Rightarrow> bool" where
  "allows_risk_increase fresh_after t now = updated_within fresh_after t now"

definition DEFAULT_ACTION_SHADOW_COST_USDC :: string where "DEFAULT_ACTION_SHADOW_COST_USDC = ''0.001''"

text \<open>\<open>try_lock\<close> on the shared controller: \<open>None\<close> when another task holds it. The outer \<open>None\<close> is a
  panic of the controller.\<close>

definition get_action_budget :: "time_ns \<Rightarrow> budget option \<Rightarrow> action_budget_snapshot option" where
  "get_action_budget now controller =
     (case controller of
        None \<Rightarrow> Some \<lparr>as_mode = ABM_CancelOnly, as_address_actions_remaining = 0, as_cancel_headroom = 0,
          as_ip_weight_remaining = 0, as_action_shadow_cost = ZERO, as_observed_at = now, as_healthy = False\<rparr>
      | Some b \<Rightarrow> do {
          view \<leftarrow> budget_snapshot now b;
          mode \<leftarrow> calculate_mode now b;
          Some \<lparr>as_mode = mode, as_address_actions_remaining = bv_address_remaining view,
            as_cancel_headroom = bv_cancel_headroom_remaining view,
            as_ip_weight_remaining = bv_ip_weight_remaining view,
            as_action_shadow_cost = dec_lit DEFAULT_ACTION_SHADOW_COST_USDC, as_observed_at = now,
            as_healthy = True\<rparr> })"

section \<open>Quote slots\<close>

text \<open>The owner of an order, if the order counts: it belongs to the strategy, has a price and is not filled.
  Plan revisions are not known to the engine and are 0.\<close>

definition slot_owner :: "string \<Rightarrow> time_ns \<Rightarrow> order \<Rightarrow> quote_risk_owner option" where
  "slot_owner strategy now o' =
     (if od_strategy_id o' \<noteq> Some strategy then None
      else case od_price o' of
        None \<Rightarrow> None
      | Some price \<Rightarrow>
          let remaining = od_size o' - od_filled_size o'
          in if remaining \<le> ZERO then None
             else Some \<lparr>ro_order_id = od_exchange_oid o', ro_cloid = od_cloid o', ro_price = price,
                    ro_remaining = remaining, ro_status = od_status o', ro_plan_revision = 0,
                    ro_live_since = (case od_acknowledged_at o' of Some ts \<Rightarrow> ts
                      | None \<Rightarrow> (case od_submitted_at o' of Some ts \<Rightarrow> ts | None \<Rightarrow> now)),
                    ro_exchange_id_known = (od_exchange_oid o' \<noteq> None)\<rparr>)"

definition side_owners :: "side \<Rightarrow> string \<Rightarrow> time_ns \<Rightarrow> order list \<Rightarrow> quote_risk_owner list" where
  "side_owners sd strategy now os = List.map_filter (slot_owner strategy now) (filter (\<lambda>o'. od_side o' = sd) os)"

definition live_view :: "string \<Rightarrow> string \<Rightarrow> side \<Rightarrow> quote_risk_owner list \<Rightarrow> quote_slot_view" where
  "live_view strategy mkt sd owners =
     \<lparr>sv_key = slot_key strategy mkt sd, sv_revision = 0, sv_plan_revision = 0, sv_owners = owners,
      sv_last_transition_at = None\<rparr>"

definition get_quote_slots :: "string \<Rightarrow> string \<Rightarrow> time_ns \<Rightarrow> order list \<Rightarrow> string + (quote_slot_view \<times> quote_slot_view)" where
  "get_quote_slots strategy mkt now os =
     (let bids = side_owners Buy strategy now os; asks = side_owners Sell strategy now os
      in if 1 < length bids \<or> 1 < length asks
         then Inl (''strategy '' @ strategy @ '' has multiple live orders on one quote side (bid='' @
           show_nat (int (length bids)) @ '', ask='' @ show_nat (int (length asks)) @ ''); reconciliation required'')
         else Inr (live_view strategy mkt Buy bids, live_view strategy mkt Sell asks))"

section \<open>Plans as engine calls\<close>

datatype quote_call = QC_Cancel string string | QC_Place order_intent

definition quote_intent :: "quote_diff \<Rightarrow> order_intent option" where
  "quote_intent d =
     (case (dq_price (qd_desired d), dq_size (qd_desired d)) of
        (Some price, Some sz) \<Rightarrow> Some
          \<lparr>oi_symbol = qk_symbol (dq_slot (qd_desired d)), oi_side = qk_side (dq_slot (qd_desired d)),
           oi_size = sz, oi_price = Some price, oi_order_type = OT_Limit, oi_tif = Alo,
           oi_strategy_id = Some (qk_strategy_id (dq_slot (qd_desired d))), oi_sub_account = None,
           oi_reduce_only = False, oi_cloid = None, oi_client_id = None, oi_is_spot = False,
           oi_risk_reducing = False, oi_max_slippage_bps = 50\<rparr>
      | _ \<Rightarrow> None)"

definition place_calls :: "quote_diff \<Rightarrow> quote_call list" where
  "place_calls d = (case quote_intent d of Some i \<Rightarrow> [QC_Place i] | None \<Rightarrow> [])"

definition cancel_calls :: "string \<Rightarrow> quote_diff \<Rightarrow> quote_call list" where
  "cancel_calls context d = (case qd_source d of Some own \<Rightarrow> [QC_Cancel (ro_cloid own) context] | None \<Rightarrow> [])"

definition diff_calls :: "quote_diff \<Rightarrow> quote_call list" where
  "diff_calls d = (case qd_action d of
     QA_Place \<Rightarrow> place_calls d
   | QA_Cancel \<Rightarrow> cancel_calls ''cancel quote'' d
   | QA_CancelThenPlace \<Rightarrow> cancel_calls ''cancel-then-place quote'' d @ place_calls d
   | _ \<Rightarrow> [])"

definition plan_calls :: "quote_plan \<Rightarrow> quote_call list" where
  "plan_calls p = concat (map diff_calls (qp_diffs p))"

definition strategy_cancels :: "string \<Rightarrow> order list \<Rightarrow> quote_call list" where
  "strategy_cancels strategy os =
     map (\<lambda>o'. QC_Cancel (od_cloid o') ''cancel strategy quote'') (filter (\<lambda>o'. od_strategy_id o' = Some strategy) os)"

text \<open>A call on the engine; its errors become text. What a cancel answers does not matter to the client.\<close>

definition st_map_error :: "('e \<Rightarrow> 'f) \<Rightarrow> ('s, 'e, 'a) st_op \<Rightarrow> ('s, 'f, 'a) st_op" where
  "st_map_error f m s = map_option (\<lambda>(s', r). (s', map_sum f id r)) (m s)"

record call_inputs =
  ki_submit :: submit_inputs
  ki_cancel :: cancel_inputs

definition engine_call :: "'s engine_config \<Rightarrow> call_inputs \<Rightarrow> quote_call \<Rightarrow> ('s engine, string, unit) st_op" where
  "engine_call cfg x call =
     (case call of
        QC_Cancel cloid context \<Rightarrow>
          st_map_error (\<lambda>e. context @ '': '' @ error_display e)
            (st_bind (cancel_order cfg (ki_cancel x) cloid) (\<lambda>_. st_return ()))
      | QC_Place i \<Rightarrow>
          st_map_error error_display (st_bind (submit_order cfg (ki_submit x) i None) (\<lambda>_. st_return ())))"

fun run_calls :: "'s engine_config \<Rightarrow> (nat \<Rightarrow> call_inputs) \<Rightarrow> nat \<Rightarrow> quote_call list \<Rightarrow> ('s engine, string, unit) st_op" where
  "run_calls cfg x n [] = st_return ()"
| "run_calls cfg x n (c # cs) = st_bind (engine_call cfg (x n) c) (\<lambda>_. run_calls cfg x (Suc n) cs)"

definition submit_quote_plan :: "'s engine_config \<Rightarrow> (nat \<Rightarrow> call_inputs) \<Rightarrow> quote_plan \<Rightarrow> ('s engine, string, unit) st_op" where
  "submit_quote_plan cfg x plan = run_calls cfg x 0 (plan_calls plan)"

definition cancel_strategy_quotes :: "'s engine_config \<Rightarrow> (nat \<Rightarrow> call_inputs) \<Rightarrow> string \<Rightarrow> string \<Rightarrow>
    ('s engine, string, unit) st_op" where
  "cancel_strategy_quotes cfg x strategy mkt =
     st_at (\<lambda>s. run_calls cfg x 0 (strategy_cancels strategy (open_orders (Some mkt) s)))"

section \<open>Facts\<close>

lemma is_call_simps:
  "QC_Place i \<in> set (strategy_cancels strategy os) \<longleftrightarrow> False"
  by (auto simp: strategy_cancels_def)

text \<open>Slots of the engine are the strategy's, hold at most one order and no orphan.\<close>

lemma get_quote_slots_views:
  assumes "get_quote_slots strategy mkt now os = Inr (bid, ask)"
  shows "bid = live_view strategy mkt Buy (side_owners Buy strategy now os)"
    and "ask = live_view strategy mkt Sell (side_owners Sell strategy now os)"
    and "length (sv_owners bid) \<le> 1" and "length (sv_owners ask) \<le> 1"
  using assms by (auto simp: get_quote_slots_def live_view_def Let_def split: if_splits)

lemma slot_owner_Some:
  "slot_owner strategy now o' = Some own \<Longrightarrow> ro_plan_revision own = 0 \<and> ro_status own = od_status o' \<and>
     ro_cloid own = od_cloid o' \<and> od_strategy_id o' = Some strategy"
  by (auto simp: slot_owner_def Let_def split: if_splits option.splits)

lemma side_owners_in:
  assumes "own \<in> set (side_owners sd strategy now os)"
  obtains o' where "o' \<in> set os" "od_side o' = sd" "slot_owner strategy now o' = Some own"
  using assms by (auto simp: side_owners_def List.map_filter_def)

lemma live_view_not_orphaned: "\<not> has_orphaned_owner (live_view strategy mkt sd (side_owners sd strategy now os))"
  by (auto simp: has_orphaned_owner_def list_ex_iff live_view_def elim!: side_owners_in dest: slot_owner_Some)

text \<open>Every order a plan places is a post-only limit order of the slot's strategy and side, with the price and
  size of the desired quote; a replacement is cancelled before its successor is placed.\<close>

lemma place_calls_Some:
  "QC_Place i \<in> set (place_calls d) \<Longrightarrow> oi_tif i = Alo \<and> oi_order_type i = OT_Limit \<and> oi_price i = dq_price (qd_desired d)
     \<and> Some (oi_size i) = dq_size (qd_desired d) \<and> oi_side i = qk_side (dq_slot (qd_desired d)) \<and> \<not> oi_reduce_only i"
  by (auto simp: place_calls_def quote_intent_def split: option.splits)

lemma cancel_calls_cancel: "QC_Place i \<notin> set (cancel_calls ctx d)"
  by (auto simp: cancel_calls_def split: option.splits)

lemma diff_calls_place:
  assumes "QC_Place i \<in> set (diff_calls d)"
  shows "placing d" and "QC_Place i \<in> set (place_calls d)"
  using assms by (auto simp: diff_calls_def placing_def cancel_calls_cancel split: quote_action.splits)

lemma plan_calls_place:
  "QC_Place i \<in> set (plan_calls p) \<Longrightarrow> \<exists>d \<in> set (qp_diffs p). placing d \<and> QC_Place i \<in> set (place_calls d)"
  by (auto simp: plan_calls_def dest: diff_calls_place)

lemma plan_calls_cancel:
  "d \<in> set (qp_diffs p) \<Longrightarrow> qd_action d = QA_Cancel \<Longrightarrow> qd_source d = Some own \<Longrightarrow>
   \<exists>ctx. QC_Cancel (ro_cloid own) ctx \<in> set (plan_calls p)"
  by (force simp: plan_calls_def diff_calls_def cancel_calls_def)

end
