(* ===== verification/HE_Traces.thy ===== *)
theory HE_Traces
  imports Main
begin

text \<open>
  Runs of a system that emits observations, and monitors of their traces: an automaton reads the trace, and
  an invariant that ties its state to the state of the system shows that no forbidden observation comes.
\<close>

fun run_acts :: "('a \<Rightarrow> 's \<Rightarrow> ('s \<times> 'o list) option) \<Rightarrow> 'a list \<Rightarrow> 's \<Rightarrow> ('s \<times> 'o list) option" where
  "run_acts step [] s = Some (s, [])"
| "run_acts step (a # acts) s =
     (case step a s of
        None \<Rightarrow> None
      | Some (s', os) \<Rightarrow> map_option (\<lambda>(s'', os'). (s'', os @ os')) (run_acts step acts s'))"

lemma run_acts_Cons:
  assumes "run_acts step (a # acts) s = Some (s'', os)"
  obtains s' os1 os2 where "step a s = Some (s', os1)" "run_acts step acts s' = Some (s'', os2)" "os = os1 @ os2"
  using assms by (auto split: option.splits)

fun safe_trace :: "('m \<Rightarrow> 'o \<Rightarrow> 'm) \<Rightarrow> ('m \<Rightarrow> 'o \<Rightarrow> bool) \<Rightarrow> 'm \<Rightarrow> 'o list \<Rightarrow> bool" where
  "safe_trace mon bad m [] = True"
| "safe_trace mon bad m (x # xs) = (\<not> bad m x \<and> safe_trace mon bad (mon m x) xs)"

lemma safe_trace_append [simp]:
  "safe_trace mon bad m (xs @ ys) \<longleftrightarrow> safe_trace mon bad m xs \<and> safe_trace mon bad (foldl mon m xs) ys"
  by (induction xs arbitrary: m) auto

text \<open>The outcome of a step, from a state of the monitor.\<close>

definition step_ok :: "('m \<Rightarrow> 'o \<Rightarrow> 'm) \<Rightarrow> ('m \<Rightarrow> 'o \<Rightarrow> bool) \<Rightarrow> ('m \<Rightarrow> 's \<Rightarrow> bool) \<Rightarrow> 'm \<Rightarrow> 's \<times> 'o list \<Rightarrow> bool" where
  "step_ok mon bad good m out \<longleftrightarrow> safe_trace mon bad m (snd out) \<and> good (foldl mon m (snd out)) (fst out)"

lemma step_ok_simps [simp]:
  "step_ok mon bad good m (s, []) \<longleftrightarrow> good m s"
  "step_ok mon bad good m (s, x # os) \<longleftrightarrow> \<not> bad m x \<and> step_ok mon bad good (mon m x) (s, os)"
  by (auto simp: step_ok_def)

lemma step_ok_cons [simp]:
  "step_ok mon bad good m (case out of (s, os) \<Rightarrow> (s, x # os)) \<longleftrightarrow> \<not> bad m x \<and> step_ok mon bad good (mon m x) out"
  by (cases out) simp

locale trace_monitor =
  fixes step :: "'a \<Rightarrow> 's \<Rightarrow> ('s \<times> 'o list) option"
    and mon :: "'m \<Rightarrow> 'o \<Rightarrow> 'm"
    and bad :: "'m \<Rightarrow> 'o \<Rightarrow> bool"
    and good :: "'m \<Rightarrow> 's \<Rightarrow> bool"
  assumes steps_ok: "good m s \<Longrightarrow> step a s = Some out \<Longrightarrow> step_ok mon bad good m out"
begin

lemma run_monitored:
  "good m s \<Longrightarrow> run_acts step acts s = Some (s', os) \<Longrightarrow> safe_trace mon bad m os \<and> good (foldl mon m os) s'"
proof (induction acts arbitrary: m s os)
  case (Cons a acts)
  from Cons.prems(2) obtain s1 os1 os2 where r: "step a s = Some (s1, os1)"
      "run_acts step acts s1 = Some (s', os2)" "os = os1 @ os2"
    by (rule run_acts_Cons)
  have ok: "safe_trace mon bad m os1" "good (foldl mon m os1) s1"
    using steps_ok [OF Cons.prems(1) r(1)] by (auto simp: step_ok_def)
  from Cons.IH [OF ok(2) r(2)] show ?case using ok(1) r(3) by simp
qed simp

lemma never_bad:
  assumes "good m s" "run_acts step acts s = Some (s', pre @ x # post)"
  shows "\<not> bad (foldl mon m pre) x"
  using run_monitored [OF assms] by simp

end

end
