(* ===== verification/HE_Maker_Runtime.thy ===== *)
theory HE_Maker_Runtime
  imports HE_Features HE_Maker_Client HE_Event_Bus HE_Traces
begin

text \<open>
  The market maker's runtime (\<open>market_maker/runtime.rs\<close>). Its event loop, its watchdog and the calls of the
  control plane are tasks that share the runtime behind asynchronous locks; a task is cut where it waits, so
  that a turn is what it does between two waits. The lock on the revision is held by a cycle from the quote
  to its end and by a protective cancel for all of its calls: a task holds it in the states \<open>MT_Decide\<close>,
  \<open>MT_Submit\<close> and \<open>MT_Cancel\<close>. Clocks, account health, inventory, budget, funding, the open orders of the
  engine and the answers of its calls are inputs of the turn that reads them. The feature engine is shared
  with other runtimes, under other symbols; the counters do not wrap.
\<close>

section \<open>State\<close>

record maker_params =
  rp_strategy_id :: string
  rp_session_id :: string
  rp_sub_account :: string
  rp_symbol :: string
  rp_coordinator :: coordinator_config
  rp_stale_after :: time_ns
  rp_ln :: "f64 \<Rightarrow> f64"
  rp_debug :: "quote_slot_key \<Rightarrow> string"
  rp_as_f64 :: "string \<Rightarrow> f64 option"

record maker_runtime =
  mm_mode :: market_maker_lifecycle
  mm_config :: "maker_config option"
  mm_book :: "l2_book_snapshot option"
  mm_revision :: int
  mm_last_cycle_at :: "time_ns option"
  mm_last_reason :: string
  mm_last_desired :: "desired_quote_set option"
  mm_last_plan :: "quote_plan option"
  mm_last_features :: "market_features option"
  mm_shadow :: shadow_orders
  mm_feature_engine :: feature_engine
  mm_latency :: latency_estimator
  mm_markout :: markout_estimator

definition maker_coordinator_config :: coordinator_config where
  "maker_coordinator_config = coordinator_config_default\<lparr>qc_min_quote_lifetime := 2000000000,
     qc_action_shadow_cost := dec_lit DEFAULT_ACTION_SHADOW_COST_USDC\<rparr>"

definition maker_runtime_new :: "string \<Rightarrow> time_ns \<Rightarrow> feature_engine \<Rightarrow> string + maker_runtime" where
  "maker_runtime_new session stale_after fe =
     (if session = [] then Inl ''session_id is required''
      else if stale_after \<le> 0 then Inl ''market_stale_after must be positive''
      else case (latency_estimator_new (dec_lit ''0.2'') (dec_lit ''0.1'') 5, markout_estimator_new 20 500 (dec_lit ''1'')) of
        (Inr le, Inr me) \<Rightarrow> Inr
          \<lparr>mm_mode = MML_Warming, mm_config = None, mm_book = None, mm_revision = 0, mm_last_cycle_at = None,
           mm_last_reason = ''not_started'', mm_last_desired = None, mm_last_plan = None, mm_last_features = None,
           mm_shadow = shadow_new, mm_feature_engine = fe, mm_latency = le, mm_markout = me\<rparr>
      | (Inl e, _) \<Rightarrow> Inl e | (_, Inl e) \<Rightarrow> Inl e)"

definition book_is_healthy :: "maker_params \<Rightarrow> l2_book_snapshot \<Rightarrow> time_ns \<Rightarrow> bool" where
  "book_is_healthy p book now =
     (case (first_level (sn_bids book), first_level (sn_asks book)) of
        (Some bid, Some ask) \<Rightarrow> lv_price bid < lv_price ask \<and> now - sn_local_ts book \<le> rp_stale_after p \<and> sn_local_ts book \<le> now
      | _ \<Rightarrow> False)"

definition matches_order :: "maker_params \<Rightarrow> order \<Rightarrow> bool" where
  "matches_order p o' \<longleftrightarrow> od_symbol o' = rp_symbol p \<and> od_strategy_id o' \<in> {None, Some (rp_strategy_id p)} \<and>
     od_sub_account o' \<in> {None, Some (rp_sub_account p)}"

definition matches_position :: "maker_params \<Rightarrow> position \<Rightarrow> bool" where
  "matches_position p q \<longleftrightarrow> ps_symbol q = rp_symbol p \<and> ps_strategy_id q \<in> {None, Some (rp_strategy_id p)} \<and>
     ps_sub_account q \<in> {None, Some (rp_sub_account p)}"

definition as_no_quote :: "desired_quote_set \<Rightarrow> string \<Rightarrow> desired_quote_set" where
  "as_no_quote s reason =
     s\<lparr>ds_bid := (ds_bid s)\<lparr>dq_decision := QD_NoQuote, dq_price := None, dq_size := None, dq_reason := reason\<rparr>,
       ds_ask := (ds_ask s)\<lparr>dq_decision := QD_NoQuote, dq_price := None, dq_size := None, dq_reason := reason\<rparr>\<rparr>"

section \<open>The parts of a cycle\<close>

record turn_inputs =
  ti_now :: time_ns
  ti_account_ok :: bool
  ti_funding :: "f64 option"
  ti_inventory :: inventory_snapshot
  ti_budget :: action_budget_snapshot
  ti_decision_at :: time_ns
  ti_open :: "order list"
  ti_result :: "string + unit"

record prepared =
  pc_config :: maker_config
  pc_now :: time_ns
  pc_features :: market_features
  pc_inventory :: inventory_snapshot
  pc_budget :: action_budget_snapshot

datatype prep = PP_Wait | PP_Invalid | PP_Ready prepared

definition or_zero :: "'e + decimal \<Rightarrow> decimal" where
  "or_zero r = (case r of Inr d \<Rightarrow> d | Inl _ \<Rightarrow> ZERO)"

definition build_input_of :: "maker_params \<Rightarrow> turn_inputs \<Rightarrow> maker_config \<Rightarrow> l2_book_snapshot \<Rightarrow> latency_estimator \<Rightarrow>
    markout_estimator \<Rightarrow> build_input" where
  "build_input_of p x c book le me =
     (let markout = (case markout_estimate_of (rp_strategy_id p) (rp_symbol p) (Some (mc_min_markout_samples c))
            (Some (mc_conservative_markout_bps c)) me of
              Inr m \<Rightarrow> m
            | Inl _ \<Rightarrow> \<lparr>me_adverse_bps = mc_conservative_markout_bps c, me_quality = ''conservative_default'', me_sample_count = 0\<rparr>)
      in \<lparr>bi_healthy = (book_is_healthy p book (ti_now x) \<and> ti_account_ok x),
          bi_funding_rate = (case ti_funding x of Some r \<Rightarrow> or_zero (from_f64 r) | None \<Rightarrow> ZERO),
          bi_adverse_markout_bps = me_adverse_bps markout, bi_latency_seconds = Some (latency_seconds le),
          bi_latency_quality = latency_quality le, bi_markout_quality = me_quality markout, bi_external = None,
          bi_config = Some c, bi_decision_at = ti_now x\<rparr>)"

definition prepare :: "maker_params \<Rightarrow> turn_inputs \<Rightarrow> maker_runtime \<Rightarrow> (maker_runtime \<times> prep) option" where
  "prepare p x s =
     (case (mm_config s, mm_book s) of
        (Some c, Some book) \<Rightarrow>
          let receipt = f64_div (f64_of_int (max (num_milliseconds (ti_now x - sn_local_ts book)) 0)) (F64_Fin 1000);
              le = latency_observe (or_zero (from_f64 receipt)) (mm_latency s)
          in (case build_features (rp_ln p) book (build_input_of p x c book le (mm_markout s)) (mm_feature_engine s) of
                None \<Rightarrow> None
              | Some (fe, r) \<Rightarrow>
                  Some (s\<lparr>mm_latency := le, mm_feature_engine := fe\<rparr>,
                    case r of
                      Inl _ \<Rightarrow> PP_Invalid
                    | Inr f \<Rightarrow> PP_Ready \<lparr>pc_config = c, pc_now = ti_now x, pc_features = f,
                        pc_inventory = ti_inventory x, pc_budget = ti_budget x\<rparr>))
      | _ \<Rightarrow> Some (s\<lparr>mm_last_reason := ''waiting_for_config_or_book''\<rparr>, PP_Wait))"

definition maker_views :: "maker_params \<Rightarrow> turn_inputs \<Rightarrow> maker_runtime \<Rightarrow>
    maker_runtime \<times> (string + (quote_slot_view \<times> quote_slot_view))" where
  "maker_views p x s =
     (if mm_mode s = MML_Shadow then
        let (sh, bid, ask) = shadow_views (rp_strategy_id p) (rp_symbol p) (mm_shadow s)
        in (s\<lparr>mm_shadow := sh\<rparr>, Inr (bid, ask))
      else (s, get_quote_slots (rp_strategy_id p) (rp_symbol p) (ti_now x) (ti_open x)))"

definition desired_for_mode :: "market_maker_lifecycle \<Rightarrow> desired_quote_set \<Rightarrow> desired_quote_set" where
  "desired_for_mode m q = (if m \<in> {MML_Running, MML_Shadow} then q
     else as_no_quote q (''lifecycle_'' @ market_maker_lifecycle_as_str m))"

definition must_submit :: "quote_plan \<Rightarrow> bool" where
  "must_submit plan \<longleftrightarrow> list_ex (\<lambda>d. 0 < diff_incremental_actions d) (qp_diffs plan) \<and>
     (\<not> qp_fenced plan \<or> list_ex (\<lambda>d. qd_action d = QA_Cancel) (qp_diffs plan))"

definition record_cycle :: "string \<Rightarrow> prepared \<Rightarrow> desired_quote_set \<Rightarrow> quote_plan \<Rightarrow> maker_runtime \<Rightarrow> maker_runtime" where
  "record_cycle reason pc desired plan s =
     s\<lparr>mm_last_cycle_at := Some (pc_now pc),
       mm_last_reason := (if qp_fenced plan then (case qp_fence_reason plan of Some r \<Rightarrow> r | None \<Rightarrow> reason) else reason),
       mm_last_desired := Some desired, mm_last_plan := Some plan, mm_last_features := Some (pc_features pc)\<rparr>"

section \<open>Tasks\<close>

datatype origin = OG_Loop | OG_Watchdog | OG_Control | OG_Stop

datatype after = AF_Return | AF_Cycle string

datatype maker_task =
    MT_Mode market_maker_lifecycle
  | MT_Cycle string
  | MT_Views string prepared
  | MT_Lock string prepared quote_slot_view quote_slot_view
  | MT_Decide string prepared quote_slot_view quote_slot_view desired_quote_set
  | MT_Submit string prepared desired_quote_set quote_plan "quote_call list"
  | MT_Cancel_Wait string after
  | MT_Cancel string after "quote_call list"

fun holds_lock :: "maker_task \<Rightarrow> bool" where
  "holds_lock (MT_Decide _ _ _ _ _) = True"
| "holds_lock (MT_Submit _ _ _ _ _) = True"
| "holds_lock (MT_Cancel _ _ _) = True"
| "holds_lock _ = False"

text \<open>\<open>te_pending\<close> is the result of the protective cancel of \<open>set_mode\<close>, returned after its cycle whatever
  that cycle says.\<close>

record task_entry =
  te_origin :: origin
  te_pending :: "(string + unit) option"
  te_task :: maker_task

record maker_system =
  sy_runtime :: maker_runtime
  sy_tasks :: "(nat \<times> task_entry) list"
  sy_next :: nat
  sy_running :: bool
  sy_loop :: bool

datatype maker_obs =
    MO_Mode nat market_maker_lifecycle
  | MO_Call nat quote_call
  | MO_Cancelled nat "string + unit"
  | MO_Return nat "string + unit"
  | MO_Panic nat

definition lock_held :: "maker_system \<Rightarrow> bool" where
  "lock_held sys \<longleftrightarrow> list_ex (\<lambda>(_, e). holds_lock (te_task e)) (sy_tasks sys)"

definition goto :: "nat \<Rightarrow> task_entry \<Rightarrow> maker_task \<Rightarrow> maker_system \<Rightarrow> maker_system" where
  "goto t e task sys = sys\<lparr>sy_tasks := AList.update t (e\<lparr>te_task := task\<rparr>) (sy_tasks sys)\<rparr>"

definition set_runtime :: "maker_runtime \<Rightarrow> maker_system \<Rightarrow> maker_system" where
  "set_runtime s sys = sys\<lparr>sy_runtime := s\<rparr>"

text \<open>The end of a task: the loop and the watchdog turn an error into the last reason and go on; a stop
  that succeeds ends the loop.\<close>

definition finish :: "nat \<Rightarrow> task_entry \<Rightarrow> string + unit \<Rightarrow> maker_system \<Rightarrow> maker_system \<times> maker_obs list" where
  "finish t e r sys =
     (let final = (case te_pending e of Some r0 \<Rightarrow> r0 | None \<Rightarrow> r);
          s = sy_runtime sys;
          s' = (case (te_origin e, final) of
             (OG_Loop, Inl msg) \<Rightarrow> s\<lparr>mm_last_reason := ''cycle_error: '' @ msg\<rparr>
           | (OG_Watchdog, Inl msg) \<Rightarrow> s\<lparr>mm_last_reason := ''watchdog_cycle_error: '' @ msg\<rparr>
           | _ \<Rightarrow> s);
          stopped = (te_origin e = OG_Stop \<and> final = Inr ())
      in (sys\<lparr>sy_runtime := s', sy_tasks := AList.delete t (sy_tasks sys),
            sy_running := (sy_running sys \<and> \<not> stopped), sy_loop := (sy_loop sys \<and> \<not> stopped)\<rparr>, [MO_Return t final]))"

text \<open>A panic in the loop ends it for good: \<open>running\<close> stays set, so \<open>start\<close> does not spawn another.\<close>

definition panics :: "nat \<Rightarrow> task_entry \<Rightarrow> maker_system \<Rightarrow> maker_system \<times> maker_obs list" where
  "panics t e sys = (sys\<lparr>sy_tasks := AList.delete t (sy_tasks sys),
     sy_loop := (sy_loop sys \<and> te_origin e \<notin> {OG_Loop, OG_Watchdog})\<rparr>, [MO_Panic t])"

definition cancel_done :: "nat \<Rightarrow> task_entry \<Rightarrow> after \<Rightarrow> string + unit \<Rightarrow> maker_system \<Rightarrow> maker_system \<times> maker_obs list" where
  "cancel_done t e af r sys =
     (case af of
        AF_Return \<Rightarrow> (let (sys', os) = finish t e r sys in (sys', MO_Cancelled t r # os))
      | AF_Cycle reason \<Rightarrow> (goto t (e\<lparr>te_pending := Some r\<rparr>) (MT_Cycle reason) sys, [MO_Cancelled t r]))"

definition cancel_modes :: "market_maker_lifecycle list" where
  "cancel_modes = [MML_Paused, MML_Draining, MML_Faulted, MML_Stopped]"

definition mode_turn :: "nat \<Rightarrow> task_entry \<Rightarrow> market_maker_lifecycle \<Rightarrow> maker_system \<Rightarrow> maker_system \<times> maker_obs list" where
  "mode_turn t e m sys =
     (let previous = mm_mode (sy_runtime sys);
          sys1 = set_runtime ((sy_runtime sys)\<lparr>mm_mode := m\<rparr>) sys;
          reason = ''lifecycle_'' @ market_maker_lifecycle_as_str m
      in if m \<in> set cancel_modes then (goto t e (MT_Cancel_Wait reason (AF_Cycle reason)) sys1, [MO_Mode t m])
         else if m = MML_Shadow \<and> previous = MML_Running
         then (goto t e (MT_Cancel_Wait ''lifecycle_shadow'' AF_Return) sys1, [MO_Mode t m])
         else if m \<in> {MML_Shadow, MML_Running} then (goto t e (MT_Cycle ''lifecycle_change'') sys1, [MO_Mode t m])
         else let (sys2, os) = finish t e (Inr ()) sys1 in (sys2, MO_Mode t m # os))"

definition prepare_turn :: "maker_params \<Rightarrow> turn_inputs \<Rightarrow> nat \<Rightarrow> task_entry \<Rightarrow> string \<Rightarrow> maker_system \<Rightarrow>
    maker_system \<times> maker_obs list" where
  "prepare_turn p x t e reason sys =
     (case prepare p x (sy_runtime sys) of
        None \<Rightarrow> panics t e sys
      | Some (s, PP_Wait) \<Rightarrow> finish t e (Inr ()) (set_runtime s sys)
      | Some (s, PP_Invalid) \<Rightarrow> (goto t e (MT_Cancel_Wait ''invalid_market_snapshot'' AF_Return) (set_runtime s sys), [])
      | Some (s, PP_Ready pc) \<Rightarrow> (goto t e (MT_Views reason pc) (set_runtime s sys), []))"

definition views_turn :: "maker_params \<Rightarrow> turn_inputs \<Rightarrow> nat \<Rightarrow> task_entry \<Rightarrow> string \<Rightarrow> prepared \<Rightarrow> maker_system \<Rightarrow>
    maker_system \<times> maker_obs list" where
  "views_turn p x t e reason pc sys =
     (case maker_views p x (sy_runtime sys) of
        (s, Inl msg) \<Rightarrow> finish t e (Inl msg) (set_runtime s sys)
      | (s, Inr (bid, ask)) \<Rightarrow> (goto t e (MT_Lock reason pc bid ask) (set_runtime s sys), []))"

definition lock_turn :: "maker_params \<Rightarrow> turn_inputs \<Rightarrow> nat \<Rightarrow> task_entry \<Rightarrow> string \<Rightarrow> prepared \<Rightarrow> quote_slot_view \<Rightarrow>
    quote_slot_view \<Rightarrow> maker_system \<Rightarrow> maker_system \<times> maker_obs list" where
  "lock_turn p x t e reason pc bid ask sys =
     (let revision = mm_revision (sy_runtime sys) + 1;
          sys1 = set_runtime ((sy_runtime sys)\<lparr>mm_revision := revision\<rparr>) sys
      in case policy_quote (rp_strategy_id p) (rp_session_id p) revision (max (sv_revision bid) (sv_revision ask))
             (pc_features pc) (pc_inventory pc) (pc_budget pc) (pc_config pc) (ti_decision_at x) of
           None \<Rightarrow> panics t e sys1
         | Some (Inl msg) \<Rightarrow> finish t e (Inl msg) sys1
         | Some (Inr q) \<Rightarrow> (goto t e (MT_Decide reason pc bid ask q) sys1, []))"

definition conclude :: "nat \<Rightarrow> task_entry \<Rightarrow> string \<Rightarrow> prepared \<Rightarrow> desired_quote_set \<Rightarrow> quote_plan \<Rightarrow> maker_system \<Rightarrow>
    maker_system \<times> maker_obs list" where
  "conclude t e reason pc desired plan sys =
     finish t e (Inr ()) (set_runtime (record_cycle reason pc desired plan (sy_runtime sys)) sys)"

definition decide_turn :: "maker_params \<Rightarrow> nat \<Rightarrow> task_entry \<Rightarrow> string \<Rightarrow> prepared \<Rightarrow> quote_slot_view \<Rightarrow> quote_slot_view \<Rightarrow>
    desired_quote_set \<Rightarrow> maker_system \<Rightarrow> maker_system \<times> maker_obs list" where
  "decide_turn p t e reason pc bid ask q sys =
     (let m = mm_mode (sy_runtime sys); desired = desired_for_mode m q
      in case coordinate (rp_coordinator p) desired bid ask (mc_tick_size (pc_config pc)) (pc_now pc) of
           None \<Rightarrow> panics t e sys
         | Some (Inl msg) \<Rightarrow> finish t e (Inl msg) sys
         | Some (Inr plan) \<Rightarrow>
             if m = MML_Shadow then
               (case shadow_apply plan (pc_now pc) (mm_shadow (sy_runtime sys)) of
                  None \<Rightarrow> panics t e sys
                | Some (sh, r) \<Rightarrow>
                    let sys1 = set_runtime ((sy_runtime sys)\<lparr>mm_shadow := sh\<rparr>) sys
                    in (case r of Inl msg \<Rightarrow> finish t e (Inl msg) sys1 | Inr _ \<Rightarrow> conclude t e reason pc desired plan sys1))
             else if m = MML_Running \<and> must_submit plan
             then (goto t e (MT_Submit reason pc desired plan (plan_calls plan)) sys, [])
             else conclude t e reason pc desired plan sys)"

text \<open>One turn of a task; \<open>None\<close> while it waits for the lock.\<close>

definition maker_turn :: "maker_params \<Rightarrow> turn_inputs \<Rightarrow> nat \<Rightarrow> maker_system \<Rightarrow> (maker_system \<times> maker_obs list) option" where
  "maker_turn p x t sys =
     (case map_of (sy_tasks sys) t of
        None \<Rightarrow> None
      | Some e \<Rightarrow>
          (case te_task e of
             MT_Mode m \<Rightarrow> Some (mode_turn t e m sys)
           | MT_Cycle reason \<Rightarrow> Some (prepare_turn p x t e reason sys)
           | MT_Views reason pc \<Rightarrow> Some (views_turn p x t e reason pc sys)
           | MT_Lock reason pc bid ask \<Rightarrow>
               if lock_held sys then None else Some (lock_turn p x t e reason pc bid ask sys)
           | MT_Decide reason pc bid ask q \<Rightarrow> Some (decide_turn p t e reason pc bid ask q sys)
           | MT_Submit reason pc desired plan [] \<Rightarrow> Some (conclude t e reason pc desired plan sys)
           | MT_Submit reason pc desired plan (c # cs) \<Rightarrow>
               Some (case ti_result x of
                 Inr _ \<Rightarrow> (goto t e (MT_Submit reason pc desired plan cs) sys, [MO_Call t c])
               | Inl msg \<Rightarrow> (let (sys', os) = finish t e (Inl msg) sys in (sys', MO_Call t c # os)))
           | MT_Cancel_Wait reason af \<Rightarrow>
               if lock_held sys then None
               else Some (goto t e (MT_Cancel reason af (strategy_cancels (rp_strategy_id p) (ti_open x)))
                 (set_runtime ((sy_runtime sys)\<lparr>mm_revision := mm_revision (sy_runtime sys) + 1\<rparr>) sys), [])
           | MT_Cancel reason af [] \<Rightarrow>
               Some (cancel_done t e af (Inr ()) (set_runtime ((sy_runtime sys)\<lparr>mm_last_reason := reason\<rparr>) sys))
           | MT_Cancel reason af (c # cs) \<Rightarrow>
               Some (case ti_result x of
                 Inr _ \<Rightarrow> (goto t e (MT_Cancel reason af cs) sys, [MO_Call t c])
               | Inl msg \<Rightarrow> (let (sys', os) = cancel_done t e af (Inl msg) sys in (sys', MO_Call t c # os)))))"

section \<open>Events and requests\<close>

datatype maker_event =
    ME_Book l2_book_snapshot | ME_Trade trade | ME_Fill order | ME_Position position
  | ME_Markout markout_sample | ME_Other event_type

definition stale_book :: "l2_book_snapshot \<Rightarrow> l2_book_snapshot \<Rightarrow> bool" where
  "stale_book prev book \<longleftrightarrow> sn_generation book < sn_generation prev \<or>
     sn_generation book = sn_generation prev \<and> sn_version book \<le> sn_version prev"

definition handle_maker_event :: "maker_params \<Rightarrow> time_ns \<Rightarrow> maker_event \<Rightarrow> maker_runtime \<Rightarrow> maker_runtime \<times> string option" where
  "handle_maker_event p now ev s =
     (case ev of
        ME_Book book \<Rightarrow>
          if sn_symbol book \<noteq> rp_symbol p then (s, None)
          else if (case mm_book s of Some prev \<Rightarrow> stale_book prev book | None \<Rightarrow> False)
          then (s\<lparr>mm_last_reason := ''stale_market_event_fenced''\<rparr>, None)
          else (s\<lparr>mm_book := Some book\<rparr>, Some ''book_update'')
      | ME_Trade tr \<Rightarrow>
          if td_symbol tr = rp_symbol p
          then (s\<lparr>mm_feature_engine := observe_trade tr (mm_feature_engine s)\<rparr>, Some ''trade_update'') else (s, None)
      | ME_Fill o' \<Rightarrow>
          if matches_order p o' then
            (if mm_mode s = MML_Shadow
             then s\<lparr>mm_shadow := fst (simulate_fill_by_cloid (rp_debug p) (od_cloid o') (od_filled_size o') (mm_shadow s))\<rparr>
             else s, Some ''fill_update'')
          else (s, None)
      | ME_Position q \<Rightarrow> (s, if matches_position p q then Some ''position_update'' else None)
      | ME_Markout m \<Rightarrow>
          (if ms_strategy_id m = rp_strategy_id p \<and> ms_symbol m = rp_symbol p
           then s\<lparr>mm_markout := fst (markout_observe m now (mm_markout s))\<rparr> else s, Some ''markout_update'')
      | ME_Other et \<Rightarrow> (s, Some (to_lowercase (event_type_as_str et))))"

text \<open>\<open>recv_first\<close>: what is queued already, reliable facts first; \<open>None\<close> when every mailbox is empty and it
  waits for any of them.\<close>

definition recv_first :: "'a mailbox \<Rightarrow> 'a mailbox \<Rightarrow> 'a mailbox \<Rightarrow> 'a mailbox \<Rightarrow>
    ('a mailbox \<times> 'a mailbox \<times> 'a mailbox \<times> 'a mailbox) \<times> 'a option" where
  "recv_first market trades reliable markout =
     (case try_recv reliable of
        (reliable', Some ev) \<Rightarrow> ((market, trades, reliable', markout), Some ev)
      | (reliable', None) \<Rightarrow>
     (case try_recv market of
        (market', Some ev) \<Rightarrow> ((market', trades, reliable', markout), Some ev)
      | (market', None) \<Rightarrow>
     (case try_recv trades of
        (trades', Some ev) \<Rightarrow> ((market', trades', reliable', markout), Some ev)
      | (trades', None) \<Rightarrow>
     (case try_recv markout of
        (markout', ev) \<Rightarrow> ((market', trades', reliable', markout'), ev)))))"

record config_snapshot =
  cv_strategy_id :: string
  cv_revision :: int
  cv_values :: json

definition config_decimal :: "(string \<Rightarrow> f64 option) \<Rightarrow> json \<Rightarrow> string \<Rightarrow> string \<Rightarrow> string + decimal" where
  "config_decimal as_f64 v k fallback =
     (case json_get k v of
        Some (JStr s) \<Rightarrow> (case from_str_lenient s of Inr d \<Rightarrow> Inr d | Inl _ \<Rightarrow> Inl (''invalid decimal for '' @ k))
      | Some (JNum n) \<Rightarrow> (case as_f64 n of
            None \<Rightarrow> Inl (''invalid number for '' @ k)
          | Some f \<Rightarrow> (case from_f64 f of Inr d \<Rightarrow> Inr d | Inl _ \<Rightarrow> Inl (''invalid decimal for '' @ k)))
      | Some _ \<Rightarrow> Inl (''unexpected type for '' @ k)
      | None \<Rightarrow> Inr (or_zero (from_str_lenient fallback)))"

text \<open>The fields in the order they are read, with their fallbacks.\<close>

definition maker_fields :: "(string \<times> string \<times> (decimal \<Rightarrow> maker_config \<Rightarrow> maker_config)) list" where
  "maker_fields =
     [(''soft_inventory_notional'', ''100'', \<lambda>d. mc_soft_inventory_update (\<lambda>_. d)),
      (''hard_inventory_notional'', ''150'', \<lambda>d. mc_hard_inventory_update (\<lambda>_. d)),
      (''emergency_inventory_notional'', ''200'', \<lambda>d. mc_emergency_inventory_update (\<lambda>_. d)),
      (''quote_size'', ''0.001'', \<lambda>d. mc_quote_size_update (\<lambda>_. d)),
      (''max_quote_lifetime_seconds'', ''10'', \<lambda>d. mc_max_quote_lifetime_seconds_update (\<lambda>_. d)),
      (''horizon_seconds'', ''5'', \<lambda>d. mc_horizon_seconds_update (\<lambda>_. d)),
      (''inventory_skew_bps'', ''5'', \<lambda>d. mc_inventory_skew_bps_update (\<lambda>_. d)),
      (''inventory_gamma_bps'', ''1'', \<lambda>d. mc_inventory_gamma_bps_update (\<lambda>_. d)),
      (''max_inventory_shift_bps'', ''20'', \<lambda>d. mc_max_inventory_shift_bps_update (\<lambda>_. d)),
      (''min_half_spread_bps'', ''1'', \<lambda>d. mc_min_half_spread_bps_update (\<lambda>_. d)),
      (''toxicity_spread_bps'', ''10'', \<lambda>d. mc_toxicity_spread_bps_update (\<lambda>_. d)),
      (''max_depth_participation'', ''0.05'', \<lambda>d. mc_max_depth_participation_update (\<lambda>_. d)),
      (''signed_maker_fee_rate'', ''-0.0002'', \<lambda>d. mc_signed_maker_fee_rate_update (\<lambda>_. d)),
      (''expected_fill_probability'', ''0.10'', \<lambda>d. mc_expected_fill_probability_update (\<lambda>_. d)),
      (''min_expected_pnl_usdc'', ''0'', \<lambda>d. mc_min_expected_pnl_update (\<lambda>_. d))]"

fun decode_fields :: "(string \<Rightarrow> f64 option) \<Rightarrow> json \<Rightarrow> (string \<times> string \<times> (decimal \<Rightarrow> maker_config \<Rightarrow> maker_config)) list \<Rightarrow>
    maker_config \<Rightarrow> string + maker_config" where
  "decode_fields as_f64 v [] c = Inr c"
| "decode_fields as_f64 v ((k, fallback, put) # fs) c =
     (case config_decimal as_f64 v k fallback of
        Inl e \<Rightarrow> Inl e
      | Inr d \<Rightarrow> decode_fields as_f64 v fs (put d c))"

definition decode_maker_config :: "(string \<Rightarrow> f64 option) \<Rightarrow> config_snapshot \<Rightarrow> (string + maker_config) option" where
  "decode_maker_config as_f64 cfg =
     (case decode_fields as_f64 (cv_values cfg) maker_fields
             (maker_config_default_with (cv_revision cfg) (dec_lit ''0.1'') (dec_lit ''0.001'') (dec_lit ''0.001'')) of
        Inl e \<Rightarrow> Some (Inl e)
      | Inr c \<Rightarrow> res_bind (maker_config_validate c) (\<lambda>_. Some (Inr c)))"

definition admit_config :: "maker_params \<Rightarrow> config_snapshot \<Rightarrow> (string + maker_config) option" where
  "admit_config p cfg =
     (if cv_strategy_id cfg \<noteq> rp_strategy_id p then Some (Inl ''configuration belongs to another strategy'')
      else res_bind (decode_maker_config (rp_as_f64 p) cfg) (\<lambda>c.
           res_bind (maker_config_validate c) (\<lambda>_.
             if mc_version c \<noteq> cv_revision cfg
             then Some (Inl ''decoded configuration version does not match registry revision'')
             else Some (Inr c))))"

text \<open>What the outside does: the loop takes an event or its watchdog fires while it is idle, the control
  plane calls the handle, and tasks take their turns in any order.\<close>

datatype maker_act =
    MA_Start
  | MA_Event maker_event time_ns
  | MA_Watchdog
  | MA_Set_Mode market_maker_lifecycle
  | MA_Apply_Config config_snapshot
  | MA_Stop
  | MA_Turn nat turn_inputs

definition spawn :: "origin \<Rightarrow> maker_task \<Rightarrow> maker_system \<Rightarrow> maker_system" where
  "spawn og task sys = sys\<lparr>sy_next := Suc (sy_next sys),
     sy_tasks := sy_tasks sys @ [(sy_next sys, \<lparr>te_origin = og, te_pending = None, te_task = task\<rparr>)]\<rparr>"

definition loop_idle :: "maker_system \<Rightarrow> bool" where
  "loop_idle sys \<longleftrightarrow> sy_loop sys \<and> \<not> list_ex (\<lambda>(_, e). te_origin e \<in> {OG_Loop, OG_Watchdog}) (sy_tasks sys)"

definition maker_step :: "maker_params \<Rightarrow> maker_act \<Rightarrow> maker_system \<Rightarrow> (maker_system \<times> maker_obs list) option" where
  "maker_step p act sys =
     (case act of
        MA_Start \<Rightarrow>
          if sy_running sys then Some (sys, [])
          else Some ((set_runtime ((sy_runtime sys)\<lparr>mm_last_reason := ''warming''\<rparr>) sys)\<lparr>sy_running := True, sy_loop := True\<rparr>, [])
      | MA_Event ev now \<Rightarrow>
          if loop_idle sys then
            (case handle_maker_event p now ev (sy_runtime sys) of
               (s, None) \<Rightarrow> Some (set_runtime s sys, [])
             | (s, Some reason) \<Rightarrow> Some (spawn OG_Loop (MT_Cycle reason) (set_runtime s sys), []))
          else None
      | MA_Watchdog \<Rightarrow> if loop_idle sys then Some (spawn OG_Watchdog (MT_Cycle ''watchdog_tick'') sys, []) else None
      | MA_Set_Mode m \<Rightarrow> Some (spawn OG_Control (MT_Mode m) sys, [])
      | MA_Apply_Config cfg \<Rightarrow>
          (case admit_config p cfg of
             Some (Inr c) \<Rightarrow> Some (spawn OG_Control (MT_Cycle ''config_applied'')
               (set_runtime ((sy_runtime sys)\<lparr>mm_config := Some c\<rparr>) sys), [])
           | _ \<Rightarrow> Some (sys, []))
      | MA_Stop \<Rightarrow> Some (spawn OG_Stop (MT_Mode MML_Stopped) sys, [])
      | MA_Turn k x \<Rightarrow> maker_turn p x k sys)"

definition maker_run :: "maker_params \<Rightarrow> maker_act list \<Rightarrow> maker_system \<Rightarrow> (maker_system \<times> maker_obs list) option" where
  "maker_run p = run_acts (maker_step p)"

end
