(* ===== verification/HE_Maker_Safety.thy ===== *)
theory HE_Maker_Safety
  imports HE_Maker_Runtime
begin

text \<open>
  What the market maker's runtime guarantees however its tasks interleave: after a protective cancel nothing
  is placed until it is set running again, shadow mode never trades, and a blind maker withdraws.
\<close>

section \<open>The state between turns\<close>

abbreviation tasks_of :: "maker_system \<Rightarrow> nat \<Rightarrow> task_entry option" where
  "tasks_of sys \<equiv> map_of (sy_tasks sys)"

fun pending_calls :: "maker_task \<Rightarrow> quote_call list" where
  "pending_calls (MT_Submit _ _ _ _ cs) = cs"
| "pending_calls (MT_Cancel _ _ cs) = cs"
| "pending_calls _ = []"

definition places :: "quote_call list \<Rightarrow> bool" where
  "places cs \<longleftrightarrow> (\<exists>i. QC_Place i \<in> set cs)"

lemma places_simps [simp]: "\<not> places []" "places (QC_Place i # cs)" "places (QC_Cancel x y # cs) = places cs"
  by (auto simp: places_def)

lemma strategy_cancels_places [simp]: "\<not> places (strategy_cancels st os)"
  by (simp add: places_def is_call_simps)

text \<open>Only a submission places; a protective cancel does not.\<close>

fun task_ok :: "maker_task \<Rightarrow> bool" where
  "task_ok (MT_Cancel _ _ cs) = (\<not> places cs)"
| "task_ok _ = True"

definition tasks_wf :: "maker_system \<Rightarrow> bool" where
  "tasks_wf sys \<longleftrightarrow> distinct (map fst (sy_tasks sys)) \<and>
     (\<forall>k e. tasks_of sys k = Some e \<longrightarrow> k < sy_next sys \<and> task_ok (te_task e)) \<and>
     (\<forall>k l e f. tasks_of sys k = Some e \<and> tasks_of sys l = Some f \<and> holds_lock (te_task e) \<and> holds_lock (te_task f)
        \<longrightarrow> k = l)"

lemma tasks_wfD: "tasks_wf sys \<Longrightarrow> tasks_of sys k = Some e \<Longrightarrow> task_ok (te_task e) \<and> k < sy_next sys"
  unfolding tasks_wf_def by blast

lemma lock_held_iff: "distinct (map fst (sy_tasks sys)) \<Longrightarrow>
   lock_held sys \<longleftrightarrow> (\<exists>k e. tasks_of sys k = Some e \<and> holds_lock (te_task e))"
  by (force simp: lock_held_def list_ex_iff)

text \<open>How a turn changes the tasks: its own entry only.\<close>

definition moves :: "nat \<Rightarrow> task_entry option \<Rightarrow> maker_system \<Rightarrow> maker_system \<Rightarrow> bool" where
  "moves t nx sys sys' \<longleftrightarrow> tasks_of sys' = (tasks_of sys)(t := nx) \<and> sy_next sys' = sy_next sys \<and>
     (distinct (map fst (sy_tasks sys)) \<longrightarrow> distinct (map fst (sy_tasks sys')))"

lemma moves_goto [simp]: "moves t (Some (e\<lparr>te_task := k\<rparr>)) sys (goto t e k sys)"
  by (simp add: moves_def goto_def update_conv' distinct_update)

lemma moves_set_runtime [simp]: "moves t nx (set_runtime s sys) sys' = moves t nx sys sys'"
  by (simp add: moves_def set_runtime_def)

lemma finish_Pair:
  "finish t e r sys = (fst (finish t e r sys), [MO_Return t (case te_pending e of Some r0 \<Rightarrow> r0 | None \<Rightarrow> r)])"
  by (simp add: finish_def Let_def)

lemma moves_finish [simp]: "moves t None sys (fst (finish t e r sys))"
  by (simp add: moves_def finish_def Let_def delete_conv' distinct_delete)

lemma mode_finish [simp]: "mm_mode (sy_runtime (fst (finish t e r sys))) = mm_mode (sy_runtime sys)"
  by (auto simp: finish_def Let_def split: origin.splits sum.splits option.splits)

lemma panics_Pair: "panics t e sys = (fst (panics t e sys), [MO_Panic t])"
  by (simp add: panics_def)

lemma moves_panics [simp]: "moves t None sys (fst (panics t e sys))"
  by (simp add: moves_def panics_def delete_conv' distinct_delete)

lemma mode_simps [simp]:
  "mm_mode (sy_runtime (fst (panics t e sys))) = mm_mode (sy_runtime sys)"
  "mm_mode (sy_runtime (goto t e k sys)) = mm_mode (sy_runtime sys)"
  "sy_runtime (set_runtime s sys) = s"
  by (simp_all add: panics_def goto_def set_runtime_def)

lemma tasks_wf_moves:
  assumes "tasks_wf sys" "moves t nx sys sys'" "tasks_of sys t = Some e"
    and "\<forall>e'. nx = Some e' \<longrightarrow> task_ok (te_task e') \<and> (holds_lock (te_task e') \<longrightarrow> holds_lock (te_task e) \<or> \<not> lock_held sys)"
  shows "tasks_wf sys'"
proof -
  have d: "distinct (map fst (sy_tasks sys))" using assms(1) by (simp add: tasks_wf_def)
  define M where "M = tasks_of sys"
  note wf = assms(1) [unfolded tasks_wf_def, folded M_def]
  have m: "tasks_of sys' = M(t := nx)" "sy_next sys' = sy_next sys" "distinct (map fst (sy_tasks sys'))"
    using assms(2) d by (auto simp: moves_def M_def)
  have free: "\<not> lock_held sys \<longrightarrow> (\<forall>k f. M k = Some f \<longrightarrow> \<not> holds_lock (te_task f))"
    using lock_held_iff [OF d] by (auto simp: M_def)
  have e: "M t = Some e" using assms(3) by (simp add: M_def)
  have "k = l" if "(M(t := nx)) k = Some f" "(M(t := nx)) l = Some g" "holds_lock (te_task f)" "holds_lock (te_task g)" for k l f g
  proof (cases "k = t \<or> l = t")
    case True
    then show ?thesis using that wf e free assms(4) by (metis fun_upd_apply)
  next
    case False
    then show ?thesis using that wf by (metis fun_upd_apply)
  qed
  moreover have "k < sy_next sys \<and> task_ok (te_task f)" if "(M(t := nx)) k = Some f" for k f
    using that wf e assms(4) by (cases "k = t") (auto simp del: map_of_eq_Some_iff)
  ultimately show ?thesis unfolding tasks_wf_def m(1,2) using m(3) by blast
qed

text \<open>The holder of the lock is alone, so when it holds it for a cancel no submission is under way.\<close>

lemma others_place_nothing:
  assumes "tasks_wf sys" "tasks_of sys t = Some e" "holds_lock (te_task e)" "tasks_of sys k = Some f" "k \<noteq> t"
  shows "\<not> places (pending_calls (te_task f))"
proof -
  have "\<not> holds_lock (te_task f)" "task_ok (te_task f)" using assms unfolding tasks_wf_def by blast+
  then show ?thesis by (cases "te_task f") auto
qed

section \<open>The quiet monitor\<close>

text \<open>The first flag: the mode was last set to something else than running. The second: a protective cancel
  has ended since. Then a placement is forbidden.\<close>

fun quiet_mon :: "bool \<times> bool \<Rightarrow> maker_obs \<Rightarrow> bool \<times> bool" where
  "quiet_mon (nr, q) (MO_Mode t m) = (if m = MML_Running then (False, False) else (True, q))"
| "quiet_mon (nr, q) (MO_Cancelled t r) = (nr, q \<or> nr)"
| "quiet_mon st x = st"

fun quiet_bad :: "bool \<times> bool \<Rightarrow> maker_obs \<Rightarrow> bool" where
  "quiet_bad (nr, q) (MO_Call t (QC_Place i)) = q"
| "quiet_bad st x = False"

fun quiet_inv :: "bool \<times> bool \<Rightarrow> maker_system \<Rightarrow> bool" where
  "quiet_inv (nr, q) sys \<longleftrightarrow> tasks_wf sys \<and> (nr \<longrightarrow> mm_mode (sy_runtime sys) \<noteq> MML_Running) \<and>
     (q \<longrightarrow> nr \<and> (\<forall>k e. tasks_of sys k = Some e \<longrightarrow> \<not> places (pending_calls (te_task e))))"

lemma quiet_moves:
  assumes "quiet_inv (nr, q) sys" "tasks_of sys t = Some e" "moves t nx sys sys'"
    and "\<forall>e'. nx = Some e' \<longrightarrow> task_ok (te_task e') \<and> (holds_lock (te_task e') \<longrightarrow> holds_lock (te_task e) \<or> \<not> lock_held sys)"
    and "nr' \<longrightarrow> mm_mode (sy_runtime sys') \<noteq> MML_Running"
    and "q' \<longrightarrow> nr' \<and> (q \<or> holds_lock (te_task e)) \<and> (\<forall>e'. nx = Some e' \<longrightarrow> \<not> places (pending_calls (te_task e')))"
  shows "quiet_inv (nr', q') sys'"
proof -
  have wf: "tasks_wf sys" using assms(1) by simp
  have "tasks_wf sys'" by (rule tasks_wf_moves [OF wf assms(3,2,4)])
  moreover have "\<not> places (pending_calls (te_task f))" if "tasks_of sys' k = Some f" q' for k f
  proof (cases "k = t")
    case True
    then show ?thesis using that assms(3,6) by (simp add: moves_def)
  next
    case False
    then have "tasks_of sys k = Some f" using that(1) assms(3) by (simp add: moves_def)
    then show ?thesis using others_place_nothing [OF wf assms(2) _ _ False] assms(1,6) that(2) by auto
  qed
  ultimately show ?thesis using assms(5,6) by simp
qed

abbreviation quiet_ok :: "bool \<times> bool \<Rightarrow> maker_system \<times> maker_obs list \<Rightarrow> bool" where
  "quiet_ok \<equiv> step_ok quiet_mon quiet_bad quiet_inv"

lemma set_runtime_simps [simp]:
  "tasks_of (set_runtime s sys) = tasks_of sys" "lock_held (set_runtime s sys) = lock_held sys"
  "tasks_wf (set_runtime s sys) = tasks_wf sys" "set_runtime s (set_runtime s' sys) = set_runtime s sys"
  by (simp_all add: set_runtime_def lock_held_def tasks_wf_def)

lemma quiet_set_runtime [simp]:
  "mm_mode s = mm_mode (sy_runtime sys) \<Longrightarrow> quiet_inv m (set_runtime s sys) = quiet_inv m sys"
  by (cases m) simp

lemma quiet_goto:
  assumes "quiet_inv m sys" "tasks_of sys t = Some e" "task_ok w" "holds_lock w \<longrightarrow> holds_lock (te_task e) \<or> \<not> lock_held sys"
    and "snd m \<longrightarrow> \<not> places (pending_calls w)"
  shows "quiet_inv m (goto t e' w sys)"
proof -
  obtain nr q where m: "m = (nr, q)" by (cases m)
  show ?thesis unfolding m
    by (rule quiet_moves [OF assms(1) [unfolded m] assms(2) moves_goto]) (use assms m in auto)
qed

lemma quiet_finish:
  assumes "quiet_inv m sys" "tasks_of sys t = Some e" shows "quiet_ok m (finish t e' r sys)"
proof -
  obtain nr q where m: "m = (nr, q)" by (cases m)
  have "quiet_inv (nr, q) (fst (finish t e' r sys))"
    by (rule quiet_moves [OF assms(1) [unfolded m] assms(2) moves_finish]) (use assms m in auto)
  then show ?thesis by (subst finish_Pair) (simp add: m)
qed

lemma quiet_panics:
  assumes "quiet_inv m sys" "tasks_of sys t = Some e" shows "quiet_ok m (panics t e' sys)"
proof -
  obtain nr q where m: "m = (nr, q)" by (cases m)
  have "quiet_inv (nr, q) (fst (panics t e' sys))"
    by (rule quiet_moves [OF assms(1) [unfolded m] assms(2) moves_panics]) (use assms m in auto)
  then show ?thesis by (subst panics_Pair) (simp add: m)
qed

text \<open>The end of a protective cancel: its task held the lock alone.\<close>

lemma quiet_cancelled:
  assumes "quiet_inv m sys" "tasks_of sys t = Some e" "te_task e = MT_Cancel r0 af cs"
  shows "quiet_inv (quiet_mon m (MO_Cancelled t r)) sys"
proof -
  obtain nr q where m: "m = (nr, q)" by (cases m)
  have wf: "tasks_wf sys" using assms(1) m by simp
  have "task_ok (te_task e)" using tasks_wfD [OF wf assms(2)] by simp
  then have "\<not> places (pending_calls (te_task f))" if "tasks_of sys k = Some f" for k f
    using others_place_nothing [OF wf assms(2) _ that] assms(2,3) that by (cases "k = t") auto
  then show ?thesis using assms(1) m by auto
qed

lemma quiet_cancel_done:
  assumes "quiet_inv m sys" "tasks_of sys t = Some e" "te_task e = MT_Cancel r0 af0 cs"
  shows "quiet_ok m (cancel_done t e af r sys)"
proof -
  have bad: "\<not> quiet_bad m (MO_Cancelled t r)" by (cases m) simp
  note inv = quiet_cancelled [OF assms, of r]
  show ?thesis
    using bad quiet_finish [OF inv assms(2)] quiet_goto [OF inv assms(2)]
    by (auto simp: cancel_done_def split: after.split)
qed

lemma quiet_mode_turn:
  assumes "quiet_inv m sys" "tasks_of sys t = Some e"
  shows "quiet_ok m (mode_turn t e k sys)"
proof -
  have bad: "\<not> quiet_bad m (MO_Mode t k)" by (cases m) simp
  define sys1 where "sys1 = set_runtime ((sy_runtime sys)\<lparr>mm_mode := k\<rparr>) sys"
  have inv: "quiet_inv (quiet_mon m (MO_Mode t k)) sys1" using assms(1) by (cases m) (auto simp: sys1_def)
  have e: "tasks_of sys1 t = Some e" using assms(2) by (simp add: sys1_def)
  show ?thesis
    using bad quiet_finish [OF inv e] quiet_goto [OF inv e]
    unfolding mode_turn_def sys1_def [symmetric] Let_def by (auto simp:)
qed

lemma quiet_turn:
  assumes inv: "quiet_inv m sys" and turn: "maker_turn p x t sys = Some out"
  shows "quiet_ok m out"
proof -
  obtain e where e: "tasks_of sys t = Some e" using turn by (auto simp: maker_turn_def split: option.splits)
  note intros = quiet_goto [OF _ _ _ _ _] quiet_finish quiet_panics
  show ?thesis
  proof (cases "te_task e")
    case (MT_Mode k)
    then show ?thesis using turn quiet_mode_turn [OF inv e, of k] by (simp add: maker_turn_def e)
  next
    case (MT_Cycle r)
    have "mm_mode s = mm_mode (sy_runtime sys)" if "prepare p x (sy_runtime sys) = Some (s, y)" for s y
      using that by (auto simp: prepare_def Let_def split: option.splits prod.splits)
    then have "quiet_ok m (prepare_turn p x t e r sys)"
      using inv e by (auto simp: prepare_turn_def split: option.split prep.split intro!: quiet_goto quiet_finish quiet_panics)
    then show ?thesis using turn MT_Cycle by (simp add: maker_turn_def e)
  next
    case (MT_Views r pc)
    have "mm_mode s = mm_mode (sy_runtime sys)" if "maker_views p x (sy_runtime sys) = (s, y)" for s y
      using that by (auto simp: maker_views_def Let_def split: if_splits prod.splits)
    then have "quiet_ok m (views_turn p x t e r pc sys)"
      using inv e by (auto simp: views_turn_def split: prod.split sum.split intro!: quiet_goto quiet_finish)
    then show ?thesis using turn MT_Views by (simp add: maker_turn_def e)
  next
    case (MT_Lock r pc bid ask)
    then have "\<not> lock_held sys" using turn by (auto simp: maker_turn_def e split: if_splits)
    then have "quiet_ok m (lock_turn p x t e r pc bid ask sys)"
      using inv e by (auto simp: lock_turn_def Let_def split: option.split sum.split intro!: quiet_goto quiet_finish quiet_panics)
    then show ?thesis using turn MT_Lock by (simp add: maker_turn_def e split: if_splits)
  next
    case (MT_Decide r pc bid ask d)
    have "snd m \<longrightarrow> mm_mode (sy_runtime sys) \<noteq> MML_Running" using inv by (cases m) auto
    then have "quiet_ok m (decide_turn p t e r pc bid ask d sys)"
      using inv e MT_Decide
      by (auto simp: decide_turn_def Let_def conclude_def record_cycle_def split: option.split sum.split
          intro!: quiet_goto quiet_finish quiet_panics)
    then show ?thesis using turn MT_Decide by (simp add: maker_turn_def e)
  next
    case (MT_Submit r pc d plan cs)
    have np: "snd m \<longrightarrow> \<not> places cs" using inv e MT_Submit by (cases m) (auto dest!: spec [of _ t])
    then have "\<not> quiet_bad m (MO_Call t c) \<and> quiet_mon m (MO_Call t c) = m" if "c \<in> set cs" for c
      using that by (cases m; cases c) (auto simp: places_def)
    with np show ?thesis
      using turn MT_Submit inv e quiet_finish [OF inv e]
      by (cases cs) (auto simp: maker_turn_def conclude_def record_cycle_def places_def split: sum.splits
          intro!: quiet_goto quiet_finish)
  next
    case (MT_Cancel_Wait r af)
    then have "\<not> lock_held sys" using turn by (auto simp: maker_turn_def e split: if_splits)
    then show ?thesis using turn MT_Cancel_Wait inv e by (auto simp: maker_turn_def intro!: quiet_goto)
  next
    case (MT_Cancel r af cs)
    have wf: "tasks_wf sys" using inv by (cases m) simp
    then have "\<not> places cs" using tasks_wfD [OF _ e] MT_Cancel by fastforce
    then have "\<not> quiet_bad m (MO_Call t c) \<and> quiet_mon m (MO_Call t c) = m" if "c \<in> set cs" for c
      using that by (cases m; cases c) (auto simp: places_def)
    then show ?thesis
      using turn MT_Cancel inv e \<open>\<not> places cs\<close> quiet_cancel_done [OF inv e MT_Cancel]
      by (cases cs) (auto simp: maker_turn_def places_def split: sum.splits intro!: quiet_goto quiet_cancel_done)
  qed
qed

lemma handle_event_mode:
  "handle_maker_event p now ev s = (s', r) \<Longrightarrow> mm_mode s' = mm_mode s"
  by (auto simp: handle_maker_event_def split: maker_event.splits if_splits option.splits)

lemma spawn_tasks:
  assumes "tasks_wf sys"
  shows "tasks_of (spawn og k sys) = (tasks_of sys)(sy_next sys \<mapsto> \<lparr>te_origin = og, te_pending = None, te_task = k\<rparr>)"
    and "distinct (map fst (sy_tasks (spawn og k sys)))"
    and "sy_next (spawn og k sys) = Suc (sy_next sys)" "sy_runtime (spawn og k sys) = sy_runtime sys"
proof -
  have "tasks_of sys (sy_next sys) = None"
    using tasks_wfD [OF assms] by (metis less_irrefl option.exhaust)
  then have fresh: "sy_next sys \<notin> dom (tasks_of sys)" by blast
  then show "tasks_of (spawn og k sys) = (tasks_of sys)(sy_next sys \<mapsto> \<lparr>te_origin = og, te_pending = None, te_task = k\<rparr>)"
    by (simp add: spawn_def map_add_upd_left)
  show "distinct (map fst (sy_tasks (spawn og k sys)))"
    using assms fresh by (simp add: spawn_def tasks_wf_def dom_map_of_conv_image_fst)
qed (simp_all add: spawn_def)

lemma tasks_wf_spawn:
  assumes wf: "tasks_wf sys" and k: "\<not> holds_lock k" "task_ok k" shows "tasks_wf (spawn og k sys)"
proof -
  define M where "M = tasks_of sys"
  note w = wf [unfolded tasks_wf_def, folded M_def]
  let ?M = "M(sy_next sys \<mapsto> \<lparr>te_origin = og, te_pending = None, te_task = k\<rparr>)"
  have "j < Suc (sy_next sys) \<and> task_ok (te_task f)" if "?M j = Some f" for j f
  proof (cases "j = sy_next sys")
    case False
    then show ?thesis using that w by (auto simp: less_SucI)
  qed (use that k in auto)
  moreover have "i = j" if "?M i = Some f" "?M j = Some g" "holds_lock (te_task f)" "holds_lock (te_task g)" for i j f g
  proof -
    have "i \<noteq> sy_next sys" "j \<noteq> sy_next sys" using that k by auto
    then show ?thesis using that w by auto
  qed
  ultimately show ?thesis
    using spawn_tasks [OF wf, of og k] unfolding tasks_wf_def M_def by metis
qed

lemma quiet_spawn:
  assumes "quiet_inv m sys" "\<not> holds_lock k" "task_ok k" "pending_calls k = []" shows "quiet_inv m (spawn og k sys)"
proof -
  obtain nr q where m: "m = (nr, q)" by (cases m)
  have wf: "tasks_wf sys" using assms(1) m by simp
  have "\<not> places (pending_calls (te_task f))" if "tasks_of (spawn og k sys) j = Some f" q for j f
  proof (cases "j = sy_next sys")
    case False
    then have "tasks_of sys j = Some f" using that(1) spawn_tasks(1) [OF wf, of og k] by simp
    then show ?thesis using assms(1) that(2) unfolding m by auto
  qed (use that(1) spawn_tasks(1) [OF wf, of og k] assms(4) in auto)
  then show ?thesis
    using assms tasks_wf_spawn [OF wf assms(2,3)] spawn_tasks(4) [OF wf, of og k] unfolding m by auto
qed

lemma quiet_flags: "tasks_wf (sys\<lparr>sy_running := a, sy_loop := b\<rparr>) = tasks_wf sys"
    "quiet_inv m (sys\<lparr>sy_running := a, sy_loop := b\<rparr>) = quiet_inv m sys"
  by (cases m; simp add: tasks_wf_def)+

interpretation quiet: trace_monitor "maker_step p" quiet_mon quiet_bad quiet_inv for p
proof
  fix m sys act out
  assume inv: "quiet_inv m sys" and step: "maker_step p act sys = Some out"
  show "quiet_ok m out"
  proof (cases act)
    case (MA_Turn k x)
    then show ?thesis using quiet_turn [OF inv] step by (simp add: maker_step_def)
  next
    case (MA_Event ev now)
    then show ?thesis using inv step
      by (auto simp: maker_step_def handle_event_mode split: if_splits prod.splits option.splits intro!: quiet_spawn)
  qed (use inv step in \<open>auto simp: maker_step_def quiet_flags split: if_splits sum.splits option.splits intro!: quiet_spawn\<close>)
qed

section \<open>The monitor of a mode change\<close>

text \<open>A mode change into one of the cancelling modes answers with the result of its own protective cancel, and
  only after that cancel has ended.\<close>

datatype ret_state = RS_None | RS_Mode | RS_Cancelled "string + unit"

fun ret_mon :: "nat \<Rightarrow> ret_state \<Rightarrow> maker_obs \<Rightarrow> ret_state" where
  "ret_mon t RS_None (MO_Mode k m) = (if k = t \<and> m \<in> set cancel_modes then RS_Mode else RS_None)"
| "ret_mon t RS_Mode (MO_Cancelled k r) = (if k = t then RS_Cancelled r else RS_Mode)"
| "ret_mon t st x = st"

fun ret_bad :: "nat \<Rightarrow> ret_state \<Rightarrow> maker_obs \<Rightarrow> bool" where
  "ret_bad t st (MO_Return k r) = (k = t \<and> (st = RS_Mode \<or> (\<exists>r0. st = RS_Cancelled r0 \<and> r0 \<noteq> r)))"
| "ret_bad t st (MO_Mode k m) = (k = t \<and> st \<noteq> RS_None)"
| "ret_bad t st x = False"

text \<open>The places of a task that leads to a cancel whose result it keeps, or that keeps it already.\<close>

fun awaits_cycle :: "maker_task \<Rightarrow> bool" where
  "awaits_cycle (MT_Cancel_Wait _ (AF_Cycle _)) = True"
| "awaits_cycle (MT_Cancel _ (AF_Cycle _) _) = True"
| "awaits_cycle _ = False"

fun entry_state :: "ret_state \<Rightarrow> task_entry \<Rightarrow> bool" where
  "entry_state RS_None e = ((\<exists>m. te_task e = MT_Mode m) \<longrightarrow> te_pending e = None)"
| "entry_state RS_Mode e = (te_pending e = None \<and> awaits_cycle (te_task e))"
| "entry_state (RS_Cancelled r) e = (te_pending e = Some r \<and> \<not> awaits_cycle (te_task e) \<and> (\<forall>m. te_task e \<noteq> MT_Mode m))"

definition ret_inv :: "nat \<Rightarrow> ret_state \<Rightarrow> maker_system \<Rightarrow> bool" where
  "ret_inv t st sys \<longleftrightarrow> tasks_wf sys \<and> (st \<noteq> RS_None \<longrightarrow> t < sy_next sys) \<and>
     (\<forall>e. tasks_of sys t = Some e \<longrightarrow> entry_state st e)"

abbreviation ret_ok :: "nat \<Rightarrow> ret_state \<Rightarrow> maker_system \<times> maker_obs list \<Rightarrow> bool" where
  "ret_ok t \<equiv> step_ok (ret_mon t) (ret_bad t) (ret_inv t)"

lemma ret_set_runtime [simp]: "ret_inv t st (set_runtime s sys) = ret_inv t st sys"
  by (simp add: ret_inv_def) (simp add: set_runtime_def)

lemma ret_moves:
  assumes "ret_inv t st sys" "tasks_of sys k = Some e" "moves k nx sys sys'"
    and "\<forall>e'. nx = Some e' \<longrightarrow> task_ok (te_task e') \<and> (holds_lock (te_task e') \<longrightarrow> holds_lock (te_task e) \<or> \<not> lock_held sys)"
    and "k = t \<longrightarrow> (st' \<noteq> RS_None \<longrightarrow> True) \<and> (\<forall>e'. nx = Some e' \<longrightarrow> entry_state st' e')" and "k \<noteq> t \<longrightarrow> st' = st"
  shows "ret_inv t st' sys'"
proof -
  have wf: "tasks_wf sys" using assms(1) by (simp add: ret_inv_def)
  have "tasks_wf sys'" by (rule tasks_wf_moves [OF wf assms(3,2,4)])
  moreover have "k < sy_next sys" using tasks_wfD [OF wf assms(2)] by simp
  ultimately show ?thesis
    using assms(1,3,5,6) unfolding ret_inv_def moves_def by (cases "k = t") auto
qed

lemma ret_goto:
  assumes "ret_inv t st sys" "tasks_of sys k = Some e" "task_ok w" "holds_lock w \<longrightarrow> holds_lock (te_task e) \<or> \<not> lock_held sys"
    and "k = t \<longrightarrow> entry_state st (e'\<lparr>te_task := w\<rparr>)"
  shows "ret_inv t st (goto k e' w sys)"
  by (rule ret_moves [OF assms(1,2) moves_goto]) (use assms in auto)

lemma ret_finish:
  assumes "ret_inv t st sys" "tasks_of sys k = Some e"
    and "k = t \<longrightarrow> \<not> ret_bad t st (MO_Return t (case te_pending e' of Some r0 \<Rightarrow> r0 | None \<Rightarrow> r))"
  shows "ret_ok t st (finish k e' r sys)"
proof -
  have "ret_inv t st (fst (finish k e' r sys))" by (rule ret_moves [OF assms(1,2) moves_finish]) auto
  moreover have "ret_mon t st (MO_Return k r') = st" for r' by (cases st) auto
  ultimately show ?thesis using assms(3) by (subst finish_Pair) auto
qed

lemma ret_panics:
  assumes "ret_inv t st sys" "tasks_of sys k = Some e" shows "ret_ok t st (panics k e' sys)"
proof -
  have "ret_inv t st (fst (panics k e' sys))" by (rule ret_moves [OF assms moves_panics]) auto
  moreover have "ret_mon t st (MO_Panic k) = st" by (cases st) auto
  ultimately show ?thesis by (subst panics_Pair) simp
qed

text \<open>Away from the mode change and the end of a cancel, the observed task keeps its state.\<close>

lemma ret_end:
  assumes "entry_state st e" "\<not> awaits_cycle (te_task e)" "st = RS_None \<or> te_pending e \<noteq> None"
  shows "\<not> ret_bad t st (MO_Return t (case te_pending e of Some r0 \<Rightarrow> r0 | None \<Rightarrow> r))"
  using assms by (cases st) auto

lemma entry_keeps:
  assumes "entry_state st e" "awaits_cycle w = awaits_cycle (te_task e)" "\<forall>m. w \<noteq> MT_Mode m"
  shows "entry_state st (e\<lparr>te_task := w\<rparr>)"
  using assms by (cases st) auto

lemma ret_mon_other: "k \<noteq> t \<Longrightarrow> ret_mon t st (MO_Mode k m) = st" "k \<noteq> t \<Longrightarrow> ret_mon t st (MO_Cancelled k r) = st"
    "ret_mon t st (MO_Call k c) = st" "\<not> ret_bad t st (MO_Call k c)" "\<not> ret_bad t st (MO_Cancelled k r)"
  by (cases st; simp)+

lemma ret_mode_turn:
  assumes inv: "ret_inv t st sys" and e: "tasks_of sys k = Some e" "te_task e = MT_Mode m0"
  shows "ret_ok t st (mode_turn k e m sys)"
proof -
  define sys1 where "sys1 = set_runtime ((sy_runtime sys)\<lparr>mm_mode := m\<rparr>) sys"
  have inv1: "ret_inv t st sys1" and e1: "tasks_of sys1 k = Some e" using inv e by (simp_all add: sys1_def)
  have st: "k = t \<longrightarrow> st = RS_None \<and> te_pending e = None"
    using inv e by (cases st) (auto simp: ret_inv_def)
  let ?st = "ret_mon t st (MO_Mode k m)"
  have other: "?st = st" if "k \<noteq> t \<or> m \<notin> set cancel_modes" using that by (cases st) auto
  have cancel: "ret_inv t ?st (goto k e (MT_Cancel_Wait r (AF_Cycle r)) sys1)" if "m \<in> set cancel_modes" for r
    by (rule ret_moves [OF inv1 e1 moves_goto]) (use st that other in auto)
  have keep: "ret_inv t st (goto k e w sys1)" if "task_ok w" "\<not> holds_lock w" for w
    by (rule ret_goto [OF inv1 e1 that(1)]) (use st that in auto)
  have "ret_ok t st (finish k e (Inr ()) sys1)" by (rule ret_finish [OF inv1 e1]) (use st in auto)
  then show ?thesis
    using st cancel keep other unfolding mode_turn_def sys1_def [symmetric] Let_def by auto
qed

lemma ret_cancel_done:
  assumes inv: "ret_inv t st sys" and e: "tasks_of sys k = Some e" "te_task e = MT_Cancel r0 af cs"
  shows "ret_ok t st (cancel_done k e af r sys)"
proof (cases af)
  case AF_Return
  have same: "ret_mon t st (MO_Cancelled k r) = st"
    using inv e AF_Return by (cases st) (auto simp: ret_inv_def)
  have "ret_ok t st (finish k e r sys)"
    by (rule ret_finish [OF inv e(1)]) (use inv e AF_Return in \<open>cases st; auto simp: ret_inv_def\<close>)
  then show ?thesis using same by (simp add: cancel_done_def AF_Return ret_mon_other)
next
  case (AF_Cycle reason)
  let ?st = "ret_mon t st (MO_Cancelled k r)"
  have "ret_inv t ?st (goto k (e\<lparr>te_pending := Some r\<rparr>) (MT_Cycle reason) sys)"
    by (rule ret_moves [OF inv e(1) moves_goto])
      (use inv e AF_Cycle ret_mon_other in \<open>cases st; auto simp: ret_inv_def\<close>)+
  then show ?thesis by (simp add: cancel_done_def AF_Cycle ret_mon_other)
qed

lemma ret_turn:
  assumes inv: "ret_inv t st sys" and turn: "maker_turn p x k sys = Some out"
  shows "ret_ok t st out"
proof -
  obtain e where e: "tasks_of sys k = Some e" using turn by (auto simp: maker_turn_def split: option.splits)
  have entry: "k = t \<longrightarrow> entry_state st e" using inv e by (auto simp: ret_inv_def)
  have go: "ret_inv t st (goto k e w sys)" if "task_ok w" "awaits_cycle w = awaits_cycle (te_task e)" "\<forall>m. w \<noteq> MT_Mode m"
      "holds_lock w \<longrightarrow> holds_lock (te_task e) \<or> \<not> lock_held sys" for w
    by (rule ret_goto [OF inv e that(1,4)]) (use entry entry_keeps that in auto)
  have go': "ret_inv t st (goto k e w (set_runtime s sys))" if "task_ok w" "awaits_cycle w = awaits_cycle (te_task e)"
      "\<forall>m. w \<noteq> MT_Mode m" "holds_lock w \<longrightarrow> holds_lock (te_task e) \<or> \<not> lock_held sys" for w s
    by (rule ret_goto [where e = e]) (use inv e entry entry_keeps that in auto)
  have fin: "ret_ok t st (finish k e r (set_runtime s sys))" "ret_ok t st (finish k e r sys)"
      if "\<not> awaits_cycle (te_task e)" "\<forall>m. te_task e \<noteq> MT_Mode m" for r s
    by (rule ret_finish [where e = e]; use inv e entry that in \<open>cases st; auto\<close>)+
  have pan: "ret_ok t st (panics k e (set_runtime s sys))" "ret_ok t st (panics k e sys)" for s
    by (rule ret_panics [where e = e]; use inv e in simp)+
  show ?thesis
  proof (cases "te_task e")
    case (MT_Mode m)
    then show ?thesis using turn ret_mode_turn [OF inv e MT_Mode] by (auto simp: maker_turn_def e)
  next
    case (MT_Cycle r)
    then have "ret_ok t st (prepare_turn p x k e r sys)"
      by (auto simp: prepare_turn_def split: option.split prep.split intro!: go' fin pan)
    then show ?thesis using turn MT_Cycle by (simp add: maker_turn_def e)
  next
    case (MT_Views r pc)
    then have "ret_ok t st (views_turn p x k e r pc sys)"
      by (auto simp: views_turn_def split: prod.split sum.split intro!: go' fin)
    then show ?thesis using turn MT_Views by (simp add: maker_turn_def e)
  next
    case (MT_Lock r pc bid ask)
    then have "\<not> lock_held sys" using turn by (auto simp: maker_turn_def e split: if_splits)
    with MT_Lock have "ret_ok t st (lock_turn p x k e r pc bid ask sys)"
      by (auto simp: lock_turn_def Let_def split: option.split sum.split intro!: go' fin pan)
    then show ?thesis using turn MT_Lock by (simp add: maker_turn_def e split: if_splits)
  next
    case (MT_Decide r pc bid ask d)
    then have "ret_ok t st (decide_turn p k e r pc bid ask d sys)"
      by (auto simp: decide_turn_def Let_def conclude_def split: option.split sum.split intro!: go fin pan)
    then show ?thesis using turn MT_Decide by (simp add: maker_turn_def e)
  next
    case (MT_Submit r pc d plan cs)
    then show ?thesis
      using turn e by (cases cs) (auto simp: maker_turn_def conclude_def ret_mon_other split: sum.splits intro!: go fin)
  next
    case (MT_Cancel_Wait r af)
    then show ?thesis
      using turn e by (cases af) (auto simp: maker_turn_def split: if_splits intro!: go')
  next
    case (MT_Cancel r af cs)
    have "\<not> places cs" using tasks_wfD [OF _ e] inv MT_Cancel by (fastforce simp: ret_inv_def)
    moreover have "ret_ok t st (cancel_done k e af r' (set_runtime s sys))" for r' s
      by (rule ret_cancel_done [where e = e]) (use inv e MT_Cancel in auto)
    moreover have "ret_ok t st (cancel_done k e af r' sys)" for r'
      by (rule ret_cancel_done [where e = e]) (use inv e MT_Cancel in auto)
    ultimately show ?thesis
      using turn e MT_Cancel
      by (cases cs; cases af) (auto simp: maker_turn_def ret_mon_other places_def split: sum.splits intro!: go)
  qed
qed

lemma ret_spawn:
  assumes "ret_inv t st sys" "\<not> holds_lock k" "task_ok k" shows "ret_inv t st (spawn og k sys)"
proof -
  have wf: "tasks_wf sys" using assms(1) by (simp add: ret_inv_def)
  note sp = spawn_tasks [OF wf, of og k]
  show ?thesis
    using assms tasks_wf_spawn [OF wf assms(2,3), of og] unfolding ret_inv_def sp(1,3) by (cases st) auto
qed

lemma ret_flags: "ret_inv t st (sys\<lparr>sy_running := a, sy_loop := b\<rparr>) = ret_inv t st sys"
  by (simp add: ret_inv_def quiet_flags)

interpretation ret: trace_monitor "maker_step p" "ret_mon t" "ret_bad t" "ret_inv t" for p t
proof
  fix st sys act out
  assume inv: "ret_inv t st sys" and step: "maker_step p act sys = Some out"
  show "ret_ok t st out"
  proof (cases act)
    case (MA_Turn k x)
    then show ?thesis using ret_turn [OF inv] step by (simp add: maker_step_def)
  next
    case (MA_Event ev now)
    then show ?thesis using inv step
      by (auto simp: maker_step_def split: if_splits prod.splits option.splits intro!: ret_spawn)
  qed (use inv step in \<open>auto simp: maker_step_def ret_flags split: if_splits sum.splits option.splits intro!: ret_spawn\<close>)
qed

section \<open>Reading the traces\<close>

definition sets_running :: "maker_obs \<Rightarrow> bool" where
  "sets_running x \<longleftrightarrow> (\<exists>k. x = MO_Mode k MML_Running)"

lemma quiet_stays: "\<forall>x \<in> set xs. \<not> sets_running x \<Longrightarrow> foldl quiet_mon (True, True) xs = (True, True)"
proof (induction xs)
  case (Cons x xs)
  then show ?case by (cases x) (auto simp: sets_running_def)
qed simp

lemma quiet_after_cancel:
  "\<forall>x \<in> set xs. \<not> sets_running x \<Longrightarrow> MO_Cancelled t r \<in> set xs \<Longrightarrow> foldl quiet_mon (True, q) xs = (True, True)"
proof (induction xs arbitrary: q)
  case (Cons x xs)
  show ?case
  proof (cases "x = MO_Cancelled t r")
    case True
    then show ?thesis using Cons.prems quiet_stays [of xs] by simp
  next
    case False
    then obtain q' where "quiet_mon (True, q) x = (True, q')"
      using Cons.prems(1) by (cases x) (auto simp: sets_running_def)
    then show ?thesis using Cons False by auto
  qed
qed simp

lemma ret_mon_fix [simp]: "foldl (ret_mon t) (RS_Cancelled r) xs = RS_Cancelled r"
  by (induction xs) auto

lemma ret_cancelled_in: "foldl (ret_mon t) RS_Mode xs = RS_Cancelled r \<Longrightarrow> MO_Cancelled t r \<in> set xs"
proof (induction xs)
  case (Cons x xs)
  then show ?case by (cases x) (auto split: if_splits)
qed simp

lemma ret_mode_state: "foldl (ret_mon t) RS_Mode xs = RS_Mode \<or> (\<exists>r. foldl (ret_mon t) RS_Mode xs = RS_Cancelled r)"
proof (induction xs)
  case (Cons x xs)
  then show ?case by (cases x) (auto split: if_splits)
qed simp

definition idle_maker :: "maker_system \<Rightarrow> bool" where
  "idle_maker sys \<longleftrightarrow> sy_tasks sys = []"

lemma idle_inv: "idle_maker sys \<Longrightarrow> quiet_inv (False, False) sys" "idle_maker sys \<Longrightarrow> ret_inv t RS_None sys"
    "idle_maker sys \<Longrightarrow> mm_mode (sy_runtime sys) \<noteq> MML_Running \<Longrightarrow> quiet_inv (True, True) sys"
  by (auto simp: idle_maker_def ret_inv_def tasks_wf_def)

section \<open>Properties\<close>

text \<open>C37: A market maker that was told to stop places nothing more. However the event loop, the watchdog, the
  control plane and the engine interleave: once a request to pause, drain, fault or stop has returned,
  whatever it returned, no order is placed until some request sets the mode to running again; and what the
  request returned is the result of its own protective cancel, which ran between the change of mode and the
  return.\<close>

theorem stopped_maker_places_nothing:
  assumes "maker_run p acts sys = Some (sys', pre @ MO_Mode t m # mid @ MO_Return t r # post)"
    and "idle_maker sys" and "m \<in> set cancel_modes" and "\<forall>x \<in> set (mid @ post). \<not> sets_running x"
  shows "MO_Cancelled t r \<in> set mid \<and> (\<forall>k i. MO_Call k (QC_Place i) \<notin> set post)"
proof
  have run: "run_acts (maker_step p) acts sys = Some (sys', pre @ MO_Mode t m # mid @ MO_Return t r # post)"
    using assms(1) by (simp add: maker_run_def)
  have "\<not> ret_bad t (foldl (ret_mon t) RS_None pre) (MO_Mode t m)"
    by (rule ret.never_bad [OF idle_inv(2) [OF assms(2)] run])
  then have st: "foldl (ret_mon t) RS_None (pre @ [MO_Mode t m]) = RS_Mode" using assms(3) by simp
  have "\<not> ret_bad t (foldl (ret_mon t) RS_None (pre @ MO_Mode t m # mid)) (MO_Return t r)"
    by (rule ret.never_bad [OF idle_inv(2) [OF assms(2)], of p acts sys' _ _ post]) (use run in simp)
  then have "foldl (ret_mon t) RS_Mode mid = RS_Cancelled r"
    using st ret_mode_state [of t mid] by auto
  then show c: "MO_Cancelled t r \<in> set mid" by (rule ret_cancelled_in)
  have m: "m \<noteq> MML_Running" using assms(3) by (auto simp: cancel_modes_def)
  show "\<forall>k i. MO_Call k (QC_Place i) \<notin> set post"
  proof (intro allI notI)
    fix k i assume "MO_Call k (QC_Place i) \<in> set post"
    then obtain a b where post: "post = a @ MO_Call k (QC_Place i) # b" by (meson split_list)
    define q0 where "q0 = foldl quiet_mon (False, False) pre"
    obtain q where "foldl quiet_mon (False, False) (pre @ [MO_Mode t m]) = (True, q)"
      using m by (cases q0) (simp add: q0_def [symmetric])
    moreover have "foldl quiet_mon (True, q) (mid @ MO_Return t r # a) = (True, True)"
      by (rule quiet_after_cancel [of _ t r]) (use assms(4) c post in \<open>auto simp: sets_running_def\<close>)
    ultimately have "foldl quiet_mon (False, False) (pre @ MO_Mode t m # mid @ MO_Return t r # a) = (True, True)" by simp
    moreover have "\<not> quiet_bad (foldl quiet_mon (False, False) (pre @ MO_Mode t m # mid @ MO_Return t r # a)) (MO_Call k (QC_Place i))"
      by (rule quiet.never_bad [OF idle_inv(1) [OF assms(2)], of p acts sys' _ _ b]) (use run post in simp)
    ultimately show False by simp
  qed
qed

text \<open>C38: Shadow mode never trades. A market maker that starts in any mode but running and is never set to
  running places no order, whatever events, configurations and other modes it goes through.\<close>

theorem never_running_never_places:
  assumes "maker_run p acts sys = Some (sys', os)" and "idle_maker sys"
    and "mm_mode (sy_runtime sys) \<noteq> MML_Running" and "\<forall>x \<in> set os. \<not> sets_running x"
  shows "MO_Call k (QC_Place i) \<notin> set os"
proof
  assume "MO_Call k (QC_Place i) \<in> set os"
  then obtain a b where os: "os = a @ MO_Call k (QC_Place i) # b" by (meson split_list)
  have "foldl quiet_mon (True, True) a = (True, True)" by (rule quiet_stays) (use assms(4) os in auto)
  then show False
    using quiet.never_bad [OF idle_inv(3) [OF assms(2,3)], of p acts sys' a "MO_Call k (QC_Place i)" b] assms(1) os
    by (simp add: maker_run_def)
qed

section \<open>Concrete runs\<close>

definition sample_params :: maker_params where
  "sample_params = \<lparr>rp_strategy_id = ''mm'', rp_session_id = ''s'', rp_sub_account = ''mm'', rp_symbol = ''BTC'',
     rp_coordinator = coordinator_config_default, rp_stale_after = 5000000000, rp_ln = (\<lambda>x. x), rp_debug = (\<lambda>_. []),
     rp_as_f64 = (\<lambda>_. None)\<rparr>"

definition sample_bid :: order where
  "sample_bid = (order_new 0 ''c'' ''BTC'' Buy ONE (Some ONE) OT_Limit Alo)\<lparr>od_status := Acknowledged, od_strategy_id := Some ''mm''\<rparr>"

definition sample_turn :: turn_inputs where
  "sample_turn = \<lparr>ti_now = 0, ti_account_ok = True, ti_funding = None, ti_inventory = sample_flat,
     ti_budget = sample_blind_budget, ti_decision_at = 1, ti_open = [sample_bid], ti_result = Inr ()\<rparr>"

definition sample_runtime :: "market_maker_lifecycle \<Rightarrow> maker_runtime" where
  "sample_runtime m = \<lparr>mm_mode = m, mm_config = None, mm_book = None, mm_revision = 0, mm_last_cycle_at = None,
     mm_last_reason = ''not_started'', mm_last_desired = None, mm_last_plan = None, mm_last_features = None,
     mm_shadow = shadow_new, mm_feature_engine = sample_windows,
     mm_latency = \<lparr>le_alpha = ONE, le_default = ZERO, le_ewma = None, le_samples = 0, le_min_samples = 1\<rparr>,
     mm_markout = sample_estimator\<rparr>"

definition sample_system :: "market_maker_lifecycle \<Rightarrow> maker_system" where
  "sample_system m = \<lparr>sy_runtime = sample_runtime m, sy_tasks = [], sy_next = 0, sy_running = True, sy_loop = True\<rparr>"

lemma sample_idle: "idle_maker (sample_system m)" "mm_mode (sy_runtime (sample_system m)) = m"
  by (simp_all add: idle_maker_def sample_system_def sample_runtime_def)

text \<open>Pausing a running maker with one open order, and a silent event loop in shadow mode.\<close>

definition sample_pause :: "maker_act list" where
  "sample_pause = [MA_Set_Mode MML_Paused, MA_Turn 0 sample_turn, MA_Turn 0 sample_turn, MA_Turn 0 sample_turn,
     MA_Turn 0 sample_turn, MA_Turn 0 sample_turn]"

lemma sample_pause_trace:
  "map_option snd (maker_run sample_params sample_pause (sample_system MML_Running)) =
     Some [MO_Mode 0 MML_Paused, MO_Call 0 (QC_Cancel ''c'' ''cancel strategy quote''), MO_Cancelled 0 (Inr ()),
       MO_Return 0 (Inr ())]"
  by code_simp

theorem stopped_maker_places_nothing_witness:
  "\<exists>sys'. maker_run sample_params sample_pause (sample_system MML_Running) = Some (sys', [MO_Mode 0 MML_Paused,
     MO_Call 0 (QC_Cancel ''c'' ''cancel strategy quote''), MO_Cancelled 0 (Inr ()), MO_Return 0 (Inr ())]) \<and>
     MO_Cancelled 0 (Inr ()) \<in> {MO_Call 0 (QC_Cancel ''c'' ''cancel strategy quote''), MO_Cancelled 0 (Inr ())}"
proof -
  obtain sys' where run: "maker_run sample_params sample_pause (sample_system MML_Running) = Some (sys', [] @ MO_Mode 0 MML_Paused #
     [MO_Call 0 (QC_Cancel ''c'' ''cancel strategy quote''), MO_Cancelled 0 (Inr ())] @ MO_Return 0 (Inr ()) # [])"
    using sample_pause_trace by auto
  show ?thesis
    using stopped_maker_places_nothing [OF run sample_idle(1)] run by (auto simp: cancel_modes_def sets_running_def)
qed

lemma sample_shadow_trace:
  "map_option snd (maker_run sample_params [MA_Watchdog, MA_Turn 0 sample_turn] (sample_system MML_Shadow)) = Some [MO_Return 0 (Inr ())]"
  by code_simp

theorem never_running_never_places_witness:
  "\<exists>sys' os. maker_run sample_params [MA_Watchdog, MA_Turn 0 sample_turn] (sample_system MML_Shadow) = Some (sys', os)
     \<and> os = [MO_Return 0 (Inr ())] \<and> (\<forall>i. MO_Call 0 (QC_Place i) \<notin> set os)"
proof -
  obtain sys' where run: "maker_run sample_params [MA_Watchdog, MA_Turn 0 sample_turn] (sample_system MML_Shadow) =
      Some (sys', [MO_Return 0 (Inr ())])"
    using sample_shadow_trace by auto
  have mode: "mm_mode (sy_runtime (sample_system MML_Shadow)) \<noteq> MML_Running" by (simp add: sample_idle(2))
  have none: "\<forall>x \<in> set [MO_Return 0 (Inr ())]. \<not> sets_running x" by (simp add: sets_running_def)
  show ?thesis using never_running_never_places [OF run sample_idle(1) mode none] run by blast
qed

end
