(* ===== verification/HE_Maker_Withdraw.thy ===== *)
theory HE_Maker_Withdraw
  imports HE_Maker_Safety
begin

text \<open>
  A running market maker that cannot see: what its cycle asks of the engine when the book, the account or the
  action budget is unhealthy, and the case in which it asks for nothing.
\<close>

section \<open>Withdrawing\<close>

lemma quote_set_views:
  assumes "maker_config_validate c = Some (Inr ())"
    and "policy_quote strategy session revision slot_revision f invt budget c decision_at = Some (Inr q)"
    and "mf_symbol f = mkt" and "get_quote_slots strategy mkt now os = Inr (bid, ask)"
  shows "validate_views q bid ask = Inr ()"
proof -
  have ids: "ds_strategy_id q = strategy" "ds_symbol q = mkt" using policy_quote_Inr [OF assms(1,2)] assms(3) by auto
  note v = get_quote_slots_views [OF assms(4)]
  have one: "\<exists>own. current_owner w = Inr own" if "length (sv_owners w) \<le> 1" "\<not> has_orphaned_owner w" for w
    using that by (cases "sv_owners w") (auto simp: current_owner_def has_orphaned_owner_def)
  have "\<exists>own. current_owner bid = Inr own" "\<exists>own. current_owner ask = Inr own"
    using one v live_view_not_orphaned by metis+
  then show ?thesis
    by (auto simp: validate_views_def check_view_def ids v(1,2) live_view_def slot_key_def)
qed

lemma cancels_are_submitted:
  assumes "coordinate c s bid ask tick now = Some (Inr plan)" and "d \<in> set (qp_diffs plan)" and "qd_action d = QA_Cancel"
  shows "must_submit plan"
proof -
  have "qd_child_actions d = [''cancel'']" using coordinated_spec [OF assms(1,2)] assms(3) by (auto simp: diff_spec_def)
  then have "0 < diff_incremental_actions d" by (simp add: diff_incremental_actions_def)
  then show ?thesis using assms(2,3) unfolding must_submit_def list_ex_iff by blast
qed


text \<open>The case that asks for nothing: the account. Its freshness gates both the features and the inventory, and
  an inventory that is not fresh makes the quote fail before any plan is made, so the cycle ends with an error
  and its resting orders stay.\<close>

lemma stale_account_keeps_quotes:
  assumes "maker_config_validate (pc_config pc) = Some (Inr ())" and "\<not> tracker_is_fresh tr now"
    and "pc_inventory pc = get_inventory mkt now tr"
  shows "\<exists>s. lock_turn p x t e reason pc bid ask sys =
    finish t e (Inl ''inventory state, equity, and fair price must be healthy'') (set_runtime s sys)"
proof -
  obtain fair where "fair_value (pc_features pc) (pc_config pc) = Some fair"
    using fair_value_bounded [OF assms(1)] by blast
  moreover have "\<not> iv_healthy (pc_inventory pc)" using assms(2,3) by (simp add: get_inventory_def)
  ultimately show ?thesis
    by (auto simp: lock_turn_def policy_quote_def inventory_calculate_def Let_def)
qed

definition sample_prepared :: prepared where
  "sample_prepared = \<lparr>pc_config = sample_maker_config, pc_now = 7, pc_features = sample_features, pc_inventory = sample_flat,
     pc_budget = sample_blind_budget\<rparr>"

lemma sample_slots:
  "get_quote_slots ''mm'' ''BTC'' 7 [sample_bid] = Inr (live_view ''mm'' ''BTC'' Buy (side_owners Buy ''mm'' 7 [sample_bid]),
     live_view ''mm'' ''BTC'' Sell [])"
  "settled_owner (live_view ''mm'' ''BTC'' Buy (side_owners Buy ''mm'' 7 [sample_bid])) (hd (side_owners Buy ''mm'' 7 [sample_bid]))"
  "ro_cloid (hd (side_owners Buy ''mm'' 7 [sample_bid])) = ''c''"
  by code_simp+


end
